(* ===== verification/Prelude.thy ===== *)
theory Prelude
  imports Main "HOL-Library.Finite_Map" "HOL-Library.Word"
begin

text \<open>
  Shared vocabulary of the development: Rust results and early returns, fixed-width
  unsigned arithmetic on \<^typ>\<open>nat\<close>, the finite maps that model on-chain storage
  with sums over their entries, and the few list operations of the standard library that
  the sources use. Every later theory builds on the simp sets collected here:
  \<open>result_simps\<close> turns the success or failure of a chain of checks into the
  conjunction of its conditions, \<open>arith_defs\<close> unfolds the integer operations.
\<close>

named_theorems result_simps "success and failure of chained Rust results"
named_theorems arith_defs "definitions of the fixed-width operations"

section \<open>Results and early returns\<close>

text \<open>
  A Rust \<open>Result<T, E>\<close> is a sum with \<open>Inl\<close> for the error. The three
  combinators below are \<open>ensure!(cond, err)\<close>, \<open>opt.ok_or(err)?\<close> and
  \<open>res?\<close>: the rest of the function body is their last argument.
\<close>

definition ensure :: "bool \<Rightarrow> 'e \<Rightarrow> 'e + 'a \<Rightarrow> 'e + 'a" where
  "ensure b e k = (if b then k else Inl e)"

definition ok_or :: "'b option \<Rightarrow> 'e \<Rightarrow> ('b \<Rightarrow> 'e + 'a) \<Rightarrow> 'e + 'a" where
  "ok_or x e k = (case x of None \<Rightarrow> Inl e | Some v \<Rightarrow> k v)"

definition attempt :: "'e + 'b \<Rightarrow> ('b \<Rightarrow> 'e + 'a) \<Rightarrow> 'e + 'a" where
  "attempt m k = (case m of Inl e \<Rightarrow> Inl e | Inr v \<Rightarrow> k v)"

lemma ensure_Inr [result_simps]: "ensure b e k = Inr y \<longleftrightarrow> b \<and> k = Inr y"
  by (simp add: ensure_def)

lemma ensure_Inl [result_simps]: "ensure b e k = Inl x \<longleftrightarrow> (if b then k = Inl x else x = e)"
  by (auto simp: ensure_def)

lemma ok_or_Inr [result_simps]: "ok_or x e k = Inr y \<longleftrightarrow> (\<exists>v. x = Some v \<and> k v = Inr y)"
  by (simp add: ok_or_def split: option.split)

lemma attempt_Inr [result_simps]: "attempt m k = Inr y \<longleftrightarrow> (\<exists>v. m = Inr v \<and> k v = Inr y)"
  by (simp add: attempt_def split: sum.split)

lemma ensure_True [simp]: "ensure True e k = k"
  and ensure_False [simp]: "ensure False e k = Inl e"
  by (simp_all add: ensure_def)

lemma ok_or_None [simp]: "ok_or None e k = Inl e"
  and ok_or_Some [simp]: "ok_or (Some v) e k = k v"
  by (simp_all add: ok_or_def)

lemma attempt_simps [simp]:
  "attempt (Inl e) k = Inl e"
  "attempt (Inr v) k = k v"
  by (simp_all add: attempt_def)

text \<open>\<open>Result::is_ok\<close>.\<close>

definition is_ok :: "'e + 'a \<Rightarrow> bool" where
  "is_ok r = (case r of Inl _ \<Rightarrow> False | Inr _ \<Rightarrow> True)"

lemma is_ok_simps [simp]: "is_ok (Inr x)" "\<not> is_ok (Inl e)"
  by (simp_all add: is_ok_def)

lemma is_ok_iff [result_simps]: "is_ok r \<longleftrightarrow> (\<exists>x. r = Inr x)"
  by (cases r) auto

section \<open>Fixed-width unsigned integers\<close>

text \<open>
  Unsigned integers of width \<open>w\<close> are natural numbers below \<open>2 ^ w\<close>; the
  operations spell out what Rust does at the bound. Subtraction of naturals stops at zero
  and is Rust's \<open>saturating_sub\<close>.
\<close>

definition checked_add :: "nat \<Rightarrow> nat \<Rightarrow> nat \<Rightarrow> nat option" where
  "checked_add w a b = (if a + b < 2 ^ w then Some (a + b) else None)"

definition checked_mul :: "nat \<Rightarrow> nat \<Rightarrow> nat \<Rightarrow> nat option" where
  "checked_mul w a b = (if a * b < 2 ^ w then Some (a * b) else None)"

definition saturating_add :: "nat \<Rightarrow> nat \<Rightarrow> nat \<Rightarrow> nat" where
  "saturating_add w a b = min (a + b) (2 ^ w - 1)"

definition saturating_sub :: "nat \<Rightarrow> nat \<Rightarrow> nat" where
  "saturating_sub a b = a - b"

definition wrapping_mul :: "nat \<Rightarrow> nat \<Rightarrow> nat \<Rightarrow> nat" where
  "wrapping_mul w a b = (a * b) mod 2 ^ w"

definition div_ceil :: "nat \<Rightarrow> nat \<Rightarrow> nat" where
  "div_ceil a b = a div b + (if a mod b = 0 then 0 else 1)"

lemmas [arith_defs] = checked_add_def checked_mul_def saturating_add_def saturating_sub_def
  wrapping_mul_def

lemma checked_add_Some [result_simps]: "checked_add w a b = Some c \<longleftrightarrow> c = a + b \<and> a + b < 2 ^ w"
  by (auto simp: checked_add_def)

lemma checked_mul_Some [result_simps]: "checked_mul w a b = Some c \<longleftrightarrow> c = a * b \<and> a * b < 2 ^ w"
  by (auto simp: checked_mul_def)

lemma saturating_add_exact: "a + b < 2 ^ w \<Longrightarrow> saturating_add w a b = a + b"
  by (simp add: saturating_add_def)

lemma saturating_add_less: "saturating_add w a b < 2 ^ w"
proof -
  have "(0::nat) < 2 ^ w" by simp
  then show ?thesis unfolding saturating_add_def by linarith
qed

lemma saturating_add_ge: "a < 2 ^ w \<Longrightarrow> a \<le> saturating_add w a b"
  by (auto simp: saturating_add_def)

lemma saturating_sub_eq [simp]: "saturating_sub a b = a - b"
  by (simp add: saturating_sub_def)

lemma div_ceil_le_iff:
  assumes "0 < b"
  shows "div_ceil a b \<le> q \<longleftrightarrow> a \<le> q * b"
proof -
  have a: "a = a div b * b + a mod b" by simp
  show ?thesis
  proof (cases "a mod b = 0")
    case True
    with a have "a = a div b * b" by simp
    then show ?thesis
      using assms True by (metis add.right_neutral div_ceil_def mult_le_cancel2)
  next
    case False
    have "Suc (a div b) \<le> q \<longleftrightarrow> a div b < q" by auto
    also have "\<dots> \<longleftrightarrow> a < q * b" using assms by (simp add: div_less_iff_less_mult)
    also have "\<dots> \<longleftrightarrow> a \<le> q * b" using False by (auto simp: le_less)
    finally show ?thesis using False by (simp add: div_ceil_def)
  qed
qed

section \<open>Storage maps\<close>

text \<open>
  A storage map is a finite map. \<open>fmget\<close> reads a \<open>ValueQuery\<close> map, whose
  missing entries read as the default. \<open>fmsum\<close> adds a weight over all entries and
  \<open>fmany\<close> is \<open>iter().any(\<dots>)\<close>; neither depends on the iteration order.
\<close>

definition fmget :: "'v \<Rightarrow> ('k, 'v) fmap \<Rightarrow> 'k \<Rightarrow> 'v" where
  "fmget d m k = (case fmlookup m k of None \<Rightarrow> d | Some v \<Rightarrow> v)"

definition fmhas :: "('k, 'v) fmap \<Rightarrow> 'k \<Rightarrow> bool" where
  "fmhas m k \<longleftrightarrow> fmlookup m k \<noteq> None"

definition fmany :: "('k \<Rightarrow> 'v \<Rightarrow> bool) \<Rightarrow> ('k, 'v) fmap \<Rightarrow> bool" where
  "fmany P m \<longleftrightarrow> \<not> fmpred (\<lambda>k v. \<not> P k v) m"

definition fmsum :: "('k \<Rightarrow> 'v \<Rightarrow> nat) \<Rightarrow> ('k, 'v) fmap \<Rightarrow> nat" where
  "fmsum f m = (\<Sum>k\<in>fset (fmdom m). f k (the (fmlookup m k)))"

lemma fmget_simps [simp]:
  "fmget d fmempty k = d"
  "fmget d (fmupd k' v m) k = (if k' = k then v else fmget d m k)"
  "fmget d (fmdrop k' m) k = (if k = k' then d else fmget d m k)"
  by (simp_all add: fmget_def)

lemma fmget_Some: "fmlookup m k = Some v \<Longrightarrow> fmget d m k = v"
  by (simp add: fmget_def)

lemma fmget_None: "fmlookup m k = None \<Longrightarrow> fmget d m k = d"
  by (simp add: fmget_def)

lemma fmany_iff: "fmany P m \<longleftrightarrow> (\<exists>k v. fmlookup m k = Some v \<and> P k v)"
  by (auto simp: fmany_def fmpred_iff)

lemma fmany_empty [simp]: "\<not> fmany P fmempty"
  by (simp add: fmany_def)

lemma fmany_upd [simp]: "fmany P (fmupd k v m) \<longleftrightarrow> P k v \<or> fmany P (fmdrop k m)"
  by (auto simp: fmany_iff)

lemma fmsum_empty [simp]: "fmsum f fmempty = 0"
  by (simp add: fmsum_def)

lemma fmsum_split:
  assumes "fmlookup m k = Some v"
  shows "fmsum f m = f k v + fmsum f (fmdrop k m)"
proof -
  have "k \<in> fset (fmdom m)" using assms by (simp add: fmlookup_dom_iff)
  then have "fmsum f m = f k v + (\<Sum>j\<in>fset (fmdom m) - {k}. f j (the (fmlookup m j)))"
    using assms by (simp add: fmsum_def sum.remove)
  also have "(\<Sum>j\<in>fset (fmdom m) - {k}. f j (the (fmlookup m j))) = fmsum f (fmdrop k m)"
    unfolding fmsum_def by (rule sum.cong) auto
  finally show ?thesis .
qed

lemma fmsum_upd [simp]: "fmsum f (fmupd k v m) = f k v + fmsum f (fmdrop k m)"
  using fmsum_split [of "fmupd k v m" k v f] by (simp add: fmdrop_fmupd_same)

lemma fmdrop_absent: "fmlookup m k = None \<Longrightarrow> fmdrop k m = m"
  by (rule fmap_ext) simp

lemma fmsum_drop: "fmsum f (fmdrop k m) = fmsum f m - (case fmlookup m k of None \<Rightarrow> 0 | Some v \<Rightarrow> f k v)"
  by (cases "fmlookup m k") (simp_all add: fmdrop_absent fmsum_split [of m k])

lemma fmsum_le: "fmlookup m k = Some v \<Longrightarrow> f k v \<le> fmsum f m"
  by (simp add: fmsum_split [of m k])

lemma fmsum_eq_0_iff: "fmsum f m = 0 \<longleftrightarrow> (\<forall>k v. fmlookup m k = Some v \<longrightarrow> f k v = 0)"
proof
  assume "fmsum f m = 0"
  then show "\<forall>k v. fmlookup m k = Some v \<longrightarrow> f k v = 0"
    using fmsum_le [of m _ _ f] by force
next
  assume "\<forall>k v. fmlookup m k = Some v \<longrightarrow> f k v = 0"
  then show "fmsum f m = 0" by (auto simp: fmsum_def fmlookup_dom_iff)
qed

lemma fmsum_mono: "(\<And>k v. fmlookup m k = Some v \<Longrightarrow> f k v \<le> g k v) \<Longrightarrow> fmsum f m \<le> fmsum g m"
  unfolding fmsum_def by (rule sum_mono) (auto simp: fmlookup_dom_iff)

lemma fmsum_cong: "(\<And>k v. fmlookup m k = Some v \<Longrightarrow> f k v = g k v) \<Longrightarrow> fmsum f m = fmsum g m"
  unfolding fmsum_def by (rule sum.cong) (auto simp: fmlookup_dom_iff)

lemma fmsum_add: "fmsum (\<lambda>k v. f k v + g k v) m = fmsum f m + fmsum g m"
  by (simp add: fmsum_def sum.distrib)

section \<open>Vectors\<close>

text \<open>\<open>iter().position(\<dots>)\<close>, \<open>Vec::remove\<close> and \<open>BoundedVec::try_push\<close>.\<close>

fun position :: "('a \<Rightarrow> bool) \<Rightarrow> 'a list \<Rightarrow> nat option" where
  "position P [] = None"
| "position P (x # xs) = (if P x then Some 0 else map_option Suc (position P xs))"

definition remove_at :: "nat \<Rightarrow> 'a list \<Rightarrow> 'a list" where
  "remove_at i xs = take i xs @ drop (Suc i) xs"

definition try_push :: "nat \<Rightarrow> 'a list \<Rightarrow> 'a \<Rightarrow> 'a list option" where
  "try_push bound xs x = (if length xs < bound then Some (xs @ [x]) else None)"

lemma position_None: "position P xs = None \<longleftrightarrow> (\<forall>x\<in>set xs. \<not> P x)"
  by (induction xs) auto

lemma position_Some:
  "position P xs = Some i \<longleftrightarrow> i < length xs \<and> P (xs ! i) \<and> (\<forall>j<i. \<not> P (xs ! j))"
proof (induction xs arbitrary: i)
  case Nil
  then show ?case by simp
next
  case (Cons x xs)
  then show ?case by (cases i) (auto simp: less_Suc_eq_0_disj)
qed

lemma length_remove_at [simp]: "i < length xs \<Longrightarrow> length (remove_at i xs) = length xs - 1"
  by (simp add: remove_at_def)

lemma remove_at_zero [simp]: "remove_at 0 (x # xs) = xs"
  by (simp add: remove_at_def)

lemma remove_at_Suc [simp]: "remove_at (Suc i) (x # xs) = x # remove_at i xs"
  by (simp add: remove_at_def)

lemma map_remove_at: "map f (remove_at i xs) = remove_at i (map f xs)"
  by (simp add: remove_at_def take_map drop_map)

lemma sum_list_remove_at:
  "i < length xs \<Longrightarrow> sum_list (map f xs) = (f (xs ! i) :: nat) + sum_list (map f (remove_at i xs))"
proof (induction xs arbitrary: i)
  case (Cons x xs)
  then show ?case by (cases i) auto
qed simp

lemma set_remove_at: "distinct xs \<Longrightarrow> i < length xs \<Longrightarrow> set (remove_at i xs) = set xs - {xs ! i}"
proof (induction xs arbitrary: i)
  case (Cons x xs)
  then show ?case by (cases i) auto
qed simp

lemma set_remove_at_subset: "set (remove_at i xs) \<subseteq> set xs"
  by (auto simp: remove_at_def dest: in_set_takeD in_set_dropD)

lemma distinct_remove_at: "distinct xs \<Longrightarrow> distinct (remove_at i xs)"
proof (induction xs arbitrary: i)
  case (Cons x xs)
  then show ?case using set_remove_at_subset [of _ xs] by (cases i) auto
qed (simp add: remove_at_def)

lemma try_push_Some [result_simps]: "try_push b xs x = Some ys \<longleftrightarrow> length xs < b \<and> ys = xs @ [x]"
  by (auto simp: try_push_def)

end
