(* ===== verification/Primitives.thy ===== *)
theory Primitives
  imports Prelude
begin

text \<open>
  The shared primitives crate (\<open>crates/primitives/storage/src/lib.rs\<close> and
  \<open>agreement_term.rs\<close>): hashes, roles, commitments and the ranges they cover,
  provider-signed terms, and the byte strings that are hashed and signed. Integers are
  naturals; \<open>wf_\<close> predicates state the range of their Rust types. The hash
  function \<open>blake2_256\<close> and the encoding of an account id belong to other crates
  and are arguments.
\<close>

section \<open>Bytes and hashes\<close>

type_synonym byte = "8 word"
type_synonym account = nat
type_synonym BucketId = nat

typedef H256 = "{bs :: byte list. length bs = 32}"
  morphisms as_bytes H256_from
  by (rule exI [of _ "replicate 32 0"]) simp

definition H256_repeat_byte :: "byte \<Rightarrow> H256" where
  "H256_repeat_byte b = H256_from (replicate 32 b)"

definition H256_zero :: H256 where
  "H256_zero = H256_repeat_byte 0"

instantiation H256 :: equal
begin

definition equal_H256 :: "H256 \<Rightarrow> H256 \<Rightarrow> bool" where
  "equal_H256 x y \<longleftrightarrow> as_bytes x = as_bytes y"

instance
  by standard (simp add: equal_H256_def as_bytes_inject)

end

lemma length_as_bytes [simp]: "length (as_bytes h) = 32"
  using as_bytes [of h] by simp

lemma H256_repeat_byte_inject [simp]: "H256_repeat_byte a = H256_repeat_byte b \<longleftrightarrow> a = b"
proof -
  have "H256_repeat_byte a = H256_repeat_byte b \<longleftrightarrow> replicate 32 a = replicate 32 b"
    unfolding H256_repeat_byte_def by (rule H256_from_inject) simp_all
  also have "\<dots> \<longleftrightarrow> a = b" by simp
  finally show ?thesis .
qed

text \<open>
  SCALE encodes a fixed-width integer little-endian in as many bytes as its type has, a
  struct as its fields in order, and an enum as a tag byte followed by the variant's fields.
\<close>

fun le_bytes :: "nat \<Rightarrow> nat \<Rightarrow> byte list" where
  "le_bytes 0 x = []"
| "le_bytes (Suc n) x = word_of_nat x # le_bytes n (x div 256)"

fun le_value :: "byte list \<Rightarrow> nat" where
  "le_value [] = 0"
| "le_value (b # bs) = unat b + 256 * le_value bs"

lemma length_le_bytes [simp]: "length (le_bytes n x) = n"
  by (induction n arbitrary: x) auto

lemma unat_byte_of_nat [simp]: "unat (word_of_nat x :: byte) = x mod 256"
  by (simp add: unat_of_nat)

lemma le_value_le_bytes: "x < 256 ^ n \<Longrightarrow> le_value (le_bytes n x) = x"
proof (induction n arbitrary: x)
  case (Suc n)
  have "x div 256 < 256 ^ n"
    using Suc.prems by (simp add: div_less_iff_less_mult mult.commute)
  then have "le_value (le_bytes n (x div 256)) = x div 256" by (rule Suc.IH)
  then show ?case by simp
qed simp

lemma le_bytes_inj: "x < 256 ^ n \<Longrightarrow> y < 256 ^ n \<Longrightarrow> le_bytes n x = le_bytes n y \<Longrightarrow> x = y"
  by (metis le_value_le_bytes)

definition bytes_of :: "string \<Rightarrow> byte list" where
  "bytes_of s = map of_char s"

section \<open>Constants\<close>

definition DEFAULT_CHUNK_SIZE :: nat where
  "DEFAULT_CHUNK_SIZE = 256 * 1024"

definition HISTORICAL_ROOT_PRIMES :: "nat list" where
  "HISTORICAL_ROOT_PRIMES = [3, 7, 11, 23, 47, 113]"

section \<open>Roles, visibility, agreement actions\<close>

datatype Role = Admin | Writer | Reader

datatype Visibility = Public | Private

datatype EndAction = Pay | Burn nat

datatype RemovalReason = Slashed | AdminTerminated | Expired

section \<open>Commitments\<close>

record Commitment =
  mmr_root :: H256
  start_seq :: nat
  leaf_count :: nat

definition Commitment_default :: Commitment where
  "Commitment_default = \<lparr>mmr_root = H256_zero, start_seq = 0, leaf_count = 0\<rparr>"

definition range_end :: "Commitment \<Rightarrow> nat" where
  "range_end c = saturating_add 64 (start_seq c) (leaf_count c)"

definition contains_seq :: "Commitment \<Rightarrow> nat \<Rightarrow> bool" where
  "contains_seq c sq \<longleftrightarrow> start_seq c \<le> sq \<and> sq < range_end c"

record ChunkLocation =
  leaf_index :: nat
  chunk_index :: nat

record CommitmentPayload =
  cp_version :: nat
  cp_bucket_id :: BucketId
  cp_commitment :: Commitment

definition CommitmentPayload_new :: "BucketId \<Rightarrow> Commitment \<Rightarrow> CommitmentPayload" where
  "CommitmentPayload_new b c = \<lparr>cp_version = 1, cp_bucket_id = b, cp_commitment = c\<rparr>"

definition encode_payload :: "CommitmentPayload \<Rightarrow> byte list" where
  "encode_payload p =
     le_bytes 1 (cp_version p) @ le_bytes 8 (cp_bucket_id p) @
     as_bytes (mmr_root (cp_commitment p)) @
     le_bytes 8 (start_seq (cp_commitment p)) @ le_bytes 8 (leaf_count (cp_commitment p))"

record BucketSnapshot =
  bs_commitment :: Commitment
  checkpoint_block :: nat
  primary_signers :: "bool list"

record ReplicaSyncRecord =
  rs_commitment :: Commitment
  rs_block :: nat

datatype ProviderRole =
    Primary
  | Replica (sync_balance: nat) (sync_price: nat) (min_sync_interval: nat)
      (last_sync: "ReplicaSyncRecord option")

record ChallengeId =
  deadline :: nat
  index :: nat

section \<open>Provider-signed terms\<close>

datatype BucketTarget = New | Existing BucketId

record ReplicaTerms =
  rt_sync_balance :: nat
  rt_min_sync_interval :: nat
  rt_sync_price :: nat

record AgreementTerms =
  at_owner :: account
  at_max_bytes :: nat
  at_duration :: nat
  at_price_per_byte :: nat
  at_valid_until :: nat
  at_nonce :: nat
  at_bucket :: BucketTarget
  at_replica_params :: "ReplicaTerms option"

definition PRIMARY_TERM_CONTEXT :: "byte list" where
  "PRIMARY_TERM_CONTEXT = bytes_of ''primary-term-v1:''"

definition REPLICA_TERM_CONTEXT :: "byte list" where
  "REPLICA_TERM_CONTEXT = bytes_of ''replica-term-v1:''"

definition signing_context :: "AgreementTerms \<Rightarrow> byte list" where
  "signing_context t =
     (if at_replica_params t \<noteq> None then REPLICA_TERM_CONTEXT else PRIMARY_TERM_CONTEXT)"

fun encode_target :: "BucketTarget \<Rightarrow> byte list" where
  "encode_target New = [0]"
| "encode_target (Existing b) = 1 # le_bytes 8 b"

fun encode_replica_params :: "ReplicaTerms option \<Rightarrow> byte list" where
  "encode_replica_params None = [0]"
| "encode_replica_params (Some r) =
     1 # le_bytes 16 (rt_sync_balance r) @ le_bytes 4 (rt_min_sync_interval r) @
     le_bytes 16 (rt_sync_price r)"

definition encode_terms :: "(account \<Rightarrow> byte list) \<Rightarrow> AgreementTerms \<Rightarrow> byte list" where
  "encode_terms enc t =
     enc (at_owner t) @ le_bytes 8 (at_max_bytes t) @ le_bytes 4 (at_duration t) @
     le_bytes 16 (at_price_per_byte t) @ le_bytes 4 (at_valid_until t) @
     le_bytes 8 (at_nonce t) @ encode_target (at_bucket t) @
     encode_replica_params (at_replica_params t)"

definition signing_payload :: "(account \<Rightarrow> byte list) \<Rightarrow> AgreementTerms \<Rightarrow> byte list" where
  "signing_payload enc t = signing_context t @ encode_terms enc t"

section \<open>Hashing of leaves, nodes and peaks\<close>

definition LEAF_PREFIX :: byte where
  "LEAF_PREFIX = 0"

definition NODE_PREFIX :: byte where
  "NODE_PREFIX = 1"

definition PEAK_PREFIX :: byte where
  "PEAK_PREFIX = 2"

definition hash_leaf :: "(byte list \<Rightarrow> H256) \<Rightarrow> byte list \<Rightarrow> H256" where
  "hash_leaf blake2_256 data = blake2_256 (LEAF_PREFIX # data)"

definition hash_pair :: "(byte list \<Rightarrow> H256) \<Rightarrow> byte \<Rightarrow> H256 \<Rightarrow> H256 \<Rightarrow> H256" where
  "hash_pair blake2_256 prefix left right = blake2_256 (prefix # as_bytes left @ as_bytes right)"

definition hash_children :: "(byte list \<Rightarrow> H256) \<Rightarrow> H256 \<Rightarrow> H256 \<Rightarrow> H256" where
  "hash_children blake2_256 left right = hash_pair blake2_256 NODE_PREFIX left right"

text \<open>
  The byte strings that are hashed for a leaf and for a node. No hash function into 32 bytes
  is injective, so a security statement names the finitely many strings that are hashed in
  the situation it is about, and holds unless two of these have the same hash.
\<close>

definition leaf_string :: "byte list \<Rightarrow> byte list" where
  "leaf_string data = LEAF_PREFIX # data"

definition node_string :: "H256 \<times> H256 \<Rightarrow> byte list" where
  "node_string = (\<lambda>(left, right). NODE_PREFIX # as_bytes left @ as_bytes right)"

definition collision_among :: "(byte list \<Rightarrow> H256) \<Rightarrow> byte list set \<Rightarrow> bool" where
  "collision_among blake2_256 S \<longleftrightarrow> (\<exists>x\<in>S. \<exists>y\<in>S. x \<noteq> y \<and> blake2_256 x = blake2_256 y)"

section \<open>Ranges of the Rust types\<close>

definition wf_commitment :: "Commitment \<Rightarrow> bool" where
  "wf_commitment c \<longleftrightarrow> start_seq c < 2 ^ 64 \<and> leaf_count c < 2 ^ 64"

fun wf_target :: "BucketTarget \<Rightarrow> bool" where
  "wf_target New \<longleftrightarrow> True"
| "wf_target (Existing b) \<longleftrightarrow> b < 2 ^ 64"

fun wf_replica_params :: "ReplicaTerms option \<Rightarrow> bool" where
  "wf_replica_params None \<longleftrightarrow> True"
| "wf_replica_params (Some r) \<longleftrightarrow>
     rt_sync_balance r < 2 ^ 128 \<and> rt_min_sync_interval r < 2 ^ 32 \<and> rt_sync_price r < 2 ^ 128"

definition wf_terms :: "AgreementTerms \<Rightarrow> bool" where
  "wf_terms t \<longleftrightarrow>
     at_max_bytes t < 2 ^ 64 \<and> at_duration t < 2 ^ 32 \<and> at_price_per_byte t < 2 ^ 128 \<and>
     at_valid_until t < 2 ^ 32 \<and> at_nonce t < 2 ^ 64 \<and> wf_target (at_bucket t) \<and>
     wf_replica_params (at_replica_params t)"

section \<open>Ranges\<close>

lemma contains_seq_exact:
  "start_seq c + leaf_count c < 2 ^ 64 \<Longrightarrow>
   contains_seq c sq \<longleftrightarrow> start_seq c \<le> sq \<and> sq < start_seq c + leaf_count c"
  by (simp add: contains_seq_def range_end_def saturating_add_exact)

section \<open>Injectivity of the signed byte strings\<close>

lemma le_bytes_eq_iff:
  "x < 256 ^ n \<Longrightarrow> y < 256 ^ n \<Longrightarrow> le_bytes n x = le_bytes n y \<longleftrightarrow> x = y"
  by (auto dest: le_bytes_inj)

lemma le_bytes_width_iff [simp]:
  "x < 2 ^ 32 \<Longrightarrow> y < 2 ^ 32 \<Longrightarrow> le_bytes 4 x = le_bytes 4 y \<longleftrightarrow> x = y"
  "x < 2 ^ 64 \<Longrightarrow> y < 2 ^ 64 \<Longrightarrow> le_bytes 8 x = le_bytes 8 y \<longleftrightarrow> x = y"
  "x < 2 ^ 128 \<Longrightarrow> y < 2 ^ 128 \<Longrightarrow> le_bytes 16 x = le_bytes 16 y \<longleftrightarrow> x = y"
  by (rule le_bytes_eq_iff; simp)+

lemma encode_target_append_inj:
  "wf_target x \<Longrightarrow> wf_target y \<Longrightarrow>
   encode_target x @ b = encode_target y @ b' \<longleftrightarrow> x = y \<and> b = b'"
  by (cases x; cases y) auto

lemma encode_replica_params_inj:
  "wf_replica_params x \<Longrightarrow> wf_replica_params y \<Longrightarrow>
   encode_replica_params x = encode_replica_params y \<Longrightarrow> x = y"
  by (cases x; cases y) auto

lemma encode_payload_inj:
  assumes "b < 2 ^ 64" "b' < 2 ^ 64" "wf_commitment c" "wf_commitment c'"
    and "encode_payload (CommitmentPayload_new b c) = encode_payload (CommitmentPayload_new b' c')"
  shows "b = b' \<and> c = c'"
  using assms
  by (cases c; cases c')
    (simp add: encode_payload_def CommitmentPayload_new_def wf_commitment_def as_bytes_inject)

lemma encode_terms_inj:
  assumes enc: "inj_on enc A" "\<And>a. length (enc a) = n" "at_owner t \<in> A" "at_owner t' \<in> A"
    and wf: "wf_terms t" "wf_terms t'"
    and eq: "encode_terms enc t = encode_terms enc t'"
  shows "t = t'"
proof -
  have "enc (at_owner t) = enc (at_owner t') \<and> at_max_bytes t = at_max_bytes t' \<and>
      at_duration t = at_duration t' \<and> at_price_per_byte t = at_price_per_byte t' \<and>
      at_valid_until t = at_valid_until t' \<and> at_nonce t = at_nonce t' \<and> at_bucket t = at_bucket t' \<and>
      encode_replica_params (at_replica_params t) = encode_replica_params (at_replica_params t')"
    using eq wf by (simp add: encode_terms_def wf_terms_def enc(2) encode_target_append_inj)
  moreover from this have "at_replica_params t = at_replica_params t'"
    using wf by (auto simp: wf_terms_def intro: encode_replica_params_inj)
  ultimately show ?thesis using enc(1,3,4) by (cases t; cases t') (auto dest: inj_onD)
qed

lemma length_term_context [simp]:
  "length PRIMARY_TERM_CONTEXT = 16" "length REPLICA_TERM_CONTEXT = 16"
  by (simp_all add: PRIMARY_TERM_CONTEXT_def REPLICA_TERM_CONTEXT_def bytes_of_def)

lemma term_contexts_differ: "PRIMARY_TERM_CONTEXT \<noteq> REPLICA_TERM_CONTEXT"
  by (simp add: PRIMARY_TERM_CONTEXT_def REPLICA_TERM_CONTEXT_def bytes_of_def)

section \<open>Hashed strings\<close>

lemma node_string_eq [simp]: "node_string p = node_string q \<longleftrightarrow> p = q"
  by (cases p; cases q) (auto simp: node_string_def as_bytes_inject)

lemma leaf_string_eq [simp]: "leaf_string d = leaf_string d' \<longleftrightarrow> d = d'"
  by (simp add: leaf_string_def)

lemma leaf_node_string [simp]: "leaf_string d \<noteq> node_string p" "node_string p \<noteq> leaf_string d"
  by (cases p, simp add: leaf_string_def node_string_def LEAF_PREFIX_def NODE_PREFIX_def)+

lemma hash_leaf_string: "hash_leaf h d = h (leaf_string d)"
  by (simp add: hash_leaf_def leaf_string_def)

lemma hash_children_string: "hash_children h l r = h (node_string (l, r))"
  by (simp add: hash_children_def hash_pair_def node_string_def)

lemma collision_amongI: "h x = h y \<Longrightarrow> x \<in> S \<Longrightarrow> y \<in> S \<Longrightarrow> x = y \<or> collision_among h S"
  unfolding collision_among_def by blast

lemma collision_among_mono: "collision_among h S \<Longrightarrow> S \<subseteq> T \<Longrightarrow> collision_among h T"
  unfolding collision_among_def by blast

end
