(* ===== verification/Currency.thy ===== *)
theory Currency
  imports Primitives
begin

text \<open>
  The pallet moves money through \<open>T::Currency\<close> (the \<open>fungible\<close> hold
  traits of \<open>frame_support\<close>) and through \<open>T::StorageDeposit\<close>, both
  implemented in other crates. They are a record of operations over an opaque state
  \<open>'c\<close>; the locale \<open>fungible\<close> states the documented behaviour the pallet
  relies on: what each operation does to the amount on hold per reason and account, what
  \<open>Precision\<close> means, and that balances fit in 128 bits. Releasing money that is
  on hold succeeds. \<open>cur_ok\<close> is the currency's own invariant.

  \<open>ledger\<close> is an accounting of free and held balances with an existential deposit
  and a bounded total issuance for which the laws hold.
\<close>

section \<open>The interface\<close>

datatype HoldReason = ProviderStake | AgreementPayment | ChallengeDeposit | StorageDeposit

datatype Precision = Exact | BestEffort
datatype Restriction = Free | OnHold
datatype Fortitude = Polite | Force
datatype Preservation = Expendable | Protect | Preserve

record Footprint =
  fp_count :: nat
  fp_size :: nat

type_synonym currency_error = nat
type_synonym ticket = nat

record 'c currency =
  cur_ok :: "'c \<Rightarrow> bool"
  cur_on_hold :: "HoldReason \<Rightarrow> account \<Rightarrow> 'c \<Rightarrow> nat"
  cur_balance :: "account \<Rightarrow> 'c \<Rightarrow> nat"
  cur_hold :: "HoldReason \<Rightarrow> account \<Rightarrow> nat \<Rightarrow> 'c \<Rightarrow> currency_error + 'c"
  cur_release :: "HoldReason \<Rightarrow> account \<Rightarrow> nat \<Rightarrow> Precision \<Rightarrow> 'c \<Rightarrow> currency_error + nat \<times> 'c"
  cur_transfer_on_hold :: "HoldReason \<Rightarrow> account \<Rightarrow> account \<Rightarrow> nat \<Rightarrow> Precision \<Rightarrow> Restriction \<Rightarrow>
      Fortitude \<Rightarrow> 'c \<Rightarrow> currency_error + nat \<times> 'c"
  cur_transfer_and_hold :: "HoldReason \<Rightarrow> account \<Rightarrow> account \<Rightarrow> nat \<Rightarrow> Precision \<Rightarrow> Preservation \<Rightarrow>
      Fortitude \<Rightarrow> 'c \<Rightarrow> currency_error + nat \<times> 'c"
  cur_slash :: "HoldReason \<Rightarrow> account \<Rightarrow> nat \<Rightarrow> 'c \<Rightarrow> nat \<times> nat \<times> 'c"
  cur_resolve :: "account \<Rightarrow> nat \<Rightarrow> 'c \<Rightarrow> nat + 'c"
  cur_drop_credit :: "nat \<Rightarrow> 'c \<Rightarrow> 'c"
  cur_ticket_new :: "account \<Rightarrow> Footprint \<Rightarrow> 'c \<Rightarrow> currency_error + ticket \<times> 'c"
  cur_ticket_drop :: "ticket \<Rightarrow> account \<Rightarrow> 'c \<Rightarrow> currency_error + 'c"

locale fungible =
  fixes C :: "'c currency"
  assumes on_hold_bound: "cur_ok C c \<Longrightarrow> cur_on_hold C r w c < 2 ^ 128"
    and hold_law: "cur_ok C c \<Longrightarrow> cur_hold C r w a c = Inr c' \<Longrightarrow>
      cur_ok C c' \<and>
      cur_on_hold C r' w' c' = cur_on_hold C r' w' c + (if r' = r \<and> w' = w then a else 0)"
    and release_law: "cur_ok C c \<Longrightarrow> cur_release C r w a p c = Inr (m, c') \<Longrightarrow>
      cur_ok C c' \<and> m \<le> a \<and> m \<le> cur_on_hold C r w c \<and> (p = Exact \<longrightarrow> m = a) \<and>
      cur_balance C w c' = cur_balance C w c + m \<and>
      cur_on_hold C r' w' c' = cur_on_hold C r' w' c - (if r' = r \<and> w' = w then m else 0)"
    and release_succeeds: "cur_ok C c \<Longrightarrow> a \<le> cur_on_hold C r w c \<Longrightarrow>
      \<exists>c'. cur_release C r w a p c = Inr (a, c')"
    and transfer_free_law: "cur_ok C c \<Longrightarrow> cur_transfer_on_hold C r src dst a p Free f c = Inr (m, c') \<Longrightarrow>
      cur_ok C c' \<and> m \<le> a \<and> m \<le> cur_on_hold C r src c \<and> (p = Exact \<longrightarrow> m = a) \<and>
      cur_balance C dst c' = cur_balance C dst c + m \<and>
      cur_on_hold C r' w' c' = cur_on_hold C r' w' c - (if r' = r \<and> w' = src then m else 0)"
    and transfer_held_law: "cur_ok C c \<Longrightarrow> src \<noteq> dst \<Longrightarrow>
      cur_transfer_on_hold C r src dst a p OnHold f c = Inr (m, c') \<Longrightarrow>
      cur_ok C c' \<and> m \<le> a \<and> m \<le> cur_on_hold C r src c \<and> (p = Exact \<longrightarrow> m = a) \<and>
      cur_on_hold C r' w' c' =
        cur_on_hold C r' w' c - (if r' = r \<and> w' = src then m else 0)
          + (if r' = r \<and> w' = dst then m else 0)"
    and transfer_and_hold_law: "cur_ok C c \<Longrightarrow> src \<noteq> dst \<Longrightarrow>
      cur_transfer_and_hold C r src dst a p q f c = Inr (m, c') \<Longrightarrow>
      cur_ok C c' \<and> m \<le> a \<and> (p = Exact \<longrightarrow> m = a) \<and>
      cur_on_hold C r' w' c' = cur_on_hold C r' w' c + (if r' = r \<and> w' = dst then m else 0)"
    and slash_law: "cur_ok C c \<Longrightarrow> cur_slash C r w a c = (credit, missing, c') \<Longrightarrow>
      cur_ok C c' \<and> missing \<le> a \<and> credit = a - missing \<and> credit \<le> cur_on_hold C r w c \<and>
      (a \<le> cur_on_hold C r w c \<longrightarrow> missing = 0) \<and>
      cur_balance C w' c' = cur_balance C w' c \<and>
      cur_on_hold C r' w' c' = cur_on_hold C r' w' c - (if r' = r \<and> w' = w then credit else 0)"
    and resolve_law: "cur_ok C c \<Longrightarrow> cur_resolve C w n c = Inr c' \<Longrightarrow>
      cur_ok C c' \<and> cur_balance C w c' = cur_balance C w c + n \<and>
      cur_on_hold C r' w' c' = cur_on_hold C r' w' c"
    and drop_credit_law: "cur_ok C c \<Longrightarrow>
      cur_ok C (cur_drop_credit C n c) \<and>
      cur_on_hold C r' w' (cur_drop_credit C n c) = cur_on_hold C r' w' c"
    and ticket_new_law: "cur_ok C c \<Longrightarrow> cur_ticket_new C w fp c = Inr (t, c') \<Longrightarrow>
      cur_ok C c' \<and>
      cur_on_hold C r' w' c' = cur_on_hold C r' w' c + (if r' = StorageDeposit \<and> w' = w then t else 0)"
    and ticket_drop_law: "cur_ok C c \<Longrightarrow> cur_ticket_drop C t w c = Inr c' \<Longrightarrow>
      cur_ok C c' \<and>
      cur_on_hold C r' w' c' = cur_on_hold C r' w' c - (if r' = StorageDeposit \<and> w' = w then t else 0)"
    and ticket_drop_succeeds: "cur_ok C c \<Longrightarrow> t \<le> cur_on_hold C StorageDeposit w c \<Longrightarrow>
      \<exists>c'. cur_ticket_drop C t w c = Inr c'"

section \<open>A ledger with holds\<close>

record ledger =
  l_free :: "(account, nat) fmap"
  l_held :: "(HoldReason \<times> account, nat) fmap"

record ledger_config =
  existential_deposit :: nat
  deposit_base :: nat
  deposit_per_byte :: nat

definition l_free_of :: "account \<Rightarrow> ledger \<Rightarrow> nat" where
  "l_free_of w l = fmget 0 (l_free l) w"

definition l_held_of :: "HoldReason \<Rightarrow> account \<Rightarrow> ledger \<Rightarrow> nat" where
  "l_held_of r w l = fmget 0 (l_held l) (r, w)"

definition l_set_free :: "account \<Rightarrow> nat \<Rightarrow> ledger \<Rightarrow> ledger" where
  "l_set_free w n l = l\<lparr>l_free := fmupd w n (l_free l)\<rparr>"

definition l_set_held :: "HoldReason \<Rightarrow> account \<Rightarrow> nat \<Rightarrow> ledger \<Rightarrow> ledger" where
  "l_set_held r w n l = l\<lparr>l_held := fmupd (r, w) n (l_held l)\<rparr>"

definition l_issuance :: "ledger \<Rightarrow> nat" where
  "l_issuance l = fmsum (\<lambda>_ n. n) (l_free l) + fmsum (\<lambda>_ n. n) (l_held l)"

definition l_ok :: "ledger \<Rightarrow> bool" where
  "l_ok l \<longleftrightarrow> l_issuance l < 2 ^ 128"

definition l_hold :: "ledger_config \<Rightarrow> HoldReason \<Rightarrow> account \<Rightarrow> nat \<Rightarrow> ledger \<Rightarrow> currency_error + ledger" where
  "l_hold cfg r w a l =
     ensure (a + existential_deposit cfg \<le> l_free_of w l) 0
       (Inr (l_set_held r w (l_held_of r w l + a) (l_set_free w (l_free_of w l - a) l)))"

definition l_release :: "HoldReason \<Rightarrow> account \<Rightarrow> nat \<Rightarrow> Precision \<Rightarrow> ledger \<Rightarrow> currency_error + nat \<times> ledger" where
  "l_release r w a p l =
     (let m = min a (l_held_of r w l)
      in ensure (p = Exact \<longrightarrow> m = a) 1
           (Inr (m, l_set_held r w (l_held_of r w l - m) (l_set_free w (l_free_of w l + m) l))))"

definition l_transfer_on_hold :: "ledger_config \<Rightarrow> HoldReason \<Rightarrow> account \<Rightarrow> account \<Rightarrow> nat \<Rightarrow> Precision \<Rightarrow>
    Restriction \<Rightarrow> Fortitude \<Rightarrow> ledger \<Rightarrow> currency_error + nat \<times> ledger" where
  "l_transfer_on_hold cfg r src dst a p restr f l =
     (let m = min a (l_held_of r src l); l' = l_set_held r src (l_held_of r src l - m) l
      in ensure (p = Exact \<longrightarrow> m = a) 1
           (case restr of
              Free \<Rightarrow> ensure (existential_deposit cfg \<le> l_free_of dst l + m) 2
                        (Inr (m, l_set_free dst (l_free_of dst l' + m) l'))
            | OnHold \<Rightarrow> ensure (existential_deposit cfg \<le> l_free_of dst l) 2
                        (Inr (m, l_set_held r dst (l_held_of r dst l' + m) l'))))"

definition l_transfer_and_hold :: "ledger_config \<Rightarrow> HoldReason \<Rightarrow> account \<Rightarrow> account \<Rightarrow> nat \<Rightarrow> Precision \<Rightarrow>
    Preservation \<Rightarrow> Fortitude \<Rightarrow> ledger \<Rightarrow> currency_error + nat \<times> ledger" where
  "l_transfer_and_hold cfg r src dst a p q f l =
     ensure (a + existential_deposit cfg \<le> l_free_of src l \<and> existential_deposit cfg \<le> l_free_of dst l) 3
       (Inr (a, l_set_held r dst (l_held_of r dst l + a) (l_set_free src (l_free_of src l - a) l)))"

definition l_slash :: "HoldReason \<Rightarrow> account \<Rightarrow> nat \<Rightarrow> ledger \<Rightarrow> nat \<times> nat \<times> ledger" where
  "l_slash r w a l =
     (let m = min a (l_held_of r w l) in (m, a - m, l_set_held r w (l_held_of r w l - m) l))"

definition l_resolve :: "ledger_config \<Rightarrow> account \<Rightarrow> nat \<Rightarrow> ledger \<Rightarrow> nat + ledger" where
  "l_resolve cfg w n l =
     (if existential_deposit cfg \<le> l_free_of w l + n \<and> l_issuance l + n < 2 ^ 128
      then Inr (l_set_free w (l_free_of w l + n) l) else Inl n)"

definition l_ticket_new :: "ledger_config \<Rightarrow> account \<Rightarrow> Footprint \<Rightarrow> ledger \<Rightarrow> currency_error + ticket \<times> ledger" where
  "l_ticket_new cfg w fp l =
     (let price = deposit_base cfg * fp_count fp + deposit_per_byte cfg * fp_size fp
      in attempt (l_hold cfg StorageDeposit w price l) (\<lambda>l'. Inr (price, l')))"

definition l_ticket_drop :: "ticket \<Rightarrow> account \<Rightarrow> ledger \<Rightarrow> currency_error + ledger" where
  "l_ticket_drop t w l = attempt (l_release StorageDeposit w t BestEffort l) (\<lambda>(m, l'). Inr l')"

definition ledger_currency :: "ledger_config \<Rightarrow> ledger currency" where
  "ledger_currency cfg = \<lparr>
     cur_ok = l_ok, cur_on_hold = l_held_of, cur_balance = l_free_of,
     cur_hold = l_hold cfg, cur_release = l_release,
     cur_transfer_on_hold = l_transfer_on_hold cfg, cur_transfer_and_hold = l_transfer_and_hold cfg,
     cur_slash = l_slash, cur_resolve = l_resolve cfg, cur_drop_credit = (\<lambda>n l. l),
     cur_ticket_new = l_ticket_new cfg, cur_ticket_drop = l_ticket_drop\<rparr>"

lemma l_free_of_set [simp]:
  "l_free_of w' (l_set_free w n l) = (if w' = w then n else l_free_of w' l)"
  "l_free_of w' (l_set_held r w n l) = l_free_of w' l"
  by (auto simp: l_free_of_def l_set_free_def l_set_held_def)

lemma l_held_of_set [simp]:
  "l_held_of r' w' (l_set_held r w n l) = (if r' = r \<and> w' = w then n else l_held_of r' w' l)"
  "l_held_of r' w' (l_set_free w n l) = l_held_of r' w' l"
  by (auto simp: l_held_of_def l_set_free_def l_set_held_def)

lemma fmsum_id_upd: "fmsum (\<lambda>_ n. n) (fmupd k v m) + fmget 0 m k = fmsum (\<lambda>_ n. n) m + v"
  by (cases "fmlookup m k") (simp_all add: fmget_def fmdrop_absent fmsum_split [of m k])

lemma l_issuance_set_free: "l_issuance (l_set_free w n l) + l_free_of w l = l_issuance l + n"
  using fmsum_id_upd [of w n "l_free l"] by (simp add: l_issuance_def l_set_free_def l_free_of_def)

lemma l_issuance_set_held: "l_issuance (l_set_held r w n l) + l_held_of r w l = l_issuance l + n"
  using fmsum_id_upd [of "(r, w)" n "l_held l"] by (simp add: l_issuance_def l_set_held_def l_held_of_def)

lemma l_held_le_issuance: "l_held_of r w l \<le> l_issuance l"
  by (cases "fmlookup (l_held l) (r, w)")
    (auto simp: l_held_of_def fmget_def l_issuance_def intro: trans_le_add2 fmsum_le [of _ _ _ "\<lambda>_ n. n"])

text \<open>Every operation keeps the issuance within 128 bits.\<close>

lemma l_ok_held_to_free:
  assumes "l_ok l" "m \<le> l_held_of r src l"
  shows "l_ok (l_set_held r src (l_held_of r src l - m) (l_set_free dst (l_free_of dst l + m) l))"
    and "l_ok (l_set_free dst (l_free_of dst l + m) (l_set_held r src (l_held_of r src l - m) l))"
    and "l_ok (l_set_held r src (l_held_of r src l - m) l)"
  using assms l_issuance_set_held [of r src "l_held_of r src l - m" "l_set_free dst (l_free_of dst l + m) l"]
    l_issuance_set_free [of dst "l_free_of dst l + m" l]
    l_issuance_set_held [of r src "l_held_of r src l - m" l]
    l_issuance_set_free [of dst "l_free_of dst l + m" "l_set_held r src (l_held_of r src l - m) l"]
  by (simp_all add: l_ok_def)

lemma l_ok_free_to_held:
  assumes "l_ok l" "a \<le> l_free_of src l"
  shows "l_ok (l_set_held r dst (l_held_of r dst l + a) (l_set_free src (l_free_of src l - a) l))"
  using assms l_issuance_set_held [of r dst "l_held_of r dst l + a" "l_set_free src (l_free_of src l - a) l"]
    l_issuance_set_free [of src "l_free_of src l - a" l]
  by (simp add: l_ok_def)

lemma l_ok_held_to_held:
  assumes "l_ok l" "m \<le> l_held_of r src l" "src \<noteq> dst"
  shows "l_ok (l_set_held r dst (l_held_of r dst l + m) (l_set_held r src (l_held_of r src l - m) l))"
  using assms l_issuance_set_held [of r dst "l_held_of r dst l + m" "l_set_held r src (l_held_of r src l - m) l"]
    l_issuance_set_held [of r src "l_held_of r src l - m" l]
  by (simp add: l_ok_def)

lemma l_ok_resolve:
  assumes "l_issuance l + n < 2 ^ 128"
  shows "l_ok (l_set_free w (l_free_of w l + n) l)"
  using assms l_issuance_set_free [of w "l_free_of w l + n" l] by (simp add: l_ok_def)

lemmas l_ok_rules = l_ok_held_to_free l_ok_free_to_held l_ok_held_to_held l_ok_resolve

interpretation ledger_money: fungible "ledger_currency cfg" for cfg
proof (unfold_locales, goal_cases)
  case (1 c r w)
  then show ?case using l_held_le_issuance [of r w c] by (simp add: ledger_currency_def l_ok_def)
next
  case (2 c r w a c' r' w')
  then show ?case by (auto simp: ledger_currency_def l_hold_def result_simps intro!: l_ok_rules)
next
  case (3 c r w a p m c' r' w')
  then show ?case by (auto simp: ledger_currency_def l_release_def Let_def result_simps intro!: l_ok_rules)
next
  case (4 c a r w p)
  then show ?case by (auto simp: ledger_currency_def l_release_def Let_def result_simps min_def)
next
  case (5 c r src dst a p f m c' r' w')
  then show ?case
    by (auto simp: ledger_currency_def l_transfer_on_hold_def Let_def result_simps intro!: l_ok_rules)
next
  case (6 c src dst r a p f m c' r' w')
  then show ?case
    by (auto simp: ledger_currency_def l_transfer_on_hold_def Let_def result_simps intro!: l_ok_rules)
next
  case (7 c src dst r a p q f m c' r' w')
  then show ?case
    by (auto simp: ledger_currency_def l_transfer_and_hold_def result_simps intro!: l_ok_rules)
next
  case (8 c r w a credit missing c' w' r')
  then show ?case
    by (auto simp: ledger_currency_def l_slash_def Let_def intro!: l_ok_rules)
next
  case (9 c w n c' r' w')
  then show ?case
    by (auto simp: ledger_currency_def l_resolve_def intro!: l_ok_rules split: if_splits)
next
  case (10 c n r' w')
  then show ?case by (simp add: ledger_currency_def)
next
  case (11 c w fp t c' r' w')
  then show ?case
    by (auto simp: ledger_currency_def l_ticket_new_def l_hold_def Let_def result_simps intro!: l_ok_rules)
next
  case (12 c t w c' r' w')
  then show ?case
    by (auto simp: ledger_currency_def l_ticket_drop_def l_release_def Let_def result_simps intro!: l_ok_rules)
next
  case (13 c t w)
  then show ?case
    by (auto simp: ledger_currency_def l_ticket_drop_def l_release_def Let_def)
qed

end
