(* ===== verification/Mmr.thy ===== *)
theory Mmr
  imports Primitives
begin

text \<open>
  The bucket's Merkle mountain range (\<open>crates/primitives/storage/src/mmr.rs\<close>): the
  leaf format and its chunk arithmetic, the shape check and the verification of inclusion
  proofs, and the builder. The range itself is implemented by the crate
  \<open>polkadot-ckb-merkle-mountain-range\<close>; its functions are the fields of the record
  \<open>mmr_lib\<close>, whose state type \<open>'m\<close> is the library's in-memory range. The
  merge callbacks the source passes to the library are modelled and handed to it.
\<close>

section \<open>Leaves and proofs\<close>

definition LEAF_VERSION :: nat where
  "LEAF_VERSION = 1"

record MmrLeaf =
  leaf_version :: nat
  data_root :: H256
  data_size :: nat
  total_size :: nat

record MmrProof =
  mp_leaf :: MmrLeaf
  mp_items :: "H256 list"

definition chunk_size :: "MmrLeaf \<Rightarrow> nat option" where
  "chunk_size l = (if leaf_version l = 1 then Some DEFAULT_CHUNK_SIZE else None)"

definition chunk_count :: "MmrLeaf \<Rightarrow> nat option" where
  "chunk_count l = (case chunk_size l of None \<Rightarrow> None | Some cs \<Rightarrow> Some (div_ceil (data_size l) cs))"

definition encode_leaf :: "MmrLeaf \<Rightarrow> byte list" where
  "encode_leaf l =
     le_bytes 1 (leaf_version l) @ as_bytes (data_root l) @ le_bytes 8 (data_size l) @
     le_bytes 8 (total_size l)"

section \<open>The library and its callbacks\<close>

type_synonym mmr_error = nat

record Merge =
  merge :: "H256 \<Rightarrow> H256 \<Rightarrow> mmr_error + H256"
  merge_peaks :: "H256 \<Rightarrow> H256 \<Rightarrow> mmr_error + H256"

record 'm mmr_lib =
  leaf_index_to_mmr_size :: "nat \<Rightarrow> nat"
  leaf_index_to_pos :: "nat \<Rightarrow> nat"
  get_peaks :: "nat \<Rightarrow> nat list"
  pos_height_in_tree :: "nat \<Rightarrow> nat"
  merkle_proof_verify :: "Merge \<Rightarrow> nat \<Rightarrow> H256 list \<Rightarrow> H256 \<Rightarrow> (nat \<times> H256) list \<Rightarrow> mmr_error + bool"
  bagging_peaks_hashes :: "Merge \<Rightarrow> H256 list \<Rightarrow> mmr_error + H256"
  mmr_new :: 'm
  mmr_push :: "Merge \<Rightarrow> 'm \<Rightarrow> H256 \<Rightarrow> mmr_error + 'm"
  mmr_get_root :: "Merge \<Rightarrow> 'm \<Rightarrow> mmr_error + H256"
  mmr_size :: "'m \<Rightarrow> nat"
  mmr_ancestor_peaks_and_root :: "Merge \<Rightarrow> 'm \<Rightarrow> nat \<Rightarrow> mmr_error + H256 list \<times> H256"
  mmr_gen_proof :: "Merge \<Rightarrow> 'm \<Rightarrow> nat list \<Rightarrow> mmr_error + H256 list"

definition hash_peaks :: "(byte list \<Rightarrow> H256) \<Rightarrow> H256 \<Rightarrow> H256 \<Rightarrow> H256" where
  "hash_peaks blake2_256 left right = hash_pair blake2_256 PEAK_PREFIX left right"

definition StorageMerge :: "(byte list \<Rightarrow> H256) \<Rightarrow> Merge" where
  "StorageMerge blake2_256 = \<lparr>
     merge = (\<lambda>left right. Inr (hash_children blake2_256 left right)),
     merge_peaks = (\<lambda>right left. Inr (hash_peaks blake2_256 left right))\<rparr>"

definition bag_peaks :: "'m mmr_lib \<Rightarrow> (byte list \<Rightarrow> H256) \<Rightarrow> H256 list \<Rightarrow> H256" where
  "bag_peaks lib blake2_256 ps =
     (case bagging_peaks_hashes lib (StorageMerge blake2_256) ps of
        Inl _ \<Rightarrow> H256_zero
      | Inr h \<Rightarrow> h)"

section \<open>Verification\<close>

definition mmr_proof_len :: "'m mmr_lib \<Rightarrow> nat \<Rightarrow> nat \<Rightarrow> nat option" where
  "mmr_proof_len lib leaf_pos sz =
     (let ps = get_peaks lib sz
      in case position (\<lambda>pos. leaf_pos \<le> pos) ps of
           None \<Rightarrow> None
         | Some peak \<Rightarrow>
             Some (peak + pos_height_in_tree lib (ps ! peak) + (if peak + 1 < length ps then 1 else 0)))"

definition verify_mmr_proof ::
    "'m mmr_lib \<Rightarrow> (byte list \<Rightarrow> H256) \<Rightarrow> MmrProof \<Rightarrow> nat \<Rightarrow> Commitment \<Rightarrow> bool" where
  "verify_mmr_proof lib blake2_256 prf idx c =
     (if leaf_count c \<le> idx \<or> (2 ^ 64 - 1) div 2 < leaf_count c then False
      else
        let sz = leaf_index_to_mmr_size lib (leaf_count c - 1);
            leaf_pos = leaf_index_to_pos lib idx
        in if Some (length (mp_items prf)) \<noteq> mmr_proof_len lib leaf_pos sz then False
           else
             case merkle_proof_verify lib (StorageMerge blake2_256) sz (mp_items prf) (mmr_root c)
                    [(leaf_pos, hash_leaf blake2_256 (encode_leaf (mp_leaf prf)))] of
               Inl _ \<Rightarrow> False
             | Inr b \<Rightarrow> b)"

section \<open>The builder\<close>

fun mmr_build_from ::
    "'m mmr_lib \<Rightarrow> (byte list \<Rightarrow> H256) \<Rightarrow> 'm \<Rightarrow> MmrLeaf list \<Rightarrow> mmr_error + 'm" where
  "mmr_build_from lib blake2_256 m [] = Inr m"
| "mmr_build_from lib blake2_256 m (l # ls) =
     attempt (mmr_push lib (StorageMerge blake2_256) m (hash_leaf blake2_256 (encode_leaf l)))
       (\<lambda>m'. mmr_build_from lib blake2_256 m' ls)"

definition mmr_build :: "'m mmr_lib \<Rightarrow> (byte list \<Rightarrow> H256) \<Rightarrow> MmrLeaf list \<Rightarrow> mmr_error + 'm" where
  "mmr_build lib blake2_256 leaves = mmr_build_from lib blake2_256 (mmr_new lib) leaves"

definition mmr_peaks ::
    "'m mmr_lib \<Rightarrow> (byte list \<Rightarrow> H256) \<Rightarrow> MmrLeaf list \<Rightarrow> mmr_error + H256 \<times> H256 list" where
  "mmr_peaks lib blake2_256 leaves =
     (if leaves = [] then Inr (H256_zero, [])
      else attempt (mmr_build lib blake2_256 leaves) (\<lambda>m.
           attempt (mmr_ancestor_peaks_and_root lib (StorageMerge blake2_256) m (mmr_size lib m))
             (\<lambda>(ps, root). Inr (root, ps))))"

definition mmr_root_of :: "'m mmr_lib \<Rightarrow> (byte list \<Rightarrow> H256) \<Rightarrow> MmrLeaf list \<Rightarrow> mmr_error + H256" where
  "mmr_root_of lib blake2_256 leaves =
     attempt (mmr_peaks lib blake2_256 leaves) (\<lambda>(root, ps). Inr root)"

definition mmr_proof ::
    "'m mmr_lib \<Rightarrow> (byte list \<Rightarrow> H256) \<Rightarrow> MmrLeaf list \<Rightarrow> nat \<Rightarrow> mmr_error + (H256 \<times> MmrProof) option" where
  "mmr_proof lib blake2_256 leaves idx =
     (if length leaves \<le> idx then Inr None
      else attempt (mmr_build lib blake2_256 leaves) (\<lambda>m.
           attempt (mmr_get_root lib (StorageMerge blake2_256) m) (\<lambda>root.
           attempt (mmr_gen_proof lib (StorageMerge blake2_256) m [leaf_index_to_pos lib idx]) (\<lambda>items.
             Inr (Some (root, \<lparr>mp_leaf = leaves ! idx, mp_items = items\<rparr>))))))"

section \<open>Chunk arithmetic and proof shape\<close>

lemma DEFAULT_CHUNK_SIZE_pos [simp]: "0 < DEFAULT_CHUNK_SIZE"
  by (simp add: DEFAULT_CHUNK_SIZE_def)

lemma chunk_count_less_iff:
  assumes "chunk_count l = Some n"
  shows "i < n \<longleftrightarrow> i * DEFAULT_CHUNK_SIZE < data_size l"
proof -
  from assms have "n = div_ceil (data_size l) DEFAULT_CHUNK_SIZE"
    by (auto simp: chunk_count_def chunk_size_def split: if_splits)
  then have "n \<le> i \<longleftrightarrow> data_size l \<le> i * DEFAULT_CHUNK_SIZE"
    by (simp add: div_ceil_le_iff)
  then show ?thesis by (simp add: not_le [symmetric] del: not_le)
qed

lemma verify_mmr_proof_shape:
  assumes "verify_mmr_proof lib h prf idx c"
  shows "idx < leaf_count c" "leaf_count c \<le> (2 ^ 64 - 1) div 2"
    "mmr_proof_len lib (leaf_index_to_pos lib idx) (leaf_index_to_mmr_size lib (leaf_count c - 1))
       = Some (length (mp_items prf))"
  using assms by (auto simp: verify_mmr_proof_def Let_def split: if_splits)

lemma encode_leaf_inj:
  assumes "leaf_version l < 256" "data_size l < 2 ^ 64" "total_size l < 2 ^ 64"
    and "leaf_version l' < 256" "data_size l' < 2 ^ 64" "total_size l' < 2 ^ 64"
    and "encode_leaf l = encode_leaf l'"
  shows "l = l'"
proof -
  have "le_bytes 1 (leaf_version l) = le_bytes 1 (leaf_version l') \<longleftrightarrow> leaf_version l = leaf_version l'"
    using assms(1,4) by (intro le_bytes_eq_iff) simp_all
  then show ?thesis using assms
    by (cases l; cases l') (simp add: encode_leaf_def as_bytes_inject)
qed

end
