(* ===== verification/Pallet_Types.thy ===== *)
theory Pallet_Types
  imports Currency Mmr
begin

text \<open>
  The data of the storage-provider pallet
  (\<open>crates/pallets/storage-provider/src/lib.rs\<close>): configuration, records, events,
  errors and the storage items. The pallet's own record fields carry a prefix naming their
  record. A storage item is a field of the record \<open>pstate\<close> under the item's name;
  double maps are keyed by pairs. \<open>balances\<close> is the state of the currency,
  \<open>anchor\<close> the anchor block the call runs in (what
  \<open>T::BlockNumberProvider\<close> returns), \<open>events\<close> the events deposited so
  far. Everything the pallet takes from other crates is a field of \<open>env\<close>.
\<close>

section \<open>Configuration\<close>

record config =
  Treasury :: account
  MinStakePerByte :: nat
  MaxMultiaddrLength :: nat
  MaxMembers :: nat
  MaxPrimaryProviders :: nat
  MinProviderStake :: nat
  MaxChunkSize :: nat
  ChallengeTimeout :: nat
  ChallengeDepositAmount :: nat
  SettlementTimeout :: nat
  RequestTimeout :: nat
  MaxBucketsPerMember :: nat
  DeregisterAnnouncementPeriod :: nat
  MaxChallengesPerDeadline :: nat
  AnchorBlockTimeMillis :: nat

text \<open>
  \<open>max_encoded_len\<close> is derived by macros for the record types; the derived values
  the deposits use are parameters.
\<close>

record encoded_lengths =
  mel_ProviderInfo :: nat
  mel_Member :: nat
  mel_StorageAgreement :: nat
  mel_AccountId :: nat
  mel_Ticket :: nat

datatype MultiSignature =
    Ed25519 "byte list" | Sr25519 "byte list" | Ecdsa "byte list" | Eth "byte list"

datatype MultiSigner =
    Signer_Ed25519 "byte list" | Signer_Sr25519 "byte list" | Signer_Ecdsa "byte list"
  | Signer_Eth "byte list"

text \<open>
  Cryptography of \<open>sp_core\<close> and \<open>sp_runtime\<close>: parsing of raw public
  keys per scheme, the account of a signer, signature verification, and the SCALE encoding
  of account ids.
\<close>

record crypto =
  sr25519_public :: "byte list \<Rightarrow> byte list option"
  ed25519_public :: "byte list \<Rightarrow> byte list option"
  ecdsa_public :: "byte list \<Rightarrow> byte list option"
  keccak_public :: "byte list \<Rightarrow> byte list option"
  into_account :: "MultiSigner \<Rightarrow> account"
  account_id32_new :: "byte list \<Rightarrow> account"
  encode_account :: "account \<Rightarrow> byte list"
  sig_verify :: "MultiSignature \<Rightarrow> byte list \<Rightarrow> account \<Rightarrow> bool"
  blake2_256 :: "byte list \<Rightarrow> H256"

record ('c, 'm) env =
  Cfg :: config
  Mel :: encoded_lengths
  Money :: "'c currency"
  Crypto :: crypto
  MmrLib :: "'m mmr_lib"

datatype RuntimeOrigin = Signed account | Root | Unsigned

section \<open>Records\<close>

record ProviderSettings =
  ps_min_duration :: nat
  ps_max_duration :: nat
  ps_price_per_byte :: nat
  ps_accepting_primary :: bool
  ps_replica_sync_price :: "nat option"
  ps_accepting_extensions :: bool
  ps_max_capacity :: nat
  ps_min_agreement_bytes :: nat

definition ProviderSettings_default :: ProviderSettings where
  "ProviderSettings_default = \<lparr>
     ps_min_duration = 0, ps_max_duration = 2 ^ 32 - 1, ps_price_per_byte = 0,
     ps_accepting_primary = True, ps_replica_sync_price = None, ps_accepting_extensions = True,
     ps_max_capacity = 0, ps_min_agreement_bytes = 0\<rparr>"

record ProviderStats =
  st_registered_at :: nat
  st_agreements_total :: nat
  st_agreements_extended :: nat
  st_agreements_not_extended :: nat
  st_agreements_burned :: nat
  st_total_bytes_committed :: nat
  st_challenges_received_authorized :: nat
  st_challenges_received_public :: nat
  st_challenges_failed :: nat
  st_lifetime_revenue :: nat

definition ProviderStats_default :: ProviderStats where
  "ProviderStats_default = \<lparr>
     st_registered_at = 0, st_agreements_total = 0, st_agreements_extended = 0,
     st_agreements_not_extended = 0, st_agreements_burned = 0, st_total_bytes_committed = 0,
     st_challenges_received_authorized = 0, st_challenges_received_public = 0,
     st_challenges_failed = 0, st_lifetime_revenue = 0\<rparr>"

definition challenges_defended :: "ProviderStats \<Rightarrow> nat" where
  "challenges_defended st =
     saturating_add 32 (st_challenges_received_authorized st) (st_challenges_received_public st)"

definition reputation :: "ProviderStats \<Rightarrow> nat" where
  "reputation st =
     (let defended = challenges_defended st;
          total = defended + st_challenges_failed st
      in if total = 0 then 100 else min (defended * 100 div total) 100)"

record ProviderInfo =
  pi_multiaddr :: "byte list"
  pi_public_key :: "byte list"
  pi_stake :: nat
  pi_committed_bytes :: nat
  pi_settings :: ProviderSettings
  pi_stats :: ProviderStats
  pi_deregister_at :: "nat option"
  pi_deposit :: ticket

record Member =
  m_account :: account
  m_role :: Role
  m_depositor :: account
  m_deposit :: ticket

record Bucket =
  b_members :: "Member list"
  b_visibility :: Visibility
  b_frozen_start_seq :: "nat option"
  b_min_providers :: nat
  b_primary_providers :: "account list"
  b_snapshot :: "BucketSnapshot option"
  b_historical_roots :: "(nat \<times> Commitment) list"
  b_total_snapshots :: nat
  b_creator :: account
  b_deposit :: ticket

record StorageAgreement =
  ag_owner :: account
  ag_max_bytes :: nat
  ag_payment_locked :: nat
  ag_price_per_byte :: nat
  ag_expires_at :: nat
  ag_extensions_blocked :: bool
  ag_role :: ProviderRole
  ag_started_at :: nat
  ag_depositor :: account
  ag_deposit :: ticket

definition escrow :: "StorageAgreement \<Rightarrow> nat" where
  "escrow a =
     (case ag_role a of
        Replica sync_bal _ _ _ \<Rightarrow> saturating_add 128 (ag_payment_locked a) sync_bal
      | Primary \<Rightarrow> ag_payment_locked a)"

record Challenge =
  ch_bucket_id :: BucketId
  ch_provider :: account
  ch_challenger :: account
  ch_commitment :: Commitment
  ch_target :: ChunkLocation
  ch_deposit :: nat
  ch_authorized :: bool
  ch_created_at :: nat

text \<open>
  The arguments are: chunk data, leaf proof and chunk proof; leaf proof; new root, new start
  sequence, admin and admin signature.
\<close>

datatype ChallengeResponse =
    Proof "byte list" MmrProof "H256 list"
  | ChunkOutOfRange MmrProof
  | Deleted H256 nat account MultiSignature
  | Superseded

section \<open>Events and errors\<close>

datatype (plugins only: code) Event =
    ProviderRegistered account nat
  | ProviderDeregistered account nat
  | DeregisterAnnounced account nat
  | DeregisterCancelled account
  | ProviderStakeAdded account nat nat
  | ProviderSettingsUpdated account ProviderSettings
  | ProviderMultiaddrUpdated account "byte list"
  | ExtensionsBlocked BucketId account bool
  | BucketCreated BucketId account
  | BucketFrozen BucketId nat
  | BucketDeleted BucketId
  | BucketVisibilityChanged BucketId Visibility
  | MemberSet BucketId account Role
  | MemberRemoved BucketId account
  | BucketCheckpointed BucketId Commitment "account list"
  | ProviderAddedToBucket BucketId account
  | PrimaryProviderRemoved BucketId account RemovalReason
  | SlashedProviderRemoved BucketId account nat
  | ReplicaSynced BucketId account H256 nat nat
  | ReplicaSyncBalanceToppedUp BucketId account nat nat
  | AgreementToppedUp BucketId account nat nat
  | AgreementExtended BucketId account nat nat
  | AgreementOwnershipTransferred BucketId account account account nat
  | AgreementEnded BucketId account nat nat
  | StorageAgreementEstablished BucketId account account AgreementTerms nat
  | ReplicaAgreementEstablished BucketId account account AgreementTerms nat
  | ChallengeCreated ChallengeId BucketId account account nat
  | ChallengeDefended ChallengeId account nat nat nat
  | ChallengeSlashed ChallengeId account nat

text \<open>
  The pallet's error variants, followed by the origin error and the errors of the currency,
  which the pallet passes on unchanged.
\<close>

datatype (plugins only: code) Error =
    ProviderAlreadyRegistered | ProviderNotFound | InsufficientStake
  | InsufficientStakeForBytes | ProviderHasActiveAgreements | ProviderNotAcceptingPrimary
  | ProviderNotAcceptingReplicas | ProviderNotAcceptingExtensions | ProviderNotSlashed
  | CapacityBelowCommitted | CapacityExceeded | InsufficientStakeForCapacity
  | MinDurationExceedsMaxDuration | MinAgreementBytesExceedsMaxCapacity | DeregisterAnnounced
  | DeregisterNotAnnounced | DeregisterPeriodNotElapsed | BucketNotFound | BucketFrozen
  | NotBucketAdmin | NotBucketWriter | MemberNotFound | CannotDemoteAdmin
  | LastAdminCannotBeRemoved | MaxMembersReached | MaxPrimaryProvidersReached
  | MinProvidersNotMet | InvalidMinProviders | NotAuthorizedForPrivateBucket
  | AgreementNotFound | AgreementAlreadyExists | AgreementExpired | AgreementNotExpired
  | AgreementExtensionsBlocked | NotAgreementOwner | TransferToSelf | DurationTooShort
  | DurationTooLong | PaymentExceedsMax | CannotTerminateReplica | SettlementWindowPassed
  | NotReplica | SyncTooFrequent | InvalidSyncRoot | InsufficientSyncBalance | SelfChallenge
  | ChallengeNotFound | ChallengeExpired | ChallengeNotExpired | NotChallengeProvider
  | InvalidProof | InvalidDeletionClaim | InvalidSupersededClaim | ProviderNotInSnapshot
  | LeafNotInCommitment | ProviderHasPendingChallenges | AgreementHasPendingChallenge
  | TooManyChallengesThisBlock | InvalidSignature | NoSnapshot | SnapshotViolatesFrozen
  | InsufficientSignatures | ArithmeticOverflow | InvalidPublicKey | TooManyBucketsForMember
  | InvalidProviderSignature | TermsExpired | TermsValidityTooLong | NonceMismatch
  | TermsOwnerMismatch | MissingReplicaTerms | UnexpectedReplicaTerms | TermsBucketMismatch
  | InvalidMaxBytesRequest | MaxBytesBelowMinimum | BucketHasPendingChallenge
  | BucketNotEmpty | BadOrigin | CurrencyError currency_error

section \<open>Storage\<close>

record 'c pstate =
  Providers :: "(account, ProviderInfo) fmap"
  AgreementNonces :: "(account, nat) fmap"
  NextBucketId :: BucketId
  Buckets :: "(BucketId, Bucket) fmap"
  StorageAgreements :: "(BucketId \<times> account, StorageAgreement) fmap"
  Challenges :: "(nat \<times> nat, Challenge) fmap"
  NextChallengeIndex :: "(nat, nat) fmap"
  PendingChallenges :: "(account, nat) fmap"
  PendingChallengesByBucket :: "(BucketId \<times> account, nat) fmap"
  MemberBuckets :: "(account, BucketId list) fmap"
  events :: "Event list"
  balances :: 'c
  anchor :: nat

definition deposit_event :: "Event \<Rightarrow> 'c pstate \<Rightarrow> 'c pstate" where
  "deposit_event e s = s\<lparr>events := events s @ [e]\<rparr>"

definition ensure_signed :: "RuntimeOrigin \<Rightarrow> (account \<Rightarrow> Error + 'a) \<Rightarrow> Error + 'a" where
  "ensure_signed origin k = (case origin of Signed who \<Rightarrow> k who | _ \<Rightarrow> Inl BadOrigin)"

lemma ensure_signed_Inr [result_simps]:
  "ensure_signed origin k = Inr y \<longleftrightarrow> (\<exists>who. origin = Signed who \<and> k who = Inr y)"
  by (auto simp: ensure_signed_def split: RuntimeOrigin.split)

lemma ensure_signed_Signed [simp]: "ensure_signed (Signed who) k = k who"
  by (simp add: ensure_signed_def)

definition integrity_test :: "config \<Rightarrow> bool" where
  "integrity_test cfg \<longleftrightarrow>
     ChallengeTimeout cfg < DeregisterAnnouncementPeriod cfg \<and>
     DEFAULT_CHUNK_SIZE \<le> MaxChunkSize cfg \<and> 0 < AnchorBlockTimeMillis cfg"

text \<open>\<open>Providers::mutate\<close> on an existing entry; a missing entry stays missing.\<close>

definition mutate_provider :: "account \<Rightarrow> (ProviderInfo \<Rightarrow> ProviderInfo) \<Rightarrow> 'c pstate \<Rightarrow> 'c pstate" where
  "mutate_provider p f s =
     (case fmlookup (Providers s) p of
        None \<Rightarrow> s
      | Some info \<Rightarrow> s\<lparr>Providers := fmupd p (f info) (Providers s)\<rparr>)"

definition mutate_stats :: "(ProviderStats \<Rightarrow> ProviderStats) \<Rightarrow> ProviderInfo \<Rightarrow> ProviderInfo" where
  "mutate_stats f info = info\<lparr>pi_stats := f (pi_stats info)\<rparr>"

text \<open>The only pallet code that runs when an account is reaped.\<close>

definition on_killed_account :: "account \<Rightarrow> 'c pstate \<Rightarrow> 'c pstate" where
  "on_killed_account who s = s\<lparr>AgreementNonces := fmdrop who (AgreementNonces s)\<rparr>"

section \<open>Escrow, statistics\<close>

definition sync_part :: "ProviderRole \<Rightarrow> nat" where
  "sync_part r = (case r of Primary \<Rightarrow> 0 | Replica b _ _ _ \<Rightarrow> b)"

lemma sync_part_simps [simp]:
  "sync_part Primary = 0"
  "sync_part (Replica b p i l) = b"
  by (simp_all add: sync_part_def)

lemma escrow_exact:
  "ag_payment_locked a + sync_part (ag_role a) < 2 ^ 128 \<Longrightarrow>
   escrow a = ag_payment_locked a + sync_part (ag_role a)"
  by (cases "ag_role a") (simp_all add: escrow_def saturating_add_exact)

lemma mutate_provider_select [simp]:
  "AgreementNonces (mutate_provider p f s) = AgreementNonces s"
  "NextBucketId (mutate_provider p f s) = NextBucketId s"
  "Buckets (mutate_provider p f s) = Buckets s"
  "StorageAgreements (mutate_provider p f s) = StorageAgreements s"
  "Challenges (mutate_provider p f s) = Challenges s"
  "NextChallengeIndex (mutate_provider p f s) = NextChallengeIndex s"
  "PendingChallenges (mutate_provider p f s) = PendingChallenges s"
  "PendingChallengesByBucket (mutate_provider p f s) = PendingChallengesByBucket s"
  "MemberBuckets (mutate_provider p f s) = MemberBuckets s"
  "events (mutate_provider p f s) = events s"
  "balances (mutate_provider p f s) = balances s"
  "anchor (mutate_provider p f s) = anchor s"
  by (simp_all add: mutate_provider_def split: option.split)

lemma mutate_provider_lookup [simp]:
  "fmlookup (Providers (mutate_provider p f s)) q =
     (if q = p then map_option f (fmlookup (Providers s) p) else fmlookup (Providers s) q)"
  by (simp add: mutate_provider_def split: option.split)

lemma deposit_event_select [simp]:
  "Providers (deposit_event e s) = Providers s"
  "AgreementNonces (deposit_event e s) = AgreementNonces s"
  "NextBucketId (deposit_event e s) = NextBucketId s"
  "Buckets (deposit_event e s) = Buckets s"
  "StorageAgreements (deposit_event e s) = StorageAgreements s"
  "Challenges (deposit_event e s) = Challenges s"
  "NextChallengeIndex (deposit_event e s) = NextChallengeIndex s"
  "PendingChallenges (deposit_event e s) = PendingChallenges s"
  "PendingChallengesByBucket (deposit_event e s) = PendingChallengesByBucket s"
  "MemberBuckets (deposit_event e s) = MemberBuckets s"
  "events (deposit_event e s) = events s @ [e]"
  "balances (deposit_event e s) = balances s"
  "anchor (deposit_event e s) = anchor s"
  by (simp_all add: deposit_event_def)

lemma mutate_stats_select [simp]:
  "pi_multiaddr (mutate_stats f i) = pi_multiaddr i"
  "pi_public_key (mutate_stats f i) = pi_public_key i"
  "pi_stake (mutate_stats f i) = pi_stake i"
  "pi_committed_bytes (mutate_stats f i) = pi_committed_bytes i"
  "pi_settings (mutate_stats f i) = pi_settings i"
  "pi_stats (mutate_stats f i) = f (pi_stats i)"
  "pi_deregister_at (mutate_stats f i) = pi_deregister_at i"
  "pi_deposit (mutate_stats f i) = pi_deposit i"
  by (simp_all add: mutate_stats_def)

end
