(* ===== verification/Funds.thy ===== *)
theory Funds
  imports Pallet_Types
begin

text \<open>
  Every movement of money the pallet makes (\<open>impls/funds.rs\<close>) and the footprints
  of the storage deposits (\<open>impls/deposits.rs\<close>). The helpers act on the state of
  the currency. A currency operation that returns an error leaves its state unchanged, so
  the two helpers that ignore errors continue with the old state.

  The locale \<open>pallet_env\<close> fixes an environment whose currency satisfies
  \<open>fungible\<close>; inside it each helper has one lemma giving the exact change of the
  amounts on hold, in terms of \<open>add_hold\<close> and \<open>sub_hold\<close>.
\<close>

named_theorems money_laws "effect of the fund helpers on the amounts on hold"

section \<open>Fund helpers\<close>

definition currency_result :: "currency_error + 'a \<Rightarrow> Error + 'a" where
  "currency_result r = (case r of Inl e \<Rightarrow> Inl (CurrencyError e) | Inr x \<Rightarrow> Inr x)"

definition release_exact ::
    "('c, 'm) env \<Rightarrow> HoldReason \<Rightarrow> account \<Rightarrow> nat \<Rightarrow> 'c \<Rightarrow> Error + 'c" where
  "release_exact E reason who amount c =
     (if amount = 0 then Inr c
      else attempt (currency_result (cur_release (Money E) reason who amount Exact c))
             (\<lambda>(_, c'). Inr c'))"

definition hold_stake :: "('c, 'm) env \<Rightarrow> account \<Rightarrow> nat \<Rightarrow> 'c \<Rightarrow> Error + 'c" where
  "hold_stake E who amount c = currency_result (cur_hold (Money E) ProviderStake who amount c)"

definition release_stake :: "('c, 'm) env \<Rightarrow> account \<Rightarrow> nat \<Rightarrow> 'c \<Rightarrow> Error + 'c" where
  "release_stake E who amount c = release_exact E ProviderStake who amount c"

definition hold_payment :: "('c, 'm) env \<Rightarrow> account \<Rightarrow> nat \<Rightarrow> 'c \<Rightarrow> Error + 'c" where
  "hold_payment E who amount c = currency_result (cur_hold (Money E) AgreementPayment who amount c)"

definition hold_payment_from ::
    "('c, 'm) env \<Rightarrow> account \<Rightarrow> account \<Rightarrow> nat \<Rightarrow> 'c \<Rightarrow> Error + 'c" where
  "hold_payment_from E payer owner amount c =
     (if amount = 0 then Inr c
      else if payer = owner then hold_payment E owner amount c
      else attempt (currency_result (cur_transfer_and_hold (Money E) AgreementPayment payer owner amount
                      Exact Preserve Polite c))
             (\<lambda>(_, c'). Inr c'))"

definition release_payment :: "('c, 'm) env \<Rightarrow> account \<Rightarrow> nat \<Rightarrow> 'c \<Rightarrow> Error + 'c" where
  "release_payment E who amount c = release_exact E AgreementPayment who amount c"

definition settle_payment ::
    "('c, 'm) env \<Rightarrow> account \<Rightarrow> account \<Rightarrow> nat \<Rightarrow> 'c \<Rightarrow> Error + 'c" where
  "settle_payment E owner dest amount c =
     (if amount = 0 then Inr c
      else attempt (currency_result (cur_transfer_on_hold (Money E) AgreementPayment owner dest amount
                      Exact Free Polite c))
             (\<lambda>(_, c'). Inr c'))"

definition transfer_payment_on_hold ::
    "('c, 'm) env \<Rightarrow> account \<Rightarrow> account \<Rightarrow> nat \<Rightarrow> 'c \<Rightarrow> Error + 'c" where
  "transfer_payment_on_hold E src dst amount c =
     (if amount = 0 then Inr c
      else attempt (currency_result (cur_transfer_on_hold (Money E) AgreementPayment src dst amount
                      Exact OnHold Polite c))
             (\<lambda>(_, c'). Inr c'))"

definition hold_challenge_deposit :: "('c, 'm) env \<Rightarrow> account \<Rightarrow> nat \<Rightarrow> 'c \<Rightarrow> Error + 'c" where
  "hold_challenge_deposit E who amount c =
     currency_result (cur_hold (Money E) ChallengeDeposit who amount c)"

definition release_challenge_deposit :: "('c, 'm) env \<Rightarrow> account \<Rightarrow> nat \<Rightarrow> 'c \<Rightarrow> 'c" where
  "release_challenge_deposit E who amount c =
     (case cur_release (Money E) ChallengeDeposit who amount BestEffort c of
        Inl _ \<Rightarrow> c
      | Inr (_, c') \<Rightarrow> c')"

definition settle_challenge_deposit ::
    "('c, 'm) env \<Rightarrow> account \<Rightarrow> account \<Rightarrow> nat \<Rightarrow> nat \<Rightarrow> 'c \<Rightarrow> nat \<times> 'c" where
  "settle_challenge_deposit E challenger provider deposit provider_share c =
     (let (moved, c1) =
            (if provider_share = 0 then (0, c)
             else case cur_transfer_on_hold (Money E) ChallengeDeposit challenger provider provider_share
                         BestEffort Free Polite c of
                    Inl _ \<Rightarrow> (0, c)
                  | Inr (m, c') \<Rightarrow> (m, c'))
      in (moved, release_challenge_deposit E challenger (saturating_sub deposit moved) c1))"

definition slash_stake_to_treasury :: "('c, 'm) env \<Rightarrow> account \<Rightarrow> nat \<Rightarrow> 'c \<Rightarrow> nat \<times> 'c" where
  "slash_stake_to_treasury E who amount c =
     (if amount = 0 then (0, c)
      else
        let (credit, not_slashed, c1) = cur_slash (Money E) ProviderStake who amount c;
            slashed = saturating_sub amount not_slashed
        in (slashed,
            case cur_resolve (Money E) (Treasury (Cfg E)) credit c1 of
              Inl dropped \<Rightarrow> cur_drop_credit (Money E) dropped c1
            | Inr c2 \<Rightarrow> c2))"

text \<open>\<open>T::StorageDeposit::new\<close> and \<open>TicketOf::drop\<close>.\<close>

definition ticket_new :: "('c, 'm) env \<Rightarrow> account \<Rightarrow> Footprint \<Rightarrow> 'c \<Rightarrow> Error + ticket \<times> 'c" where
  "ticket_new E who fp c = currency_result (cur_ticket_new (Money E) who fp c)"

definition ticket_drop :: "('c, 'm) env \<Rightarrow> ticket \<Rightarrow> account \<Rightarrow> 'c \<Rightarrow> Error + 'c" where
  "ticket_drop E t who c = currency_result (cur_ticket_drop (Money E) t who c)"

section \<open>Footprints\<close>

definition provider_footprint :: "('c, 'm) env \<Rightarrow> Footprint" where
  "provider_footprint E = \<lparr>fp_count = 1, fp_size = mel_ProviderInfo (Mel E)\<rparr>"

definition member_footprint :: "('c, 'm) env \<Rightarrow> Footprint" where
  "member_footprint E = \<lparr>fp_count = 1, fp_size = mel_Member (Mel E) + 8\<rparr>"

definition agreement_footprint :: "('c, 'm) env \<Rightarrow> Footprint" where
  "agreement_footprint E = \<lparr>fp_count = 1, fp_size = mel_StorageAgreement (Mel E)\<rparr>"

definition bucket_footprint :: "('c, 'm) env \<Rightarrow> Footprint" where
  "bucket_footprint E =
     (let one_member = 1 + mel_Member (Mel E);
          no_frozen_start_seq = 1; empty_primary_providers = 1; no_snapshot = 1
      in \<lparr>fp_count = 1,
          fp_size = one_member + 1 + no_frozen_start_seq + 4 + empty_primary_providers + no_snapshot
            + 6 * (4 + (32 + 8 + 8)) + 4 + mel_AccountId (Mel E) + mel_Ticket (Mel E)\<rparr>)"

section \<open>Effect on the amounts on hold\<close>

definition holds :: "('c, 'm) env \<Rightarrow> 'c \<Rightarrow> HoldReason \<Rightarrow> account \<Rightarrow> nat" where
  "holds E c r w = cur_on_hold (Money E) r w c"

definition money_ok :: "('c, 'm) env \<Rightarrow> 'c \<Rightarrow> bool" where
  "money_ok E c = cur_ok (Money E) c"

definition add_hold :: "HoldReason \<Rightarrow> account \<Rightarrow> nat \<Rightarrow> (HoldReason \<Rightarrow> account \<Rightarrow> nat) \<Rightarrow> HoldReason \<Rightarrow> account \<Rightarrow> nat" where
  "add_hold r w a h r' w' = h r' w' + (if r' = r \<and> w' = w then a else 0)"

definition sub_hold :: "HoldReason \<Rightarrow> account \<Rightarrow> nat \<Rightarrow> (HoldReason \<Rightarrow> account \<Rightarrow> nat) \<Rightarrow> HoldReason \<Rightarrow> account \<Rightarrow> nat" where
  "sub_hold r w a h r' w' = h r' w' - (if r' = r \<and> w' = w then a else 0)"

lemma add_hold_other [simp]: "r' \<noteq> r \<Longrightarrow> add_hold r w a h r' = h r'"
  and sub_hold_other [simp]: "r' \<noteq> r \<Longrightarrow> sub_hold r w a h r' = h r'"
  by (simp_all add: fun_eq_iff add_hold_def sub_hold_def)

lemma add_hold_same [simp]: "add_hold r w a h r w' = h r w' + (if w' = w then a else 0)"
  and sub_hold_same [simp]: "sub_hold r w a h r w' = h r w' - (if w' = w then a else 0)"
  by (simp_all add: add_hold_def sub_hold_def)

lemma hold_zero [simp]: "add_hold r w 0 h = h" "sub_hold r w 0 h = h"
  by (simp_all add: fun_eq_iff add_hold_def sub_hold_def)

lemma sub_hold_sub_hold: "sub_hold r w a (sub_hold r w b h) = sub_hold r w (b + a) h"
  by (auto simp: fun_eq_iff sub_hold_def)

lemma currency_result_Inr [result_simps]: "currency_result r = Inr x \<longleftrightarrow> r = Inr x"
  by (simp add: currency_result_def split: sum.split)

locale pallet_env = fungible "Money E" for E :: "('c, 'm) env"
begin

lemma holds_bound: "money_ok E c \<Longrightarrow> holds E c r w < 2 ^ 128"
  unfolding holds_def money_ok_def by (rule on_hold_bound)

lemma cur_hold_holds:
  assumes "money_ok E c" "cur_hold (Money E) r w a c = Inr c'"
  shows "money_ok E c' \<and> holds E c' = add_hold r w a (holds E c)"
  using hold_law [OF assms(1) [unfolded money_ok_def] assms(2)]
  by (auto simp: money_ok_def holds_def add_hold_def fun_eq_iff)

lemma hold_stake_holds [money_laws]:
  "money_ok E c \<Longrightarrow> hold_stake E w a c = Inr c' \<Longrightarrow>
   money_ok E c' \<and> holds E c' = add_hold ProviderStake w a (holds E c)"
  by (simp add: hold_stake_def result_simps cur_hold_holds)

lemma hold_payment_holds [money_laws]:
  "money_ok E c \<Longrightarrow> hold_payment E w a c = Inr c' \<Longrightarrow>
   money_ok E c' \<and> holds E c' = add_hold AgreementPayment w a (holds E c)"
  by (simp add: hold_payment_def result_simps cur_hold_holds)

lemma hold_challenge_deposit_holds [money_laws]:
  "money_ok E c \<Longrightarrow> hold_challenge_deposit E w a c = Inr c' \<Longrightarrow>
   money_ok E c' \<and> holds E c' = add_hold ChallengeDeposit w a (holds E c)"
  by (simp add: hold_challenge_deposit_def result_simps cur_hold_holds)

lemma release_exact_holds:
  assumes "money_ok E c" "release_exact E r w a c = Inr c'"
  shows "money_ok E c' \<and> a \<le> holds E c r w \<and> holds E c' = sub_hold r w a (holds E c)"
proof (cases "a = 0")
  case False
  with assms(2) obtain m where "cur_release (Money E) r w a Exact c = Inr (m, c')"
    by (auto simp: release_exact_def result_simps)
  from release_law [OF assms(1) [unfolded money_ok_def] this] show ?thesis
    by (auto simp: money_ok_def holds_def sub_hold_def fun_eq_iff)
qed (use assms in \<open>simp add: release_exact_def\<close>)

lemma release_exact_succeeds:
  "money_ok E c \<Longrightarrow> a \<le> holds E c r w \<Longrightarrow> \<exists>c'. release_exact E r w a c = Inr c'"
  using release_succeeds [of c a r w Exact]
  by (auto simp: release_exact_def money_ok_def holds_def currency_result_def)

lemma release_stake_holds [money_laws]:
  "money_ok E c \<Longrightarrow> release_stake E w a c = Inr c' \<Longrightarrow>
   money_ok E c' \<and> a \<le> holds E c ProviderStake w \<and> holds E c' = sub_hold ProviderStake w a (holds E c)"
  unfolding release_stake_def by (rule release_exact_holds)

lemma release_payment_holds [money_laws]:
  "money_ok E c \<Longrightarrow> release_payment E w a c = Inr c' \<Longrightarrow>
   money_ok E c' \<and> a \<le> holds E c AgreementPayment w \<and>
   holds E c' = sub_hold AgreementPayment w a (holds E c)"
  unfolding release_payment_def by (rule release_exact_holds)

lemma hold_payment_from_holds [money_laws]:
  assumes "money_ok E c" "hold_payment_from E payer owner a c = Inr c'"
  shows "money_ok E c' \<and> holds E c' = add_hold AgreementPayment owner a (holds E c)"
proof (cases "a = 0 \<or> payer = owner")
  case True
  with assms show ?thesis
    by (auto simp: hold_payment_from_def dest: hold_payment_holds split: if_splits)
next
  case False
  with assms(2) obtain m where
    "cur_transfer_and_hold (Money E) AgreementPayment payer owner a Exact Preserve Polite c = Inr (m, c')"
    by (auto simp: hold_payment_from_def result_simps)
  from transfer_and_hold_law [OF assms(1) [unfolded money_ok_def] _ this] False show ?thesis
    by (auto simp: money_ok_def holds_def add_hold_def fun_eq_iff)
qed

lemma settle_payment_holds [money_laws]:
  assumes "money_ok E c" "settle_payment E owner dest a c = Inr c'"
  shows "money_ok E c' \<and> a \<le> holds E c AgreementPayment owner \<and>
    holds E c' = sub_hold AgreementPayment owner a (holds E c)"
proof (cases "a = 0")
  case False
  with assms(2) obtain m where
    "cur_transfer_on_hold (Money E) AgreementPayment owner dest a Exact Free Polite c = Inr (m, c')"
    by (auto simp: settle_payment_def result_simps)
  from transfer_free_law [OF assms(1) [unfolded money_ok_def] this] show ?thesis
    by (auto simp: money_ok_def holds_def sub_hold_def fun_eq_iff)
qed (use assms in \<open>simp add: settle_payment_def\<close>)

lemma settle_payment_paid:
  assumes "money_ok E c" "settle_payment E owner dest a c = Inr c'"
  shows "cur_balance (Money E) dest c' = cur_balance (Money E) dest c + a"
proof (cases "a = 0")
  case False
  with assms(2) obtain m where
    "cur_transfer_on_hold (Money E) AgreementPayment owner dest a Exact Free Polite c = Inr (m, c')"
    by (auto simp: settle_payment_def result_simps)
  from transfer_free_law [OF assms(1) [unfolded money_ok_def] this] show ?thesis by auto
qed (use assms in \<open>simp add: settle_payment_def\<close>)

lemma transfer_payment_on_hold_holds [money_laws]:
  assumes "money_ok E c" "src \<noteq> dst" "transfer_payment_on_hold E src dst a c = Inr c'"
  shows "money_ok E c' \<and> a \<le> holds E c AgreementPayment src \<and>
    holds E c' = add_hold AgreementPayment dst a (sub_hold AgreementPayment src a (holds E c))"
proof (cases "a = 0")
  case False
  with assms(3) obtain m where
    "cur_transfer_on_hold (Money E) AgreementPayment src dst a Exact OnHold Polite c = Inr (m, c')"
    by (auto simp: transfer_payment_on_hold_def result_simps)
  from transfer_held_law [OF assms(1) [unfolded money_ok_def] assms(2) this] show ?thesis
    by (auto simp: money_ok_def holds_def sub_hold_def add_hold_def fun_eq_iff)
qed (use assms in \<open>simp add: transfer_payment_on_hold_def\<close>)

lemma release_challenge_deposit_holds:
  assumes "money_ok E c" "a \<le> holds E c ChallengeDeposit w"
  shows "money_ok E (release_challenge_deposit E w a c) \<and>
    holds E (release_challenge_deposit E w a c) = sub_hold ChallengeDeposit w a (holds E c)"
proof -
  obtain c' where c': "cur_release (Money E) ChallengeDeposit w a BestEffort c = Inr (a, c')"
    using release_succeeds [of c a ChallengeDeposit w BestEffort] assms
    by (auto simp: money_ok_def holds_def)
  from release_law [OF assms(1) [unfolded money_ok_def] c'] c' show ?thesis
    by (auto simp: release_challenge_deposit_def money_ok_def holds_def sub_hold_def fun_eq_iff)
qed

lemma settle_challenge_deposit_holds:
  assumes ok: "money_ok E c" and covered: "d \<le> holds E c ChallengeDeposit w" and share: "share \<le> d"
    and res: "settle_challenge_deposit E w p d share c = (moved, c')"
  shows "money_ok E c' \<and> moved \<le> share \<and> holds E c' = sub_hold ChallengeDeposit w d (holds E c)"
proof -
  obtain c1 where c1: "money_ok E c1" "holds E c1 = sub_hold ChallengeDeposit w moved (holds E c)"
    "moved \<le> share" and c': "c' = release_challenge_deposit E w (d - moved) c1"
  proof (cases "share = 0 \<or> is_ok (cur_transfer_on_hold (Money E) ChallengeDeposit w p share
      BestEffort Free Polite c) = False")
    case True
    then have "moved = 0" "c' = release_challenge_deposit E w (d - moved) c"
      using res by (auto simp: settle_challenge_deposit_def is_ok_def split: sum.splits if_splits)
    with that [of c] ok show ?thesis by simp
  next
    case False
    then obtain m c2 where t: "cur_transfer_on_hold (Money E) ChallengeDeposit w p share
        BestEffort Free Polite c = Inr (m, c2)"
      by (auto simp: is_ok_def split: sum.splits)
    with False res have "moved = m" "c' = release_challenge_deposit E w (d - moved) c2"
      by (auto simp: settle_challenge_deposit_def)
    moreover from transfer_free_law [OF ok [unfolded money_ok_def] t] have
      "money_ok E c2" "m \<le> share" "holds E c2 = sub_hold ChallengeDeposit w m (holds E c)"
      by (auto simp: money_ok_def holds_def sub_hold_def fun_eq_iff)
    ultimately show ?thesis using that by simp
  qed
  have "d - moved \<le> holds E c1 ChallengeDeposit w" using c1(2) covered by simp
  from release_challenge_deposit_holds [OF c1(1) this] c1 share show ?thesis
    by (simp add: c' sub_hold_sub_hold)
qed

lemma slash_stake_holds:
  assumes ok: "money_ok E c" and covered: "a \<le> holds E c ProviderStake w"
    and res: "slash_stake_to_treasury E w a c = (slashed, c')"
  shows "money_ok E c' \<and> slashed = a \<and> holds E c' = sub_hold ProviderStake w a (holds E c)"
proof (cases "a = 0")
  case False
  obtain credit missing c1 where sl: "cur_slash (Money E) ProviderStake w a c = (credit, missing, c1)"
    by (cases "cur_slash (Money E) ProviderStake w a c") auto
  from slash_law [OF ok [unfolded money_ok_def] sl] covered have
    c1: "cur_ok (Money E) c1" "missing = 0" "holds E c1 = sub_hold ProviderStake w a (holds E c)"
    by (auto simp: holds_def sub_hold_def fun_eq_iff)
  show ?thesis
  proof (cases "cur_resolve (Money E) (Treasury (Cfg E)) credit c1")
    case (Inl dropped)
    then show ?thesis using False res sl c1 drop_credit_law [OF c1(1), of dropped]
      by (auto simp: slash_stake_to_treasury_def money_ok_def holds_def fun_eq_iff)
  next
    case (Inr c2)
    then show ?thesis using False res sl c1 resolve_law [OF c1(1) Inr]
      by (auto simp: slash_stake_to_treasury_def money_ok_def holds_def fun_eq_iff)
  qed
qed (use assms in \<open>simp add: slash_stake_to_treasury_def\<close>)

lemma ticket_new_holds [money_laws]:
  assumes "money_ok E c" "ticket_new E w fp c = Inr (t, c')"
  shows "money_ok E c' \<and> holds E c' = add_hold StorageDeposit w t (holds E c)"
  using assms ticket_new_law [of c w fp t c']
  by (auto simp: ticket_new_def result_simps money_ok_def holds_def add_hold_def fun_eq_iff)

lemma ticket_drop_holds [money_laws]:
  assumes "money_ok E c" "ticket_drop E t w c = Inr c'"
  shows "money_ok E c' \<and> holds E c' = sub_hold StorageDeposit w t (holds E c)"
  using assms ticket_drop_law [of c t w c']
  by (auto simp: ticket_drop_def result_simps money_ok_def holds_def sub_hold_def fun_eq_iff)

lemma ticket_drop_succeeds':
  "money_ok E c \<Longrightarrow> t \<le> holds E c StorageDeposit w \<Longrightarrow> \<exists>c'. ticket_drop E t w c = Inr c'"
  using ticket_drop_succeeds [of c t w]
  by (auto simp: ticket_drop_def money_ok_def holds_def currency_result_def)

end

section \<open>An environment over the ledger\<close>

definition ledger_environment ::
    "config \<Rightarrow> encoded_lengths \<Rightarrow> ledger_config \<Rightarrow> crypto \<Rightarrow> 'm mmr_lib \<Rightarrow> (ledger, 'm) env" where
  "ledger_environment cfg mel lcfg cr lib =
     \<lparr>Cfg = cfg, Mel = mel, Money = ledger_currency lcfg, Crypto = cr, MmrLib = lib\<rparr>"

interpretation ledger_env: pallet_env "ledger_environment cfg mel lcfg cr lib"
  for cfg mel lcfg cr lib
  by (simp add: pallet_env_def ledger_environment_def ledger_money.fungible_axioms)

end
