(* ===== verification/Signatures.thy ===== *)
theory Signatures
  imports Funds
begin

text \<open>
  Signature checks (\<open>impls/signatures.rs\<close>): registered providers verify under their
  registered public key, any other account under its own key bytes, and quotes under the
  hash of a context prefix and the encoded terms. Public key parsing and signature
  verification are those of the environment.
\<close>

definition plain_account_verifies ::
    "('c, 'm) env \<Rightarrow> MultiSignature \<Rightarrow> byte list \<Rightarrow> byte list \<Rightarrow> bool option" where
  "plain_account_verifies E signature message encoded_signer =
     (if length encoded_signer = 32
      then Some (sig_verify (Crypto E) signature message (account_id32_new (Crypto E) encoded_signer))
      else None)"

definition expected_signer_account ::
    "('c, 'm) env \<Rightarrow> byte list \<Rightarrow> MultiSignature \<Rightarrow> Error + account" where
  "expected_signer_account E public_key signature =
     (case signature of
        Sr25519 _ \<Rightarrow> ok_or (sr25519_public (Crypto E) public_key) InvalidPublicKey
                      (\<lambda>k. Inr (into_account (Crypto E) (Signer_Sr25519 k)))
      | Ed25519 _ \<Rightarrow> ok_or (ed25519_public (Crypto E) public_key) InvalidPublicKey
                      (\<lambda>k. Inr (into_account (Crypto E) (Signer_Ed25519 k)))
      | Ecdsa _ \<Rightarrow> ok_or (ecdsa_public (Crypto E) public_key) InvalidPublicKey
                      (\<lambda>k. Inr (into_account (Crypto E) (Signer_Ecdsa k)))
      | Eth _ \<Rightarrow> ok_or (keccak_public (Crypto E) public_key) InvalidPublicKey
                      (\<lambda>k. Inr (into_account (Crypto E) (Signer_Eth k))))"

definition verify_signature ::
    "('c, 'm) env \<Rightarrow> MultiSignature \<Rightarrow> byte list \<Rightarrow> account \<Rightarrow> 'c pstate \<Rightarrow> Error + unit" where
  "verify_signature E signature message signer s =
     (case fmlookup (Providers s) signer of
        None \<Rightarrow>
          (case plain_account_verifies E signature message (encode_account (Crypto E) signer) of
             None \<Rightarrow> Inl InvalidPublicKey
           | Some ok \<Rightarrow> ensure ok InvalidSignature (Inr ()))
      | Some provider \<Rightarrow>
          attempt (expected_signer_account E (pi_public_key provider) signature) (\<lambda>account_id.
          ensure (sig_verify (Crypto E) signature message account_id) InvalidSignature (Inr ())))"

definition verify_terms_signature ::
    "('c, 'm) env \<Rightarrow> ProviderInfo \<Rightarrow> AgreementTerms \<Rightarrow> MultiSignature \<Rightarrow> byte list \<Rightarrow> Error + unit" where
  "verify_terms_signature E provider_info terms sig context =
     attempt (expected_signer_account E (pi_public_key provider_info) sig) (\<lambda>account_id.
     (let payload = context @ encode_terms (encode_account (Crypto E)) terms;
          hash = blake2_256 (Crypto E) payload
      in ensure (sig_verify (Crypto E) sig (as_bytes hash) account_id) InvalidProviderSignature (Inr ())))"

lemma verify_signature_registered:
  assumes "verify_signature E sig msg p s = Inr ()" "fmlookup (Providers s) p = Some info"
  shows "\<exists>acc. expected_signer_account E (pi_public_key info) sig = Inr acc \<and>
    sig_verify (Crypto E) sig msg acc"
  using assms by (auto simp: verify_signature_def result_simps)

end
