(* ===== verification/Invariant.thy ===== *)
theory Invariant
  imports Signatures
begin

text \<open>
  The invariant of the pallet's storage. It is a conjunction of independent parts, each a
  predicate on the storage items it relates, so that an operation only has to be checked
  against the parts whose items it writes. Every part is stated for all accounts, also
  those without records, and is therefore stronger than the corresponding check of
  \<open>impls/try_state.rs\<close>.
\<close>

section \<open>Totals\<close>

definition stake_of :: "(account, ProviderInfo) fmap \<Rightarrow> account \<Rightarrow> nat" where
  "stake_of ps w = (case fmlookup ps w of None \<Rightarrow> 0 | Some i \<Rightarrow> pi_stake i)"

definition provider_ticket :: "(account, ProviderInfo) fmap \<Rightarrow> account \<Rightarrow> nat" where
  "provider_ticket ps w = (case fmlookup ps w of None \<Rightarrow> 0 | Some i \<Rightarrow> pi_deposit i)"

definition committed :: "(BucketId \<times> account, StorageAgreement) fmap \<Rightarrow> account \<Rightarrow> nat" where
  "committed ags p = fmsum (\<lambda>k a. if snd k = p then ag_max_bytes a else 0) ags"

definition full_escrow :: "StorageAgreement \<Rightarrow> nat" where
  "full_escrow a = ag_payment_locked a + sync_part (ag_role a)"

definition escrowed :: "(BucketId \<times> account, StorageAgreement) fmap \<Rightarrow> account \<Rightarrow> nat" where
  "escrowed ags w = fmsum (\<lambda>_ a. if ag_owner a = w then full_escrow a else 0) ags"

definition agreement_tickets :: "(BucketId \<times> account, StorageAgreement) fmap \<Rightarrow> account \<Rightarrow> nat" where
  "agreement_tickets ags w = fmsum (\<lambda>_ a. if ag_depositor a = w then ag_deposit a else 0) ags"

definition member_tickets :: "Member list \<Rightarrow> account \<Rightarrow> nat" where
  "member_tickets ms w = sum_list (map (\<lambda>m. if m_depositor m = w then m_deposit m else 0) ms)"

definition tickets_of_bucket :: "Bucket \<Rightarrow> account \<Rightarrow> nat" where
  "tickets_of_bucket b w = (if b_creator b = w then b_deposit b else 0) + member_tickets (b_members b) w"

definition bucket_tickets :: "(BucketId, Bucket) fmap \<Rightarrow> account \<Rightarrow> nat" where
  "bucket_tickets bs w = fmsum (\<lambda>_ b. tickets_of_bucket b w) bs"

definition challenge_deposits :: "(nat \<times> nat, Challenge) fmap \<Rightarrow> account \<Rightarrow> nat" where
  "challenge_deposits chs w = fmsum (\<lambda>_ c. if ch_challenger c = w then ch_deposit c else 0) chs"

definition open_challenges :: "(nat \<times> nat, Challenge) fmap \<Rightarrow> account \<Rightarrow> nat" where
  "open_challenges chs p = fmsum (\<lambda>_ c. if ch_provider c = p then 1 else 0) chs"

definition open_challenges_on :: "(nat \<times> nat, Challenge) fmap \<Rightarrow> BucketId \<times> account \<Rightarrow> nat" where
  "open_challenges_on chs k = fmsum (\<lambda>_ c. if (ch_bucket_id c, ch_provider c) = k then 1 else 0) chs"

definition total_challenges :: "(nat \<times> nat, Challenge) fmap \<Rightarrow> nat" where
  "total_challenges chs = fmsum (\<lambda>_ _. 1) chs"

lemmas totals_defs = committed_def escrowed_def agreement_tickets_def bucket_tickets_def
  challenge_deposits_def open_challenges_def open_challenges_on_def total_challenges_def

section \<open>Parts\<close>

definition inv_committed ::
    "(account, ProviderInfo) fmap \<Rightarrow> (BucketId \<times> account, StorageAgreement) fmap \<Rightarrow> bool" where
  "inv_committed ps ags \<longleftrightarrow>
     (\<forall>p i. fmlookup ps p = Some i \<longrightarrow> pi_committed_bytes i = committed ags p \<and> pi_committed_bytes i < 2 ^ 64) \<and>
     (\<forall>b p a. fmlookup ags (b, p) = Some a \<longrightarrow> fmlookup ps p \<noteq> None \<and> 0 < ag_max_bytes a)"

definition bucket_ok :: "('c, 'm) env \<Rightarrow> Bucket \<Rightarrow> bool" where
  "bucket_ok E B \<longleftrightarrow>
     distinct (b_primary_providers B) \<and> length (b_primary_providers B) \<le> MaxPrimaryProviders (Cfg E) \<and>
     distinct (map m_account (b_members B)) \<and> length (b_members B) \<le> MaxMembers (Cfg E) \<and>
     (\<exists>m\<in>set (b_members B). m_role m = Admin) \<and>
     1 \<le> b_min_providers B \<and> length (b_historical_roots B) = 6 \<and>
     (\<forall>sn. b_snapshot B = Some sn \<longrightarrow> length (primary_signers sn) = length (b_primary_providers B)) \<and>
     (\<forall>f. b_frozen_start_seq B = Some f \<longrightarrow>
        (\<exists>sn. b_snapshot B = Some sn \<and> start_seq (bs_commitment sn) = f))"

definition primary_agreements ::
    "(BucketId \<times> account, StorageAgreement) fmap \<Rightarrow> BucketId \<Rightarrow> account set" where
  "primary_agreements ags b = {p. \<exists>a. fmlookup ags (b, p) = Some a \<and> ag_role a = Primary}"

definition inv_buckets ::
    "('c, 'm) env \<Rightarrow> (BucketId, Bucket) fmap \<Rightarrow> (BucketId \<times> account, StorageAgreement) fmap \<Rightarrow> BucketId \<Rightarrow> bool" where
  "inv_buckets E bs ags n \<longleftrightarrow>
     (\<forall>b B. fmlookup bs b = Some B \<longrightarrow>
        b < n \<and> bucket_ok E B \<and> set (b_primary_providers B) = primary_agreements ags b) \<and>
     (\<forall>b p a. fmlookup ags (b, p) = Some a \<longrightarrow> fmlookup bs b \<noteq> None)"

definition is_member_of :: "(BucketId, Bucket) fmap \<Rightarrow> account \<Rightarrow> BucketId \<Rightarrow> bool" where
  "is_member_of bs w b \<longleftrightarrow> (\<exists>B. fmlookup bs b = Some B \<and> w \<in> m_account ` set (b_members B))"

definition inv_members :: "(BucketId, Bucket) fmap \<Rightarrow> (account, BucketId list) fmap \<Rightarrow> bool" where
  "inv_members bs mb \<longleftrightarrow>
     (\<forall>w l. fmlookup mb w = Some l \<longrightarrow> l \<noteq> [] \<and> distinct l) \<and>
     (\<forall>w b. b \<in> set (fmget [] mb w) \<longleftrightarrow> is_member_of bs w b)"

definition inv_stake :: "('c, 'm) env \<Rightarrow> (account, ProviderInfo) fmap \<Rightarrow> 'c \<Rightarrow> bool" where
  "inv_stake E ps c \<longleftrightarrow> (\<forall>w. holds E c ProviderStake w = stake_of ps w)"

definition inv_escrow :: "('c, 'm) env \<Rightarrow> (BucketId \<times> account, StorageAgreement) fmap \<Rightarrow> 'c \<Rightarrow> bool" where
  "inv_escrow E ags c \<longleftrightarrow> (\<forall>w. holds E c AgreementPayment w = escrowed ags w)"

definition inv_deposits :: "('c, 'm) env \<Rightarrow> (nat \<times> nat, Challenge) fmap \<Rightarrow> 'c \<Rightarrow> bool" where
  "inv_deposits E chs c \<longleftrightarrow> (\<forall>w. holds E c ChallengeDeposit w = challenge_deposits chs w)"

definition inv_tickets ::
    "('c, 'm) env \<Rightarrow> (account, ProviderInfo) fmap \<Rightarrow> (BucketId, Bucket) fmap \<Rightarrow>
     (BucketId \<times> account, StorageAgreement) fmap \<Rightarrow> 'c \<Rightarrow> bool" where
  "inv_tickets E ps bs ags c \<longleftrightarrow>
     (\<forall>w. holds E c StorageDeposit w = provider_ticket ps w + bucket_tickets bs w + agreement_tickets ags w)"

definition inv_pending ::
    "(nat \<times> nat, Challenge) fmap \<Rightarrow> (account, nat) fmap \<Rightarrow> (BucketId \<times> account, nat) fmap \<Rightarrow> bool" where
  "inv_pending chs pc pcb \<longleftrightarrow>
     (\<forall>p. fmget 0 pc p = open_challenges chs p) \<and> (\<forall>p n. fmlookup pc p = Some n \<longrightarrow> 0 < n) \<and>
     (\<forall>k. fmget 0 pcb k = open_challenges_on chs k) \<and> (\<forall>k n. fmlookup pcb k = Some n \<longrightarrow> 0 < n)"

definition inv_obligation ::
    "(nat \<times> nat, Challenge) fmap \<Rightarrow> (BucketId \<times> account, StorageAgreement) fmap \<Rightarrow> bool" where
  "inv_obligation chs ags \<longleftrightarrow>
     (\<forall>k c. fmlookup chs k = Some c \<longrightarrow>
        fmlookup ags (ch_bucket_id c, ch_provider c) \<noteq> None \<and> ch_challenger c \<noteq> ch_provider c)"

definition challenge_ok :: "('c, 'm) env \<Rightarrow> nat \<Rightarrow> nat \<Rightarrow> Challenge \<Rightarrow> bool" where
  "challenge_ok E now d c \<longleftrightarrow>
     d = saturating_add 32 (ch_created_at c) (ChallengeTimeout (Cfg E)) \<and> ch_created_at c \<le> now \<and>
     ch_deposit c = ChallengeDepositAmount (Cfg E) \<and>
     leaf_index (ch_target c) < leaf_count (ch_commitment c)"

definition inv_index ::
    "('c, 'm) env \<Rightarrow> (nat \<times> nat, Challenge) fmap \<Rightarrow> (nat, nat) fmap \<Rightarrow> nat \<Rightarrow> bool" where
  "inv_index E chs nci now \<longleftrightarrow> now < 2 ^ 32 \<and>
     (\<forall>d i c. fmlookup chs (d, i) = Some c \<longrightarrow>
        challenge_ok E now d c \<and> (i < fmget 0 nci d \<or> d < now))"

definition inv :: "('c, 'm) env \<Rightarrow> 'c pstate \<Rightarrow> bool" where
  "inv E s \<longleftrightarrow>
     money_ok E (balances s) \<and>
     inv_committed (Providers s) (StorageAgreements s) \<and>
     inv_buckets E (Buckets s) (StorageAgreements s) (NextBucketId s) \<and>
     inv_members (Buckets s) (MemberBuckets s) \<and>
     inv_stake E (Providers s) (balances s) \<and>
     inv_escrow E (StorageAgreements s) (balances s) \<and>
     inv_deposits E (Challenges s) (balances s) \<and>
     inv_tickets E (Providers s) (Buckets s) (StorageAgreements s) (balances s) \<and>
     inv_pending (Challenges s) (PendingChallenges s) (PendingChallengesByBucket s) \<and>
     inv_obligation (Challenges s) (StorageAgreements s) \<and>
     inv_index E (Challenges s) (NextChallengeIndex s) (anchor s)"

lemma invD:
  assumes "inv E s"
  shows "money_ok E (balances s)"
    and "inv_committed (Providers s) (StorageAgreements s)"
    and "inv_buckets E (Buckets s) (StorageAgreements s) (NextBucketId s)"
    and "inv_members (Buckets s) (MemberBuckets s)"
    and "inv_stake E (Providers s) (balances s)"
    and "inv_escrow E (StorageAgreements s) (balances s)"
    and "inv_deposits E (Challenges s) (balances s)"
    and "inv_tickets E (Providers s) (Buckets s) (StorageAgreements s) (balances s)"
    and "inv_pending (Challenges s) (PendingChallenges s) (PendingChallengesByBucket s)"
    and "inv_obligation (Challenges s) (StorageAgreements s)"
    and "inv_index E (Challenges s) (NextChallengeIndex s) (anchor s)"
  using assms by (simp_all add: inv_def)

lemma inv_committedI:
  assumes "\<And>p i. fmlookup ps p = Some i \<Longrightarrow> pi_committed_bytes i = committed ags p"
    and "\<And>p i. fmlookup ps p = Some i \<Longrightarrow> pi_committed_bytes i < 2 ^ 64"
    and "\<And>b p a. fmlookup ags (b, p) = Some a \<Longrightarrow> \<exists>i. fmlookup ps p = Some i"
    and "\<And>b p a. fmlookup ags (b, p) = Some a \<Longrightarrow> 0 < ag_max_bytes a"
  shows "inv_committed ps ags"
  using assms unfolding inv_committed_def by blast

lemma inv_committedD:
  assumes "inv_committed ps ags"
  shows "fmlookup ps p = Some i \<Longrightarrow> pi_committed_bytes i = committed ags p"
    and "fmlookup ps p = Some i \<Longrightarrow> pi_committed_bytes i < 2 ^ 64"
    and "fmlookup ags (b, p) = Some a \<Longrightarrow> \<exists>i. fmlookup ps p = Some i"
    and "fmlookup ags (b, p) = Some a \<Longrightarrow> 0 < ag_max_bytes a"
  using assms unfolding inv_committed_def by blast+

lemma inv_bucketsI:
  assumes "\<And>b B. fmlookup bs b = Some B \<Longrightarrow> b < n"
    and "\<And>b B. fmlookup bs b = Some B \<Longrightarrow> bucket_ok E B"
    and "\<And>b B. fmlookup bs b = Some B \<Longrightarrow> set (b_primary_providers B) = primary_agreements ags b"
    and "\<And>b p a. fmlookup ags (b, p) = Some a \<Longrightarrow> \<exists>B. fmlookup bs b = Some B"
  shows "inv_buckets E bs ags n"
  using assms unfolding inv_buckets_def by blast

lemma inv_bucketsD:
  assumes "inv_buckets E bs ags n"
  shows "fmlookup bs b = Some B \<Longrightarrow> b < n"
    and "fmlookup bs b = Some B \<Longrightarrow> bucket_ok E B"
    and "fmlookup bs b = Some B \<Longrightarrow> set (b_primary_providers B) = primary_agreements ags b"
    and "fmlookup ags (b, p) = Some a \<Longrightarrow> \<exists>B. fmlookup bs b = Some B"
  using assms unfolding inv_buckets_def by blast+

section \<open>Totals under updates\<close>

lemma stake_of_upd [simp]:
  "stake_of (fmupd p i ps) w = (if w = p then pi_stake i else stake_of ps w)"
  "stake_of (fmdrop p ps) w = (if w = p then 0 else stake_of ps w)"
  by (auto simp: stake_of_def)

lemma provider_ticket_upd [simp]:
  "provider_ticket (fmupd p i ps) w = (if w = p then pi_deposit i else provider_ticket ps w)"
  "provider_ticket (fmdrop p ps) w = (if w = p then 0 else provider_ticket ps w)"
  by (auto simp: provider_ticket_def)

lemma provider_values:
  "fmlookup ps p = Some i \<Longrightarrow> stake_of ps p = pi_stake i"
  "fmlookup ps p = Some i \<Longrightarrow> provider_ticket ps p = pi_deposit i"
  "fmlookup ps p = None \<Longrightarrow> stake_of ps p = 0"
  "fmlookup ps p = None \<Longrightarrow> provider_ticket ps p = 0"
  by (simp_all add: stake_of_def provider_ticket_def)

text \<open>
  The totals over agreements, challenges and buckets are compared through the map without
  the touched key: an entry contributes its own share and the rest stays.
\<close>

lemma agreement_totals_upd:
  "committed (fmupd k a ags) p = (if snd k = p then ag_max_bytes a else 0) + committed (fmdrop k ags) p"
  "escrowed (fmupd k a ags) w = (if ag_owner a = w then full_escrow a else 0) + escrowed (fmdrop k ags) w"
  "agreement_tickets (fmupd k a ags) w =
     (if ag_depositor a = w then ag_deposit a else 0) + agreement_tickets (fmdrop k ags) w"
  by (simp_all add: totals_defs)

lemma agreement_totals_old:
  assumes "fmlookup ags k = Some a"
  shows "committed ags p = (if snd k = p then ag_max_bytes a else 0) + committed (fmdrop k ags) p"
    and "escrowed ags w = (if ag_owner a = w then full_escrow a else 0) + escrowed (fmdrop k ags) w"
    and "agreement_tickets ags w =
      (if ag_depositor a = w then ag_deposit a else 0) + agreement_tickets (fmdrop k ags) w"
  using fmsum_split [OF assms] by (simp_all add: totals_defs)

lemma agreement_totals_new:
  assumes "fmlookup ags k = None"
  shows "committed (fmdrop k ags) p = committed ags p" "escrowed (fmdrop k ags) w = escrowed ags w"
    "agreement_tickets (fmdrop k ags) w = agreement_tickets ags w"
  using assms by (simp_all add: fmdrop_absent)

lemma challenge_totals_upd:
  "challenge_deposits (fmupd k c chs) w = (if ch_challenger c = w then ch_deposit c else 0) + challenge_deposits (fmdrop k chs) w"
  "open_challenges (fmupd k c chs) p = (if ch_provider c = p then 1 else 0) + open_challenges (fmdrop k chs) p"
  "open_challenges_on (fmupd k c chs) q =
     (if (ch_bucket_id c, ch_provider c) = q then 1 else 0) + open_challenges_on (fmdrop k chs) q"
  "total_challenges (fmupd k c chs) = 1 + total_challenges (fmdrop k chs)"
  by (simp_all add: totals_defs)

lemma challenge_totals_old:
  assumes "fmlookup chs k = Some c"
  shows "challenge_deposits chs w = (if ch_challenger c = w then ch_deposit c else 0) + challenge_deposits (fmdrop k chs) w"
    and "open_challenges chs p = (if ch_provider c = p then 1 else 0) + open_challenges (fmdrop k chs) p"
    and "open_challenges_on chs q =
      (if (ch_bucket_id c, ch_provider c) = q then 1 else 0) + open_challenges_on (fmdrop k chs) q"
    and "total_challenges chs = 1 + total_challenges (fmdrop k chs)"
  using fmsum_split [OF assms] by (simp_all add: totals_defs)

lemma bucket_tickets_upd:
  "bucket_tickets (fmupd b B bs) w = tickets_of_bucket B w + bucket_tickets (fmdrop b bs) w"
  by (simp add: totals_defs)

lemma bucket_tickets_old:
  "fmlookup bs b = Some B \<Longrightarrow> bucket_tickets bs w = tickets_of_bucket B w + bucket_tickets (fmdrop b bs) w"
  using fmsum_split [of bs b B] by (simp add: totals_defs)

lemma bucket_tickets_same:
  assumes "fmlookup bs b = Some B" "tickets_of_bucket B' = tickets_of_bucket B"
  shows "bucket_tickets (fmupd b B' bs) = bucket_tickets bs"
  using assms by (simp add: fun_eq_iff bucket_tickets_upd bucket_tickets_old)

lemma open_challenges_le_total:
  "open_challenges chs p \<le> total_challenges chs" "open_challenges_on chs k \<le> total_challenges chs"
  unfolding totals_defs by (rule fmsum_mono, simp)+

lemma committed_eq_0:
  assumes "inv_committed ps ags" "committed ags p = 0"
  shows "fmlookup ags (b, p) = None"
proof (rule ccontr)
  assume "fmlookup ags (b, p) \<noteq> None"
  then obtain a where a: "fmlookup ags (b, p) = Some a" by auto
  with assms(1) have "0 < ag_max_bytes a" by (auto simp: inv_committed_def)
  moreover have "ag_max_bytes a \<le> committed ags p" using agreement_totals_old(1) [OF a, of p] by simp
  ultimately show False using assms(2) by simp
qed

lemma full_escrow_le: "fmlookup ags k = Some a \<Longrightarrow> full_escrow a \<le> escrowed ags (ag_owner a)"
  by (simp add: agreement_totals_old)

lemma open_challenges_on_0:
  "open_challenges_on chs k = 0 \<longleftrightarrow> (\<forall>i c. fmlookup chs i = Some c \<longrightarrow> (ch_bucket_id c, ch_provider c) \<noteq> k)"
  by (auto simp: open_challenges_on_def fmsum_eq_0_iff split: if_splits)

lemma open_challenges_0:
  "open_challenges chs p = 0 \<longleftrightarrow> (\<forall>i c. fmlookup chs i = Some c \<longrightarrow> ch_provider c \<noteq> p)"
  by (auto simp: open_challenges_def fmsum_eq_0_iff split: if_splits)

section \<open>Updates that keep a part\<close>

lemma inv_committed_same_bytes:
  assumes "inv_committed ps ags" "fmlookup ps p = Some i" "pi_committed_bytes i' = pi_committed_bytes i"
  shows "inv_committed (fmupd p i' ps) ags"
  using assms(2,3) inv_committedD [OF assms(1)]
  by (intro inv_committedI) (auto split: if_splits)

lemma inv_committed_agreement:
  assumes "inv_committed ps ags" "fmlookup ags (b, p) = Some a" "ag_max_bytes a' = ag_max_bytes a"
  shows "inv_committed ps (fmupd (b, p) a' ags)"
  using assms(2,3) inv_committedD [OF assms(1)]
  by (intro inv_committedI) (auto simp: agreement_totals_upd agreement_totals_old split: if_splits)

lemma primary_agreements_upd:
  "primary_agreements (fmupd (b', p) a ags) b =
     (if b = b' then (if ag_role a = Primary then insert p (primary_agreements ags b)
                      else primary_agreements ags b - {p}) else primary_agreements ags b)"
  by (auto simp: primary_agreements_def)

lemma primary_agreements_drop:
  "primary_agreements (fmdrop (b', p) ags) b =
     (if b = b' then primary_agreements ags b - {p} else primary_agreements ags b)"
  by (auto simp: primary_agreements_def)

lemma inv_buckets_agreement:
  assumes "inv_buckets E bs ags n" "fmlookup ags (b, p) = Some a"
    and "ag_role a' = Primary \<longleftrightarrow> ag_role a = Primary"
  shows "inv_buckets E bs (fmupd (b, p) a' ags) n"
proof -
  have "primary_agreements (fmupd (b, p) a' ags) b' = primary_agreements ags b'" for b'
    using assms(2,3) unfolding primary_agreements_upd by (auto simp: primary_agreements_def)
  then show ?thesis using assms(2) inv_bucketsD [OF assms(1)]
    by (intro inv_bucketsI) (auto split: if_splits)
qed

lemma inv_buckets_bucket:
  assumes "inv_buckets E bs ags n" "fmlookup bs b = Some B" "bucket_ok E B'"
    and "b_primary_providers B' = b_primary_providers B"
  shows "inv_buckets E (fmupd b B' bs) ags n"
  using assms(2-) inv_bucketsD [OF assms(1)] by (intro inv_bucketsI) (auto split: if_splits)

lemma inv_members_bucket:
  assumes "inv_members bs mb" "fmlookup bs b = Some B"
    and "m_account ` set (b_members B') = m_account ` set (b_members B)"
  shows "inv_members (fmupd b B' bs) mb"
  using assms by (auto simp: inv_members_def is_member_of_def)

lemma inv_tickets_provider:
  assumes "inv_tickets E ps bs ags c" "fmlookup ps p = Some i" "pi_deposit i' = pi_deposit i"
  shows "inv_tickets E (fmupd p i' ps) bs ags c"
  using assms by (auto simp: inv_tickets_def provider_ticket_def)

lemma inv_stake_provider:
  assumes "inv_stake E ps c" "fmlookup ps p = Some i" "pi_stake i' = pi_stake i"
  shows "inv_stake E (fmupd p i' ps) c"
  using assms by (auto simp: inv_stake_def stake_of_def)

lemma inv_obligation_agreement:
  assumes "inv_obligation chs ags"
  shows "inv_obligation chs (fmupd k a ags)"
  using assms by (auto simp: inv_obligation_def)

lemma inv_obligation_drop:
  assumes "inv_obligation chs ags" "open_challenges_on chs k = 0"
  shows "inv_obligation chs (fmdrop k ags)"
  using assms by (auto simp: inv_obligation_def open_challenges_on_0)

text \<open>The parts only see the amounts on hold under their own reason.\<close>

lemma inv_money_cong:
  "(\<And>w. holds E c' ProviderStake w = holds E c ProviderStake w) \<Longrightarrow> inv_stake E ps c' = inv_stake E ps c"
  "(\<And>w. holds E c' AgreementPayment w = holds E c AgreementPayment w) \<Longrightarrow> inv_escrow E ags c' = inv_escrow E ags c"
  "(\<And>w. holds E c' ChallengeDeposit w = holds E c ChallengeDeposit w) \<Longrightarrow> inv_deposits E chs c' = inv_deposits E chs c"
  "(\<And>w. holds E c' StorageDeposit w = holds E c StorageDeposit w) \<Longrightarrow>
     inv_tickets E ps bs ags c' = inv_tickets E ps bs ags c"
  by (simp_all add: inv_stake_def inv_escrow_def inv_deposits_def inv_tickets_def)

lemma inv_events [simp]: "inv E (s\<lparr>events := es\<rparr>) = inv E s" "inv E (deposit_event e s) = inv E s"
  by (simp_all add: inv_def)

lemma inv_nonces [simp]: "inv E (s\<lparr>AgreementNonces := m\<rparr>) = inv E s"
  by (simp add: inv_def)

lemma inv_mutate_provider:
  assumes "inv E s"
    and "\<And>i. pi_stake (f i) = pi_stake i" "\<And>i. pi_committed_bytes (f i) = pi_committed_bytes i"
      "\<And>i. pi_deposit (f i) = pi_deposit i"
  shows "inv E (mutate_provider p f s)"
proof (cases "fmlookup (Providers s) p")
  case (Some i)
  then show ?thesis using assms
    by (auto simp: inv_def mutate_provider_def intro!: inv_committed_same_bytes inv_stake_provider
        inv_tickets_provider)
qed (use assms in \<open>simp add: mutate_provider_def\<close>)

end
