(* ===== verification/Providers.thy ===== *)
theory Providers
  imports Invariant
begin

text \<open>
  Provider registration, stake, settings and the two-step exit
  (\<open>impls/providers.rs\<close> and the provider calls of \<open>lib.rs\<close>). A call is
  a function from origin, arguments and state to an error or the new state; an error leaves
  no trace because a dispatch runs in a storage layer.
\<close>

section \<open>Operations\<close>

definition ensure_provider_active :: "ProviderInfo \<Rightarrow> Error + unit" where
  "ensure_provider_active provider =
     ensure (pi_deregister_at provider = None) Error.DeregisterAnnounced (Inr ())"

definition validate_settings ::
    "('c, 'm) env \<Rightarrow> ProviderSettings \<Rightarrow> nat \<Rightarrow> nat \<Rightarrow> Error + unit" where
  "validate_settings E settings committed_bytes stake =
     ensure (ps_min_duration settings \<le> ps_max_duration settings) MinDurationExceedsMaxDuration
     (if 0 < ps_max_capacity settings then
        ensure (committed_bytes \<le> ps_max_capacity settings) CapacityBelowCommitted
        (ensure (ps_min_agreement_bytes settings \<le> ps_max_capacity settings) MinAgreementBytesExceedsMaxCapacity
        (ok_or (checked_mul 128 (MinStakePerByte (Cfg E)) (ps_max_capacity settings)) ArithmeticOverflow
          (\<lambda>required_stake. ensure (required_stake \<le> stake) InsufficientStakeForCapacity (Inr ()))))
      else Inr ())"

definition register_provider_internal ::
    "('c, 'm) env \<Rightarrow> account \<Rightarrow> byte list \<Rightarrow> byte list \<Rightarrow> nat \<Rightarrow> ProviderSettings \<Rightarrow> 'c pstate \<Rightarrow>
     Error + 'c pstate" where
  "register_provider_internal E who multiaddr public_key stake settings s =
     ensure (\<not> fmhas (Providers s) who) ProviderAlreadyRegistered
     (ensure (MinProviderStake (Cfg E) \<le> stake) InsufficientStake
     (ensure (length public_key = 32 \<or> length public_key = 33) InvalidPublicKey
     (attempt (validate_settings E settings 0 stake) (\<lambda>_.
      attempt (hold_stake E who stake (balances s)) (\<lambda>c1.
      attempt (ticket_new E who (provider_footprint E) c1) (\<lambda>(deposit, c2).
        let provider_info =
              \<lparr>pi_multiaddr = multiaddr, pi_public_key = public_key, pi_stake = stake,
               pi_committed_bytes = 0, pi_settings = settings,
               pi_stats = ProviderStats_default\<lparr>st_registered_at := anchor s\<rparr>,
               pi_deregister_at = None, pi_deposit = deposit\<rparr>
        in Inr (deposit_event (ProviderRegistered who stake)
             (s\<lparr>Providers := fmupd who provider_info (Providers s), balances := c2\<rparr>))))))))"

definition register_provider ::
    "('c, 'm) env \<Rightarrow> RuntimeOrigin \<Rightarrow> byte list \<Rightarrow> byte list \<Rightarrow> nat \<Rightarrow> 'c pstate \<Rightarrow> Error + 'c pstate" where
  "register_provider E origin multiaddr public_key stake s =
     ensure_signed origin (\<lambda>who.
       register_provider_internal E who multiaddr public_key stake ProviderSettings_default s)"

definition add_stake ::
    "('c, 'm) env \<Rightarrow> RuntimeOrigin \<Rightarrow> nat \<Rightarrow> 'c pstate \<Rightarrow> Error + 'c pstate" where
  "add_stake E origin amount s =
     ensure_signed origin (\<lambda>who.
     ok_or (fmlookup (Providers s) who) ProviderNotFound (\<lambda>provider.
     ok_or (checked_add 128 (pi_stake provider) amount) ArithmeticOverflow (\<lambda>new_stake.
     attempt (hold_stake E who amount (balances s)) (\<lambda>c1.
       Inr (deposit_event (ProviderStakeAdded who amount new_stake)
         (s\<lparr>Providers := fmupd who (provider\<lparr>pi_stake := new_stake\<rparr>) (Providers s), balances := c1\<rparr>))))))"

definition deregister_provider ::
    "('c, 'm) env \<Rightarrow> RuntimeOrigin \<Rightarrow> 'c pstate \<Rightarrow> Error + 'c pstate" where
  "deregister_provider E origin s =
     ensure_signed origin (\<lambda>who.
     let complete_after = saturating_add 32 (anchor s) (DeregisterAnnouncementPeriod (Cfg E)) in
     ok_or (fmlookup (Providers s) who) ProviderNotFound (\<lambda>provider.
     ensure (pi_committed_bytes provider = 0) ProviderHasActiveAgreements
     (attempt (ensure_provider_active provider) (\<lambda>_.
       let provider' = provider\<lparr>
             pi_settings := (pi_settings provider)\<lparr>ps_accepting_primary := False, ps_accepting_extensions := False\<rparr>,
             pi_deregister_at := Some complete_after\<rparr>
       in Inr (deposit_event (Event.DeregisterAnnounced who complete_after)
            (s\<lparr>Providers := fmupd who provider' (Providers s)\<rparr>))))))"

definition complete_deregister ::
    "('c, 'm) env \<Rightarrow> RuntimeOrigin \<Rightarrow> 'c pstate \<Rightarrow> Error + 'c pstate" where
  "complete_deregister E origin s =
     ensure_signed origin (\<lambda>who.
     ok_or (fmlookup (Providers s) who) ProviderNotFound (\<lambda>provider.
     ok_or (pi_deregister_at provider) DeregisterNotAnnounced (\<lambda>deregister_at.
     ensure (deregister_at \<le> anchor s) DeregisterPeriodNotElapsed
     (ensure (pi_committed_bytes provider = 0) ProviderHasActiveAgreements
     (ensure (fmget 0 (PendingChallenges s) who = 0) ProviderHasPendingChallenges
     (attempt (ticket_drop E (pi_deposit provider) who (balances s)) (\<lambda>c1.
      attempt (release_stake E who (pi_stake provider) c1) (\<lambda>c2.
        Inr (deposit_event (ProviderDeregistered who (pi_stake provider))
          (s\<lparr>Providers := fmdrop who (Providers s), balances := c2\<rparr>))))))))))"

definition cancel_deregister ::
    "('c, 'm) env \<Rightarrow> RuntimeOrigin \<Rightarrow> 'c pstate \<Rightarrow> Error + 'c pstate" where
  "cancel_deregister E origin s =
     ensure_signed origin (\<lambda>who.
     ok_or (fmlookup (Providers s) who) ProviderNotFound (\<lambda>provider.
     ensure (pi_deregister_at provider \<noteq> None) DeregisterNotAnnounced
     (let provider' = provider\<lparr>
            pi_deregister_at := None,
            pi_settings := (pi_settings provider)\<lparr>ps_accepting_primary := True, ps_accepting_extensions := True\<rparr>\<rparr>
      in Inr (deposit_event (DeregisterCancelled who)
           (s\<lparr>Providers := fmupd who provider' (Providers s)\<rparr>)))))"

definition update_provider_settings ::
    "('c, 'm) env \<Rightarrow> RuntimeOrigin \<Rightarrow> ProviderSettings \<Rightarrow> 'c pstate \<Rightarrow> Error + 'c pstate" where
  "update_provider_settings E origin settings s =
     ensure_signed origin (\<lambda>who.
     ensure (ps_min_duration settings \<le> ps_max_duration settings) MinDurationExceedsMaxDuration
     (ok_or (fmlookup (Providers s) who) ProviderNotFound (\<lambda>provider.
      attempt (ensure_provider_active provider) (\<lambda>_.
      attempt (validate_settings E settings (pi_committed_bytes provider) (pi_stake provider)) (\<lambda>_.
        Inr (deposit_event (ProviderSettingsUpdated who settings)
          (s\<lparr>Providers := fmupd who (provider\<lparr>pi_settings := settings\<rparr>) (Providers s)\<rparr>)))))))"

definition update_provider_multiaddr ::
    "('c, 'm) env \<Rightarrow> RuntimeOrigin \<Rightarrow> byte list \<Rightarrow> 'c pstate \<Rightarrow> Error + 'c pstate" where
  "update_provider_multiaddr E origin multiaddr s =
     ensure_signed origin (\<lambda>who.
     ok_or (fmlookup (Providers s) who) ProviderNotFound (\<lambda>provider.
       Inr (deposit_event (ProviderMultiaddrUpdated who multiaddr)
         (s\<lparr>Providers := fmupd who (provider\<lparr>pi_multiaddr := multiaddr\<rparr>) (Providers s)\<rparr>))))"

definition set_extensions_blocked ::
    "('c, 'm) env \<Rightarrow> RuntimeOrigin \<Rightarrow> BucketId \<Rightarrow> bool \<Rightarrow> 'c pstate \<Rightarrow> Error + 'c pstate" where
  "set_extensions_blocked E origin bucket_id blocked s =
     ensure_signed origin (\<lambda>who.
     ensure (fmhas (Providers s) who) ProviderNotFound
     (ok_or (fmlookup (StorageAgreements s) (bucket_id, who)) AgreementNotFound (\<lambda>agreement.
      ensure (anchor s < ag_expires_at agreement) AgreementExpired
      (Inr (deposit_event (ExtensionsBlocked bucket_id who blocked)
        (s\<lparr>StorageAgreements :=
            fmupd (bucket_id, who) (agreement\<lparr>ag_extensions_blocked := blocked\<rparr>) (StorageAgreements s)\<rparr>))))))"

lemmas provider_call_defs = register_provider_internal_def register_provider_def add_stake_def
  deregister_provider_def complete_deregister_def cancel_deregister_def update_provider_settings_def
  update_provider_multiaddr_def set_extensions_blocked_def ensure_provider_active_def

section \<open>Preservation of the invariant\<close>

lemma inv_provider_upd:
  assumes "inv E s" "fmlookup (Providers s) p = Some i"
    and "pi_stake i' = pi_stake i" "pi_committed_bytes i' = pi_committed_bytes i" "pi_deposit i' = pi_deposit i"
  shows "inv E (s\<lparr>Providers := fmupd p i' (Providers s)\<rparr>)"
  using assms
  by (simp add: inv_def inv_committed_same_bytes inv_stake_provider inv_tickets_provider)

lemma inv_agreement_upd:
  assumes "inv E s" "fmlookup (StorageAgreements s) (b, p) = Some a"
    and "ag_max_bytes a' = ag_max_bytes a" "ag_role a' = ag_role a" "ag_owner a' = ag_owner a"
      "ag_payment_locked a' = ag_payment_locked a" "ag_deposit a' = ag_deposit a" "ag_depositor a' = ag_depositor a"
  shows "inv E (s\<lparr>StorageAgreements := fmupd (b, p) a' (StorageAgreements s)\<rparr>)"
proof -
  have "escrowed (fmupd (b, p) a' (StorageAgreements s)) = escrowed (StorageAgreements s)"
    "agreement_tickets (fmupd (b, p) a' (StorageAgreements s)) = agreement_tickets (StorageAgreements s)"
    using assms(2-) by (simp_all add: fun_eq_iff agreement_totals_upd agreement_totals_old full_escrow_def)
  then show ?thesis using assms
    by (auto simp: inv_def inv_escrow_def inv_tickets_def intro: inv_committed_agreement inv_buckets_agreement
        inv_obligation_agreement)
qed

context pallet_env
begin

lemma register_provider_internal_inv:
  assumes "inv E s" "register_provider_internal E who ma pk stake st s = Inr s'"
  shows "inv E s'"
proof -
  note I = invD [OF assms(1)]
  define info where "info t = \<lparr>pi_multiaddr = ma, pi_public_key = pk, pi_stake = stake,
    pi_committed_bytes = 0, pi_settings = st, pi_stats = ProviderStats_default\<lparr>st_registered_at := anchor s\<rparr>,
    pi_deregister_at = None, pi_deposit = t\<rparr>" for t
  from assms(2) obtain c1 t c2 where new: "fmlookup (Providers s) who = None"
    and c1: "hold_stake E who stake (balances s) = Inr c1"
    and c2: "ticket_new E who (provider_footprint E) c1 = Inr (t, c2)"
    and s': "s' = deposit_event (ProviderRegistered who stake)
      (s\<lparr>Providers := fmupd who (info t) (Providers s), balances := c2\<rparr>)"
    by (auto simp: register_provider_internal_def result_simps fmhas_def Let_def info_def)
  have info: "pi_stake (info t) = stake" "pi_committed_bytes (info t) = 0" "pi_deposit (info t) = t"
    by (simp_all add: info_def)
  from hold_stake_holds [OF I(1) c1] have h1: "money_ok E c1"
    "holds E c1 = add_hold ProviderStake who stake (holds E (balances s))" by auto
  from ticket_new_holds [OF h1(1) c2] have h2: "money_ok E c2"
    "holds E c2 = add_hold StorageDeposit who t (holds E c1)" by auto
  have no_agreement: "fmlookup (StorageAgreements s) (b, who) = None" for b
    using inv_committedD(3) [OF I(2), of b who] new by fastforce
  then have "committed (StorageAgreements s) who = 0"
    by (auto simp: committed_def fmsum_eq_0_iff)
  then have "inv_committed (fmupd who (info t) (Providers s)) (StorageAgreements s)"
    using inv_committedD [OF I(2)] info by (intro inv_committedI) (auto split: if_splits)
  moreover have "inv_stake E (fmupd who (info t) (Providers s)) c2"
    using I(5) new info h1 h2 by (auto simp: inv_stake_def provider_values)
  moreover have "inv_tickets E (fmupd who (info t) (Providers s)) (Buckets s) (StorageAgreements s) c2"
    using I(8) new info h1 h2 by (auto simp: inv_tickets_def provider_values)
  ultimately show ?thesis using I h1 h2 unfolding s'
    by (simp add: inv_def inv_money_cong [of E c2 "balances s"])
qed

lemma register_provider_inv:
  "inv E s \<Longrightarrow> register_provider E origin ma pk stake s = Inr s' \<Longrightarrow> inv E s'"
  by (auto simp: register_provider_def result_simps intro: register_provider_internal_inv)

lemma add_stake_inv:
  assumes "inv E s" "add_stake E origin amount s = Inr s'"
  shows "inv E s'"
proof -
  note I = invD [OF assms(1)]
  from assms(2) obtain who i c1 where i: "fmlookup (Providers s) who = Some i"
    and c1: "hold_stake E who amount (balances s) = Inr c1"
    and s': "s' = deposit_event (ProviderStakeAdded who amount (pi_stake i + amount))
      (s\<lparr>Providers := fmupd who (i\<lparr>pi_stake := pi_stake i + amount\<rparr>) (Providers s), balances := c1\<rparr>)"
    by (auto simp: add_stake_def result_simps)
  from hold_stake_holds [OF I(1) c1] have h: "money_ok E c1"
    "holds E c1 = add_hold ProviderStake who amount (holds E (balances s))" by auto
  then have "inv_stake E (fmupd who (i\<lparr>pi_stake := pi_stake i + amount\<rparr>) (Providers s)) c1"
    using I(5) i by (auto simp: inv_stake_def provider_values)
  with I i h show ?thesis unfolding s'
    by (simp add: inv_def inv_money_cong [of E c1 "balances s"] inv_committed_same_bytes inv_tickets_provider)
qed

lemma complete_deregister_inv:
  assumes "inv E s" "complete_deregister E origin s = Inr s'"
  shows "inv E s'"
proof -
  note I = invD [OF assms(1)]
  from assms(2) obtain who i c1 c2 where i: "fmlookup (Providers s) who = Some i"
    and zero: "pi_committed_bytes i = 0"
    and c1: "ticket_drop E (pi_deposit i) who (balances s) = Inr c1"
    and c2: "release_stake E who (pi_stake i) c1 = Inr c2"
    and s': "s' = deposit_event (ProviderDeregistered who (pi_stake i))
      (s\<lparr>Providers := fmdrop who (Providers s), balances := c2\<rparr>)"
    by (auto simp: complete_deregister_def result_simps)
  from ticket_drop_holds [OF I(1) c1] have h1: "money_ok E c1"
    "holds E c1 = sub_hold StorageDeposit who (pi_deposit i) (holds E (balances s))" by auto
  from release_stake_holds [OF h1(1) c2] have h2: "money_ok E c2"
    "holds E c2 = sub_hold ProviderStake who (pi_stake i) (holds E c1)" by auto
  have none: "fmlookup (StorageAgreements s) (b, who) = None" for b
    using committed_eq_0 [OF I(2), of who b] inv_committedD(1) [OF I(2) i] zero by simp
  then have "inv_committed (fmdrop who (Providers s)) (StorageAgreements s)"
    using inv_committedD [OF I(2)] by (intro inv_committedI) (auto split: if_splits)
  moreover have "inv_stake E (fmdrop who (Providers s)) c2"
    using I(5) i h1 h2 by (auto simp: inv_stake_def provider_values)
  moreover have "inv_tickets E (fmdrop who (Providers s)) (Buckets s) (StorageAgreements s) c2"
    using I(8) i h1 h2 by (auto simp: inv_tickets_def provider_values)
  ultimately show ?thesis using I h1 h2 unfolding s'
    by (simp add: inv_def inv_money_cong [of E c2 "balances s"])
qed

end

lemma deregister_provider_inv:
  "inv E s \<Longrightarrow> deregister_provider E origin s = Inr s' \<Longrightarrow> inv E s'"
  by (auto simp: deregister_provider_def result_simps Let_def intro!: inv_provider_upd)

lemma cancel_deregister_inv:
  "inv E s \<Longrightarrow> cancel_deregister E origin s = Inr s' \<Longrightarrow> inv E s'"
  by (auto simp: cancel_deregister_def result_simps Let_def intro!: inv_provider_upd)

lemma update_provider_settings_inv:
  "inv E s \<Longrightarrow> update_provider_settings E origin st s = Inr s' \<Longrightarrow> inv E s'"
  by (auto simp: update_provider_settings_def result_simps intro!: inv_provider_upd)

lemma update_provider_multiaddr_inv:
  "inv E s \<Longrightarrow> update_provider_multiaddr E origin ma s = Inr s' \<Longrightarrow> inv E s'"
  by (auto simp: update_provider_multiaddr_def result_simps intro!: inv_provider_upd)

lemma set_extensions_blocked_inv:
  "inv E s \<Longrightarrow> set_extensions_blocked E origin b blocked s = Inr s' \<Longrightarrow> inv E s'"
  by (auto simp: set_extensions_blocked_def result_simps intro!: inv_agreement_upd)

end
