(* ===== verification/Buckets.thy ===== *)
theory Buckets
  imports Invariant
begin

text \<open>
  Buckets and their members (\<open>impls/buckets.rs\<close>, \<open>impls/members.rs\<close> and
  the bucket calls of \<open>lib.rs\<close>): roles and authorization, creation and deletion,
  member changes with their deposits and reverse index, and the freeze.
\<close>

section \<open>Roles and authorization\<close>

definition ensure_admin :: "account \<Rightarrow> Bucket \<Rightarrow> Error + unit" where
  "ensure_admin who bucket =
     ensure (list_ex (\<lambda>m. m_account m = who \<and> m_role m = Admin) (b_members bucket)) NotBucketAdmin (Inr ())"

definition ensure_writer_or_admin :: "account \<Rightarrow> Bucket \<Rightarrow> Error + unit" where
  "ensure_writer_or_admin who bucket =
     ensure (list_ex (\<lambda>m. m_account m = who \<and> (m_role m = Admin \<or> m_role m = Writer)) (b_members bucket))
       NotBucketWriter (Inr ())"

fun locate_loop :: "account \<Rightarrow> nat \<Rightarrow> Member list \<Rightarrow> nat option \<times> bool \<times> nat \<Rightarrow> nat option \<times> bool \<times> nat" where
  "locate_loop member i [] acc = acc"
| "locate_loop member i (m # ms) (target_idx, target_is_admin, admin_count) =
     (let admin_count' = (if m_role m = Admin then saturating_add 32 admin_count 1 else admin_count)
      in locate_loop member (Suc i) ms
           (if m_account m = member then (Some i, m_role m = Admin, admin_count')
            else (target_idx, target_is_admin, admin_count')))"

definition locate_member :: "Bucket \<Rightarrow> account \<Rightarrow> nat option \<times> bool \<times> nat" where
  "locate_member bucket member = locate_loop member 0 (b_members bucket) (None, False, 0)"

definition is_member :: "account \<Rightarrow> Bucket \<Rightarrow> bool" where
  "is_member who bucket = list_ex (\<lambda>m. m_account m = who) (b_members bucket)"

definition is_authorized :: "account \<Rightarrow> BucketId \<Rightarrow> Bucket \<Rightarrow> 'c pstate \<Rightarrow> bool" where
  "is_authorized who bucket_id bucket s \<longleftrightarrow>
     is_member who bucket \<or>
     fmany (\<lambda>k a. fst k = bucket_id \<and> ag_owner a = who) (StorageAgreements s)"

definition is_authorized_for_private :: "account \<Rightarrow> BucketId \<Rightarrow> Bucket \<Rightarrow> 'c pstate \<Rightarrow> bool" where
  "is_authorized_for_private who bucket_id bucket s \<longleftrightarrow>
     is_member who bucket \<or>
     list_ex (\<lambda>p. case fmlookup (StorageAgreements s) (bucket_id, p) of
                    None \<Rightarrow> False
                  | Some a \<Rightarrow> ag_owner a = who) (b_primary_providers bucket)"

section \<open>The reverse index\<close>

definition remove_from_member_index ::
    "account \<Rightarrow> BucketId \<Rightarrow> (account, BucketId list) fmap \<Rightarrow> (account, BucketId list) fmap" where
  "remove_from_member_index member bucket_id mb =
     (case fmlookup mb member of
        None \<Rightarrow> mb
      | Some buckets \<Rightarrow>
          let buckets' = filter (\<lambda>b. b \<noteq> bucket_id) buckets
          in if buckets' = [] then fmdrop member mb else fmupd member buckets' mb)"

section \<open>Members\<close>

definition set_member_internal ::
    "('c, 'm) env \<Rightarrow> account \<Rightarrow> BucketId \<Rightarrow> account \<Rightarrow> Role \<Rightarrow> 'c pstate \<Rightarrow> Error + 'c pstate" where
  "set_member_internal E caller bucket_id member role s =
     ok_or (fmlookup (Buckets s) bucket_id) BucketNotFound (\<lambda>bucket.
     attempt (ensure_admin caller bucket) (\<lambda>_.
     let (target_idx, target_is_admin, admin_count) = locate_member bucket member in
     case target_idx of
       Some idx \<Rightarrow>
         ensure (target_is_admin \<and> role \<noteq> Admin \<longrightarrow> member = caller) CannotDemoteAdmin
         (ensure (target_is_admin \<and> role \<noteq> Admin \<longrightarrow> 1 < admin_count) LastAdminCannotBeRemoved
         (Inr (deposit_event (MemberSet bucket_id member role)
           (s\<lparr>Buckets := fmupd bucket_id
                (bucket\<lparr>b_members := (b_members bucket)[idx := (b_members bucket ! idx)\<lparr>m_role := role\<rparr>]\<rparr>)
                (Buckets s)\<rparr>))))
     | None \<Rightarrow>
         attempt (ticket_new E caller (member_footprint E) (balances s)) (\<lambda>(deposit, c1).
         ok_or (try_push (MaxMembers (Cfg E)) (b_members bucket)
                 \<lparr>m_account = member, m_role = role, m_depositor = caller, m_deposit = deposit\<rparr>)
           MaxMembersReached (\<lambda>members.
         ok_or (if bucket_id \<in> set (fmget [] (MemberBuckets s) member)
                then Some (fmget [] (MemberBuckets s) member)
                else try_push (MaxBucketsPerMember (Cfg E)) (fmget [] (MemberBuckets s) member) bucket_id)
           TooManyBucketsForMember (\<lambda>buckets.
         Inr (deposit_event (MemberSet bucket_id member role)
           (s\<lparr>Buckets := fmupd bucket_id (bucket\<lparr>b_members := members\<rparr>) (Buckets s),
              MemberBuckets := fmupd member buckets (MemberBuckets s),
              balances := c1\<rparr>)))))))"

definition remove_member_internal ::
    "('c, 'm) env \<Rightarrow> account \<Rightarrow> BucketId \<Rightarrow> account \<Rightarrow> 'c pstate \<Rightarrow> Error + 'c pstate" where
  "remove_member_internal E caller bucket_id member s =
     ok_or (fmlookup (Buckets s) bucket_id) BucketNotFound (\<lambda>bucket.
     attempt (ensure_admin caller bucket) (\<lambda>_.
     let (target_idx, target_is_admin, admin_count) = locate_member bucket member in
     ok_or target_idx MemberNotFound (\<lambda>member_idx.
     ensure (target_is_admin \<longrightarrow> member = caller) CannotDemoteAdmin
     (ensure (target_is_admin \<longrightarrow> 1 < admin_count) LastAdminCannotBeRemoved
     (let removed = b_members bucket ! member_idx in
      attempt (ticket_drop E (m_deposit removed) (m_depositor removed) (balances s)) (\<lambda>c1.
        Inr (deposit_event (MemberRemoved bucket_id member)
          (s\<lparr>Buckets := fmupd bucket_id
                (bucket\<lparr>b_members := remove_at member_idx (b_members bucket)\<rparr>) (Buckets s),
             MemberBuckets := remove_from_member_index member bucket_id (MemberBuckets s),
             balances := c1\<rparr>))))))))"

definition set_member ::
    "('c, 'm) env \<Rightarrow> RuntimeOrigin \<Rightarrow> BucketId \<Rightarrow> account \<Rightarrow> Role \<Rightarrow> 'c pstate \<Rightarrow> Error + 'c pstate" where
  "set_member E origin bucket_id member role s =
     ensure_signed origin (\<lambda>who. set_member_internal E who bucket_id member role s)"

definition remove_member ::
    "('c, 'm) env \<Rightarrow> RuntimeOrigin \<Rightarrow> BucketId \<Rightarrow> account \<Rightarrow> 'c pstate \<Rightarrow> Error + 'c pstate" where
  "remove_member E origin bucket_id member s =
     ensure_signed origin (\<lambda>who. remove_member_internal E who bucket_id member s)"

section \<open>Creation and deletion\<close>

definition create_bucket_internal ::
    "('c, 'm) env \<Rightarrow> account \<Rightarrow> nat \<Rightarrow> account option \<Rightarrow> Visibility \<Rightarrow> 'c pstate \<Rightarrow>
     Error + BucketId \<times> 'c pstate" where
  "create_bucket_internal E admin min_providers initial_primary visibility s =
     ensure (1 \<le> min_providers \<and> min_providers \<le> MaxPrimaryProviders (Cfg E)) InvalidMinProviders
     (let bucket_id = NextBucketId s in
      attempt (ticket_new E admin (member_footprint E) (balances s)) (\<lambda>(member_deposit, c1).
      ok_or (try_push (MaxMembers (Cfg E)) []
              \<lparr>m_account = admin, m_role = Admin, m_depositor = admin, m_deposit = member_deposit\<rparr>)
        MaxMembersReached (\<lambda>members.
      ok_or (case initial_primary of
               None \<Rightarrow> Some []
             | Some p \<Rightarrow> try_push (MaxPrimaryProviders (Cfg E)) [] p)
        MaxPrimaryProvidersReached (\<lambda>primary_providers.
      attempt (ticket_new E admin (bucket_footprint E) c1) (\<lambda>(deposit, c2).
      ok_or (try_push (MaxBucketsPerMember (Cfg E)) (fmget [] (MemberBuckets s) admin) bucket_id)
        TooManyBucketsForMember (\<lambda>buckets.
        let bucket = \<lparr>b_members = members, b_visibility = visibility, b_frozen_start_seq = None,
              b_min_providers = min_providers, b_primary_providers = primary_providers,
              b_snapshot = None, b_historical_roots = replicate 6 (0, Commitment_default),
              b_total_snapshots = 0, b_creator = admin, b_deposit = deposit\<rparr>
        in Inr (bucket_id, deposit_event (BucketCreated bucket_id admin)
             (s\<lparr>NextBucketId := saturating_add 64 bucket_id 1,
                Buckets := fmupd bucket_id bucket (Buckets s),
                MemberBuckets := fmupd admin buckets (MemberBuckets s),
                balances := c2\<rparr>))))))))"

definition create_bucket ::
    "('c, 'm) env \<Rightarrow> RuntimeOrigin \<Rightarrow> nat \<Rightarrow> Visibility \<Rightarrow> 'c pstate \<Rightarrow> Error + 'c pstate" where
  "create_bucket E origin min_providers visibility s =
     ensure_signed origin (\<lambda>who.
     attempt (create_bucket_internal E who min_providers None visibility s) (\<lambda>(_, s'). Inr s'))"

fun drop_members ::
    "('c, 'm) env \<Rightarrow> BucketId \<Rightarrow> Member list \<Rightarrow> 'c pstate \<Rightarrow> Error + 'c pstate" where
  "drop_members E bucket_id [] s = Inr s"
| "drop_members E bucket_id (m # ms) s =
     attempt (ticket_drop E (m_deposit m) (m_depositor m) (balances s)) (\<lambda>c1.
       drop_members E bucket_id ms
         (s\<lparr>MemberBuckets := remove_from_member_index (m_account m) bucket_id (MemberBuckets s),
            balances := c1\<rparr>))"

definition remove_bucket_internal ::
    "('c, 'm) env \<Rightarrow> BucketId \<Rightarrow> Bucket \<Rightarrow> 'c pstate \<Rightarrow> Error + 'c pstate" where
  "remove_bucket_internal E bucket_id bucket s =
     attempt (drop_members E bucket_id (b_members bucket) s) (\<lambda>s1.
     attempt (ticket_drop E (b_deposit bucket) (b_creator bucket) (balances s1)) (\<lambda>c2.
       Inr (deposit_event (BucketDeleted bucket_id)
         (s1\<lparr>Buckets := fmdrop bucket_id (Buckets s1), balances := c2\<rparr>))))"

definition ensure_no_pending_challenge :: "BucketId \<Rightarrow> 'c pstate \<Rightarrow> Error + unit" where
  "ensure_no_pending_challenge bucket_id s =
     ensure (\<not> fmany (\<lambda>k _. fst k = bucket_id) (PendingChallengesByBucket s)) BucketHasPendingChallenge (Inr ())"

definition delete_bucket ::
    "('c, 'm) env \<Rightarrow> RuntimeOrigin \<Rightarrow> BucketId \<Rightarrow> 'c pstate \<Rightarrow> Error + 'c pstate" where
  "delete_bucket E origin bucket_id s =
     ensure_signed origin (\<lambda>who.
     ok_or (fmlookup (Buckets s) bucket_id) BucketNotFound (\<lambda>bucket.
     attempt (ensure_admin who bucket) (\<lambda>_.
     ensure (\<not> fmany (\<lambda>k _. fst k = bucket_id) (StorageAgreements s)) BucketNotEmpty
     (attempt (ensure_no_pending_challenge bucket_id s) (\<lambda>_.
      remove_bucket_internal E bucket_id bucket s)))))"

section \<open>Bucket settings\<close>

definition set_min_providers ::
    "('c, 'm) env \<Rightarrow> RuntimeOrigin \<Rightarrow> BucketId \<Rightarrow> nat \<Rightarrow> 'c pstate \<Rightarrow> Error + 'c pstate" where
  "set_min_providers E origin bucket_id min_providers s =
     ensure_signed origin (\<lambda>who.
     ok_or (fmlookup (Buckets s) bucket_id) BucketNotFound (\<lambda>bucket.
     attempt (ensure_admin who bucket) (\<lambda>_.
     ensure (1 \<le> min_providers \<and> min_providers \<le> length (b_primary_providers bucket)) InvalidMinProviders
     (Inr (s\<lparr>Buckets := fmupd bucket_id (bucket\<lparr>b_min_providers := min_providers\<rparr>) (Buckets s)\<rparr>)))))"

definition count_ones :: "bool list \<Rightarrow> nat" where
  "count_ones bs = length (filter (\<lambda>b. b) bs)"

definition freeze_bucket ::
    "('c, 'm) env \<Rightarrow> RuntimeOrigin \<Rightarrow> BucketId \<Rightarrow> 'c pstate \<Rightarrow> Error + 'c pstate" where
  "freeze_bucket E origin bucket_id s =
     ensure_signed origin (\<lambda>who.
     ok_or (fmlookup (Buckets s) bucket_id) BucketNotFound (\<lambda>bucket.
     attempt (ensure_admin who bucket) (\<lambda>_.
     ensure (b_frozen_start_seq bucket = None) Error.BucketFrozen
     (ok_or (b_snapshot bucket) NoSnapshot (\<lambda>snapshot.
      ensure (max (b_min_providers bucket) 1 \<le> count_ones (primary_signers snapshot)) MinProvidersNotMet
      (Inr (deposit_event (Event.BucketFrozen bucket_id (start_seq (bs_commitment snapshot)))
        (s\<lparr>Buckets := fmupd bucket_id
             (bucket\<lparr>b_frozen_start_seq := Some (start_seq (bs_commitment snapshot))\<rparr>) (Buckets s)\<rparr>))))))))"

definition set_bucket_visibility ::
    "('c, 'm) env \<Rightarrow> RuntimeOrigin \<Rightarrow> BucketId \<Rightarrow> Visibility \<Rightarrow> 'c pstate \<Rightarrow> Error + 'c pstate" where
  "set_bucket_visibility E origin bucket_id visibility s =
     ensure_signed origin (\<lambda>who.
     ok_or (fmlookup (Buckets s) bucket_id) BucketNotFound (\<lambda>bucket.
     attempt (ensure_admin who bucket) (\<lambda>_.
       Inr (deposit_event (BucketVisibilityChanged bucket_id visibility)
         (s\<lparr>Buckets := fmupd bucket_id (bucket\<lparr>b_visibility := visibility\<rparr>) (Buckets s)\<rparr>)))))"

section \<open>Locating a member\<close>

definition admins :: "Member list \<Rightarrow> Member list" where
  "admins ms = filter (\<lambda>m. m_role m = Admin) ms"

lemma locate_loop_absent:
  "member \<notin> m_account ` set ms \<Longrightarrow>
   \<exists>n'. locate_loop member i ms (t, a, n) = (t, a, n') \<and> n' \<le> n + length (admins ms)"
proof (induction ms arbitrary: i n)
  case (Cons m ms)
  have "saturating_add 32 n 1 \<le> n + 1" by (simp add: saturating_add_def)
  with Cons.IH [of "Suc i" "if m_role m = Admin then saturating_add 32 n 1 else n"] Cons.prems
  show ?case by (auto simp: Let_def admins_def)
qed (simp add: admins_def)

lemma locate_loop_present:
  "distinct (map m_account ms) \<Longrightarrow> j < length ms \<Longrightarrow> m_account (ms ! j) = member \<Longrightarrow>
   \<exists>n'. locate_loop member i ms (t, a, n) = (Some (i + j), m_role (ms ! j) = Admin, n') \<and>
     n' \<le> n + length (admins ms)"
proof (induction ms arbitrary: i j t a n)
  case (Cons m ms)
  have sat: "saturating_add 32 n 1 \<le> n + 1" by (simp add: saturating_add_def)
  let ?n = "if m_role m = Admin then saturating_add 32 n 1 else n"
  show ?case
  proof (cases j)
    case 0
    with Cons.prems have "member \<notin> m_account ` set ms" "m_account m = member" by auto
    with locate_loop_absent [of member ms "Suc i" "Some i" "m_role m = Admin" ?n] 0 sat
    show ?thesis by (auto simp: Let_def admins_def)
  next
    case (Suc k)
    with Cons.prems have "m_account m \<noteq> member" using nth_mem [of k ms] by auto
    with Cons.IH [of k "Suc i" t a ?n] Cons.prems Suc sat show ?thesis
      by (auto simp: Let_def admins_def)
  qed
qed simp

lemma locate_member_None:
  assumes "bucket_ok E B" "locate_member B member = (None, a, n)"
  shows "member \<notin> m_account ` set (b_members B)"
proof
  assume "member \<in> m_account ` set (b_members B)"
  then obtain j where "j < length (b_members B)" "m_account (b_members B ! j) = member"
    by (auto simp: in_set_conv_nth)
  with locate_loop_present [of "b_members B" j member 0 None False 0] assms show False
    by (auto simp: locate_member_def bucket_ok_def)
qed

lemma locate_member_Some:
  assumes ok: "bucket_ok E B" and loc: "locate_member B member = (Some idx, a, n)"
  shows "idx < length (b_members B)" "m_account (b_members B ! idx) = member"
    "a \<longleftrightarrow> m_role (b_members B ! idx) = Admin" "n \<le> length (admins (b_members B))"
proof -
  have "member \<in> m_account ` set (b_members B)"
  proof (rule ccontr)
    assume "member \<notin> m_account ` set (b_members B)"
    from locate_loop_absent [OF this, of 0 None False 0] loc show False by (auto simp: locate_member_def)
  qed
  then obtain j where j: "j < length (b_members B)" "m_account (b_members B ! j) = member"
    by (auto simp: in_set_conv_nth)
  from locate_loop_present [of "b_members B" j member 0 None False 0] ok j loc
  have "idx = j" "a \<longleftrightarrow> m_role (b_members B ! j) = Admin" "n \<le> length (admins (b_members B))"
    by (auto simp: locate_member_def bucket_ok_def)
  with j show "idx < length (b_members B)" "m_account (b_members B ! idx) = member"
    "a \<longleftrightarrow> m_role (b_members B ! idx) = Admin" "n \<le> length (admins (b_members B))" by auto
qed

text \<open>Two admins cannot both sit at the same index.\<close>

lemma second_admin:
  assumes "1 < length (admins ms)" "idx < length ms"
  shows "\<exists>j < length ms. j \<noteq> idx \<and> m_role (ms ! j) = Admin"
proof (rule ccontr)
  assume "\<not> ?thesis"
  then have "{i. i < length ms \<and> m_role (ms ! i) = Admin} \<subseteq> {idx}" by auto
  then have "card {i. i < length ms \<and> m_role (ms ! i) = Admin} \<le> 1"
    by (metis card.empty card_insert_disjoint card_mono empty_iff finite.emptyI finite.insertI One_nat_def)
  with assms(1) show False by (simp add: admins_def length_filter_conv_card)
qed

section \<open>The reverse index under updates\<close>

lemma member_index_get [simp]:
  "fmget [] (remove_from_member_index w b mb) w' =
     (if w' = w then filter (\<lambda>x. x \<noteq> b) (fmget [] mb w) else fmget [] mb w')"
  by (auto simp: remove_from_member_index_def fmget_def Let_def split: option.split)

lemma member_index_wf:
  assumes "\<And>w l. fmlookup mb w = Some l \<Longrightarrow> l \<noteq> [] \<and> distinct l"
    and "fmlookup (remove_from_member_index w b mb) w' = Some l"
  shows "l \<noteq> [] \<and> distinct l"
  using assms by (auto simp: remove_from_member_index_def Let_def split: option.splits if_splits)

lemma inv_membersD:
  assumes "inv_members bs mb"
  shows "fmlookup mb w = Some l \<Longrightarrow> l \<noteq> [] \<and> distinct l"
    and "b \<in> set (fmget [] mb w) \<longleftrightarrow> is_member_of bs w b"
  using assms unfolding inv_members_def by blast+

lemma inv_membersI:
  assumes "\<And>w l. fmlookup mb w = Some l \<Longrightarrow> l \<noteq> [] \<and> distinct l"
    and "\<And>w b. b \<in> set (fmget [] mb w) \<longleftrightarrow> is_member_of bs w b"
  shows "inv_members bs mb"
  using assms unfolding inv_members_def by blast

lemma inv_members_add:
  assumes I: "inv_members bs mb" and new: "\<not> is_member_of bs w b"
    and m: "\<And>w' b'. is_member_of bs' w' b' \<longleftrightarrow> is_member_of bs w' b' \<or> (w' = w \<and> b' = b)"
  shows "inv_members bs' (fmupd w (fmget [] mb w @ [b]) mb)"
proof (rule inv_membersI)
  fix w' l assume "fmlookup (fmupd w (fmget [] mb w @ [b]) mb) w' = Some l"
  moreover have "distinct (fmget [] mb w)"
    using inv_membersD(1) [OF I, of w] by (cases "fmlookup mb w") (auto simp: fmget_def)
  moreover have "b \<notin> set (fmget [] mb w)" using inv_membersD(2) [OF I] new by simp
  ultimately show "l \<noteq> [] \<and> distinct l" using inv_membersD(1) [OF I] by (auto split: if_splits)
next
  fix w' b'
  show "b' \<in> set (fmget [] (fmupd w (fmget [] mb w @ [b]) mb) w') \<longleftrightarrow> is_member_of bs' w' b'"
    using inv_membersD(2) [OF I] m by auto
qed

lemma inv_members_remove:
  assumes I: "inv_members bs mb"
    and m: "\<And>w' b'. is_member_of bs' w' b' \<longleftrightarrow> is_member_of bs w' b' \<and> \<not> (w' = w \<and> b' = b)"
  shows "inv_members bs' (remove_from_member_index w b mb)"
proof (rule inv_membersI)
  fix w' l assume "fmlookup (remove_from_member_index w b mb) w' = Some l"
  then show "l \<noteq> [] \<and> distinct l" using inv_membersD(1) [OF I] by (rule member_index_wf [rotated])
next
  fix w' b'
  show "b' \<in> set (fmget [] (remove_from_member_index w b mb) w') \<longleftrightarrow> is_member_of bs' w' b'"
    using inv_membersD(2) [OF I] m by auto
qed

section \<open>Preservation of the invariant\<close>

lemma inv_bucket_upd:
  assumes "inv E s" "fmlookup (Buckets s) b = Some B" "bucket_ok E B'"
    and "b_primary_providers B' = b_primary_providers B"
    and "m_account ` set (b_members B') = m_account ` set (b_members B)"
    and "tickets_of_bucket B' = tickets_of_bucket B"
  shows "inv E (s\<lparr>Buckets := fmupd b B' (Buckets s)\<rparr>)"
  using assms bucket_tickets_same [OF assms(2,6)]
  by (simp add: inv_def inv_buckets_bucket inv_members_bucket inv_tickets_def)

lemma inv_bucket_ok: "inv E s \<Longrightarrow> fmlookup (Buckets s) b = Some B \<Longrightarrow> bucket_ok E B"
  by (auto simp: inv_def dest: inv_bucketsD(2))

lemma set_min_providers_inv:
  assumes "inv E s" "set_min_providers E origin b n s = Inr s'"
  shows "inv E s'"
  using assms inv_bucket_ok [OF assms(1)]
  by (auto simp: set_min_providers_def result_simps intro!: inv_bucket_upd)
    (auto simp: bucket_ok_def tickets_of_bucket_def fun_eq_iff)

lemma freeze_bucket_inv:
  assumes "inv E s" "freeze_bucket E origin b s = Inr s'"
  shows "inv E s'"
  using assms inv_bucket_ok [OF assms(1)]
  by (auto simp: freeze_bucket_def result_simps intro!: inv_bucket_upd)
    (auto simp: bucket_ok_def tickets_of_bucket_def fun_eq_iff)

lemma set_bucket_visibility_inv:
  assumes "inv E s" "set_bucket_visibility E origin b v s = Inr s'"
  shows "inv E s'"
  using assms inv_bucket_ok [OF assms(1)]
  by (auto simp: set_bucket_visibility_def result_simps intro!: inv_bucket_upd)
    (auto simp: bucket_ok_def tickets_of_bucket_def fun_eq_iff)

lemma member_tickets_simps [simp]:
  "member_tickets [] w = 0"
  "member_tickets (m # ms) w = (if m_depositor m = w then m_deposit m else 0) + member_tickets ms w"
  "member_tickets (ms @ ms') w = member_tickets ms w + member_tickets ms' w"
  by (simp_all add: member_tickets_def)

lemma member_tickets_remove_at:
  "i < length ms \<Longrightarrow> member_tickets ms w =
     (if m_depositor (ms ! i) = w then m_deposit (ms ! i) else 0) + member_tickets (remove_at i ms) w"
  unfolding member_tickets_def by (rule sum_list_remove_at)

lemma set_role_members:
  assumes "idx < length ms"
  shows "map m_account (ms[idx := (ms ! idx)\<lparr>m_role := r\<rparr>]) = map m_account ms"
    "member_tickets (ms[idx := (ms ! idx)\<lparr>m_role := r\<rparr>]) = member_tickets ms"
proof -
  show "map m_account (ms[idx := (ms ! idx)\<lparr>m_role := r\<rparr>]) = map m_account ms"
    using assms by (simp add: map_update list_update_same_conv)
  have "map (\<lambda>m. if m_depositor m = w then m_deposit m else 0) (ms[idx := (ms ! idx)\<lparr>m_role := r\<rparr>]) =
      map (\<lambda>m. if m_depositor m = w then m_deposit m else 0) ms" for w
    using assms by (simp add: map_update list_update_same_conv)
  then show "member_tickets (ms[idx := (ms ! idx)\<lparr>m_role := r\<rparr>]) = member_tickets ms"
    by (simp add: member_tickets_def fun_eq_iff)
qed

lemma set_role_keeps_admin:
  assumes ex: "\<exists>m\<in>set ms. m_role m = Admin" and idx: "idx < length ms"
    and safe: "m_role (ms ! idx) = Admin \<and> r \<noteq> Admin \<longrightarrow> 1 < length (admins ms)"
  shows "\<exists>m\<in>set (ms[idx := (ms ! idx)\<lparr>m_role := r\<rparr>]). m_role m = Admin"
proof -
  obtain j where j: "j < length ms" "m_role (ms ! j) = Admin" "j = idx \<longrightarrow> r = Admin"
  proof (cases "m_role (ms ! idx) = Admin \<and> r \<noteq> Admin")
    case True
    with safe second_admin [of ms idx] idx that show ?thesis by blast
  next
    case False
    from ex obtain j where "j < length ms" "m_role (ms ! j) = Admin" by (auto simp: in_set_conv_nth)
    with False that show ?thesis by blast
  qed
  then have "m_role (ms[idx := (ms ! idx)\<lparr>m_role := r\<rparr>] ! j) = Admin" using idx
    by (cases "j = idx") auto
  then show ?thesis using j(1) by (metis length_list_update nth_mem)
qed

lemma remove_keeps_admin:
  assumes ex: "\<exists>m\<in>set ms. m_role m = Admin" and idx: "idx < length ms" and d: "distinct ms"
    and safe: "m_role (ms ! idx) = Admin \<longrightarrow> 1 < length (admins ms)"
  shows "\<exists>m\<in>set (remove_at idx ms). m_role m = Admin"
proof -
  obtain j where "j < length ms" "m_role (ms ! j) = Admin" "j \<noteq> idx"
  proof (cases "m_role (ms ! idx) = Admin")
    case True
    with safe second_admin [of ms idx] idx that show ?thesis by blast
  next
    case False
    from ex obtain j where "j < length ms" "m_role (ms ! j) = Admin" by (auto simp: in_set_conv_nth)
    with False that show ?thesis by blast
  qed
  then have "ms ! j \<in> set (remove_at idx ms)" "m_role (ms ! j) = Admin"
    using idx d by (auto simp: set_remove_at nth_eq_iff_index_eq)
  then show ?thesis by blast
qed

text \<open>A change of the member list that keeps an admin keeps the bucket well-formed.\<close>

lemma bucket_ok_members:
  assumes "bucket_ok E B" "distinct (map m_account ms)" "length ms \<le> MaxMembers (Cfg E)"
    and "\<exists>m\<in>set ms. m_role m = Admin"
  shows "bucket_ok E (B\<lparr>b_members := ms\<rparr>)"
  using assms by (simp add: bucket_ok_def)

context pallet_env
begin

lemma set_role_inv:
  assumes I: "inv E s" and B: "fmlookup (Buckets s) b = Some B"
    and loc: "locate_member B member = (Some idx, a, n)"
    and last: "a \<and> r \<noteq> Admin \<longrightarrow> 1 < n"
  shows "inv E (s\<lparr>Buckets := fmupd b
    (B\<lparr>b_members := (b_members B)[idx := (b_members B ! idx)\<lparr>m_role := r\<rparr>]\<rparr>) (Buckets s)\<rparr>)"
proof -
  note ok = inv_bucket_ok [OF I B]
  note l = locate_member_Some [OF ok loc]
  note m = set_role_members [OF l(1), of r]
  let ?ms = "(b_members B)[idx := (b_members B ! idx)\<lparr>m_role := r\<rparr>]"
  have "\<exists>m\<in>set ?ms. m_role m = Admin"
    by (rule set_role_keeps_admin) (use ok l last in \<open>auto simp: bucket_ok_def\<close>)
  with ok m have "bucket_ok E (B\<lparr>b_members := ?ms\<rparr>)"
    by (intro bucket_ok_members) (simp_all add: bucket_ok_def)
  moreover have "m_account ` set ?ms = m_account ` set (b_members B)"
    using arg_cong [OF m(1), of set] by simp
  ultimately show ?thesis using m(2) by (intro inv_bucket_upd [OF I B]) (simp_all add: tickets_of_bucket_def fun_eq_iff)
qed

lemma is_member_of_upd:
  "is_member_of (fmupd b B bs) w b' \<longleftrightarrow> (if b' = b then w \<in> m_account ` set (b_members B) else is_member_of bs w b')"
  by (auto simp: is_member_of_def)

lemma set_member_internal_inv:
  assumes I: "inv E s" and res: "set_member_internal E caller b member role s = Inr s'"
  shows "inv E s'"
proof -
  note P = invD [OF I]
  from res obtain B where B: "fmlookup (Buckets s) b = Some B"
    by (auto simp: set_member_internal_def result_simps)
  note ok = inv_bucket_ok [OF I B]
  obtain t a n where loc: "locate_member B member = (t, a, n)" by (cases "locate_member B member") auto
  show ?thesis
  proof (cases t)
    case (Some idx)
    with res B loc have "a \<and> role \<noteq> Admin \<longrightarrow> 1 < n" "s' = deposit_event (MemberSet b member role)
        (s\<lparr>Buckets := fmupd b (B\<lparr>b_members := (b_members B)[idx := (b_members B ! idx)\<lparr>m_role := role\<rparr>]\<rparr>) (Buckets s)\<rparr>)"
      by (auto simp: set_member_internal_def result_simps)
    with set_role_inv [OF I B, of member idx a n role] loc Some show ?thesis by simp
  next
    case None
    have new: "member \<notin> m_account ` set (b_members B)"
      using locate_member_None [OF ok] loc None by blast
    then have not_member: "\<not> is_member_of (Buckets s) member b" using B by (auto simp: is_member_of_def)
    then have "b \<notin> set (fmget [] (MemberBuckets s) member)" using inv_membersD(2) [OF P(4)] by simp
    with res B loc None obtain t c1 m where
      c1: "ticket_new E caller (member_footprint E) (balances s) = Inr (t, c1)"
      and m: "m = \<lparr>m_account = member, m_role = role, m_depositor = caller, m_deposit = t\<rparr>"
      and len: "length (b_members B) < MaxMembers (Cfg E)"
      and s': "s' = deposit_event (MemberSet b member role)
        (s\<lparr>Buckets := fmupd b (B\<lparr>b_members := b_members B @ [m]\<rparr>) (Buckets s),
           MemberBuckets := fmupd member (fmget [] (MemberBuckets s) member @ [b]) (MemberBuckets s),
           balances := c1\<rparr>)"
      by (auto simp: set_member_internal_def result_simps)
    from ticket_new_holds [OF P(1) c1] have h: "money_ok E c1"
      "holds E c1 = add_hold StorageDeposit caller t (holds E (balances s))" by auto
    let ?bs = "fmupd b (B\<lparr>b_members := b_members B @ [m]\<rparr>) (Buckets s)"
    have "inv_buckets E ?bs (StorageAgreements s) (NextBucketId s)"
      using ok new len m by (intro inv_buckets_bucket [OF P(3) B] bucket_ok_members) (auto simp: bucket_ok_def)
    moreover have "inv_members ?bs (fmupd member (fmget [] (MemberBuckets s) member @ [b]) (MemberBuckets s))"
      by (rule inv_members_add [OF P(4) not_member]) (use B m in \<open>auto simp: is_member_of_upd is_member_of_def\<close>)
    moreover have "inv_tickets E (Providers s) ?bs (StorageAgreements s) c1"
      using P(8) h m
      by (auto simp: inv_tickets_def bucket_tickets_upd bucket_tickets_old [OF B] tickets_of_bucket_def)
    ultimately show ?thesis using P h unfolding s'
      by (simp add: inv_def inv_money_cong [of E c1 "balances s"])
  qed
qed

lemma remove_member_internal_inv:
  assumes I: "inv E s" and res: "remove_member_internal E caller b member s = Inr s'"
  shows "inv E s'"
proof -
  note P = invD [OF I]
  from res obtain B idx a n c1 where B: "fmlookup (Buckets s) b = Some B"
    and loc: "locate_member B member = (Some idx, a, n)" and last: "a \<longrightarrow> 1 < n"
    and c1: "ticket_drop E (m_deposit (b_members B ! idx)) (m_depositor (b_members B ! idx)) (balances s) = Inr c1"
    and s': "s' = deposit_event (MemberRemoved b member)
        (s\<lparr>Buckets := fmupd b (B\<lparr>b_members := remove_at idx (b_members B)\<rparr>) (Buckets s),
           MemberBuckets := remove_from_member_index member b (MemberBuckets s), balances := c1\<rparr>)"
    by (cases "locate_member (the (fmlookup (Buckets s) b)) member")
      (auto simp: remove_member_internal_def result_simps Let_def)
  note ok = inv_bucket_ok [OF I B]
  note l = locate_member_Some [OF ok loc]
  have d: "distinct (map m_account (b_members B))" using ok by (simp add: bucket_ok_def)
  from ticket_drop_holds [OF P(1) c1] have h: "money_ok E c1"
    "holds E c1 = sub_hold StorageDeposit (m_depositor (b_members B ! idx)) (m_deposit (b_members B ! idx))
       (holds E (balances s))" by auto
  let ?ms = "remove_at idx (b_members B)"
  let ?bs = "fmupd b (B\<lparr>b_members := ?ms\<rparr>) (Buckets s)"
  have accounts: "m_account ` set ?ms = m_account ` set (b_members B) - {member}"
    using set_remove_at [OF d, of idx] l(1,2) by (simp add: map_remove_at [symmetric])
  have "\<exists>m\<in>set ?ms. m_role m = Admin"
    by (rule remove_keeps_admin) (use ok l last d in \<open>auto simp: bucket_ok_def distinct_map\<close>)
  moreover have "distinct (map m_account ?ms)" using distinct_remove_at [OF d] by (simp add: map_remove_at)
  ultimately have "inv_buckets E ?bs (StorageAgreements s) (NextBucketId s)"
    using ok l(1) by (intro inv_buckets_bucket [OF P(3) B] bucket_ok_members) (auto simp: bucket_ok_def)
  moreover have "inv_members ?bs (remove_from_member_index member b (MemberBuckets s))"
    by (rule inv_members_remove [OF P(4)]) (use B accounts in \<open>auto simp: is_member_of_upd is_member_of_def\<close>)
  moreover have "inv_tickets E (Providers s) ?bs (StorageAgreements s) c1"
    using P(8) h member_tickets_remove_at [OF l(1)]
    by (auto simp: inv_tickets_def bucket_tickets_upd bucket_tickets_old [OF B] tickets_of_bucket_def)
  ultimately show ?thesis using P h unfolding s'
    by (simp add: inv_def inv_money_cong [of E c1 "balances s"])
qed

lemma set_member_inv: "inv E s \<Longrightarrow> set_member E origin b member role s = Inr s' \<Longrightarrow> inv E s'"
  by (auto simp: set_member_def result_simps intro: set_member_internal_inv)

lemma remove_member_inv: "inv E s \<Longrightarrow> remove_member E origin b member s = Inr s' \<Longrightarrow> inv E s'"
  by (auto simp: remove_member_def result_simps intro: remove_member_internal_inv)

end

section \<open>Creation\<close>

definition fresh_bucket ::
    "account \<Rightarrow> nat \<Rightarrow> account list \<Rightarrow> Visibility \<Rightarrow> ticket \<Rightarrow> ticket \<Rightarrow> Bucket" where
  "fresh_bucket admin n ps v t t' =
     \<lparr>b_members = [\<lparr>m_account = admin, m_role = Admin, m_depositor = admin, m_deposit = t\<rparr>],
      b_visibility = v, b_frozen_start_seq = None, b_min_providers = n, b_primary_providers = ps,
      b_snapshot = None, b_historical_roots = replicate 6 (0, Commitment_default),
      b_total_snapshots = 0, b_creator = admin, b_deposit = t'\<rparr>"

lemma create_bucket_internal_Inr:
  assumes "create_bucket_internal E adm n prim v s = Inr (b, s')"
  obtains t c1 t' c2 where
    "b = NextBucketId s" "1 \<le> n" "n \<le> MaxPrimaryProviders (Cfg E)" "0 < MaxMembers (Cfg E)"
    "prim \<noteq> None \<longrightarrow> 0 < MaxPrimaryProviders (Cfg E)"
    "ticket_new E adm (member_footprint E) (balances s) = Inr (t, c1)"
    "ticket_new E adm (bucket_footprint E) c1 = Inr (t', c2)"
    "s' = deposit_event (BucketCreated b adm)
       (s\<lparr>NextBucketId := saturating_add 64 b 1,
          Buckets := fmupd b (fresh_bucket adm n (case prim of None \<Rightarrow> [] | Some p \<Rightarrow> [p]) v t t') (Buckets s),
          MemberBuckets := fmupd adm (fmget [] (MemberBuckets s) adm @ [b]) (MemberBuckets s),
          balances := c2\<rparr>)"
  using assms
  by (auto simp: create_bucket_internal_def result_simps Let_def fresh_bucket_def split: option.splits)

lemma no_bucket_at_next:
  assumes "inv_buckets E (Buckets s) (StorageAgreements s) (NextBucketId s)"
  shows "fmlookup (Buckets s) (NextBucketId s) = None"
    "fmlookup (StorageAgreements s) (NextBucketId s, p) = None"
    "\<not> is_member_of (Buckets s) w (NextBucketId s)"
proof -
  note B = inv_bucketsD [OF assms]
  show *: "fmlookup (Buckets s) (NextBucketId s) = None" using B(1) by (cases "fmlookup (Buckets s) (NextBucketId s)") auto
  show "fmlookup (StorageAgreements s) (NextBucketId s, p) = None"
    using B(4) [of "NextBucketId s" p] * by (cases "fmlookup (StorageAgreements s) (NextBucketId s, p)") auto
  show "\<not> is_member_of (Buckets s) w (NextBucketId s)" using * by (simp add: is_member_of_def)
qed

lemma inv_buckets_fresh:
  assumes "inv_buckets E bs ags n" "n + 1 < 2 ^ 64" "bucket_ok E B"
    and "set (b_primary_providers B) = primary_agreements ags' n"
    and "\<And>b. b \<noteq> n \<Longrightarrow> primary_agreements ags' b = primary_agreements ags b"
    and "\<And>b p a. fmlookup ags' (b, p) = Some a \<Longrightarrow> b \<noteq> n \<Longrightarrow> fmlookup ags (b, p) = Some a"
  shows "inv_buckets E (fmupd n B bs) ags' (saturating_add 64 n 1)"
proof -
  have sat: "saturating_add 64 n 1 = n + 1" using assms(2) by (intro saturating_add_exact) simp
  note B = inv_bucketsD [OF assms(1)]
  show ?thesis unfolding sat
  proof (rule inv_bucketsI)
    fix b B' assume b: "fmlookup (fmupd n B bs) b = Some B'"
    then show "b < n + 1" using B(1) [of b B'] by (auto split: if_splits)
    from b show "bucket_ok E B'" using B(2) assms(3) by (auto split: if_splits)
    from b show "set (b_primary_providers B') = primary_agreements ags' b"
      using B(3) assms(4,5) by (auto split: if_splits)
  next
    fix b p a assume "fmlookup ags' (b, p) = Some a"
    then show "\<exists>B'. fmlookup (fmupd n B bs) b = Some B'" using B(4) assms(6) by fastforce
  qed
qed

context pallet_env
begin

text \<open>The parts that a fresh bucket touches, whatever happens to the agreements.\<close>

lemma create_bucket_parts:
  assumes P: "money_ok E (balances s)" "inv_buckets E (Buckets s) (StorageAgreements s) (NextBucketId s)"
      "inv_members (Buckets s) (MemberBuckets s)"
      "inv_tickets E (Providers s) (Buckets s) (StorageAgreements s) (balances s)"
    and res: "create_bucket_internal E adm n prim v s = Inr (b, s')"
  obtains B where "b = NextBucketId s" "bucket_ok E B" "1 \<le> n" "n \<le> MaxPrimaryProviders (Cfg E)"
    "b_primary_providers B = (case prim of None \<Rightarrow> [] | Some p \<Rightarrow> [p])"
    "Buckets s' = fmupd b B (Buckets s)" "NextBucketId s' = saturating_add 64 b 1"
    "Providers s' = Providers s" "StorageAgreements s' = StorageAgreements s" "Challenges s' = Challenges s"
    "PendingChallenges s' = PendingChallenges s" "PendingChallengesByBucket s' = PendingChallengesByBucket s"
    "NextChallengeIndex s' = NextChallengeIndex s" "anchor s' = anchor s" "AgreementNonces s' = AgreementNonces s"
    "money_ok E (balances s')" "inv_members (Buckets s') (MemberBuckets s')"
    "inv_tickets E (Providers s') (Buckets s') (StorageAgreements s') (balances s')"
    "\<And>r. r \<noteq> StorageDeposit \<Longrightarrow> holds E (balances s') r = holds E (balances s) r"
proof -
  from create_bucket_internal_Inr [OF res] obtain t c1 t' c2 where
    b: "b = NextBucketId s" and n: "1 \<le> n" "n \<le> MaxPrimaryProviders (Cfg E)" and mm: "0 < MaxMembers (Cfg E)"
    and prim: "prim \<noteq> None \<longrightarrow> 0 < MaxPrimaryProviders (Cfg E)"
    and c1: "ticket_new E adm (member_footprint E) (balances s) = Inr (t, c1)"
    and c2: "ticket_new E adm (bucket_footprint E) c1 = Inr (t', c2)"
    and s': "s' = deposit_event (BucketCreated b adm)
       (s\<lparr>NextBucketId := saturating_add 64 b 1,
          Buckets := fmupd b (fresh_bucket adm n (case prim of None \<Rightarrow> [] | Some p \<Rightarrow> [p]) v t t') (Buckets s),
          MemberBuckets := fmupd adm (fmget [] (MemberBuckets s) adm @ [b]) (MemberBuckets s),
          balances := c2\<rparr>)" .
  from ticket_new_holds [OF P(1) c1] have h1: "money_ok E c1"
    "holds E c1 = add_hold StorageDeposit adm t (holds E (balances s))" by auto
  from ticket_new_holds [OF h1(1) c2] have h2: "money_ok E c2"
    "holds E c2 = add_hold StorageDeposit adm t' (holds E c1)" by auto
  note new = no_bucket_at_next [OF P(2), folded b]
  let ?B = "fresh_bucket adm n (case prim of None \<Rightarrow> [] | Some p \<Rightarrow> [p]) v t t'"
  have ok: "bucket_ok E ?B"
    using n mm prim by (cases prim) (simp_all add: bucket_ok_def fresh_bucket_def)
  have mem: "inv_members (Buckets s') (MemberBuckets s')"
  proof -
    have "inv_members (fmupd b ?B (Buckets s)) (fmupd adm (fmget [] (MemberBuckets s) adm @ [b]) (MemberBuckets s))"
      by (rule inv_members_add [OF P(3) new(3)])
        (use new(3) in \<open>auto simp: is_member_of_upd fresh_bucket_def\<close>)
    then show ?thesis by (simp add: s')
  qed
  have tix: "inv_tickets E (Providers s') (Buckets s') (StorageAgreements s') (balances s')"
    using P(4) h1 h2 new(1)
    by (auto simp: s' inv_tickets_def bucket_tickets_upd fmdrop_absent tickets_of_bucket_def fresh_bucket_def)
  show ?thesis
    by (rule that [OF b ok n _ _ _ _ _ _ _ _ _ _ _ _ mem tix])
      (use h1 h2 in \<open>simp_all add: s' fresh_bucket_def\<close>)
qed

lemma create_bucket_inv:
  assumes I: "inv E s" and range: "NextBucketId s + 1 < 2 ^ 64"
    and res: "create_bucket E origin n v s = Inr s'"
  shows "inv E s'"
proof -
  note P = invD [OF I]
  from res obtain adm b where "create_bucket_internal E adm n None v s = Inr (b, s')"
    by (auto simp: create_bucket_def result_simps)
  then show ?thesis
  proof (rule create_bucket_parts [OF P(1,3,4,8)])
    fix B assume b: "b = NextBucketId s" and ok: "bucket_ok E B"
      and prims: "b_primary_providers B = (case None of None \<Rightarrow> [] | Some p \<Rightarrow> [p])"
      and eqs: "Buckets s' = fmupd b B (Buckets s)" "NextBucketId s' = saturating_add 64 b 1"
        "Providers s' = Providers s" "StorageAgreements s' = StorageAgreements s" "Challenges s' = Challenges s"
        "PendingChallenges s' = PendingChallenges s" "PendingChallengesByBucket s' = PendingChallengesByBucket s"
        "NextChallengeIndex s' = NextChallengeIndex s" "anchor s' = anchor s"
      and parts: "money_ok E (balances s')" "inv_members (Buckets s') (MemberBuckets s')"
        "inv_tickets E (Providers s') (Buckets s') (StorageAgreements s') (balances s')"
        "\<And>r. r \<noteq> StorageDeposit \<Longrightarrow> holds E (balances s') r = holds E (balances s) r"
    have "inv_buckets E (fmupd b B (Buckets s)) (StorageAgreements s) (saturating_add 64 b 1)"
      unfolding b by (rule inv_buckets_fresh [OF P(3) range ok])
        (use prims no_bucket_at_next [OF P(3)] in \<open>auto simp: primary_agreements_def\<close>)
    with P parts show ?thesis
      unfolding inv_def by (simp add: eqs inv_money_cong [of E "balances s'" "balances s"])
  qed
qed

end

section \<open>Deletion\<close>

definition index_wf :: "(account, BucketId list) fmap \<Rightarrow> bool" where
  "index_wf mb \<longleftrightarrow> (\<forall>w l. fmlookup mb w = Some l \<longrightarrow> l \<noteq> [] \<and> distinct l)"

context pallet_env
begin

lemma drop_members_result:
  assumes "drop_members E b ms s = Inr s'" "money_ok E (balances s)"
  shows "\<exists>mb c. s' = s\<lparr>MemberBuckets := mb, balances := c\<rparr> \<and> money_ok E c \<and>
    (\<forall>w. holds E c StorageDeposit w = holds E (balances s) StorageDeposit w - member_tickets ms w) \<and>
    (\<forall>r. r \<noteq> StorageDeposit \<longrightarrow> holds E c r = holds E (balances s) r) \<and>
    (\<forall>w. fmget [] mb w = (if w \<in> m_account ` set ms then filter (\<lambda>x. x \<noteq> b) (fmget [] (MemberBuckets s) w)
           else fmget [] (MemberBuckets s) w)) \<and>
    (index_wf (MemberBuckets s) \<longrightarrow>
       index_wf mb)"
  using assms
proof (induction ms arbitrary: s)
  case Nil
  then show ?case by (intro exI [of _ "MemberBuckets s'"] exI [of _ "balances s'"]) auto
next
  case (Cons m ms)
  let ?mb = "remove_from_member_index (m_account m) b (MemberBuckets s)"
  from Cons.prems obtain c1 where c1: "ticket_drop E (m_deposit m) (m_depositor m) (balances s) = Inr c1"
    and rest: "drop_members E b ms (s\<lparr>MemberBuckets := ?mb, balances := c1\<rparr>) = Inr s'"
    by (auto simp: result_simps)
  from ticket_drop_holds [OF Cons.prems(2) c1] have h: "money_ok E c1"
    "holds E c1 = sub_hold StorageDeposit (m_depositor m) (m_deposit m) (holds E (balances s))" by auto
  have wf: "index_wf (MemberBuckets s) \<longrightarrow>
      index_wf ?mb"
    using member_index_wf [of "MemberBuckets s"] unfolding index_wf_def by blast
  have ok: "money_ok E (balances (s\<lparr>MemberBuckets := ?mb, balances := c1\<rparr>))" using h(1) by simp
  from Cons.IH [OF rest ok] obtain mb c where
    *: "s' = s\<lparr>MemberBuckets := mb, balances := c\<rparr>" "money_ok E c"
      "\<forall>w. holds E c StorageDeposit w = holds E c1 StorageDeposit w - member_tickets ms w"
      "\<forall>r. r \<noteq> StorageDeposit \<longrightarrow> holds E c r = holds E c1 r"
      "\<forall>w. fmget [] mb w = (if w \<in> m_account ` set ms then filter (\<lambda>x. x \<noteq> b) (fmget [] ?mb w) else fmget [] ?mb w)"
      "index_wf ?mb \<longrightarrow>
         index_wf mb"
    by auto
  have "\<forall>w. fmget [] mb w = (if w \<in> m_account ` set (m # ms) then filter (\<lambda>x. x \<noteq> b) (fmget [] (MemberBuckets s) w)
           else fmget [] (MemberBuckets s) w)"
    using *(5) by auto
  with *(1-4,6) wf h(2) show ?case
    by (intro exI [of _ mb] exI [of _ c]) auto
qed

lemma delete_bucket_inv:
  assumes I: "inv E s" and res: "delete_bucket E origin b s = Inr s'"
  shows "inv E s'"
proof -
  note P = invD [OF I]
  from res obtain B s1 c2 where B: "fmlookup (Buckets s) b = Some B"
    and empty: "\<And>p. fmlookup (StorageAgreements s) (b, p) = None"
    and s1: "drop_members E b (b_members B) s = Inr s1"
    and c2: "ticket_drop E (b_deposit B) (b_creator B) (balances s1) = Inr c2"
    and s': "s' = deposit_event (BucketDeleted b) (s1\<lparr>Buckets := fmdrop b (Buckets s1), balances := c2\<rparr>)"
    by (auto simp: delete_bucket_def remove_bucket_internal_def result_simps fmany_iff)
  from drop_members_result [OF s1 P(1)] obtain mb c where
    s1': "s1 = s\<lparr>MemberBuckets := mb, balances := c\<rparr>" and ok: "money_ok E c"
    and dep: "\<forall>w. holds E c StorageDeposit w = holds E (balances s) StorageDeposit w - member_tickets (b_members B) w"
    and other: "\<forall>r. r \<noteq> StorageDeposit \<longrightarrow> holds E c r = holds E (balances s) r"
    and get: "\<forall>w. fmget [] mb w = (if w \<in> m_account ` set (b_members B)
        then filter (\<lambda>x. x \<noteq> b) (fmget [] (MemberBuckets s) w) else fmget [] (MemberBuckets s) w)"
    and wf: "index_wf (MemberBuckets s) \<longrightarrow>
       index_wf mb" by blast
  from ticket_drop_holds [of c] c2 ok s1' have h: "money_ok E c2"
    "holds E c2 = sub_hold StorageDeposit (b_creator B) (b_deposit B) (holds E c)" by auto
  have "inv_buckets E (fmdrop b (Buckets s)) (StorageAgreements s) (NextBucketId s)"
    using inv_bucketsD [OF P(3)] empty by (intro inv_bucketsI) (auto split: if_splits)
  moreover have "inv_members (fmdrop b (Buckets s)) mb"
  proof (rule inv_membersI)
    show "\<And>w l. fmlookup mb w = Some l \<Longrightarrow> l \<noteq> [] \<and> distinct l" using wf inv_membersD(1) [OF P(4)] unfolding index_wf_def by blast
    show "b' \<in> set (fmget [] mb w) \<longleftrightarrow> is_member_of (fmdrop b (Buckets s)) w b'" for w b'
      using inv_membersD(2) [OF P(4), of b' w] B get by (auto simp: is_member_of_def)
  qed
  moreover have "inv_tickets E (Providers s) (fmdrop b (Buckets s)) (StorageAgreements s) c2"
    using P(8) h dep by (auto simp: inv_tickets_def bucket_tickets_old [OF B] tickets_of_bucket_def)
  ultimately show ?thesis using P h other unfolding s' s1'
    by (simp add: inv_def inv_money_cong [of E c2 "balances s"])
qed

end

end
