(* ===== verification/Agreements.thy ===== *)
theory Agreements
  imports Providers Buckets
begin

text \<open>
  Storage agreements (\<open>impls/agreements.rs\<close> and the agreement calls of
  \<open>lib.rs\<close>): redemption of provider-signed quotes, top-up, extension, ownership
  transfer, settlement, and removal of slashed providers.
\<close>

section \<open>Prices and durations\<close>

definition validate_duration :: "ProviderSettings \<Rightarrow> nat \<Rightarrow> Error + unit" where
  "validate_duration settings duration =
     ensure (ps_min_duration settings \<le> duration) DurationTooShort
     (ensure (duration \<le> ps_max_duration settings) DurationTooLong (Inr ()))"

definition calculate_payment :: "nat \<Rightarrow> nat \<Rightarrow> nat \<Rightarrow> Error + nat" where
  "calculate_payment price_per_byte max_bytes duration =
     ok_or (checked_mul 128 price_per_byte max_bytes) ArithmeticOverflow (\<lambda>p.
     ok_or (checked_mul 128 p duration) ArithmeticOverflow Inr)"

section \<open>Removal of agreements\<close>

definition remove_primary_from_bucket :: "BucketId \<Rightarrow> account \<Rightarrow> 'c pstate \<Rightarrow> 'c pstate" where
  "remove_primary_from_bucket bucket_id provider s =
     (case fmlookup (Buckets s) bucket_id of
        None \<Rightarrow> s
      | Some bucket \<Rightarrow>
          (case position (\<lambda>p. p = provider) (b_primary_providers bucket) of
             None \<Rightarrow> s
           | Some pos \<Rightarrow>
               s\<lparr>Buckets := fmupd bucket_id
                   (bucket\<lparr>b_primary_providers := remove_at pos (b_primary_providers bucket),
                      b_snapshot := map_option (\<lambda>snapshot.
                        if pos < length (primary_signers snapshot)
                        then snapshot\<lparr>primary_signers := remove_at pos (primary_signers snapshot)\<rparr>
                        else snapshot) (b_snapshot bucket)\<rparr>)
                   (Buckets s)\<rparr>))"

definition remove_agreement ::
    "('c, 'm) env \<Rightarrow> BucketId \<Rightarrow> account \<Rightarrow> StorageAgreement \<Rightarrow> 'c pstate \<Rightarrow> Error + 'c pstate" where
  "remove_agreement E bucket_id provider agreement s =
     attempt (ticket_drop E (ag_deposit agreement) (ag_depositor agreement) (balances s)) (\<lambda>c.
       Inr (s\<lparr>StorageAgreements := fmdrop (bucket_id, provider) (StorageAgreements s), balances := c\<rparr>))"

definition settlement_split :: "nat \<Rightarrow> EndAction \<Rightarrow> nat \<times> nat" where
  "settlement_split payment_locked action =
     (case action of
        Pay \<Rightarrow> (payment_locked, 0)
      | Burn burn_percent \<Rightarrow>
          let burn_percent' = min burn_percent 100;
              burn_amount = wrapping_mul 128 payment_locked burn_percent' div 100;
              pay_amount = saturating_sub payment_locked burn_amount
          in (pay_amount, burn_amount))"

definition finalize_agreement ::
    "('c, 'm) env \<Rightarrow> BucketId \<Rightarrow> account \<Rightarrow> StorageAgreement \<Rightarrow> EndAction \<Rightarrow> bool \<Rightarrow> 'c pstate \<Rightarrow>
     Error + 'c pstate" where
  "finalize_agreement E bucket_id provider agreement action is_early s =
     (let (to_provider, to_burn) = settlement_split (ag_payment_locked agreement) action in
      attempt (settle_payment E (ag_owner agreement) provider to_provider (balances s)) (\<lambda>c1.
      attempt (settle_payment E (ag_owner agreement) (Treasury (Cfg E)) to_burn c1) (\<lambda>c2.
      attempt (case ag_role agreement of
                 Replica sync_bal _ _ _ \<Rightarrow> release_payment E (ag_owner agreement) sync_bal c2
               | Primary \<Rightarrow> Inr c2) (\<lambda>c3.
      let s1 = mutate_provider provider (\<lambda>info.
                 mutate_stats (\<lambda>st.
                   let st1 = st\<lparr>st_lifetime_revenue := saturating_add 128 (st_lifetime_revenue st) to_provider\<rparr>
                   in if 0 < to_burn
                      then st1\<lparr>st_agreements_burned := saturating_add 32 (st_agreements_burned st) 1\<rparr>
                      else st1\<lparr>st_agreements_not_extended := saturating_add 32 (st_agreements_not_extended st) 1\<rparr>)
                 (info\<lparr>pi_committed_bytes := saturating_sub (pi_committed_bytes info) (ag_max_bytes agreement)\<rparr>))
               (s\<lparr>balances := c3\<rparr>);
          s2 = (if ag_role agreement = Primary
                then deposit_event (PrimaryProviderRemoved bucket_id provider
                       (if is_early then AdminTerminated else Expired))
                       (remove_primary_from_bucket bucket_id provider s1)
                else s1)
      in attempt (remove_agreement E bucket_id provider agreement s2) (\<lambda>s3.
           Inr (deposit_event (AgreementEnded bucket_id provider to_provider to_burn) s3))))))"

definition end_agreement ::
    "('c, 'm) env \<Rightarrow> RuntimeOrigin \<Rightarrow> BucketId \<Rightarrow> account \<Rightarrow> EndAction \<Rightarrow> 'c pstate \<Rightarrow> Error + 'c pstate" where
  "end_agreement E origin bucket_id provider action s =
     ensure_signed origin (\<lambda>who.
     ok_or (fmlookup (StorageAgreements s) (bucket_id, provider)) AgreementNotFound (\<lambda>agreement.
     ensure (fmget 0 (PendingChallengesByBucket s) (bucket_id, provider) = 0) AgreementHasPendingChallenge
     (let is_early_termination = anchor s < ag_expires_at agreement in
      attempt (if is_early_termination then
                 ok_or (fmlookup (Buckets s) bucket_id) BucketNotFound (\<lambda>bucket.
                 attempt (ensure_admin who bucket) (\<lambda>_.
                 ensure (ag_role agreement = Primary) CannotTerminateReplica (Inr ())))
               else
                 ensure (ag_owner agreement = who) NotAgreementOwner
                 (ensure (anchor s \<le> saturating_add 32 (ag_expires_at agreement) (SettlementTimeout (Cfg E)))
                   SettlementWindowPassed (Inr ()))) (\<lambda>_.
      finalize_agreement E bucket_id provider agreement action is_early_termination s))))"

definition claim_expired_agreement ::
    "('c, 'm) env \<Rightarrow> RuntimeOrigin \<Rightarrow> BucketId \<Rightarrow> 'c pstate \<Rightarrow> Error + 'c pstate" where
  "claim_expired_agreement E origin bucket_id s =
     ensure_signed origin (\<lambda>who.
     ok_or (fmlookup (StorageAgreements s) (bucket_id, who)) AgreementNotFound (\<lambda>agreement.
     ensure (fmget 0 (PendingChallengesByBucket s) (bucket_id, who) = 0) AgreementHasPendingChallenge
     (ensure (ag_expires_at agreement < anchor s) AgreementNotExpired
     (ensure (saturating_add 32 (ag_expires_at agreement) (SettlementTimeout (Cfg E)) < anchor s)
       AgreementNotExpired
     (finalize_agreement E bucket_id who agreement Pay False s)))))"

definition remove_slashed ::
    "('c, 'm) env \<Rightarrow> RuntimeOrigin \<Rightarrow> BucketId \<Rightarrow> account \<Rightarrow> 'c pstate \<Rightarrow> Error + 'c pstate" where
  "remove_slashed E origin bucket_id provider s =
     ensure_signed origin (\<lambda>_.
     ok_or (fmlookup (Providers s) provider) ProviderNotFound (\<lambda>provider_info.
     ensure (pi_stake provider_info = 0) ProviderNotSlashed
     (ensure (fmget 0 (PendingChallengesByBucket s) (bucket_id, provider) = 0) AgreementHasPendingChallenge
     (ok_or (fmlookup (StorageAgreements s) (bucket_id, provider)) AgreementNotFound (\<lambda>agreement.
      let returned = escrow agreement in
      attempt (release_payment E (ag_owner agreement) returned (balances s)) (\<lambda>c1.
      let s1 = mutate_provider provider (\<lambda>info.
                 info\<lparr>pi_committed_bytes := saturating_sub (pi_committed_bytes info) (ag_max_bytes agreement)\<rparr>)
               (s\<lparr>balances := c1\<rparr>);
          s2 = (if ag_role agreement = Primary
                then deposit_event (PrimaryProviderRemoved bucket_id provider Slashed)
                       (remove_primary_from_bucket bucket_id provider s1)
                else s1)
      in attempt (remove_agreement E bucket_id provider agreement s2) (\<lambda>s3.
           Inr (deposit_event (SlashedProviderRemoved bucket_id provider returned) s3))))))))"

section \<open>Redemption of quotes\<close>

datatype QuoteKind = Quote_Primary | Quote_Replica

definition quote_context :: "QuoteKind \<Rightarrow> byte list" where
  "quote_context kind =
     (case kind of Quote_Primary \<Rightarrow> PRIMARY_TERM_CONTEXT | Quote_Replica \<Rightarrow> REPLICA_TERM_CONTEXT)"

record AcceptedQuote =
  aq_anchor_block :: nat
  aq_new_committed :: nat
  aq_payment :: nat
  aq_role :: ProviderRole

definition validate_terms ::
    "('c, 'm) env \<Rightarrow> account \<Rightarrow> AgreementTerms \<Rightarrow> BucketTarget \<Rightarrow> 'c pstate \<Rightarrow> Error + nat" where
  "validate_terms E owner terms target s =
     ensure (at_owner terms = owner) TermsOwnerMismatch
     (ensure (at_bucket terms = target) TermsBucketMismatch
     (ensure (0 < at_max_bytes terms) InvalidMaxBytesRequest
     (ensure (anchor s \<le> at_valid_until terms) TermsExpired
     (ensure (at_valid_until terms \<le> saturating_add 32 (anchor s) (RequestTimeout (Cfg E))) TermsValidityTooLong
     (Inr (anchor s))))))"

definition check_capacity :: "('c, 'm) env \<Rightarrow> ProviderInfo \<Rightarrow> AgreementTerms \<Rightarrow> Error + nat" where
  "check_capacity E provider_info terms =
     attempt (validate_duration (pi_settings provider_info) (at_duration terms)) (\<lambda>_.
     ensure (ps_min_agreement_bytes (pi_settings provider_info) \<le> at_max_bytes terms) MaxBytesBelowMinimum
     (ok_or (checked_add 64 (pi_committed_bytes provider_info) (at_max_bytes terms)) ArithmeticOverflow (\<lambda>new_committed.
      ensure (0 < ps_max_capacity (pi_settings provider_info) \<longrightarrow>
              new_committed \<le> ps_max_capacity (pi_settings provider_info)) CapacityExceeded
      (ok_or (checked_mul 128 (MinStakePerByte (Cfg E)) new_committed) ArithmeticOverflow (\<lambda>required_stake.
       ensure (required_stake \<le> pi_stake provider_info) InsufficientStakeForBytes
       (Inr new_committed))))))"

definition quote_role :: "QuoteKind \<Rightarrow> AgreementTerms \<Rightarrow> Error + ProviderRole \<times> nat" where
  "quote_role kind terms =
     (case kind of
        Quote_Primary \<Rightarrow>
          ensure (at_replica_params terms = None) UnexpectedReplicaTerms (Inr (Primary, 0))
      | Quote_Replica \<Rightarrow>
          ok_or (at_replica_params terms) MissingReplicaTerms (\<lambda>replica.
            Inr (Replica (rt_sync_balance replica) (rt_sync_price replica) (rt_min_sync_interval replica) None,
                 rt_sync_balance replica)))"

definition accept_quote ::
    "('c, 'm) env \<Rightarrow> account \<Rightarrow> account \<Rightarrow> AgreementTerms \<Rightarrow> MultiSignature \<Rightarrow> BucketTarget \<Rightarrow> QuoteKind \<Rightarrow>
     'c pstate \<Rightarrow> Error + AcceptedQuote \<times> 'c pstate" where
  "accept_quote E owner provider terms sig target kind s =
     attempt (validate_terms E owner terms target s) (\<lambda>anchor_block.
     attempt (case target of
                Existing bucket_id \<Rightarrow>
                  ensure (fmhas (Buckets s) bucket_id) BucketNotFound
                  (ensure (\<not> fmhas (StorageAgreements s) (bucket_id, provider)) AgreementAlreadyExists (Inr ()))
              | New \<Rightarrow> Inr ()) (\<lambda>_.
     attempt (quote_role kind terms) (\<lambda>(role, sync_bal).
     ok_or (fmlookup (Providers s) provider) ProviderNotFound (\<lambda>provider_info.
     attempt (verify_terms_signature E provider_info terms sig (quote_context kind)) (\<lambda>_.
     ensure (at_nonce terms = fmget 0 (AgreementNonces s) owner) NonceMismatch
     (let s1 = s\<lparr>AgreementNonces :=
                 fmupd owner (saturating_add 64 (fmget 0 (AgreementNonces s) owner) 1) (AgreementNonces s)\<rparr> in
      attempt (ensure_provider_active provider_info) (\<lambda>_.
      attempt (case kind of
                 Quote_Primary \<Rightarrow>
                   ensure (ps_accepting_primary (pi_settings provider_info)) ProviderNotAcceptingPrimary (Inr ())
               | Quote_Replica \<Rightarrow>
                   ensure (ps_replica_sync_price (pi_settings provider_info) \<noteq> None)
                     ProviderNotAcceptingReplicas (Inr ())) (\<lambda>_.
      attempt (check_capacity E provider_info terms) (\<lambda>new_committed.
      attempt (calculate_payment (at_price_per_byte terms) (at_max_bytes terms) (at_duration terms)) (\<lambda>payment.
      ok_or (checked_add 128 payment sync_bal) ArithmeticOverflow (\<lambda>total_hold.
      attempt (hold_payment E owner total_hold (balances s1)) (\<lambda>c1.
        Inr (\<lparr>aq_anchor_block = anchor_block, aq_new_committed = new_committed,
              aq_payment = payment, aq_role = role\<rparr>,
             s1\<lparr>balances := c1\<rparr>)))))))))))))"

definition insert_agreement ::
    "('c, 'm) env \<Rightarrow> BucketId \<Rightarrow> account \<Rightarrow> account \<Rightarrow> AgreementTerms \<Rightarrow> AcceptedQuote \<Rightarrow> 'c pstate \<Rightarrow>
     Error + nat \<times> 'c pstate" where
  "insert_agreement E bucket_id owner provider terms accepted s =
     (let expires_at = saturating_add 32 (aq_anchor_block accepted) (at_duration terms);
          s1 = mutate_provider provider (\<lambda>p.
                 mutate_stats (\<lambda>st. st\<lparr>
                   st_agreements_total := saturating_add 32 (st_agreements_total st) 1,
                   st_total_bytes_committed := saturating_add 64 (st_total_bytes_committed st) (at_max_bytes terms)\<rparr>)
                 (p\<lparr>pi_committed_bytes := aq_new_committed accepted\<rparr>)) s
      in attempt (ticket_new E owner (agreement_footprint E) (balances s1)) (\<lambda>(deposit, c).
           Inr (expires_at,
             s1\<lparr>StorageAgreements := fmupd (bucket_id, provider)
                  \<lparr>ag_owner = owner, ag_max_bytes = at_max_bytes terms, ag_payment_locked = aq_payment accepted,
                   ag_price_per_byte = at_price_per_byte terms, ag_expires_at = expires_at,
                   ag_extensions_blocked = False, ag_role = aq_role accepted,
                   ag_started_at = aq_anchor_block accepted, ag_depositor = owner, ag_deposit = deposit\<rparr>
                  (StorageAgreements s1),
                balances := c\<rparr>)))"

definition insert_primary_agreement ::
    "('c, 'm) env \<Rightarrow> BucketId \<Rightarrow> account \<Rightarrow> account \<Rightarrow> AgreementTerms \<Rightarrow> AcceptedQuote \<Rightarrow> 'c pstate \<Rightarrow>
     Error + 'c pstate" where
  "insert_primary_agreement E bucket_id owner provider terms accepted s =
     attempt (insert_agreement E bucket_id owner provider terms accepted s) (\<lambda>(expires_at, s1).
       Inr (deposit_event (StorageAgreementEstablished bucket_id provider owner terms expires_at)
             (deposit_event (ProviderAddedToBucket bucket_id provider) s1)))"

definition create_bucket_with_primary_internal ::
    "('c, 'm) env \<Rightarrow> account \<Rightarrow> account \<Rightarrow> AgreementTerms \<Rightarrow> MultiSignature \<Rightarrow> Visibility \<Rightarrow> 'c pstate \<Rightarrow>
     Error + BucketId \<times> 'c pstate" where
  "create_bucket_with_primary_internal E owner provider terms sig visibility s =
     attempt (accept_quote E owner provider terms sig New Quote_Primary s) (\<lambda>(accepted, s1).
     attempt (create_bucket_internal E owner 1 (Some provider) visibility s1) (\<lambda>(bucket_id, s2).
     attempt (insert_primary_agreement E bucket_id owner provider terms accepted s2) (\<lambda>s3.
       Inr (bucket_id, s3))))"

definition create_bucket_with_primary ::
    "('c, 'm) env \<Rightarrow> RuntimeOrigin \<Rightarrow> account \<Rightarrow> AgreementTerms \<Rightarrow> MultiSignature \<Rightarrow> Visibility \<Rightarrow> 'c pstate \<Rightarrow>
     Error + 'c pstate" where
  "create_bucket_with_primary E origin provider terms sig visibility s =
     ensure_signed origin (\<lambda>who.
     attempt (create_bucket_with_primary_internal E who provider terms sig visibility s) (\<lambda>(_, s'). Inr s'))"

definition add_primary_provider_internal ::
    "('c, 'm) env \<Rightarrow> account \<Rightarrow> BucketId \<Rightarrow> account \<Rightarrow> AgreementTerms \<Rightarrow> MultiSignature \<Rightarrow> 'c pstate \<Rightarrow>
     Error + 'c pstate" where
  "add_primary_provider_internal E admin bucket_id provider terms sig s =
     ok_or (fmlookup (Buckets s) bucket_id) BucketNotFound (\<lambda>bucket.
     attempt (ensure_admin admin bucket) (\<lambda>_.
     ok_or (try_push (MaxPrimaryProviders (Cfg E)) (b_primary_providers bucket) provider)
       MaxPrimaryProvidersReached (\<lambda>primaries.
     let bucket' = bucket\<lparr>b_primary_providers := primaries,
           b_snapshot := map_option (\<lambda>sn. sn\<lparr>primary_signers := primary_signers sn @ [False]\<rparr>) (b_snapshot bucket)\<rparr> in
     attempt (accept_quote E admin provider terms sig (Existing bucket_id) Quote_Primary s) (\<lambda>(accepted, s1).
       insert_primary_agreement E bucket_id admin provider terms accepted
         (s1\<lparr>Buckets := fmupd bucket_id bucket' (Buckets s1)\<rparr>)))))"

definition add_primary_provider ::
    "('c, 'm) env \<Rightarrow> RuntimeOrigin \<Rightarrow> BucketId \<Rightarrow> account \<Rightarrow> AgreementTerms \<Rightarrow> MultiSignature \<Rightarrow> 'c pstate \<Rightarrow>
     Error + 'c pstate" where
  "add_primary_provider E origin bucket_id provider terms sig s =
     ensure_signed origin (\<lambda>who. add_primary_provider_internal E who bucket_id provider terms sig s)"

definition add_replica_provider_internal ::
    "('c, 'm) env \<Rightarrow> account \<Rightarrow> BucketId \<Rightarrow> account \<Rightarrow> AgreementTerms \<Rightarrow> MultiSignature \<Rightarrow> 'c pstate \<Rightarrow>
     Error + 'c pstate" where
  "add_replica_provider_internal E owner bucket_id provider terms sig s =
     attempt (accept_quote E owner provider terms sig (Existing bucket_id) Quote_Replica s) (\<lambda>(accepted, s1).
     attempt (insert_agreement E bucket_id owner provider terms accepted s1) (\<lambda>(expires_at, s2).
       Inr (deposit_event (ReplicaAgreementEstablished bucket_id provider owner terms expires_at) s2)))"

definition add_replica_provider ::
    "('c, 'm) env \<Rightarrow> RuntimeOrigin \<Rightarrow> BucketId \<Rightarrow> account \<Rightarrow> AgreementTerms \<Rightarrow> MultiSignature \<Rightarrow> 'c pstate \<Rightarrow>
     Error + 'c pstate" where
  "add_replica_provider E origin bucket_id provider terms sig s =
     ensure_signed origin (\<lambda>who. add_replica_provider_internal E who bucket_id provider terms sig s)"

section \<open>Changes to a live agreement\<close>

definition top_up_agreement ::
    "('c, 'm) env \<Rightarrow> RuntimeOrigin \<Rightarrow> BucketId \<Rightarrow> account \<Rightarrow> nat \<Rightarrow> nat \<Rightarrow> 'c pstate \<Rightarrow> Error + 'c pstate" where
  "top_up_agreement E origin bucket_id provider additional_bytes max_payment s =
     ensure_signed origin (\<lambda>who.
     ok_or (fmlookup (Providers s) provider) ProviderNotFound (\<lambda>provider_info.
     attempt (ensure_provider_active provider_info) (\<lambda>_.
     ok_or (fmlookup (StorageAgreements s) (bucket_id, provider)) AgreementNotFound (\<lambda>agreement.
     ensure (ag_owner agreement = who) NotAgreementOwner
     (ensure (anchor s < ag_expires_at agreement) AgreementExpired
     (let remaining_duration = saturating_sub (ag_expires_at agreement) (anchor s) in
      attempt (calculate_payment (ps_price_per_byte (pi_settings provider_info)) additional_bytes
                 remaining_duration) (\<lambda>payment.
      ensure (payment \<le> max_payment) PaymentExceedsMax
      (attempt (hold_payment_from E who (ag_owner agreement) payment (balances s)) (\<lambda>c1.
       ok_or (checked_add 64 (ag_max_bytes agreement) additional_bytes) ArithmeticOverflow (\<lambda>new_max_bytes.
       ok_or (checked_add 128 (ag_payment_locked agreement) payment) ArithmeticOverflow (\<lambda>new_locked.
       let s1 = mutate_provider provider (\<lambda>info.
                  info\<lparr>pi_committed_bytes := saturating_add 64 (pi_committed_bytes info) additional_bytes\<rparr>)
                (s\<lparr>balances := c1\<rparr>)
       in Inr (deposit_event (AgreementToppedUp bucket_id provider payment new_max_bytes)
            (s1\<lparr>StorageAgreements := fmupd (bucket_id, provider)
                 (agreement\<lparr>ag_max_bytes := new_max_bytes, ag_payment_locked := new_locked\<rparr>)
                 (StorageAgreements s1)\<rparr>)))))))))))))"

definition transfer_agreement_ownership ::
    "('c, 'm) env \<Rightarrow> RuntimeOrigin \<Rightarrow> BucketId \<Rightarrow> account \<Rightarrow> account \<Rightarrow> 'c pstate \<Rightarrow> Error + 'c pstate" where
  "transfer_agreement_ownership E origin bucket_id provider new_owner s =
     ensure_signed origin (\<lambda>who.
     ensure (new_owner \<noteq> who) TransferToSelf
     (ok_or (fmlookup (StorageAgreements s) (bucket_id, provider)) AgreementNotFound (\<lambda>agreement.
      ensure (ag_owner agreement = who) NotAgreementOwner
      (let amount = escrow agreement in
       attempt (transfer_payment_on_hold E who new_owner amount (balances s)) (\<lambda>c1.
         Inr (deposit_event (AgreementOwnershipTransferred bucket_id provider who new_owner amount)
           (s\<lparr>StorageAgreements := fmupd (bucket_id, provider) (agreement\<lparr>ag_owner := new_owner\<rparr>)
                (StorageAgreements s),
              balances := c1\<rparr>)))))))"

text \<open>
  Two steps of \<open>extend_agreement\<close>: what the elapsed period costs, capped at the
  agreement's own escrow, and the role record with the current sync price.
\<close>

definition elapsed_settlement :: "StorageAgreement \<Rightarrow> nat \<Rightarrow> Error + nat" where
  "elapsed_settlement agreement anchor_block =
     (let elapsed = saturating_sub anchor_block (ag_started_at agreement)
      in if elapsed \<noteq> 0
         then attempt (calculate_payment (ag_price_per_byte agreement) (ag_max_bytes agreement) elapsed)
                (\<lambda>p. Inr (min p (ag_payment_locked agreement)))
         else Inr 0)"

definition extended_role :: "ProviderSettings \<Rightarrow> ProviderRole \<Rightarrow> Error + ProviderRole" where
  "extended_role settings role =
     (case role of
        Replica sync_bal _ interval synced \<Rightarrow>
          ok_or (ps_replica_sync_price settings) ProviderNotAcceptingReplicas
            (\<lambda>new_sync_price. Inr (Replica sync_bal new_sync_price interval synced))
      | Primary \<Rightarrow> Inr Primary)"

definition extend_agreement ::
    "('c, 'm) env \<Rightarrow> RuntimeOrigin \<Rightarrow> BucketId \<Rightarrow> account \<Rightarrow> nat \<Rightarrow> nat \<Rightarrow> 'c pstate \<Rightarrow> Error + 'c pstate" where
  "extend_agreement E origin bucket_id provider additional_duration max_payment s =
     ensure_signed origin (\<lambda>who.
     ok_or (fmlookup (Providers s) provider) ProviderNotFound (\<lambda>provider_info.
     attempt (ensure_provider_active provider_info) (\<lambda>_.
     ensure (ps_accepting_extensions (pi_settings provider_info)) ProviderNotAcceptingExtensions
     (ok_or (fmlookup (StorageAgreements s) (bucket_id, provider)) AgreementNotFound (\<lambda>agreement.
      ensure (\<not> ag_extensions_blocked agreement) AgreementExtensionsBlocked
      (attempt (validate_duration (pi_settings provider_info) additional_duration) (\<lambda>_.
       let price = ps_price_per_byte (pi_settings provider_info);
           price_increased = ag_price_per_byte agreement < price
       in
       ensure (price_increased \<longrightarrow> ag_owner agreement = who) NotAgreementOwner
       (ensure (anchor s < ag_expires_at agreement) AgreementExpired
       (attempt (elapsed_settlement agreement (anchor s)) (\<lambda>elapsed_payment.
        attempt (settle_payment E (ag_owner agreement) provider elapsed_payment (balances s)) (\<lambda>c1.
        attempt (calculate_payment price (ag_max_bytes agreement) additional_duration) (\<lambda>extension_payment.
        ensure (extension_payment \<le> max_payment) PaymentExceedsMax
        (attempt (hold_payment_from E who (ag_owner agreement) extension_payment c1) (\<lambda>c2.
        attempt (extended_role (pi_settings provider_info) (ag_role agreement)) (\<lambda>role'.
        let agreement' = agreement\<lparr>
              ag_expires_at := saturating_add 32 (anchor s) additional_duration,
              ag_started_at := anchor s,
              ag_price_per_byte := price,
              ag_role := role',
              ag_payment_locked := saturating_add 128
                (saturating_sub (ag_payment_locked agreement) elapsed_payment) extension_payment\<rparr>;
            s1 = mutate_provider provider (mutate_stats (\<lambda>st. st\<lparr>
                   st_agreements_extended := saturating_add 32 (st_agreements_extended st) 1,
                   st_lifetime_revenue := saturating_add 128 (st_lifetime_revenue st) elapsed_payment\<rparr>))
                 (s\<lparr>balances := c2\<rparr>)
        in Inr (deposit_event (AgreementExtended bucket_id provider (ag_expires_at agreement') extension_payment)
             (s1\<lparr>StorageAgreements := fmupd (bucket_id, provider) agreement' (StorageAgreements s1)\<rparr>)))))))))))))))))"

end
