(* ===== verification/Agreements_Inv.thy ===== *)
theory Agreements_Inv
  imports Agreements
begin

text \<open>
  Every agreement call preserves the invariant. Opening and closing an agreement each have
  one lemma over the parts of the invariant, which the calls instantiate:
  \<open>establish_inv\<close> for the three redemption calls and \<open>teardown_inv\<close> for
  settlement and the removal of slashed providers.
\<close>

section \<open>Settlement\<close>

lemma settlement_split_exact:
  assumes "settlement_split locked action = (to_provider, to_burn)"
  shows "to_provider + to_burn = locked"
proof (cases action)
  case (Burn q)
  have "(locked * min q 100) mod 2 ^ 128 \<le> locked * min q 100" by (rule mod_less_eq_dividend)
  also have "\<dots> \<le> locked * 100" by simp
  finally have "(locked * min q 100) mod 2 ^ 128 div 100 \<le> locked" by (simp add: div_le_mono [of _ "locked * 100" 100, simplified])
  with Burn assms show ?thesis by (auto simp: settlement_split_def Let_def wrapping_mul_def)
qed (use assms in \<open>simp add: settlement_split_def\<close>)

section \<open>Removing a primary\<close>

lemma remove_primary_select [simp]:
  "Providers (remove_primary_from_bucket b p s) = Providers s"
  "AgreementNonces (remove_primary_from_bucket b p s) = AgreementNonces s"
  "NextBucketId (remove_primary_from_bucket b p s) = NextBucketId s"
  "StorageAgreements (remove_primary_from_bucket b p s) = StorageAgreements s"
  "Challenges (remove_primary_from_bucket b p s) = Challenges s"
  "NextChallengeIndex (remove_primary_from_bucket b p s) = NextChallengeIndex s"
  "PendingChallenges (remove_primary_from_bucket b p s) = PendingChallenges s"
  "PendingChallengesByBucket (remove_primary_from_bucket b p s) = PendingChallengesByBucket s"
  "MemberBuckets (remove_primary_from_bucket b p s) = MemberBuckets s"
  "balances (remove_primary_from_bucket b p s) = balances s"
  "anchor (remove_primary_from_bucket b p s) = anchor s"
  by (simp_all add: remove_primary_from_bucket_def split: option.split)

definition without_primary :: "nat \<Rightarrow> Bucket \<Rightarrow> Bucket" where
  "without_primary pos B = B\<lparr>b_primary_providers := remove_at pos (b_primary_providers B),
     b_snapshot := map_option (\<lambda>snapshot.
       if pos < length (primary_signers snapshot)
       then snapshot\<lparr>primary_signers := remove_at pos (primary_signers snapshot)\<rparr>
       else snapshot) (b_snapshot B)\<rparr>"

lemma without_primary_ok:
  assumes "bucket_ok E B" "pos < length (b_primary_providers B)"
  shows "bucket_ok E (without_primary pos B)"
  using assms by (cases "b_snapshot B") (auto simp: bucket_ok_def without_primary_def distinct_remove_at)

lemma remove_primary_Buckets:
  assumes "fmlookup (Buckets s) b = Some B" "p \<in> set (b_primary_providers B)"
  obtains pos where "pos < length (b_primary_providers B)" "b_primary_providers B ! pos = p"
    "Buckets (remove_primary_from_bucket b p s) = fmupd b (without_primary pos B) (Buckets s)"
proof -
  obtain pos where pos: "position (\<lambda>x. x = p) (b_primary_providers B) = Some pos"
    using assms(2) by (cases "position (\<lambda>x. x = p) (b_primary_providers B)") (auto simp: position_None)
  with assms(1) that [of pos] show ?thesis
    by (auto simp: remove_primary_from_bucket_def without_primary_def position_Some)
qed

lemma inv_buckets_drop_replica:
  assumes "inv_buckets E bs ags n" "fmlookup ags (b, p) = Some a" "ag_role a \<noteq> Primary"
  shows "inv_buckets E bs (fmdrop (b, p) ags) n"
proof -
  have "primary_agreements (fmdrop (b, p) ags) b' = primary_agreements ags b'" for b'
    using assms(2,3) by (auto simp: primary_agreements_def)
  then show ?thesis using inv_bucketsD [OF assms(1)] by (intro inv_bucketsI) (auto split: if_splits)
qed

lemma inv_buckets_drop_primary:
  assumes I: "inv_buckets E (Buckets s) ags n" and a: "fmlookup ags (b, p) = Some a" "ag_role a = Primary"
  shows "inv_buckets E (Buckets (remove_primary_from_bucket b p s)) (fmdrop (b, p) ags) n"
    and "\<And>b' C B'. fmlookup (Buckets s) b' = Some C \<Longrightarrow>
      fmlookup (Buckets (remove_primary_from_bucket b p s)) b' = Some B' \<Longrightarrow>
      m_account ` set (b_members B') = m_account ` set (b_members C) \<and> tickets_of_bucket B' = tickets_of_bucket C"
    and "fmdom (Buckets (remove_primary_from_bucket b p s)) = fmdom (Buckets s)"
proof -
  note D = inv_bucketsD [OF I]
  obtain B where B: "fmlookup (Buckets s) b = Some B" using D(4) [OF a(1)] by blast
  have p: "p \<in> set (b_primary_providers B)" using D(3) [OF B] a by (auto simp: primary_agreements_def)
  obtain pos where pos: "pos < length (b_primary_providers B)" "b_primary_providers B ! pos = p"
    and eq: "Buckets (remove_primary_from_bucket b p s) = fmupd b (without_primary pos B) (Buckets s)"
    by (rule remove_primary_Buckets [OF B p])
  have ok: "bucket_ok E (without_primary pos B)" by (rule without_primary_ok [OF D(2) [OF B] pos(1)])
  have prims: "set (b_primary_providers (without_primary pos B)) = primary_agreements (fmdrop (b, p) ags) b"
    using D(2,3) [OF B] pos by (simp add: without_primary_def bucket_ok_def set_remove_at primary_agreements_drop)
  show "inv_buckets E (Buckets (remove_primary_from_bucket b p s)) (fmdrop (b, p) ags) n"
    unfolding eq using D ok prims B
    by (intro inv_bucketsI) (auto simp: primary_agreements_drop split: if_splits)
  show "m_account ` set (b_members B') = m_account ` set (b_members C) \<and> tickets_of_bucket B' = tickets_of_bucket C"
    if "fmlookup (Buckets s) b' = Some C" "fmlookup (Buckets (remove_primary_from_bucket b p s)) b' = Some B'" for b' C B'
    using that B unfolding eq
    by (auto simp: without_primary_def tickets_of_bucket_def fun_eq_iff split: if_splits)
  show "fmdom (Buckets (remove_primary_from_bucket b p s)) = fmdom (Buckets s)"
    using B unfolding eq by (simp add: fmlookup_dom_iff finsert_absorb)
qed

lemma member_ticket_parts_cong:
  assumes dom: "fmdom bs' = fmdom bs"
    and eq: "\<And>b B B'. fmlookup bs b = Some B \<Longrightarrow> fmlookup bs' b = Some B' \<Longrightarrow>
      m_account ` set (b_members B') = m_account ` set (b_members B) \<and> tickets_of_bucket B' = tickets_of_bucket B"
  shows "is_member_of bs' = is_member_of bs" "bucket_tickets bs' = bucket_tickets bs"
proof -
  have both: "(\<exists>B'. fmlookup bs' b = Some B') \<longleftrightarrow> (\<exists>B. fmlookup bs b = Some B)" for b
    using dom by (metis fmdom_notD fmdom_notI option.exhaust option.distinct(1))
  show "is_member_of bs' = is_member_of bs"
    using both eq unfolding is_member_of_def fun_eq_iff by metis
  show "bucket_tickets bs' = bucket_tickets bs"
    unfolding bucket_tickets_def fmsum_def dom fun_eq_iff
  proof (intro allI sum.cong refl)
    fix w k assume "k \<in> fset (fmdom bs)"
    with both eq show "tickets_of_bucket (the (fmlookup bs' k)) w = tickets_of_bucket (the (fmlookup bs k)) w"
      by (metis fmlookup_dom_iff option.sel)
  qed
qed

section \<open>Closing an agreement\<close>

lemma inv_committed_drop:
  assumes I: "inv_committed ps ags" and a: "fmlookup ags (b, p) = Some a" and i: "fmlookup ps p = Some i"
    and i': "pi_committed_bytes i' = pi_committed_bytes i - ag_max_bytes a"
  shows "inv_committed (fmupd p i' ps) (fmdrop (b, p) ags)"
proof -
  note D = inv_committedD [OF I]
  have less: "pi_committed_bytes i' < 2 ^ 64" using D(2) [OF i] i' by linarith
  show ?thesis
  proof (rule inv_committedI)
    fix q j assume "fmlookup (fmupd p i' ps) q = Some j"
    then show "pi_committed_bytes j = committed (fmdrop (b, p) ags) q" "pi_committed_bytes j < 2 ^ 64"
      using D(1,2) [of q j] D(1) [OF i] i' less agreement_totals_old(1) [OF a, of q] by (auto split: if_splits)
  qed (use D in \<open>auto split: if_splits\<close>)
qed

context pallet_env
begin

lemma teardown_inv:
  assumes I: "inv E s" and a: "fmlookup (StorageAgreements s) (b, p) = Some a"
    and i: "fmlookup (Providers s) p = Some i"
    and i': "pi_committed_bytes i' = pi_committed_bytes i - ag_max_bytes a" "pi_stake i' = pi_stake i"
      "pi_deposit i' = pi_deposit i"
    and free: "fmget 0 (PendingChallengesByBucket s) (b, p) = 0"
    and s': "Providers s' = fmupd p i' (Providers s)"
      "StorageAgreements s' = fmdrop (b, p) (StorageAgreements s)"
      "Buckets s' = (if ag_role a = Primary then Buckets (remove_primary_from_bucket b p s) else Buckets s)"
      "NextBucketId s' = NextBucketId s" "MemberBuckets s' = MemberBuckets s" "Challenges s' = Challenges s"
      "NextChallengeIndex s' = NextChallengeIndex s" "PendingChallenges s' = PendingChallenges s"
      "PendingChallengesByBucket s' = PendingChallengesByBucket s" "anchor s' = anchor s"
    and m: "money_ok E (balances s')"
      "holds E (balances s') = sub_hold StorageDeposit (ag_depositor a) (ag_deposit a)
         (sub_hold AgreementPayment (ag_owner a) (full_escrow a) (holds E (balances s)))"
  shows "inv E s'"
proof -
  note P = invD [OF I]
  have parts: "inv_buckets E (Buckets s') (StorageAgreements s') (NextBucketId s') \<and>
    is_member_of (Buckets s') = is_member_of (Buckets s) \<and> bucket_tickets (Buckets s') = bucket_tickets (Buckets s)"
  proof (cases "ag_role a = Primary")
    case True
    then show ?thesis using inv_buckets_drop_primary [OF P(3) a] member_ticket_parts_cong
      by (simp add: s')
  next
    case False
    then show ?thesis using inv_buckets_drop_replica [OF P(3) a] by (simp add: s')
  qed
  have "inv_members (Buckets s') (MemberBuckets s')" using P(4) parts by (simp add: inv_members_def s')
  moreover have "inv_committed (Providers s') (StorageAgreements s')"
    unfolding s' by (rule inv_committed_drop [OF P(2) a i i'(1)])
  moreover have "inv_escrow E (StorageAgreements s') (balances s')"
    using P(6) m(2) by (auto simp: inv_escrow_def s' agreement_totals_old [OF a])
  moreover have "inv_tickets E (Providers s') (Buckets s') (StorageAgreements s') (balances s')"
    using P(8) m(2) parts i i'(3) by (auto simp: inv_tickets_def s' agreement_totals_old [OF a] provider_values)
  moreover have "inv_stake E (Providers s') (balances s')" "inv_deposits E (Challenges s') (balances s')"
    using P(5,7) m(2) i i'(2) by (auto simp: inv_stake_def inv_deposits_def s' provider_values)
  moreover have "inv_obligation (Challenges s') (StorageAgreements s')"
    using P(9) free unfolding s' by (intro inv_obligation_drop [OF P(10)]) (simp add: inv_pending_def)
  ultimately show ?thesis using P m parts by (simp add: inv_def s')
qed

lemma agreement_provider:
  assumes "inv E s" "fmlookup (StorageAgreements s) (b, p) = Some a"
  obtains i where "fmlookup (Providers s) p = Some i"
  using inv_committedD(3) [OF invD(2) [OF assms(1)] assms(2)] by blast

lemma escrow_full:
  assumes "inv E s" "fmlookup (StorageAgreements s) k = Some a"
  shows "escrow a = full_escrow a" "full_escrow a \<le> holds E (balances s) AgreementPayment (ag_owner a)"
    "full_escrow a < 2 ^ 128"
proof -
  note P = invD [OF assms(1)]
  show le: "full_escrow a \<le> holds E (balances s) AgreementPayment (ag_owner a)"
    using P(6) full_escrow_le [OF assms(2)] by (simp add: inv_escrow_def)
  then show less: "full_escrow a < 2 ^ 128" using holds_bound [OF P(1)] by (rule le_less_trans)
  then show "escrow a = full_escrow a" unfolding full_escrow_def by (rule escrow_exact)
qed

lemma remove_primary_balances [simp]:
  "Buckets (remove_primary_from_bucket b p (mutate_provider q f (s\<lparr>balances := c\<rparr>))) =
   Buckets (remove_primary_from_bucket b p s)"
  by (simp add: remove_primary_from_bucket_def split: option.split)

lemma Providers_mutate:
  "fmlookup (Providers s) p = Some i \<Longrightarrow> Providers (mutate_provider p f s) = fmupd p (f i) (Providers s)"
  by (simp add: mutate_provider_def)

lemma finalize_agreement_inv:
  assumes I: "inv E s" and a: "fmlookup (StorageAgreements s) (b, p) = Some a"
    and free: "fmget 0 (PendingChallengesByBucket s) (b, p) = 0"
    and res: "finalize_agreement E b p a action early s = Inr s'"
  shows "inv E s'"
proof -
  note P = invD [OF I]
  obtain i where i: "fmlookup (Providers s) p = Some i" by (rule agreement_provider [OF I a])
  obtain tp tb where split: "settlement_split (ag_payment_locked a) action = (tp, tb)" by fastforce
  from res split obtain c1 c2 c3 f s2 c4 where
    c1: "settle_payment E (ag_owner a) p tp (balances s) = Inr c1"
    and c2: "settle_payment E (ag_owner a) (Treasury (Cfg E)) tb c1 = Inr c2"
    and c3: "(case ag_role a of Replica sb _ _ _ \<Rightarrow> release_payment E (ag_owner a) sb c2 | Primary \<Rightarrow> Inr c2) = Inr c3"
    and f: "f = (\<lambda>info. mutate_stats (\<lambda>st.
                   let st1 = st\<lparr>st_lifetime_revenue := saturating_add 128 (st_lifetime_revenue st) tp\<rparr>
                   in if 0 < tb
                      then st1\<lparr>st_agreements_burned := saturating_add 32 (st_agreements_burned st) 1\<rparr>
                      else st1\<lparr>st_agreements_not_extended := saturating_add 32 (st_agreements_not_extended st) 1\<rparr>)
                 (info\<lparr>pi_committed_bytes := saturating_sub (pi_committed_bytes info) (ag_max_bytes a)\<rparr>))"
    and s2: "s2 = (if ag_role a = Primary
                then deposit_event (PrimaryProviderRemoved b p (if early then AdminTerminated else Expired))
                       (remove_primary_from_bucket b p (mutate_provider p f (s\<lparr>balances := c3\<rparr>)))
                else mutate_provider p f (s\<lparr>balances := c3\<rparr>))"
    and c4: "ticket_drop E (ag_deposit a) (ag_depositor a) (balances s2) = Inr c4"
    and s': "s' = deposit_event (AgreementEnded b p tp tb)
      (s2\<lparr>StorageAgreements := fmdrop (b, p) (StorageAgreements s2), balances := c4\<rparr>)"
    by (simp add: finalize_agreement_def remove_agreement_def result_simps Let_def) blast
  from settle_payment_holds [OF P(1) c1] have h1: "money_ok E c1"
    "holds E c1 = sub_hold AgreementPayment (ag_owner a) tp (holds E (balances s))" by auto
  from settle_payment_holds [OF h1(1) c2] have h2: "money_ok E c2"
    "holds E c2 = sub_hold AgreementPayment (ag_owner a) tb (holds E c1)" by auto
  have h3: "money_ok E c3 \<and> holds E c3 = sub_hold AgreementPayment (ag_owner a) (sync_part (ag_role a)) (holds E c2)"
    using c3 h2(1) release_payment_holds [of c2] by (cases "ag_role a") auto
  have "balances s2 = c3" by (simp add: s2)
  with c4 h3 ticket_drop_holds [of c3] have h4: "money_ok E c4"
    "holds E c4 = sub_hold StorageDeposit (ag_depositor a) (ag_deposit a) (holds E c3)" by auto
  have total: "tp + tb + sync_part (ag_role a) = full_escrow a"
    using settlement_split_exact [OF split] by (simp add: full_escrow_def)
  show ?thesis
    by (rule teardown_inv [OF I a i, of "f i"])
      (use free h1 h2 h3 h4 total i in
        \<open>auto simp: s' s2 f Providers_mutate sub_hold_sub_hold add.commute add.left_commute\<close>)
qed

lemma end_agreement_inv:
  "inv E s \<Longrightarrow> end_agreement E origin b p action s = Inr s' \<Longrightarrow> inv E s'"
  by (auto simp: end_agreement_def result_simps Let_def intro: finalize_agreement_inv)

lemma claim_expired_agreement_inv:
  "inv E s \<Longrightarrow> claim_expired_agreement E origin b s = Inr s' \<Longrightarrow> inv E s'"
  by (auto simp: claim_expired_agreement_def result_simps intro: finalize_agreement_inv)

lemma remove_slashed_inv:
  assumes I: "inv E s" and res: "remove_slashed E origin b p s = Inr s'"
  shows "inv E s'"
proof -
  note P = invD [OF I]
  from res obtain i a c1 f s2 c2 where i: "fmlookup (Providers s) p = Some i"
    and free: "fmget 0 (PendingChallengesByBucket s) (b, p) = 0"
    and a: "fmlookup (StorageAgreements s) (b, p) = Some a"
    and c1: "release_payment E (ag_owner a) (escrow a) (balances s) = Inr c1"
    and f: "f = (\<lambda>info. info\<lparr>pi_committed_bytes := saturating_sub (pi_committed_bytes info) (ag_max_bytes a)\<rparr>)"
    and s2: "s2 = (if ag_role a = Primary
                then deposit_event (PrimaryProviderRemoved b p Slashed)
                       (remove_primary_from_bucket b p (mutate_provider p f (s\<lparr>balances := c1\<rparr>)))
                else mutate_provider p f (s\<lparr>balances := c1\<rparr>))"
    and c2: "ticket_drop E (ag_deposit a) (ag_depositor a) (balances s2) = Inr c2"
    and s': "s' = deposit_event (SlashedProviderRemoved b p (escrow a))
      (s2\<lparr>StorageAgreements := fmdrop (b, p) (StorageAgreements s2), balances := c2\<rparr>)"
    by (simp add: remove_slashed_def remove_agreement_def result_simps Let_def) blast
  from release_payment_holds [OF P(1) c1] have h1: "money_ok E c1"
    "holds E c1 = sub_hold AgreementPayment (ag_owner a) (full_escrow a) (holds E (balances s))"
    using escrow_full(1) [OF I a] by auto
  have "balances s2 = c1" by (simp add: s2)
  with c2 h1 ticket_drop_holds [of c1] have h2: "money_ok E c2"
    "holds E c2 = sub_hold StorageDeposit (ag_depositor a) (ag_deposit a) (holds E c1)" by auto
  show ?thesis
    by (rule teardown_inv [OF I a i, of "f i"])
      (use free h1 h2 i in \<open>auto simp: s' s2 f Providers_mutate\<close>)
qed

end

section \<open>Opening an agreement\<close>

lemma target_check_Inr [result_simps]:
  "(case target of Existing b \<Rightarrow> ensure (P b) e (ensure (Q b) e' (Inr ())) | New \<Rightarrow> Inr ()) = Inr u \<longleftrightarrow>
   (\<forall>b. target = Existing b \<longrightarrow> P b \<and> Q b)"
  by (cases target) (auto simp: result_simps)

lemma accept_quote_Inr:
  assumes "accept_quote E owner p terms sig target kind s = Inr (q, s')"
  shows "\<exists>i role sb payment c1.
    fmlookup (Providers s) p = Some i \<and> pi_deregister_at i = None \<and>
    at_owner terms = owner \<and> at_bucket terms = target \<and> 0 < at_max_bytes terms \<and>
    anchor s \<le> at_valid_until terms \<and>
    at_valid_until terms \<le> saturating_add 32 (anchor s) (RequestTimeout (Cfg E)) \<and>
    (\<forall>b. target = Existing b \<longrightarrow> fmhas (Buckets s) b \<and> \<not> fmhas (StorageAgreements s) (b, p)) \<and>
    quote_role kind terms = Inr (role, sb) \<and>
    verify_terms_signature E i terms sig (quote_context kind) = Inr () \<and>
    at_nonce terms = fmget 0 (AgreementNonces s) owner \<and>
    check_capacity E i terms = Inr (aq_new_committed q) \<and>
    calculate_payment (at_price_per_byte terms) (at_max_bytes terms) (at_duration terms) = Inr payment \<and>
    hold_payment E owner (payment + sb) (balances s) = Inr c1 \<and>
    aq_anchor_block q = anchor s \<and> aq_payment q = payment \<and> aq_role q = role \<and>
    s' = s\<lparr>AgreementNonces := fmupd owner (saturating_add 64 (fmget 0 (AgreementNonces s) owner) 1) (AgreementNonces s),
       balances := c1\<rparr>"
  using assms unfolding accept_quote_def validate_terms_def ensure_provider_active_def Let_def
  by (clarsimp simp: result_simps)
lemma quote_role_sync: "quote_role kind terms = Inr (role, sb) \<Longrightarrow> sb = sync_part role"
  by (auto simp: quote_role_def result_simps split: QuoteKind.splits)

lemma quote_role_Primary:
  "quote_role kind terms = Inr (role, sb) \<Longrightarrow> role = Primary \<longleftrightarrow> kind = Quote_Primary"
  by (auto simp: quote_role_def result_simps split: QuoteKind.splits)

lemma check_capacity_Inr:
  assumes "check_capacity E i terms = Inr n"
  shows "n = pi_committed_bytes i + at_max_bytes terms" "n < 2 ^ 64"
    "ps_min_duration (pi_settings i) \<le> at_duration terms" "at_duration terms \<le> ps_max_duration (pi_settings i)"
    "ps_min_agreement_bytes (pi_settings i) \<le> at_max_bytes terms"
    "0 < ps_max_capacity (pi_settings i) \<Longrightarrow> n \<le> ps_max_capacity (pi_settings i)"
    "MinStakePerByte (Cfg E) * n \<le> pi_stake i"
  using assms by (auto simp: check_capacity_def validate_duration_def result_simps)

lemma calculate_payment_Inr [result_simps]:
  "calculate_payment price n d = Inr pay \<longleftrightarrow> pay = price * n * d \<and> price * n < 2 ^ 128 \<and> price * n * d < 2 ^ 128"
  by (auto simp: calculate_payment_def result_simps)

definition with_primary :: "account \<Rightarrow> Bucket \<Rightarrow> Bucket" where
  "with_primary p B = B\<lparr>b_primary_providers := b_primary_providers B @ [p],
     b_snapshot := map_option (\<lambda>sn. sn\<lparr>primary_signers := primary_signers sn @ [False]\<rparr>) (b_snapshot B)\<rparr>"

lemma with_primary_ok:
  assumes "bucket_ok E B" "p \<notin> set (b_primary_providers B)"
    and "length (b_primary_providers B) < MaxPrimaryProviders (Cfg E)"
  shows "bucket_ok E (with_primary p B)"
  using assms by (cases "b_snapshot B") (auto simp: bucket_ok_def with_primary_def)

context pallet_env
begin

lemma establish_inv:
  assumes I: "inv E s" and new: "fmlookup (StorageAgreements s) (b, p) = None"
    and i: "fmlookup (Providers s) p = Some i"
    and i': "pi_committed_bytes i' = pi_committed_bytes i + ag_max_bytes a" "pi_committed_bytes i' < 2 ^ 64"
      "pi_stake i' = pi_stake i" "pi_deposit i' = pi_deposit i"
    and a: "0 < ag_max_bytes a"
    and s': "Providers s' = fmupd p i' (Providers s)"
      "StorageAgreements s' = fmupd (b, p) a (StorageAgreements s)" "Challenges s' = Challenges s"
      "NextChallengeIndex s' = NextChallengeIndex s" "PendingChallenges s' = PendingChallenges s"
      "PendingChallengesByBucket s' = PendingChallengesByBucket s" "anchor s' = anchor s"
    and parts: "inv_buckets E (Buckets s') (StorageAgreements s') (NextBucketId s')"
      "inv_members (Buckets s') (MemberBuckets s')"
      "inv_tickets E (Providers s') (Buckets s') (StorageAgreements s') (balances s')"
      "money_ok E (balances s')"
    and m: "\<And>w. holds E (balances s') ProviderStake w = holds E (balances s) ProviderStake w"
      "\<And>w. holds E (balances s') ChallengeDeposit w = holds E (balances s) ChallengeDeposit w"
      "\<And>w. holds E (balances s') AgreementPayment w =
         holds E (balances s) AgreementPayment w + (if w = ag_owner a then full_escrow a else 0)"
  shows "inv E s'"
proof -
  note P = invD [OF I]
  note D = inv_committedD [OF P(2)]
  have "inv_committed (Providers s') (StorageAgreements s')"
  proof (rule inv_committedI)
    fix q j assume "fmlookup (Providers s') q = Some j"
    then show "pi_committed_bytes j = committed (StorageAgreements s') q" "pi_committed_bytes j < 2 ^ 64"
      using D(1,2) [of q j] D(1) [OF i] i'
      by (auto simp: s' agreement_totals_upd agreement_totals_new [OF new] split: if_splits)
  qed (use D a i in \<open>auto simp: s' split: if_splits\<close>)
  moreover have "inv_stake E (Providers s') (balances s')"
    using P(5) m(1) i i'(3) by (auto simp: inv_stake_def s' provider_values)
  moreover have "inv_deposits E (Challenges s') (balances s')" using P(7) m(2) by (simp add: inv_deposits_def s')
  moreover have "inv_escrow E (StorageAgreements s') (balances s')"
    using P(6) m(3) by (auto simp: inv_escrow_def s' agreement_totals_upd agreement_totals_new [OF new])
  moreover have "inv_obligation (Challenges s') (StorageAgreements s')"
    unfolding s' by (rule inv_obligation_agreement [OF P(10)])
  ultimately show ?thesis using P parts by (simp add: inv_def s')
qed

text \<open>
  What storing an accepted quote does, on top of any state \<open>s1\<close> that has the
  agreements and providers of \<open>s\<close>.
\<close>

lemma insert_agreement_Inr:
  assumes "insert_agreement E b owner p terms q s1 = Inr (exp, s')" "fmlookup (Providers s1) p = Some i"
    and "money_ok E (balances s1)"
  obtains i' a c where
    "pi_committed_bytes i' = aq_new_committed q" "pi_stake i' = pi_stake i" "pi_deposit i' = pi_deposit i"
    "pi_settings i' = pi_settings i" "pi_deregister_at i' = pi_deregister_at i"
    "ag_owner a = owner" "ag_max_bytes a = at_max_bytes terms" "ag_payment_locked a = aq_payment q"
    "ag_role a = aq_role q" "ag_depositor a = owner" "ag_expires_at a = exp" "ag_started_at a = aq_anchor_block q"
    "ag_price_per_byte a = at_price_per_byte terms"
    "exp = saturating_add 32 (aq_anchor_block q) (at_duration terms)"
    "s' = s1\<lparr>Providers := fmupd p i' (Providers s1), StorageAgreements := fmupd (b, p) a (StorageAgreements s1),
       balances := c\<rparr>"
    "money_ok E c"
    "holds E c = add_hold StorageDeposit owner (ag_deposit a) (holds E (balances s1))"
proof -
  define i' where "i' = mutate_stats (\<lambda>st. st\<lparr>
      st_agreements_total := saturating_add 32 (st_agreements_total st) 1,
      st_total_bytes_committed := saturating_add 64 (st_total_bytes_committed st) (at_max_bytes terms)\<rparr>)
    (i\<lparr>pi_committed_bytes := aq_new_committed q\<rparr>)"
  from assms(1,2) obtain t c where t: "ticket_new E owner (agreement_footprint E) (balances s1) = Inr (t, c)"
    and exp: "exp = saturating_add 32 (aq_anchor_block q) (at_duration terms)"
    and s': "s' = s1\<lparr>Providers := fmupd p i' (Providers s1), StorageAgreements := fmupd (b, p)
                  \<lparr>ag_owner = owner, ag_max_bytes = at_max_bytes terms, ag_payment_locked = aq_payment q,
                   ag_price_per_byte = at_price_per_byte terms, ag_expires_at = exp,
                   ag_extensions_blocked = False, ag_role = aq_role q,
                   ag_started_at = aq_anchor_block q, ag_depositor = owner, ag_deposit = t\<rparr>
                  (StorageAgreements s1),
                balances := c\<rparr>"
    by (auto simp: insert_agreement_def result_simps Let_def mutate_provider_def i'_def)
  from ticket_new_holds [OF assms(3) t] have "money_ok E c"
    "holds E c = add_hold StorageDeposit owner t (holds E (balances s1))" by auto
  then show ?thesis
    by (intro that [of i' "\<lparr>ag_owner = owner, ag_max_bytes = at_max_bytes terms, ag_payment_locked = aq_payment q,
                   ag_price_per_byte = at_price_per_byte terms, ag_expires_at = exp,
                   ag_extensions_blocked = False, ag_role = aq_role q,
                   ag_started_at = aq_anchor_block q, ag_depositor = owner, ag_deposit = t\<rparr>" c])
      (simp_all add: s' exp i'_def)
qed

lemma inv_tickets_agreement:
  assumes "inv_tickets E ps bs ags c" "fmlookup ags k = None" "fmlookup ps p = Some i" "pi_deposit i' = pi_deposit i"
    and "holds E c' = add_hold StorageDeposit (ag_depositor a) (ag_deposit a) (holds E c)"
  shows "inv_tickets E (fmupd p i' ps) bs (fmupd k a ags) c'"
  using assms by (auto simp: inv_tickets_def agreement_totals_upd agreement_totals_new provider_values)

text \<open>Redeeming a quote, up to what the call does to the bucket in between.\<close>

lemma redeem_inv:
  assumes I: "inv E s" and acc: "accept_quote E owner p terms sig target kind s = Inr (q, s1)"
    and s2: "Providers s2 = Providers s" "StorageAgreements s2 = StorageAgreements s" "Challenges s2 = Challenges s"
      "NextChallengeIndex s2 = NextChallengeIndex s" "PendingChallenges s2 = PendingChallenges s"
      "PendingChallengesByBucket s2 = PendingChallengesByBucket s" "anchor s2 = anchor s"
    and new: "fmlookup (StorageAgreements s) (b, p) = None"
    and m: "money_ok E (balances s2)" "\<And>r. r \<noteq> StorageDeposit \<Longrightarrow> holds E (balances s2) r = holds E (balances s1) r"
    and parts: "inv_tickets E (Providers s) (Buckets s2) (StorageAgreements s) (balances s2)"
      "inv_members (Buckets s2) (MemberBuckets s2)"
    and bk: "\<And>a. ag_role a = Primary \<longleftrightarrow> kind = Quote_Primary \<Longrightarrow>
      inv_buckets E (Buckets s2) (fmupd (b, p) a (StorageAgreements s)) (NextBucketId s2)"
    and ins: "insert_agreement E b owner p terms q s2 = Inr (exp, s3)"
  shows "inv E s3"
proof -
  note P = invD [OF I]
  obtain i role sb pay c1 where i: "fmlookup (Providers s) p = Some i"
    and bytes: "0 < at_max_bytes terms"
    and role: "quote_role kind terms = Inr (role, sb)"
    and cap: "check_capacity E i terms = Inr (aq_new_committed q)"
    and c1: "hold_payment E owner (pay + sb) (balances s) = Inr c1"
    and q: "aq_payment q = pay" "aq_role q = role"
    and s1: "s1 = s\<lparr>AgreementNonces := fmupd owner (saturating_add 64 (fmget 0 (AgreementNonces s) owner) 1) (AgreementNonces s),
       balances := c1\<rparr>"
    using accept_quote_Inr [OF acc] by - (elim exE conjE, rule that; assumption)
  from hold_payment_holds [OF P(1) c1] have h1: "money_ok E c1"
    "holds E c1 = add_hold AgreementPayment owner (pay + sb) (holds E (balances s))" by auto
  have pre: "fmlookup (Providers s2) p = Some i" using i by (simp add: s2)
  obtain i' a c3 where
    i': "pi_committed_bytes i' = aq_new_committed q" "pi_stake i' = pi_stake i" "pi_deposit i' = pi_deposit i"
    and a: "ag_owner a = owner" "ag_max_bytes a = at_max_bytes terms" "ag_payment_locked a = aq_payment q"
      "ag_role a = aq_role q" "ag_depositor a = owner"
    and s3: "s3 = s2\<lparr>Providers := fmupd p i' (Providers s2), StorageAgreements := fmupd (b, p) a (StorageAgreements s2),
       balances := c3\<rparr>"
    and h3: "money_ok E c3" "holds E c3 = add_hold StorageDeposit owner (ag_deposit a) (holds E (balances s2))"
    by (rule insert_agreement_Inr [OF ins pre m(1)]) (rule that, assumption+)
  have esc: "full_escrow a = pay + sb" using a q quote_role_sync [OF role] by (simp add: full_escrow_def)
  have tix: "inv_tickets E (fmupd p i' (Providers s)) (Buckets s2) (fmupd (b, p) a (StorageAgreements s)) c3"
    by (rule inv_tickets_agreement [OF parts(1) new i i'(3)]) (simp add: h3(2) a)
  have "inv_buckets E (Buckets s2) (fmupd (b, p) a (StorageAgreements s)) (NextBucketId s2)"
    using quote_role_Primary [OF role] a(4) q by (intro bk) simp
  moreover have committed: "aq_new_committed q = pi_committed_bytes i + at_max_bytes terms"
    "pi_committed_bytes i + at_max_bytes terms < 18446744073709551616"
    using check_capacity_Inr(1,2) [OF cap] by simp_all
  ultimately show ?thesis
    using parts(2) h3 tix a bytes m(2)
    by (intro establish_inv [OF I new i, of i' a]) (simp_all add: s3 s2 s1 i' committed esc h1)
qed

lemma accept_quote_keeps:
  assumes I: "inv E s" and acc: "accept_quote E owner p terms sig target kind s = Inr (q, s1)"
  shows "money_ok E (balances s1)" "inv_tickets E (Providers s1) (Buckets s1) (StorageAgreements s1) (balances s1)"
    "Providers s1 = Providers s" "StorageAgreements s1 = StorageAgreements s" "Challenges s1 = Challenges s"
      "NextChallengeIndex s1 = NextChallengeIndex s" "PendingChallenges s1 = PendingChallenges s"
      "PendingChallengesByBucket s1 = PendingChallengesByBucket s" "anchor s1 = anchor s"
      "Buckets s1 = Buckets s" "MemberBuckets s1 = MemberBuckets s" "NextBucketId s1 = NextBucketId s"
    "\<And>b. target = Existing b \<Longrightarrow> fmlookup (Buckets s) b \<noteq> None \<and> fmlookup (StorageAgreements s) (b, p) = None"
proof -
  note P = invD [OF I]
  obtain sb pay c1 where c1: "hold_payment E owner (pay + sb) (balances s) = Inr c1"
    and target: "\<forall>b. target = Existing b \<longrightarrow> fmhas (Buckets s) b \<and> \<not> fmhas (StorageAgreements s) (b, p)"
    and s1: "s1 = s\<lparr>AgreementNonces := fmupd owner (saturating_add 64 (fmget 0 (AgreementNonces s) owner) 1) (AgreementNonces s),
       balances := c1\<rparr>"
    using accept_quote_Inr [OF acc] by - (elim exE conjE, rule that; assumption)
  from hold_payment_holds [OF P(1) c1] have h1: "money_ok E c1"
    "holds E c1 = add_hold AgreementPayment owner (pay + sb) (holds E (balances s))" by auto
  with P(8) show "money_ok E (balances s1)"
    "inv_tickets E (Providers s1) (Buckets s1) (StorageAgreements s1) (balances s1)"
    by (simp_all add: s1 inv_tickets_def)
  show "\<And>b. target = Existing b \<Longrightarrow> fmlookup (Buckets s) b \<noteq> None \<and> fmlookup (StorageAgreements s) (b, p) = None"
    using target by (auto simp: fmhas_def)
qed (use accept_quote_Inr [OF acc] in \<open>auto\<close>)

lemma add_replica_provider_inv:
  assumes I: "inv E s" and res: "add_replica_provider E origin b p terms sig s = Inr s'"
  shows "inv E s'"
proof -
  note P = invD [OF I]
  from res obtain owner q s1 exp s2 where
    acc: "accept_quote E owner p terms sig (Existing b) Quote_Replica s = Inr (q, s1)"
    and ins: "insert_agreement E b owner p terms q s1 = Inr (exp, s2)"
    and s': "s' = deposit_event (ReplicaAgreementEstablished b p owner terms exp) s2"
    by (auto simp: add_replica_provider_def add_replica_provider_internal_def result_simps)
  note K = accept_quote_keeps [OF I acc]
  from K(13) [OF refl] have new: "fmlookup (Buckets s) b \<noteq> None" "fmlookup (StorageAgreements s) (b, p) = None" by auto
  have "inv E s2"
  proof (rule redeem_inv [OF I acc _ _ _ _ _ _ _ new(2) _ _ _ _ _ ins])
    fix a :: StorageAgreement assume "ag_role a = Primary \<longleftrightarrow> Quote_Replica = Quote_Primary"
    then show "inv_buckets E (Buckets s1) (fmupd (b, p) a (StorageAgreements s)) (NextBucketId s1)"
      using inv_bucketsD [OF P(3)] new unfolding K
      by (intro inv_bucketsI) (auto simp: primary_agreements_def split: if_splits)
  qed (use K P(4) in simp_all)
  then show ?thesis by (simp add: s')
qed

lemma add_primary_provider_inv:
  assumes I: "inv E s" and res: "add_primary_provider E origin b p terms sig s = Inr s'"
  shows "inv E s'"
proof -
  note P = invD [OF I]
  from res obtain adm B q s1 exp s2 where B: "fmlookup (Buckets s) b = Some B"
    and len: "length (b_primary_providers B) < MaxPrimaryProviders (Cfg E)"
    and acc: "accept_quote E adm p terms sig (Existing b) Quote_Primary s = Inr (q, s1)"
    and ins: "insert_agreement E b adm p terms q (s1\<lparr>Buckets := fmupd b (with_primary p B) (Buckets s1)\<rparr>) = Inr (exp, s2)"
    and s': "s' = deposit_event (StorageAgreementEstablished b p adm terms exp)
             (deposit_event (ProviderAddedToBucket b p) s2)"
    by (auto simp: add_primary_provider_def add_primary_provider_internal_def insert_primary_agreement_def
        result_simps with_primary_def)
  note K = accept_quote_keeps [OF I acc]
  from K(13) [OF refl] have new: "fmlookup (StorageAgreements s) (b, p) = None" by auto
  note D = inv_bucketsD [OF P(3)]
  have "p \<notin> set (b_primary_providers B)" using D(3) [OF B] new by (auto simp: primary_agreements_def)
  then have ok: "bucket_ok E (with_primary p B)" by (rule with_primary_ok [OF D(2) [OF B] _ len])
  have same: "tickets_of_bucket (with_primary p B) = tickets_of_bucket B" "b_members (with_primary p B) = b_members B"
    by (simp_all add: with_primary_def tickets_of_bucket_def fun_eq_iff)
  have "inv E s2"
  proof (rule redeem_inv [OF I acc _ _ _ _ _ _ _ new _ _ _ _ _ ins])
    fix a :: StorageAgreement assume "ag_role a = Primary \<longleftrightarrow> Quote_Primary = Quote_Primary"
    then show "inv_buckets E (Buckets (s1\<lparr>Buckets := fmupd b (with_primary p B) (Buckets s1)\<rparr>))
        (fmupd (b, p) a (StorageAgreements s)) (NextBucketId (s1\<lparr>Buckets := fmupd b (with_primary p B) (Buckets s1)\<rparr>))"
      using D ok B by (intro inv_bucketsI) (auto simp: K primary_agreements_upd with_primary_def split: if_splits)
  qed (use K P(4) bucket_tickets_same [OF B same(1)] in
      \<open>simp_all add: inv_tickets_def inv_members_bucket [OF P(4) B] same\<close>)
  then show ?thesis by (simp add: s')
qed

lemma create_bucket_with_primary_inv:
  assumes I: "inv E s" and range: "NextBucketId s + 1 < 2 ^ 64"
    and res: "create_bucket_with_primary E origin p terms sig v s = Inr s'"
  shows "inv E s'"
proof -
  note P = invD [OF I]
  from res obtain owner q s1 b s2 exp s3 where
    acc: "accept_quote E owner p terms sig New Quote_Primary s = Inr (q, s1)"
    and cr: "create_bucket_internal E owner 1 (Some p) v s1 = Inr (b, s2)"
    and ins: "insert_agreement E b owner p terms q s2 = Inr (exp, s3)"
    and s': "s' = deposit_event (StorageAgreementEstablished b p owner terms exp)
             (deposit_event (ProviderAddedToBucket b p) s3)"
    by (auto simp: create_bucket_with_primary_def create_bucket_with_primary_internal_def
        insert_primary_agreement_def result_simps)
  note K = accept_quote_keeps [OF I acc]
  have parts: "inv_buckets E (Buckets s1) (StorageAgreements s1) (NextBucketId s1)"
    "inv_members (Buckets s1) (MemberBuckets s1)" using P(3,4) by (simp_all add: K)
  have "inv E s3"
  proof (rule create_bucket_parts [OF K(1) parts K(2) cr])
    fix B assume b: "b = NextBucketId s1" and ok: "bucket_ok E B"
      and prims: "b_primary_providers B = (case Some p of None \<Rightarrow> [] | Some p \<Rightarrow> [p])"
      and eqs: "Buckets s2 = fmupd b B (Buckets s1)" "NextBucketId s2 = saturating_add 64 b 1"
        "Providers s2 = Providers s1" "StorageAgreements s2 = StorageAgreements s1" "Challenges s2 = Challenges s1"
        "PendingChallenges s2 = PendingChallenges s1" "PendingChallengesByBucket s2 = PendingChallengesByBucket s1"
        "NextChallengeIndex s2 = NextChallengeIndex s1" "anchor s2 = anchor s1"
      and m: "money_ok E (balances s2)" "inv_members (Buckets s2) (MemberBuckets s2)"
        "inv_tickets E (Providers s2) (Buckets s2) (StorageAgreements s2) (balances s2)"
        "\<And>r. r \<noteq> StorageDeposit \<Longrightarrow> holds E (balances s2) r = holds E (balances s1) r"
    have b': "b = NextBucketId s" using b by (simp add: K)
    note fresh = no_bucket_at_next [OF P(3), folded b']
    show ?thesis
    proof (rule redeem_inv [OF I acc _ _ _ _ _ _ _ fresh(2) _ _ _ _ _ ins])
      fix a :: StorageAgreement assume a: "ag_role a = Primary \<longleftrightarrow> Quote_Primary = Quote_Primary"
      have "primary_agreements (StorageAgreements s) b = {}" using fresh(2) by (auto simp: primary_agreements_def)
      with a prims show "inv_buckets E (Buckets s2) (fmupd (b, p) a (StorageAgreements s)) (NextBucketId s2)"
        unfolding eqs K b' by (intro inv_buckets_fresh [OF P(3) range ok])
          (auto simp: primary_agreements_upd split: if_splits)
    qed (use K eqs m in simp_all)
  qed
  then show ?thesis by (simp add: s')
qed

end

section \<open>Changing a live agreement\<close>

lemma inv_committed_change:
  assumes I: "inv_committed ps ags" and a: "fmlookup ags (b, p) = Some a" and i: "fmlookup ps p = Some i"
    and i': "pi_committed_bytes i' = pi_committed_bytes i + n" "pi_committed_bytes i + n < 2 ^ 64"
    and a': "ag_max_bytes a' = ag_max_bytes a + n"
  shows "inv_committed (fmupd p i' ps) (fmupd (b, p) a' ags)"
proof -
  note D = inv_committedD [OF I]
  show ?thesis
  proof (rule inv_committedI)
    fix q j assume "fmlookup (fmupd p i' ps) q = Some j"
    then show "pi_committed_bytes j = committed (fmupd (b, p) a' ags) q" "pi_committed_bytes j < 2 ^ 64"
      using D(1,2) [of q j] D(1) [OF i] i' a' agreement_totals_old(1) [OF a, of q]
      by (auto simp: agreement_totals_upd split: if_splits)
  qed (use D a a' in \<open>auto split: if_splits\<close>)
qed

context pallet_env
begin

text \<open>
  An agreement changes its quota, escrow, owner or role record, and the holds follow.
\<close>

lemma change_inv:
  assumes I: "inv E s" and a: "fmlookup (StorageAgreements s) (b, p) = Some a"
    and i: "fmlookup (Providers s) p = Some i"
    and i': "pi_committed_bytes i' = pi_committed_bytes i + n" "pi_committed_bytes i + n < 2 ^ 64"
      "pi_stake i' = pi_stake i" "pi_deposit i' = pi_deposit i"
    and a': "ag_max_bytes a' = ag_max_bytes a + n" "ag_role a' = Primary \<longleftrightarrow> ag_role a = Primary"
      "ag_depositor a' = ag_depositor a" "ag_deposit a' = ag_deposit a"
    and s': "Providers s' = fmupd p i' (Providers s)"
      "StorageAgreements s' = fmupd (b, p) a' (StorageAgreements s)"
      "Buckets s' = Buckets s" "NextBucketId s' = NextBucketId s" "MemberBuckets s' = MemberBuckets s"
      "Challenges s' = Challenges s" "NextChallengeIndex s' = NextChallengeIndex s"
      "PendingChallenges s' = PendingChallenges s" "PendingChallengesByBucket s' = PendingChallengesByBucket s"
      "anchor s' = anchor s"
    and m: "money_ok E (balances s')" "\<And>r. r \<noteq> AgreementPayment \<Longrightarrow> holds E (balances s') r = holds E (balances s) r"
      "\<And>w. holds E (balances s') AgreementPayment w + (if ag_owner a = w then full_escrow a else 0) =
         holds E (balances s) AgreementPayment w + (if ag_owner a' = w then full_escrow a' else 0)"
  shows "inv E s'"
proof -
  note P = invD [OF I]
  have "inv_committed (Providers s') (StorageAgreements s')"
    unfolding s' by (rule inv_committed_change [OF P(2) a i i'(1,2) a'(1)])
  moreover have "inv_buckets E (Buckets s') (StorageAgreements s') (NextBucketId s')"
    unfolding s' by (rule inv_buckets_agreement [OF P(3) a a'(2)])
  moreover have "inv_stake E (Providers s') (balances s')" "inv_deposits E (Challenges s') (balances s')"
    using P(5,7) m(2) i i'(3) by (auto simp: inv_stake_def inv_deposits_def s' provider_values)
  moreover have "inv_tickets E (Providers s') (Buckets s') (StorageAgreements s') (balances s')"
    using P(8) m(2) i i'(4) a'(3,4)
    by (auto simp: inv_tickets_def s' provider_values agreement_totals_upd agreement_totals_old [OF a])
  moreover have "inv_escrow E (StorageAgreements s') (balances s')"
    unfolding inv_escrow_def
  proof
    fix w show "holds E (balances s') AgreementPayment w = escrowed (StorageAgreements s') w"
      using P(6) m(3) [of w] unfolding inv_escrow_def s'
      by (simp add: agreement_totals_upd agreement_totals_old(2) [OF a, of w])
  qed
  moreover have "inv_obligation (Challenges s') (StorageAgreements s')"
    unfolding s' by (rule inv_obligation_agreement [OF P(10)])
  ultimately show ?thesis using P m by (simp add: inv_def s')
qed

lemma top_up_agreement_inv:
  assumes I: "inv E s"
    and range: "\<And>i. fmlookup (Providers s) p = Some i \<Longrightarrow> pi_committed_bytes i + n < 2 ^ 64"
    and res: "top_up_agreement E origin b p n max_pay s = Inr s'"
  shows "inv E s'"
proof -
  note P = invD [OF I]
  from res obtain who i a pay c1 where i: "fmlookup (Providers s) p = Some i"
    and a: "fmlookup (StorageAgreements s) (b, p) = Some a"
    and c1: "hold_payment_from E who (ag_owner a) pay (balances s) = Inr c1"
    and s': "s' = deposit_event (AgreementToppedUp b p pay (ag_max_bytes a + n))
      ((mutate_provider p (\<lambda>info. info\<lparr>pi_committed_bytes := saturating_add 64 (pi_committed_bytes info) n\<rparr>)
          (s\<lparr>balances := c1\<rparr>))\<lparr>StorageAgreements := fmupd (b, p)
            (a\<lparr>ag_max_bytes := ag_max_bytes a + n, ag_payment_locked := ag_payment_locked a + pay\<rparr>) (StorageAgreements s)\<rparr>)"
    by (auto simp: top_up_agreement_def result_simps Let_def)
  from hold_payment_from_holds [OF P(1) c1] have h: "money_ok E c1"
    "holds E c1 = add_hold AgreementPayment (ag_owner a) pay (holds E (balances s))" by auto
  let ?i = "i\<lparr>pi_committed_bytes := saturating_add 64 (pi_committed_bytes i) n\<rparr>"
  show ?thesis
    by (rule change_inv [OF I a i, of ?i n])
      (use range [OF i] h i in \<open>auto simp: s' mutate_provider_def full_escrow_def saturating_add_exact\<close>)
qed

lemma transfer_agreement_ownership_inv:
  assumes I: "inv E s" and res: "transfer_agreement_ownership E origin b p new_owner s = Inr s'"
  shows "inv E s'"
proof -
  note P = invD [OF I]
  from res obtain a c1 where a: "fmlookup (StorageAgreements s) (b, p) = Some a"
    and diff: "ag_owner a \<noteq> new_owner"
    and c1: "transfer_payment_on_hold E (ag_owner a) new_owner (escrow a) (balances s) = Inr c1"
    and s': "s' = deposit_event (AgreementOwnershipTransferred b p (ag_owner a) new_owner (escrow a))
      (s\<lparr>StorageAgreements := fmupd (b, p) (a\<lparr>ag_owner := new_owner\<rparr>) (StorageAgreements s), balances := c1\<rparr>)"
    by (auto simp: transfer_agreement_ownership_def result_simps Let_def)
  obtain i where i: "fmlookup (Providers s) p = Some i" by (rule agreement_provider [OF I a])
  note esc = escrow_full [OF I a]
  from transfer_payment_on_hold_holds [OF P(1) diff c1] have h: "money_ok E c1"
    "holds E c1 = add_hold AgreementPayment new_owner (full_escrow a)
       (sub_hold AgreementPayment (ag_owner a) (full_escrow a) (holds E (balances s)))"
    unfolding esc(1) by auto
  have same: "fmupd p i (Providers s) = Providers s" using i by (intro fmap_ext) auto
  have "pi_committed_bytes i < 2 ^ 64" using inv_committedD(2) [OF P(2) i] .
  then show ?thesis
    by (intro change_inv [OF I a i, of i 0])
      (use h diff esc in \<open>auto simp: s' same full_escrow_def\<close>)
qed

end

lemma elapsed_settlement_Inr:
  assumes "elapsed_settlement a now = Inr x"
  shows "x = min (ag_price_per_byte a * ag_max_bytes a * (now - ag_started_at a)) (ag_payment_locked a)"
  using assms by (auto simp: elapsed_settlement_def Let_def result_simps split: if_splits)

lemma extended_role_Inr:
  assumes "extended_role st r = Inr r'"
  shows "r' = Primary \<longleftrightarrow> r = Primary" "sync_part r' = sync_part r"
  using assms by (cases r; auto simp: extended_role_def result_simps)+

lemma extend_agreement_Inr:
  assumes "extend_agreement E origin b p d max_pay s = Inr s'"
  shows "\<exists>who i a elapsed_payment extension_payment c1 c2 role'.
    origin = Signed who \<and> fmlookup (Providers s) p = Some i \<and>
    fmlookup (StorageAgreements s) (b, p) = Some a \<and> anchor s < ag_expires_at a \<and>
    pi_deregister_at i = None \<and> validate_duration (pi_settings i) d = Inr () \<and>
    (ag_price_per_byte a < ps_price_per_byte (pi_settings i) \<longrightarrow> ag_owner a = who) \<and>
    elapsed_settlement a (anchor s) = Inr elapsed_payment \<and>
    extension_payment = ps_price_per_byte (pi_settings i) * ag_max_bytes a * d \<and> extension_payment \<le> max_pay \<and>
    settle_payment E (ag_owner a) p elapsed_payment (balances s) = Inr c1 \<and>
    hold_payment_from E who (ag_owner a) extension_payment c1 = Inr c2 \<and>
    extended_role (pi_settings i) (ag_role a) = Inr role' \<and>
    s' = deposit_event (AgreementExtended b p (saturating_add 32 (anchor s) d) extension_payment)
      ((mutate_provider p (mutate_stats (\<lambda>st. st\<lparr>
          st_agreements_extended := saturating_add 32 (st_agreements_extended st) 1,
          st_lifetime_revenue := saturating_add 128 (st_lifetime_revenue st) elapsed_payment\<rparr>)) (s\<lparr>balances := c2\<rparr>))
       \<lparr>StorageAgreements := fmupd (b, p)
          (a\<lparr>ag_expires_at := saturating_add 32 (anchor s) d, ag_started_at := anchor s,
             ag_price_per_byte := ps_price_per_byte (pi_settings i), ag_role := role',
             ag_payment_locked := saturating_add 128 (ag_payment_locked a - elapsed_payment) extension_payment\<rparr>)
          (StorageAgreements s)\<rparr>)"
  using assms
  by (clarsimp simp: extend_agreement_def ensure_provider_active_def result_simps Let_def)

context pallet_env
begin

lemma extend_agreement_inv:
  assumes I: "inv E s" and res: "extend_agreement E origin b p d max_pay s = Inr s'"
  shows "inv E s'"
proof -
  note P = invD [OF I]
  from extend_agreement_Inr [OF res] obtain who i a ep xp c1 c2 role' where
    i: "fmlookup (Providers s) p = Some i" and a: "fmlookup (StorageAgreements s) (b, p) = Some a"
    and ep: "elapsed_settlement a (anchor s) = Inr ep"
    and c1: "settle_payment E (ag_owner a) p ep (balances s) = Inr c1"
    and c2: "hold_payment_from E who (ag_owner a) xp c1 = Inr c2"
    and role: "extended_role (pi_settings i) (ag_role a) = Inr role'"
    and s': "s' = deposit_event (AgreementExtended b p (saturating_add 32 (anchor s) d) xp)
      ((mutate_provider p (mutate_stats (\<lambda>st. st\<lparr>
          st_agreements_extended := saturating_add 32 (st_agreements_extended st) 1,
          st_lifetime_revenue := saturating_add 128 (st_lifetime_revenue st) ep\<rparr>)) (s\<lparr>balances := c2\<rparr>))
       \<lparr>StorageAgreements := fmupd (b, p)
          (a\<lparr>ag_expires_at := saturating_add 32 (anchor s) d, ag_started_at := anchor s,
             ag_price_per_byte := ps_price_per_byte (pi_settings i), ag_role := role',
             ag_payment_locked := saturating_add 128 (ag_payment_locked a - ep) xp\<rparr>)
          (StorageAgreements s)\<rparr>)"
    by - (elim exE conjE, rule that; assumption)
  have ep_le: "ep \<le> ag_payment_locked a" using elapsed_settlement_Inr [OF ep] by simp
  from settle_payment_holds [OF P(1) c1] have h1: "money_ok E c1"
    "holds E c1 = sub_hold AgreementPayment (ag_owner a) ep (holds E (balances s))" by auto
  from hold_payment_from_holds [OF h1(1) c2] have h2: "money_ok E c2"
    "holds E c2 = add_hold AgreementPayment (ag_owner a) xp (holds E c1)" by auto
  have covered: "full_escrow a \<le> holds E (balances s) AgreementPayment (ag_owner a)" by (rule escrow_full(2) [OF I a])
  have "holds E c2 AgreementPayment (ag_owner a) < 2 ^ 128" by (rule holds_bound [OF h2(1)])
  then have "ag_payment_locked a - ep + xp < 2 ^ 128"
    using covered ep_le unfolding h1 h2 full_escrow_def by simp
  then have sat: "saturating_add 128 (ag_payment_locked a - ep) xp = ag_payment_locked a - ep + xp"
    by (rule saturating_add_exact)
  define i' where "i' = mutate_stats (\<lambda>st. st\<lparr>
          st_agreements_extended := saturating_add 32 (st_agreements_extended st) 1,
          st_lifetime_revenue := saturating_add 128 (st_lifetime_revenue st) ep\<rparr>) i"
  have "pi_committed_bytes i < 2 ^ 64" using inv_committedD(2) [OF P(2) i] .
  then show ?thesis
    by (intro change_inv [OF I a i, of i' 0])
      (use h1 h2 covered ep_le i extended_role_Inr [OF role] in
        \<open>auto simp: s' sat mutate_provider_def full_escrow_def i'_def\<close>)
qed

end

end
