(* ===== verification/Checkpoints.thy ===== *)
theory Checkpoints
  imports Buckets
begin

text \<open>
  Checkpoints (\<open>impls/checkpoints.rs\<close> and the calls \<open>checkpoint\<close> and
  \<open>extend_checkpoint\<close> of \<open>lib.rs\<close>): the signer bitfield, the
  prime-spaced history of commitments, and the search for the root a replica synced to.
  Bit \<open>i\<close> of \<open>primary_signers\<close> belongs to entry \<open>i\<close> of
  \<open>primary_providers\<close>.
\<close>

section \<open>Operations\<close>

record MatchedRoot =
  mr_position :: nat
  mr_commitment :: Commitment

fun historical_loop ::
    "nat \<Rightarrow> nat list \<Rightarrow> nat \<Rightarrow> Commitment \<Rightarrow> (nat \<times> Commitment) list \<Rightarrow> (nat \<times> Commitment) list" where
  "historical_loop i [] block_num commitment roots = roots"
| "historical_loop i (prime # primes) block_num commitment roots =
     (let quotient = block_num div prime
      in historical_loop (Suc i) primes block_num commitment
           (if quotient \<noteq> fst (roots ! i) then roots[i := (quotient, commitment)] else roots))"

definition update_historical_roots :: "Bucket \<Rightarrow> nat \<Rightarrow> Commitment \<Rightarrow> Bucket" where
  "update_historical_roots bucket anchor_block commitment =
     bucket\<lparr>b_historical_roots :=
       historical_loop 0 HISTORICAL_ROOT_PRIMES anchor_block commitment (b_historical_roots bucket)\<rparr>"

fun historical_match ::
    "nat \<Rightarrow> (nat \<times> Commitment) list \<Rightarrow> H256 option list \<Rightarrow> MatchedRoot option" where
  "historical_match i ((_, entry) # entries) (root # roots) =
     (if mmr_root entry \<noteq> H256_zero \<and> root = Some (mmr_root entry)
      then Some \<lparr>mr_position = i + 1, mr_commitment = entry\<rparr>
      else historical_match (Suc i) entries roots)"
| "historical_match i _ _ = None"

text \<open>
  \<open>roots\<close> is the fixed-size array of seven optional roots; position 0 is compared
  with the snapshot, position \<open>p\<close> with history entry \<open>p - 1\<close>.
\<close>

definition find_matching_root :: "Bucket \<Rightarrow> H256 option list \<Rightarrow> Error + MatchedRoot" where
  "find_matching_root bucket roots =
     (case (b_snapshot bucket, roots ! 0) of
        (Some snapshot, Some root) \<Rightarrow>
          if mmr_root (bs_commitment snapshot) = root
          then Inr \<lparr>mr_position = 0, mr_commitment = bs_commitment snapshot\<rparr>
          else ok_or (historical_match 0 (b_historical_roots bucket) (tl roots)) InvalidSyncRoot Inr
      | _ \<Rightarrow> ok_or (historical_match 0 (b_historical_roots bucket) (tl roots)) InvalidSyncRoot Inr)"

fun checkpoint_loop ::
    "('c, 'm) env \<Rightarrow> 'c pstate \<Rightarrow> account list \<Rightarrow> byte list \<Rightarrow> (account \<times> MultiSignature) list \<Rightarrow>
     bool list \<times> account list \<Rightarrow> Error + bool list \<times> account list" where
  "checkpoint_loop E s primaries payload [] acc = Inr acc"
| "checkpoint_loop E s primaries payload ((signer, signature) # rest) (signers, providers) =
     ok_or (position (\<lambda>p. p = signer) primaries) ProviderNotInSnapshot (\<lambda>idx.
     attempt (verify_signature E signature payload signer s) (\<lambda>_.
     ensure (idx < length signers) ProviderNotInSnapshot
     (let already_signed = signers ! idx
      in checkpoint_loop E s primaries payload rest
           (signers[idx := True], if already_signed then providers else providers @ [signer]))))"

definition checkpoint ::
    "('c, 'm) env \<Rightarrow> RuntimeOrigin \<Rightarrow> BucketId \<Rightarrow> Commitment \<Rightarrow> (account \<times> MultiSignature) list \<Rightarrow>
     'c pstate \<Rightarrow> Error + 'c pstate" where
  "checkpoint E origin bucket_id commitment signatures s =
     ensure_signed origin (\<lambda>who.
     ok_or (fmlookup (Buckets s) bucket_id) BucketNotFound (\<lambda>bucket.
     attempt (ensure_writer_or_admin who bucket) (\<lambda>_.
     ensure (case b_frozen_start_seq bucket of
               Some frozen_start \<Rightarrow> start_seq commitment = frozen_start
             | None \<Rightarrow> True) SnapshotViolatesFrozen
     (attempt (checkpoint_loop E s (b_primary_providers bucket)
                (encode_payload (CommitmentPayload_new bucket_id commitment)) signatures
                (replicate (length (b_primary_providers bucket)) False, [])) (\<lambda>(signers, providers).
      ensure (max (b_min_providers bucket) 1 \<le> count_ones signers) InsufficientSignatures
      (let bucket' = (update_historical_roots bucket (anchor s) commitment)\<lparr>
             b_snapshot := Some \<lparr>bs_commitment = commitment, checkpoint_block = anchor s, primary_signers = signers\<rparr>,
             b_total_snapshots := saturating_add 32 (b_total_snapshots bucket) 1\<rparr>
       in Inr (deposit_event (BucketCheckpointed bucket_id commitment providers)
            (s\<lparr>Buckets := fmupd bucket_id bucket' (Buckets s)\<rparr>))))))))"

fun extend_loop ::
    "('c, 'm) env \<Rightarrow> 'c pstate \<Rightarrow> account list \<Rightarrow> byte list \<Rightarrow> (account \<times> MultiSignature) list \<Rightarrow>
     bool list \<times> account list \<Rightarrow> Error + bool list \<times> account list" where
  "extend_loop E s primaries payload [] acc = Inr acc"
| "extend_loop E s primaries payload ((signer, signature) # rest) (signers, added) =
     ok_or (position (\<lambda>p. p = signer) primaries) ProviderNotInSnapshot (\<lambda>idx.
     ensure (idx < length signers) ProviderNotInSnapshot
     (if signers ! idx then extend_loop E s primaries payload rest (signers, added)
      else
        attempt (verify_signature E signature payload signer s) (\<lambda>_.
        extend_loop E s primaries payload rest (signers[idx := True], added @ [signer]))))"

definition extend_checkpoint ::
    "('c, 'm) env \<Rightarrow> RuntimeOrigin \<Rightarrow> BucketId \<Rightarrow> (account \<times> MultiSignature) list \<Rightarrow>
     'c pstate \<Rightarrow> Error + 'c pstate" where
  "extend_checkpoint E origin bucket_id additional_signatures s =
     ensure_signed origin (\<lambda>who.
     ok_or (fmlookup (Buckets s) bucket_id) BucketNotFound (\<lambda>bucket.
     attempt (ensure_writer_or_admin who bucket) (\<lambda>_.
     ok_or (b_snapshot bucket) NoSnapshot (\<lambda>snapshot.
     attempt (extend_loop E s (b_primary_providers bucket)
                (encode_payload (CommitmentPayload_new bucket_id (bs_commitment snapshot))) additional_signatures
                (primary_signers snapshot, [])) (\<lambda>(signers, added_providers).
       Inr (deposit_event (BucketCheckpointed bucket_id (bs_commitment snapshot) added_providers)
         (s\<lparr>Buckets := fmupd bucket_id
              (bucket\<lparr>b_snapshot := Some (snapshot\<lparr>primary_signers := signers\<rparr>)\<rparr>) (Buckets s)\<rparr>)))))))"

section \<open>The signer bitfield\<close>

lemma position_distinct:
  assumes "distinct ps" "position (\<lambda>p. p = x) ps = Some i" "j < length ps"
  shows "ps ! j = x \<longleftrightarrow> j = i"
  using assms by (auto simp: position_Some nth_eq_iff_index_eq)

lemma checkpoint_loop_signers:
  assumes "distinct ps" "length bits = length ps"
    and "checkpoint_loop E s ps payload sigs (bits, acc) = Inr (bits', acc')"
  shows "length bits' = length ps"
    and "\<And>j. j < length ps \<Longrightarrow> bits' ! j \<longleftrightarrow> bits ! j \<or> ps ! j \<in> fst ` set sigs"
    and "\<And>p sg. (p, sg) \<in> set sigs \<Longrightarrow> p \<in> set ps \<and> verify_signature E sg payload p s = Inr ()"
proof -
  have "length bits' = length ps \<and> (\<forall>j < length ps. bits' ! j \<longleftrightarrow> bits ! j \<or> ps ! j \<in> fst ` set sigs) \<and>
      (\<forall>p sg. (p, sg) \<in> set sigs \<longrightarrow> p \<in> set ps \<and> verify_signature E sg payload p s = Inr ())"
    using assms(2,3)
  proof (induction sigs arbitrary: bits acc)
    case (Cons x sigs)
    obtain p sg where x: "x = (p, sg)" by (cases x)
    from Cons.prems obtain i acc2 where i: "position (\<lambda>q. q = p) ps = Some i"
      and v: "verify_signature E sg payload p s = Inr ()" and ib: "i < length bits"
      and rest: "checkpoint_loop E s ps payload sigs (bits[i := True], acc2) = Inr (bits', acc')"
      by (auto simp: x result_simps Let_def)
    have "p \<in> set ps" using i by (auto simp: position_Some)
    moreover have "j < length ps \<Longrightarrow> bits[i := True] ! j \<longleftrightarrow> bits ! j \<or> ps ! j = p" for j
      using position_distinct [OF assms(1) i] Cons.prems(1) by (cases "j = i") auto
    ultimately show ?case using Cons.IH [OF _ rest] Cons.prems(1) v x by auto
  qed simp
  then show "length bits' = length ps"
    and "\<And>j. j < length ps \<Longrightarrow> bits' ! j \<longleftrightarrow> bits ! j \<or> ps ! j \<in> fst ` set sigs"
    and "\<And>p sg. (p, sg) \<in> set sigs \<Longrightarrow> p \<in> set ps \<and> verify_signature E sg payload p s = Inr ()" by auto
qed

lemma extend_loop_signers:
  assumes "distinct ps" "length bits = length ps"
    and "extend_loop E s ps payload sigs (bits, acc) = Inr (bits', acc')"
  shows "length bits' = length ps"
    and "\<And>j. j < length ps \<Longrightarrow> bits ! j \<Longrightarrow> bits' ! j"
    and "\<And>j. j < length ps \<Longrightarrow> bits' ! j \<Longrightarrow> \<not> bits ! j \<Longrightarrow>
      \<exists>sg. (ps ! j, sg) \<in> set sigs \<and> verify_signature E sg payload (ps ! j) s = Inr ()"
proof -
  have "length bits' = length ps \<and> (\<forall>j < length ps. bits ! j \<longrightarrow> bits' ! j) \<and>
      (\<forall>j < length ps. bits' ! j \<longrightarrow> \<not> bits ! j \<longrightarrow>
        (\<exists>sg. (ps ! j, sg) \<in> set sigs \<and> verify_signature E sg payload (ps ! j) s = Inr ()))"
    using assms(2,3)
  proof (induction sigs arbitrary: bits acc)
    case (Cons x sigs)
    obtain p sg where x: "x = (p, sg)" by (cases x)
    from Cons.prems obtain i where i: "position (\<lambda>q. q = p) ps = Some i" and ib: "i < length bits"
      by (auto simp: x result_simps)
    show ?case
    proof (cases "bits ! i")
      case True
      with Cons.prems i ib x have "extend_loop E s ps payload sigs (bits, acc) = Inr (bits', acc')"
        by (simp add: result_simps)
      from Cons.IH [OF Cons.prems(1) this] x show ?thesis by auto
    next
      case False
      with Cons.prems i ib x have v: "verify_signature E sg payload p s = Inr ()"
        and rest: "extend_loop E s ps payload sigs (bits[i := True], acc @ [p]) = Inr (bits', acc')"
        by (auto simp: result_simps)
      have "ps ! i = p" using i by (auto simp: position_Some)
      moreover have "j < length ps \<Longrightarrow> bits[i := True] ! j \<longleftrightarrow> bits ! j \<or> j = i" for j
        using Cons.prems(1) by (cases "j = i") auto
      ultimately show ?thesis using Cons.IH [OF _ rest] Cons.prems(1) v x by auto
    qed
  qed simp
  then show "length bits' = length ps"
    and "\<And>j. j < length ps \<Longrightarrow> bits ! j \<Longrightarrow> bits' ! j"
    and "\<And>j. j < length ps \<Longrightarrow> bits' ! j \<Longrightarrow> \<not> bits ! j \<Longrightarrow>
      \<exists>sg. (ps ! j, sg) \<in> set sigs \<and> verify_signature E sg payload (ps ! j) s = Inr ()" by auto
qed

text \<open>The number of set bits is the number of distinct primaries they stand for.\<close>

lemma count_ones_card:
  assumes "distinct ps" "length bits = length ps"
  shows "count_ones bits = card {p. \<exists>j < length ps. bits ! j \<and> p = ps ! j}"
proof -
  have "inj_on ((!) ps) {j. j < length ps \<and> bits ! j}"
    using assms(1) by (auto simp: inj_on_def nth_eq_iff_index_eq)
  then have "card ((!) ps ` {j. j < length ps \<and> bits ! j}) = card {j. j < length ps \<and> bits ! j}"
    by (rule card_image)
  moreover have "(!) ps ` {j. j < length ps \<and> bits ! j} = {p. \<exists>j < length ps. bits ! j \<and> p = ps ! j}" by auto
  ultimately show ?thesis using assms(2) by (simp add: count_ones_def length_filter_conv_card)
qed

section \<open>The history\<close>

lemma length_historical_loop [simp]: "length (historical_loop i ps n c roots) = length roots"
  by (induction ps arbitrary: i roots) (simp_all add: Let_def)

lemma historical_loop_nth:
  assumes "i + length ps \<le> length roots" "j < length roots"
  shows "historical_loop i ps n c roots ! j =
    (if i \<le> j \<and> j < i + length ps \<and> n div ps ! (j - i) \<noteq> fst (roots ! j)
     then (n div ps ! (j - i), c) else roots ! j)"
  using assms
proof (induction ps arbitrary: i roots)
  case (Cons p ps)
  let ?r = "if n div p \<noteq> fst (roots ! i) then roots[i := (n div p, c)] else roots"
  have "historical_loop (Suc i) ps n c ?r ! j =
    (if Suc i \<le> j \<and> j < Suc i + length ps \<and> n div ps ! (j - Suc i) \<noteq> fst (?r ! j)
     then (n div ps ! (j - Suc i), c) else ?r ! j)"
    by (rule Cons.IH) (use Cons.prems in auto)
  then show ?case using Cons.prems by (cases "j = i") (auto simp: Let_def nth_Cons')
qed auto

lemma historical_match_Some:
  "historical_match i es rs = Some m \<Longrightarrow>
   \<exists>j. j < length es \<and> j < length rs \<and> mr_position m = i + j + 1 \<and> mr_commitment m = snd (es ! j) \<and>
     rs ! j = Some (mmr_root (mr_commitment m)) \<and> mmr_root (mr_commitment m) \<noteq> H256_zero"
proof (induction i es rs rule: historical_match.induct)
  case (1 i q entry entries root roots)
  show ?case
  proof (cases "mmr_root entry \<noteq> H256_zero \<and> root = Some (mmr_root entry)")
    case True
    with "1.prems" show ?thesis by (intro exI [of _ 0]) auto
  next
    case False
    with 1 obtain j where "j < length entries" "j < length roots" "mr_position m = Suc i + j + 1"
      "mr_commitment m = snd (entries ! j)" "roots ! j = Some (mmr_root (mr_commitment m))"
      "mmr_root (mr_commitment m) \<noteq> H256_zero"
      by (auto split: if_splits)
    then show ?thesis by (intro exI [of _ "Suc j"]) auto
  qed
qed auto

section \<open>Preservation of the invariant\<close>

lemma update_historical_roots_select [simp]:
  "b_members (update_historical_roots B n c) = b_members B"
  "b_primary_providers (update_historical_roots B n c) = b_primary_providers B"
  "b_min_providers (update_historical_roots B n c) = b_min_providers B"
  "b_frozen_start_seq (update_historical_roots B n c) = b_frozen_start_seq B"
  "b_snapshot (update_historical_roots B n c) = b_snapshot B"
  "b_creator (update_historical_roots B n c) = b_creator B"
  "b_deposit (update_historical_roots B n c) = b_deposit B"
  "b_visibility (update_historical_roots B n c) = b_visibility B"
  "length (b_historical_roots (update_historical_roots B n c)) = length (b_historical_roots B)"
  by (simp_all add: update_historical_roots_def)

lemma frozen_pinned:
  "(case x of Some f \<Rightarrow> y = f | None \<Rightarrow> True) \<longleftrightarrow> x = None \<or> x = Some y"
  by (auto split: option.split)

lemma checkpoint_Inr:
  assumes "checkpoint E origin b c sigs s = Inr s'"
  obtains who B signers provs where "origin = Signed who" "fmlookup (Buckets s) b = Some B"
    "ensure_writer_or_admin who B = Inr ()"
    "b_frozen_start_seq B = None \<or> b_frozen_start_seq B = Some (start_seq c)"
    "checkpoint_loop E s (b_primary_providers B) (encode_payload (CommitmentPayload_new b c)) sigs
       (replicate (length (b_primary_providers B)) False, []) = Inr (signers, provs)"
    "max (b_min_providers B) 1 \<le> count_ones signers"
    "s' = deposit_event (BucketCheckpointed b c provs) (s\<lparr>Buckets := fmupd b
       ((update_historical_roots B (anchor s) c)\<lparr>
          b_snapshot := Some \<lparr>bs_commitment = c, checkpoint_block = anchor s, primary_signers = signers\<rparr>,
          b_total_snapshots := saturating_add 32 (b_total_snapshots B) 1\<rparr>) (Buckets s)\<rparr>)"
  using assms by (auto simp: checkpoint_def result_simps Let_def frozen_pinned)

lemma checkpoint_inv:
  assumes I: "inv E s" and res: "checkpoint E origin b c sigs s = Inr s'"
  shows "inv E s'"
proof -
  from checkpoint_Inr [OF res] obtain who B signers provs where B: "fmlookup (Buckets s) b = Some B"
    and frozen: "b_frozen_start_seq B = None \<or> b_frozen_start_seq B = Some (start_seq c)"
    and loop: "checkpoint_loop E s (b_primary_providers B) (encode_payload (CommitmentPayload_new b c)) sigs
       (replicate (length (b_primary_providers B)) False, []) = Inr (signers, provs)"
    and s': "s' = deposit_event (BucketCheckpointed b c provs) (s\<lparr>Buckets := fmupd b
       ((update_historical_roots B (anchor s) c)\<lparr>
          b_snapshot := Some \<lparr>bs_commitment = c, checkpoint_block = anchor s, primary_signers = signers\<rparr>,
          b_total_snapshots := saturating_add 32 (b_total_snapshots B) 1\<rparr>) (Buckets s)\<rparr>)" .
  note ok = inv_bucket_ok [OF I B]
  have "length signers = length (b_primary_providers B)"
    using checkpoint_loop_signers(1) [OF _ _ loop] ok by (simp add: bucket_ok_def)
  then show ?thesis using ok frozen unfolding s' inv_events
    by (intro inv_bucket_upd [OF I B]) (auto simp: bucket_ok_def tickets_of_bucket_def fun_eq_iff)
qed

lemma extend_checkpoint_inv:
  assumes I: "inv E s" and res: "extend_checkpoint E origin b sigs s = Inr s'"
  shows "inv E s'"
proof -
  from res obtain B sn signers provs where B: "fmlookup (Buckets s) b = Some B"
    and sn: "b_snapshot B = Some sn"
    and loop: "extend_loop E s (b_primary_providers B)
      (encode_payload (CommitmentPayload_new b (bs_commitment sn))) sigs (primary_signers sn, []) = Inr (signers, provs)"
    and s': "s' = deposit_event (BucketCheckpointed b (bs_commitment sn) provs)
      (s\<lparr>Buckets := fmupd b (B\<lparr>b_snapshot := Some (sn\<lparr>primary_signers := signers\<rparr>)\<rparr>) (Buckets s)\<rparr>)"
    by (auto simp: extend_checkpoint_def result_simps)
  note ok = inv_bucket_ok [OF I B]
  have "length signers = length (b_primary_providers B)"
    using extend_loop_signers(1) [OF _ _ loop] ok sn by (simp add: bucket_ok_def)
  then show ?thesis using ok sn unfolding s' inv_events
    by (intro inv_bucket_upd [OF I B]) (auto simp: bucket_ok_def tickets_of_bucket_def fun_eq_iff)
qed

end
