(* ===== verification/Merkle.thy ===== *)
theory Merkle
  imports Primitives
begin

unbundle bit_operations_syntax

text \<open>
  The Merkle tree over the chunks of one data root
  (\<open>crates/primitives/storage/src/merkle.rs\<close>): construction of all levels, the
  root, the internal nodes, inclusion proofs and their verification. The node hash
  \<open>hash_children\<close> is the argument \<open>hc\<close>. The two main results are that
  every proof the builder makes verifies, and that a proof that verifies against the root
  of a known list of leaves is a proof of the leaf at that index, unless two different
  nodes have the same hash.
\<close>

section \<open>Construction\<close>

record MerkleNode =
  node_hash :: H256
  node_left :: H256
  node_right :: H256

fun next_level :: "(H256 \<Rightarrow> H256 \<Rightarrow> H256) \<Rightarrow> H256 list \<Rightarrow> H256 list" where
  "next_level hc (x # y # rest) = hc x y # next_level hc rest"
| "next_level hc xs = xs"

lemma length_next_level: "length (next_level hc xs) = div_ceil (length xs) 2"
  by (induction hc xs rule: next_level.induct) (auto simp: div_ceil_def)

lemma div_ceil_2: "div_ceil n 2 = (n + 1) div 2"
  by (auto simp: div_ceil_def) presburger+

lemma div_ceil_2_less: "1 < n \<Longrightarrow> div_ceil n 2 < n"
  unfolding div_ceil_2 by presburger

function levels_from :: "(H256 \<Rightarrow> H256 \<Rightarrow> H256) \<Rightarrow> H256 list \<Rightarrow> H256 list list" where
  "levels_from hc level =
     (if 1 < length level then level # levels_from hc (next_level hc level) else [level])"
  by pat_completeness auto
termination
  by (relation "measure (\<lambda>(hc, level). length level)") (auto simp: length_next_level div_ceil_2_less)

declare levels_from.simps [simp del]

definition levels :: "(H256 \<Rightarrow> H256 \<Rightarrow> H256) \<Rightarrow> H256 list \<Rightarrow> H256 list list" where
  "levels hc leaf_hashes = (if leaf_hashes = [] then [] else levels_from hc leaf_hashes)"

definition root_of_levels :: "H256 list list \<Rightarrow> H256" where
  "root_of_levels ls = (if ls = [] then H256_zero else last ls ! 0)"

definition merkle_root :: "(H256 \<Rightarrow> H256 \<Rightarrow> H256) \<Rightarrow> H256 list \<Rightarrow> H256" where
  "merkle_root hc leaf_hashes = root_of_levels (levels hc leaf_hashes)"

fun chunk_nodes :: "H256 list \<Rightarrow> H256 list \<Rightarrow> MerkleNode list" where
  "chunk_nodes (l # r # rest) (h # hs) =
     \<lparr>node_hash = h, node_left = l, node_right = r\<rparr> # chunk_nodes rest hs"
| "chunk_nodes _ _ = []"

fun nodes_of_levels :: "H256 list list \<Rightarrow> MerkleNode list" where
  "nodes_of_levels (lower # upper # rest) = chunk_nodes lower upper @ nodes_of_levels (upper # rest)"
| "nodes_of_levels _ = []"

definition merkle_tree :: "(H256 \<Rightarrow> H256 \<Rightarrow> H256) \<Rightarrow> H256 list \<Rightarrow> H256 \<times> MerkleNode list" where
  "merkle_tree hc leaf_hashes =
     (let ls = levels hc leaf_hashes in (root_of_levels ls, nodes_of_levels ls))"

section \<open>Proofs\<close>

definition sibling_index :: "nat \<Rightarrow> nat" where
  "sibling_index idx = idx XOR 1"

fun proof_from_levels :: "H256 list list \<Rightarrow> nat \<Rightarrow> H256 list" where
  "proof_from_levels (level # upper # rest) idx =
     (if idx \<noteq> length level - 1 \<or> even (length level) then [level ! sibling_index idx] else [])
       @ proof_from_levels (upper # rest) (idx div 2)"
| "proof_from_levels _ idx = []"

definition build_merkle_proofs ::
    "(H256 \<Rightarrow> H256 \<Rightarrow> H256) \<Rightarrow> H256 list \<Rightarrow> nat \<Rightarrow> nat \<Rightarrow> H256 list list" where
  "build_merkle_proofs hc leaf_hashes range_start range_stop =
     (let stop = min range_stop (length leaf_hashes);
          start = min range_start stop
      in if start = stop then []
         else map (proof_from_levels (levels hc leaf_hashes)) [start..<stop])"

function verify_loop ::
    "(H256 \<Rightarrow> H256 \<Rightarrow> H256) \<Rightarrow> H256 \<Rightarrow> nat \<Rightarrow> nat \<Rightarrow> H256 list \<Rightarrow> (H256 \<times> H256 list) option" where
  "verify_loop hc current idx width steps =
     (if 1 < width then
        if idx \<noteq> width - 1 \<or> even width then
          (case steps of
             [] \<Rightarrow> None
           | sibling # rest \<Rightarrow>
               verify_loop hc (if idx mod 2 = 1 then hc sibling current else hc current sibling)
                 (idx div 2) (div_ceil width 2) rest)
        else verify_loop hc current (idx div 2) (div_ceil width 2) steps
      else Some (current, steps))"
  by pat_completeness auto
termination
  by (relation "measure (\<lambda>(hc, current, idx, width, steps). width)") (auto simp: div_ceil_2_less)

declare verify_loop.simps [simp del]

definition verify_merkle_proof ::
    "(H256 \<Rightarrow> H256 \<Rightarrow> H256) \<Rightarrow> H256 \<Rightarrow> nat \<Rightarrow> nat \<Rightarrow> H256 list \<Rightarrow> H256 \<Rightarrow> bool" where
  "verify_merkle_proof hc leaf_hash idx count prf root =
     (if count \<le> idx then False
      else case verify_loop hc leaf_hash idx count prf of
             None \<Rightarrow> False
           | Some (current, steps) \<Rightarrow> steps = [] \<and> current = root)"

section \<open>Shape of the levels\<close>

lemma levels_from_single: "length level \<le> 1 \<Longrightarrow> levels_from hc level = [level]"
  by (simp add: levels_from.simps)

lemma levels_from_step:
  "1 < length level \<Longrightarrow> levels_from hc level = level # levels_from hc (next_level hc level)"
  by (subst levels_from.simps) simp

lemma levels_from_neq_Nil [simp]: "levels_from hc level \<noteq> []"
  by (subst levels_from.simps) simp

lemma sibling_index_even: "even n \<Longrightarrow> sibling_index n = Suc n"
  and sibling_index_odd: "odd n \<Longrightarrow> sibling_index n = n - 1"
  unfolding sibling_index_def by (simp_all add: xor_one_eq [where 'a = nat, unfolded One_nat_def])

lemma next_level_nth:
  "i < length xs \<Longrightarrow> next_level hc xs ! (i div 2) =
     (if i = length xs - 1 \<and> odd (length xs) then xs ! i
      else hc (xs ! (2 * (i div 2))) (xs ! (2 * (i div 2) + 1)))"
proof (induction hc xs arbitrary: i rule: next_level.induct)
  case (1 hc x y rest)
  show ?case
  proof (cases "i < 2")
    case True
    then show ?thesis by (cases i) (auto simp: numeral_2_eq_2 less_Suc_eq)
  next
    case False
    define j where "j = i - 2"
    have i: "i = j + 2" using False by (simp add: j_def)
    then have d: "i div 2 = Suc (j div 2)" by simp
    have len: "i = length (x # y # rest) - 1 \<longleftrightarrow> j = length rest - 1"
      using "1.prems" by (auto simp: i)
    show ?thesis using "1.IH" [of j] "1.prems" unfolding d len by (auto simp: i nth_Cons')
  qed
qed auto

lemma half_less_div_ceil: "i < n \<Longrightarrow> i div 2 < div_ceil n 2"
  unfolding div_ceil_2 by presburger

text \<open>A level of one node is the root; a longer one has the root of the level above.\<close>

definition root_of_level :: "(H256 \<Rightarrow> H256 \<Rightarrow> H256) \<Rightarrow> H256 list \<Rightarrow> H256" where
  "root_of_level hc level = last (levels_from hc level) ! 0"

lemma root_of_level_single: "length level = 1 \<Longrightarrow> root_of_level hc level = level ! 0"
  by (simp add: root_of_level_def levels_from_single)

lemma root_of_level_step:
  "1 < length level \<Longrightarrow> root_of_level hc level = root_of_level hc (next_level hc level)"
  by (simp add: root_of_level_def levels_from_step)

lemma merkle_root_eq: "leaves \<noteq> [] \<Longrightarrow> merkle_root hc leaves = root_of_level hc leaves"
  by (simp add: merkle_root_def root_of_levels_def levels_def root_of_level_def)

lemma proof_from_levels_step:
  assumes "1 < length level"
  shows "proof_from_levels (levels_from hc level) idx =
    (if idx \<noteq> length level - 1 \<or> even (length level) then [level ! sibling_index idx] else [])
      @ proof_from_levels (levels_from hc (next_level hc level)) (idx div 2)"
proof -
  obtain upper rest where u: "levels_from hc (next_level hc level) = upper # rest"
    by (cases "levels_from hc (next_level hc level)") auto
  show ?thesis by (simp add: levels_from_step [OF assms] u)
qed

section \<open>Completeness\<close>

lemma verify_step_complete:
  assumes "idx < length level" "idx \<noteq> length level - 1 \<or> even (length level)"
  shows "(if idx mod 2 = 1 then hc (level ! sibling_index idx) (level ! idx)
          else hc (level ! idx) (level ! sibling_index idx)) = next_level hc level ! (idx div 2)"
proof (cases "even idx")
  case True
  then have "2 * (idx div 2) = idx" by simp
  with True assms show ?thesis by (auto simp: next_level_nth sibling_index_even)
next
  case False
  then have "2 * (idx div 2) + 1 = idx" by presburger
  moreover from this have "2 * (idx div 2) = idx - 1" by simp
  moreover have "\<not> (idx = length level - 1 \<and> odd (length level))" using assms(2) by blast
  ultimately show ?thesis using False assms(1) by (auto simp: next_level_nth sibling_index_odd odd_iff_mod_2_eq_one)
qed

lemma verify_loop_sibling:
  assumes "1 < length level" "idx < length level" "idx \<noteq> length level - 1 \<or> even (length level)"
  shows "verify_loop hc (level ! idx) idx (length level) (level ! sibling_index idx # steps) =
    verify_loop hc (next_level hc level ! (idx div 2)) (idx div 2) (div_ceil (length level) 2) steps"
  using assms(1,3)
  by (subst verify_loop.simps) (simp only: verify_step_complete [OF assms(2,3)] if_True list.case)

lemma verify_loop_last:
  assumes "1 < length level" "idx < length level" "\<not> (idx \<noteq> length level - 1 \<or> even (length level))"
  shows "verify_loop hc (level ! idx) idx (length level) steps =
    verify_loop hc (next_level hc level ! (idx div 2)) (idx div 2) (div_ceil (length level) 2) steps"
proof -
  have "next_level hc level ! (idx div 2) = level ! idx"
    using assms(2,3) by (simp add: next_level_nth)
  then show ?thesis using assms(1,3)
    by (subst verify_loop.simps) (simp only: if_True if_False)
qed

lemma verify_loop_complete:
  "idx < length level \<Longrightarrow>
   verify_loop hc (level ! idx) idx (length level) (proof_from_levels (levels_from hc level) idx @ extra)
     = Some (root_of_level hc level, extra)"
proof (induction hc level arbitrary: idx rule: levels_from.induct)
  case (1 hc level)
  show ?case
  proof (cases "1 < length level")
    case False
    with "1.prems" have "length level = 1" "idx = 0" by auto
    then show ?thesis
      by (simp add: verify_loop.simps levels_from_single root_of_level_single)
  next
    case True
    let ?up = "next_level hc level"
    have len: "length ?up = div_ceil (length level) 2" by (rule length_next_level)
    have less: "idx div 2 < length ?up" unfolding len by (rule half_less_div_ceil [OF "1.prems"])
    note IH = "1.IH" [OF True less, unfolded len]
    show ?thesis
    proof (cases "idx \<noteq> length level - 1 \<or> even (length level)")
      case sib: True
      show ?thesis
        using sib IH
        by (simp only: verify_loop_sibling [OF True "1.prems" sib] proof_from_levels_step [OF True]
            root_of_level_step [OF True] if_True append_Cons append_Nil append_assoc)
    next
      case False
      then show ?thesis
        using IH
        by (simp only: verify_loop_last [OF True "1.prems" False] proof_from_levels_step [OF True]
            root_of_level_step [OF True] if_False append_Nil)
    qed
  qed
qed

section \<open>Soundness\<close>

text \<open>
  The pairs of children that are hashed when a tree is built, and when a proof is verified.
\<close>

definition tree_pairs :: "(H256 \<Rightarrow> H256 \<Rightarrow> H256) \<Rightarrow> H256 list \<Rightarrow> (H256 \<times> H256) list" where
  "tree_pairs hc level = map (\<lambda>n. (node_left n, node_right n)) (nodes_of_levels (levels_from hc level))"

function verify_pairs :: "(H256 \<Rightarrow> H256 \<Rightarrow> H256) \<Rightarrow> H256 \<Rightarrow> nat \<Rightarrow> nat \<Rightarrow> H256 list \<Rightarrow> (H256 \<times> H256) list" where
  "verify_pairs hc current idx width steps =
     (if 1 < width then
        if idx \<noteq> width - 1 \<or> even width then
          (case steps of
             [] \<Rightarrow> []
           | sibling # rest \<Rightarrow>
               let pair = (if idx mod 2 = 1 then (sibling, current) else (current, sibling))
               in pair # verify_pairs hc (hc (fst pair) (snd pair)) (idx div 2) (div_ceil width 2) rest)
        else verify_pairs hc current (idx div 2) (div_ceil width 2) steps
      else [])"
  by pat_completeness auto
termination
  by (relation "measure (\<lambda>(hc, current, idx, width, steps). width)") (auto simp: div_ceil_2_less)

declare verify_pairs.simps [simp del]

lemma chunk_nodes_pair:
  "2 * k + 1 < length xs \<Longrightarrow>
   (xs ! (2 * k), xs ! (2 * k + 1)) \<in> (\<lambda>n. (node_left n, node_right n)) ` set (chunk_nodes xs (next_level hc xs))"
proof (induction hc xs arbitrary: k rule: next_level.induct)
  case (1 hc x y rest)
  then show ?case by (cases k) auto
qed auto

lemma levels_from_Cons: "\<exists>rest. levels_from hc level = level # rest"
  by (cases "1 < length level") (auto simp: levels_from_step levels_from_single)

lemma tree_pairs_step:
  assumes "1 < length level"
  shows "set (tree_pairs hc level) = (\<lambda>n. (node_left n, node_right n)) ` set (chunk_nodes level (next_level hc level)) \<union>
    set (tree_pairs hc (next_level hc level))"
proof -
  obtain rest where "levels_from hc (next_level hc level) = next_level hc level # rest" using levels_from_Cons by blast
  then show ?thesis by (simp add: tree_pairs_def levels_from_step [OF assms] image_Un)
qed

text \<open>
  What the tree relies on: a node hash under which equal hashes of \<open>known\<close> pairs come from
  equal pairs, unless \<open>broken\<close> holds.
\<close>

locale node_hashing =
  fixes hc :: "H256 \<Rightarrow> H256 \<Rightarrow> H256"
    and known :: "(H256 \<times> H256) set"
    and broken :: bool
  assumes hash_binds: "hc l r = hc l' r' \<Longrightarrow> (l, r) \<in> known \<Longrightarrow> (l', r') \<in> known \<Longrightarrow> (l = l' \<and> r = r') \<or> broken"
begin

lemma verify_step_sound:
  assumes "1 < length level" "idx < length level" "idx \<noteq> length level - 1 \<or> even (length level)"
    and "hc (fst pair) (snd pair) = next_level hc level ! (idx div 2)"
    and pair: "pair = (if idx mod 2 = 1 then (sibling, current) else (current, sibling))"
    and known: "pair \<in> known" "set (tree_pairs hc level) \<subseteq> known"
  shows "current = level ! idx \<or> broken"
proof -
  let ?k = "idx div 2"
  have "\<not> (idx = length level - 1 \<and> odd (length level))" using assms(3) by blast
  then have up: "next_level hc level ! ?k = hc (level ! (2 * ?k)) (level ! (2 * ?k + 1))"
    by (simp only: next_level_nth [OF assms(2)] if_False)
  have "2 * ?k + 1 < length level" using assms(2,3) by presburger
  then have in_tree: "(level ! (2 * ?k), level ! (2 * ?k + 1)) \<in> known"
    using known(2) chunk_nodes_pair [of ?k level hc] tree_pairs_step [OF assms(1), of hc] by blast
  have "pair = (level ! (2 * ?k), level ! (2 * ?k + 1)) \<or> broken"
    using hash_binds [OF _ _ in_tree, of "fst pair" "snd pair"] assms(4) up known(1) by (cases pair) auto
  moreover have "2 * ?k + (if idx mod 2 = 1 then 1 else 0) = idx" by presburger
  ultimately show ?thesis using pair by (auto split: if_splits)
qed

lemma verify_loop_sound:
  "idx < length level \<Longrightarrow>
   verify_loop hc current idx (length level) steps = Some (root_of_level hc level, rest) \<Longrightarrow>
   set (tree_pairs hc level) \<subseteq> known \<Longrightarrow> set (verify_pairs hc current idx (length level) steps) \<subseteq> known \<Longrightarrow>
   current = level ! idx \<or> broken"
proof (induction "length level" arbitrary: level idx current steps rule: less_induct)
  case less
  show ?case
  proof (cases "1 < length level")
    case False
    with less.prems(1) have "length level = 1" "idx = 0" by auto
    with less.prems(2) show ?thesis
      by (simp add: verify_loop.simps root_of_level_single)
  next
    case True
    let ?up = "next_level hc level"
    have len: "length ?up = div_ceil (length level) 2" by (rule length_next_level)
    have smaller: "length ?up < length level" unfolding len by (rule div_ceil_2_less [OF True])
    have idx': "idx div 2 < length ?up" unfolding len by (rule half_less_div_ceil [OF less.prems(1)])
    have tree: "set (tree_pairs hc ?up) \<subseteq> known" using less.prems(3) tree_pairs_step [OF True, of hc] by blast
    note IH = less.hyps [OF smaller idx', unfolded len, OF _ tree]
    show ?thesis
    proof (cases "idx \<noteq> length level - 1 \<or> even (length level)")
      case sib: True
      with less.prems(2) True obtain sibling steps' where steps: "steps = sibling # steps'"
        by (auto simp: verify_loop.simps [of hc current] split: list.splits)
      define pair where "pair = (if idx mod 2 = 1 then (sibling, current) else (current, sibling))"
      have pairs: "verify_pairs hc current idx (length level) steps =
          pair # verify_pairs hc (hc (fst pair) (snd pair)) (idx div 2) (div_ceil (length level) 2) steps'"
        using True sib by (subst verify_pairs.simps) (simp add: steps pair_def Let_def)
      have "verify_loop hc (hc (fst pair) (snd pair)) (idx div 2) (div_ceil (length level) 2) steps' =
          Some (root_of_level hc level, rest)"
        using less.prems(2) True sib unfolding steps pair_def
        by (subst (asm) verify_loop.simps) (cases "idx mod 2 = 1"; simp)
      then have "hc (fst pair) (snd pair) = ?up ! (idx div 2) \<or> broken"
        using less.prems(4) pairs by (intro IH) (auto simp: root_of_level_step [OF True])
      then show ?thesis
        using verify_step_sound [OF True less.prems(1) sib _ pair_def _ less.prems(3)] less.prems(4) pairs by auto
    next
      case False
      with less.prems(2,4) True have "current = ?up ! (idx div 2) \<or> broken"
        by (intro IH) (simp_all add: verify_loop.simps [of hc current idx "length level"]
            verify_pairs.simps [of hc current idx "length level"] root_of_level_step [OF True])
      with False less.prems(1) show ?thesis by (simp add: next_level_nth)
    qed
  qed
qed

lemma verify_sound:
  assumes "verify_merkle_proof hc leaf idx (length leaves) prf (merkle_root hc leaves)"
    and "set (tree_pairs hc leaves) \<subseteq> known" "set (verify_pairs hc leaf idx (length leaves) prf) \<subseteq> known"
  shows "leaf = leaves ! idx \<or> broken"
proof -
  from assms have idx: "idx < length leaves" by (auto simp: verify_merkle_proof_def split: if_splits)
  then have "leaves \<noteq> []" by auto
  with assms idx have "verify_loop hc leaf idx (length leaves) prf = Some (root_of_level hc leaves, [])"
    by (auto simp: verify_merkle_proof_def merkle_root_eq split: option.splits prod.splits)
  with idx show ?thesis using assms(2,3) by (rule verify_loop_sound)
qed

end

interpretation chunk_tree: node_hashing "hash_children h" known "collision_among h (node_string ` known)"
  for h known
proof
  fix l r l' r' :: H256
  assume "hash_children h l r = hash_children h l' r'" "(l, r) \<in> known" "(l', r') \<in> known"
  then show "(l = l' \<and> r = r') \<or> collision_among h (node_string ` known)"
    using collision_amongI [of h "node_string (l, r)" "node_string (l', r')" "node_string ` known"]
    by (auto simp: hash_children_string)
qed

text \<open>The strings hashed when a tree over known leaves is built and a proof is checked against it.\<close>

definition proof_strings :: "(byte list \<Rightarrow> H256) \<Rightarrow> H256 \<Rightarrow> nat \<Rightarrow> H256 list \<Rightarrow> H256 list \<Rightarrow> byte list set" where
  "proof_strings h leaf idx leaves prf = node_string `
     (set (tree_pairs (hash_children h) leaves) \<union> set (verify_pairs (hash_children h) leaf idx (length leaves) prf))"

lemma verified_proof_sound:
  assumes "verify_merkle_proof (hash_children h) leaf idx (length leaves) prf (merkle_root (hash_children h) leaves)"
  shows "leaf = leaves ! idx \<or> collision_among h (proof_strings h leaf idx leaves prf)"
  unfolding proof_strings_def using assms by (rule chunk_tree.verify_sound) auto

end
