(* ===== verification/Challenges.thy ===== *)
theory Challenges
  imports Agreements_Inv Checkpoints Merkle
begin

text \<open>
  Challenges (\<open>impls/challenges.rs\<close> and the challenge calls of \<open>lib.rs\<close>):
  opening a challenge against a snapshot signature, an off-chain signature or a replica's
  confirmed sync, answering it, and slashing the provider once its deadline has passed.
\<close>

section \<open>Pending counters\<close>

definition decrement_or_delete :: "nat option \<Rightarrow> nat option" where
  "decrement_or_delete count =
     (case count of
        None \<Rightarrow> None
      | Some n \<Rightarrow> if n = 0 then None else if 0 < n - 1 then Some (n - 1) else None)"

definition mutate_exists :: "('k, 'v) fmap \<Rightarrow> 'k \<Rightarrow> ('v option \<Rightarrow> 'v option) \<Rightarrow> ('k, 'v) fmap" where
  "mutate_exists m k f = (case f (fmlookup m k) of None \<Rightarrow> fmdrop k m | Some v \<Rightarrow> fmupd k v m)"

definition decrement_pending :: "BucketId \<Rightarrow> account \<Rightarrow> 'c pstate \<Rightarrow> 'c pstate" where
  "decrement_pending bucket_id provider s = s\<lparr>
     PendingChallenges := mutate_exists (PendingChallenges s) provider decrement_or_delete,
     PendingChallengesByBucket :=
       mutate_exists (PendingChallengesByBucket s) (bucket_id, provider) decrement_or_delete\<rparr>"

section \<open>Opening a challenge\<close>

definition create_challenge ::
    "('c, 'm) env \<Rightarrow> account \<Rightarrow> BucketId \<Rightarrow> Bucket \<Rightarrow> account \<Rightarrow> ProviderRole \<Rightarrow> Commitment \<Rightarrow> ChunkLocation \<Rightarrow>
     'c pstate \<Rightarrow> Error + ChallengeId \<times> 'c pstate" where
  "create_challenge E challenger bucket_id bucket provider provider_role commitment target s =
     ensure (challenger \<noteq> provider) SelfChallenge
     (ensure (leaf_index target < leaf_count commitment) LeafNotInCommitment
     (ensure (b_visibility bucket = Private \<and> provider_role = Primary \<longrightarrow>
              is_authorized_for_private challenger bucket_id bucket s) NotAuthorizedForPrivateBucket
     (let authorized = is_authorized challenger bucket_id bucket s;
          deposit = ChallengeDepositAmount (Cfg E) in
      attempt (hold_challenge_deposit E challenger deposit (balances s)) (\<lambda>c1.
      let deadline = saturating_add 32 (anchor s) (ChallengeTimeout (Cfg E));
          challenge = \<lparr>ch_bucket_id = bucket_id, ch_provider = provider, ch_challenger = challenger,
            ch_commitment = commitment, ch_target = target, ch_deposit = deposit,
            ch_authorized = authorized, ch_created_at = anchor s\<rparr>
      in
      ensure (fmget 0 (NextChallengeIndex s) deadline < MaxChallengesPerDeadline (Cfg E)) TooManyChallengesThisBlock
      (let index = fmget 0 (NextChallengeIndex s) deadline;
           challenge_id = \<lparr>deadline = deadline, index = index\<rparr>
       in Inr (challenge_id,
            deposit_event (ChallengeCreated challenge_id bucket_id provider challenger deadline)
              (s\<lparr>NextChallengeIndex := fmupd deadline (saturating_add 16 index 1) (NextChallengeIndex s),
                 Challenges := fmupd (deadline, index) challenge (Challenges s),
                 PendingChallenges := fmupd provider
                   (saturating_add 32 (fmget 0 (PendingChallenges s) provider) 1) (PendingChallenges s),
                 PendingChallengesByBucket := fmupd (bucket_id, provider)
                   (saturating_add 32 (fmget 0 (PendingChallengesByBucket s) (bucket_id, provider)) 1)
                   (PendingChallengesByBucket s),
                 balances := c1\<rparr>)))))))"

definition do_challenge_checkpoint ::
    "('c, 'm) env \<Rightarrow> account \<Rightarrow> BucketId \<Rightarrow> account \<Rightarrow> ChunkLocation \<Rightarrow> 'c pstate \<Rightarrow>
     Error + ChallengeId \<times> 'c pstate" where
  "do_challenge_checkpoint E who bucket_id provider target s =
     ok_or (fmlookup (Buckets s) bucket_id) BucketNotFound (\<lambda>bucket.
     ok_or (b_snapshot bucket) NoSnapshot (\<lambda>snapshot.
     ok_or (position (\<lambda>p. p = provider) (b_primary_providers bucket)) ProviderNotInSnapshot (\<lambda>provider_idx.
     ensure (provider_idx < length (primary_signers snapshot) \<and> primary_signers snapshot ! provider_idx)
       ProviderNotInSnapshot
     (ok_or (fmlookup (StorageAgreements s) (bucket_id, provider)) AgreementNotFound (\<lambda>agreement.
      ensure (anchor s < ag_expires_at agreement) AgreementExpired
      (create_challenge E who bucket_id bucket provider (ag_role agreement) (bs_commitment snapshot) target s))))))"

definition challenge_checkpoint ::
    "('c, 'm) env \<Rightarrow> RuntimeOrigin \<Rightarrow> BucketId \<Rightarrow> account \<Rightarrow> ChunkLocation \<Rightarrow> 'c pstate \<Rightarrow> Error + 'c pstate" where
  "challenge_checkpoint E origin bucket_id provider target s =
     ensure_signed origin (\<lambda>who.
     attempt (do_challenge_checkpoint E who bucket_id provider target s) (\<lambda>(_, s'). Inr s'))"

definition challenge_offchain ::
    "('c, 'm) env \<Rightarrow> RuntimeOrigin \<Rightarrow> BucketId \<Rightarrow> account \<Rightarrow> Commitment \<Rightarrow> ChunkLocation \<Rightarrow> MultiSignature \<Rightarrow>
     'c pstate \<Rightarrow> Error + 'c pstate" where
  "challenge_offchain E origin bucket_id provider commitment target provider_signature s =
     ensure_signed origin (\<lambda>who.
     ok_or (fmlookup (Buckets s) bucket_id) BucketNotFound (\<lambda>bucket.
     ok_or (fmlookup (StorageAgreements s) (bucket_id, provider)) AgreementNotFound (\<lambda>agreement.
     ensure (anchor s < ag_expires_at agreement) AgreementExpired
     (attempt (verify_signature E provider_signature
                (encode_payload (CommitmentPayload_new bucket_id commitment)) provider s) (\<lambda>_.
      attempt (create_challenge E who bucket_id bucket provider (ag_role agreement) commitment target s)
        (\<lambda>(_, s'). Inr s'))))))"

definition challenge_replica ::
    "('c, 'm) env \<Rightarrow> RuntimeOrigin \<Rightarrow> BucketId \<Rightarrow> account \<Rightarrow> ChunkLocation \<Rightarrow> 'c pstate \<Rightarrow> Error + 'c pstate" where
  "challenge_replica E origin bucket_id provider target s =
     ensure_signed origin (\<lambda>who.
     ok_or (fmlookup (StorageAgreements s) (bucket_id, provider)) AgreementNotFound (\<lambda>agreement.
     ensure (anchor s < ag_expires_at agreement) AgreementExpired
     (attempt (case ag_role agreement of
                 Replica _ _ _ synced \<Rightarrow> ok_or synced InvalidSyncRoot (\<lambda>record. Inr (rs_commitment record))
               | Primary \<Rightarrow> Inl NotReplica) (\<lambda>commitment.
      ok_or (fmlookup (Buckets s) bucket_id) BucketNotFound (\<lambda>bucket.
      attempt (create_challenge E who bucket_id bucket provider (ag_role agreement) commitment target s)
        (\<lambda>(_, s'). Inr s'))))))"

section \<open>Answering a challenge\<close>

definition verify_challenged_leaf ::
    "('c, 'm) env \<Rightarrow> Challenge \<Rightarrow> MmrProof \<Rightarrow> Error + H256 \<times> nat" where
  "verify_challenged_leaf E challenge prf =
     ok_or (chunk_count (mp_leaf prf)) InvalidProof (\<lambda>count.
     ensure (verify_mmr_proof (MmrLib E) (blake2_256 (Crypto E)) prf (leaf_index (ch_target challenge))
              (ch_commitment challenge)) InvalidProof
     (Inr (data_root (mp_leaf prf), count)))"

definition responder_is_primary :: "Challenge \<Rightarrow> 'c pstate \<Rightarrow> bool" where
  "responder_is_primary challenge s =
     (case fmlookup (StorageAgreements s) (ch_bucket_id challenge, ch_provider challenge) of
        None \<Rightarrow> False
      | Some agreement \<Rightarrow> ag_role agreement = Primary)"

definition check_response ::
    "('c, 'm) env \<Rightarrow> Challenge \<Rightarrow> Bucket \<Rightarrow> ChallengeResponse \<Rightarrow> 'c pstate \<Rightarrow> Error + unit" where
  "check_response E challenge bucket response s =
     (case response of
        Proof chunk prf chunk_proof \<Rightarrow>
          attempt (verify_challenged_leaf E challenge prf) (\<lambda>(root, count).
          ensure (verify_merkle_proof (hash_children (blake2_256 (Crypto E)))
                   (hash_leaf (blake2_256 (Crypto E)) chunk) (chunk_index (ch_target challenge)) count
                   chunk_proof root) InvalidProof (Inr ()))
      | ChunkOutOfRange prf \<Rightarrow>
          attempt (verify_challenged_leaf E challenge prf) (\<lambda>(_, count).
          ensure (count \<le> chunk_index (ch_target challenge)) InvalidProof (Inr ()))
      | Deleted new_mmr_root new_start_seq admin admin_signature \<Rightarrow>
          attempt (ensure_admin admin bucket) (\<lambda>_.
          ensure (responder_is_primary challenge s) InvalidDeletionClaim
          (let challenged_seq = saturating_add 64 (start_seq (ch_commitment challenge))
                 (leaf_index (ch_target challenge)) in
           ensure (challenged_seq < new_start_seq) InvalidDeletionClaim
           (let deletion_payload = CommitmentPayload_new (ch_bucket_id challenge)
                  \<lparr>mmr_root = new_mmr_root, start_seq = new_start_seq, leaf_count = 0\<rparr> in
            ensure (is_ok (verify_signature E admin_signature (encode_payload deletion_payload) admin s))
              InvalidDeletionClaim (Inr ()))))
      | Superseded \<Rightarrow>
          ensure (responder_is_primary challenge s) InvalidSupersededClaim
          (ok_or (b_snapshot bucket) InvalidSupersededClaim (\<lambda>snapshot.
           let challenged_seq = saturating_add 64 (start_seq (ch_commitment challenge))
                 (leaf_index (ch_target challenge)) in
           ensure (mmr_root (ch_commitment challenge) \<noteq> mmr_root (bs_commitment snapshot) \<and>
                   contains_seq (bs_commitment snapshot) challenged_seq) InvalidSupersededClaim (Inr ()))))"

definition challenger_percent :: "Challenge \<Rightarrow> nat \<Rightarrow> nat" where
  "challenger_percent challenge response_time =
     (if \<not> ch_authorized challenge then 100
      else if response_time \<le> 1 then 90
      else if response_time \<le> 5 then 80
      else if response_time \<le> 24 then 70
      else if response_time \<le> 95 then 60
      else 50)"

definition respond_to_challenge ::
    "('c, 'm) env \<Rightarrow> RuntimeOrigin \<Rightarrow> ChallengeId \<Rightarrow> ChallengeResponse \<Rightarrow> 'c pstate \<Rightarrow> Error + 'c pstate" where
  "respond_to_challenge E origin challenge_id response s =
     ensure_signed origin (\<lambda>who.
     ok_or (fmlookup (Challenges s) (deadline challenge_id, index challenge_id)) ChallengeNotFound (\<lambda>challenge.
     let s1 = decrement_pending (ch_bucket_id challenge) (ch_provider challenge)
                (s\<lparr>Challenges := fmdrop (deadline challenge_id, index challenge_id) (Challenges s)\<rparr>) in
     ensure (ch_provider challenge = who) NotChallengeProvider
     (ensure (anchor s1 \<le> deadline challenge_id) ChallengeExpired
     (ok_or (fmlookup (Buckets s1) (ch_bucket_id challenge)) BucketNotFound (\<lambda>bucket.
      attempt (check_response E challenge bucket response s1) (\<lambda>_.
      let response_time = saturating_sub (anchor s1) (ch_created_at challenge);
          challenger_share = wrapping_mul 128 (ch_deposit challenge) (challenger_percent challenge response_time) div 100;
          (challenger_cost, c1) = settle_challenge_deposit E (ch_challenger challenge) (ch_provider challenge)
            (ch_deposit challenge) challenger_share (balances s1);
          provider_cost = saturating_sub (ch_deposit challenge) challenger_cost;
          s2 = mutate_provider who (mutate_stats (\<lambda>st.
                 if ch_authorized challenge
                 then st\<lparr>st_challenges_received_authorized := saturating_add 32 (st_challenges_received_authorized st) 1\<rparr>
                 else st\<lparr>st_challenges_received_public := saturating_add 32 (st_challenges_received_public st) 1\<rparr>))
               (s1\<lparr>balances := c1\<rparr>)
      in Inr (deposit_event (ChallengeDefended challenge_id who response_time challenger_cost provider_cost) s2)))))))"

section \<open>Expiry\<close>

definition slash_provider_for_failed_challenge ::
    "('c, 'm) env \<Rightarrow> Challenge \<Rightarrow> ChallengeId \<Rightarrow> 'c pstate \<Rightarrow> 'c pstate" where
  "slash_provider_for_failed_challenge E challenge challenge_id s =
     (case fmlookup (Providers s) (ch_provider challenge) of
        None \<Rightarrow> s
      | Some provider_info \<Rightarrow>
          let (actually_slashed, c1) =
                slash_stake_to_treasury E (ch_provider challenge) (pi_stake provider_info) (balances s);
              c2 = release_challenge_deposit E (ch_challenger challenge) (ch_deposit challenge) c1;
              provider_info' = (mutate_stats (\<lambda>st.
                st\<lparr>st_challenges_failed := saturating_add 32 (st_challenges_failed st) 1\<rparr>) provider_info)
                \<lparr>pi_stake := saturating_sub (pi_stake provider_info) actually_slashed\<rparr>
          in deposit_event (ChallengeSlashed challenge_id (ch_provider challenge) actually_slashed)
               (s\<lparr>Providers := fmupd (ch_provider challenge) provider_info' (Providers s), balances := c2\<rparr>))"

definition ensure_signed_or_root :: "RuntimeOrigin \<Rightarrow> Error + unit" where
  "ensure_signed_or_root origin = (case origin of Unsigned \<Rightarrow> Inl BadOrigin | _ \<Rightarrow> Inr ())"

definition resolve_expired_challenge ::
    "('c, 'm) env \<Rightarrow> RuntimeOrigin \<Rightarrow> ChallengeId \<Rightarrow> 'c pstate \<Rightarrow> Error + 'c pstate" where
  "resolve_expired_challenge E origin challenge_id s =
     attempt (ensure_signed_or_root origin) (\<lambda>_.
     ensure (deadline challenge_id < anchor s) ChallengeNotExpired
     (ok_or (fmlookup (Challenges s) (deadline challenge_id, index challenge_id)) ChallengeNotFound (\<lambda>challenge.
      let s1 = s\<lparr>Challenges := fmdrop (deadline challenge_id, index challenge_id) (Challenges s),
                NextChallengeIndex := fmdrop (deadline challenge_id) (NextChallengeIndex s)\<rparr>;
          s2 = decrement_pending (ch_bucket_id challenge) (ch_provider challenge) s1
      in Inr (slash_provider_for_failed_challenge E challenge challenge_id s2))))"

end
