(* ===== verification/Challenges_Inv.thy ===== *)
theory Challenges_Inv
  imports Challenges
begin

text \<open>
  Every challenge call preserves the invariant: the pending counters stay exact counts of
  the open challenges, an allocated index is never in use, the challenger's deposit stays on
  hold until the challenge is resolved and no longer, and a resolved challenge releases
  exactly its own deposit.
\<close>

section \<open>Counters\<close>

lemma decrement_get [simp]:
  "fmget 0 (mutate_exists m k decrement_or_delete) k' = (if k' = k then fmget 0 m k - 1 else fmget 0 m k')"
  by (auto simp: mutate_exists_def decrement_or_delete_def fmget_def split: option.split)

lemma decrement_no_zero:
  assumes "\<forall>k n. fmlookup m k = Some n \<longrightarrow> 0 < n"
    and "fmlookup (mutate_exists m k decrement_or_delete) k' = Some n"
  shows "0 < n"
  using assms by (auto simp: mutate_exists_def decrement_or_delete_def split: option.splits if_splits)

lemma inv_pending_close:
  assumes I: "inv_pending chs pc pcb" and c: "fmlookup chs i = Some c"
  shows "inv_pending (fmdrop i chs) (mutate_exists pc (ch_provider c) decrement_or_delete)
    (mutate_exists pcb (ch_bucket_id c, ch_provider c) decrement_or_delete)"
proof -
  have P: "\<And>p. fmget 0 pc p = open_challenges chs p" "\<forall>p n. fmlookup pc p = Some n \<longrightarrow> 0 < n"
    "\<And>k. fmget 0 pcb k = open_challenges_on chs k" "\<forall>k n. fmlookup pcb k = Some n \<longrightarrow> 0 < n"
    using I by (auto simp: inv_pending_def)
  show ?thesis
    unfolding inv_pending_def
    using decrement_no_zero [OF P(2)] decrement_no_zero [OF P(4)]
      challenge_totals_old(2,3) [OF c] by (auto simp: P(1,3))
qed

lemma inv_pending_open:
  assumes I: "inv_pending chs pc pcb" and new: "fmlookup chs i = None" and range: "total_challenges chs + 1 < 2 ^ 32"
    and c: "ch_provider c = p" "ch_bucket_id c = b"
  shows "inv_pending (fmupd i c chs) (fmupd p (saturating_add 32 (fmget 0 pc p) 1) pc)
    (fmupd (b, p) (saturating_add 32 (fmget 0 pcb (b, p)) 1) pcb)"
proof -
  have P: "\<And>p. fmget 0 pc p = open_challenges chs p" "\<forall>p n. fmlookup pc p = Some n \<longrightarrow> 0 < n"
    "\<And>k. fmget 0 pcb k = open_challenges_on chs k" "\<forall>k n. fmlookup pcb k = Some n \<longrightarrow> 0 < n"
    using I by (auto simp: inv_pending_def)
  have "saturating_add 32 (fmget 0 pc p) 1 = open_challenges chs p + 1"
    using range open_challenges_le_total(1) [of chs p] unfolding P(1) by (intro saturating_add_exact) linarith
  moreover have "saturating_add 32 (fmget 0 pcb (b, p)) 1 = open_challenges_on chs (b, p) + 1"
    using range open_challenges_le_total(2) [of chs "(b, p)"] unfolding P(3) by (intro saturating_add_exact) linarith
  ultimately show ?thesis
    unfolding inv_pending_def using P c new
    by (auto simp: challenge_totals_upd fmdrop_absent split: if_splits)
qed

section \<open>Indices\<close>

lemma inv_indexD:
  assumes "inv_index E chs nci now"
  shows "now < 2 ^ 32"
    and "fmlookup chs (d, i) = Some c \<Longrightarrow> challenge_ok E now d c"
    and "fmlookup chs (d, i) = Some c \<Longrightarrow> i < fmget 0 nci d \<or> d < now"
  using assms unfolding inv_index_def by blast+

lemma index_free:
  assumes I: "inv_index E chs nci now"
  shows "fmlookup chs (saturating_add 32 now t, fmget 0 nci (saturating_add 32 now t)) = None"
proof -
  have "now \<le> saturating_add 32 now t" using inv_indexD(1) [OF I] by (rule saturating_add_ge)
  with inv_indexD(3) [OF I] show ?thesis
    by (cases "fmlookup chs (saturating_add 32 now t, fmget 0 nci (saturating_add 32 now t))") force+
qed

lemma inv_index_open:
  assumes I: "inv_index E chs nci now" and c: "challenge_ok E now d c" and cap: "fmget 0 nci d + 1 < 2 ^ 16"
  shows "inv_index E (fmupd (d, fmget 0 nci d) c chs) (fmupd d (saturating_add 16 (fmget 0 nci d) 1) nci) now"
proof -
  have "saturating_add 16 (fmget 0 nci d) 1 = fmget 0 nci d + 1" using cap by (rule saturating_add_exact)
  then show ?thesis using inv_indexD [OF I] c unfolding inv_index_def by (auto split: if_splits) (meson less_SucI)+
qed

lemma inv_index_close:
  assumes "inv_index E chs nci now"
  shows "inv_index E (fmdrop k chs) nci now"
    and "d < now \<Longrightarrow> inv_index E (fmdrop k chs) (fmdrop d nci) now"
  using inv_indexD [OF assms] unfolding inv_index_def by (auto split: if_splits)

lemma inv_obligation_close: "inv_obligation chs ags \<Longrightarrow> inv_obligation (fmdrop k chs) ags"
  by (auto simp: inv_obligation_def)

section \<open>Opening\<close>

lemma create_challenge_Inr:
  assumes "create_challenge E w b B p role cm tg s = Inr (cid, s')"
  shows "\<exists>c1 c d n. w \<noteq> p \<and> leaf_index tg < leaf_count cm \<and>
    (b_visibility B = Private \<and> role = Primary \<longrightarrow> is_authorized_for_private w b B s) \<and>
    hold_challenge_deposit E w (ChallengeDepositAmount (Cfg E)) (balances s) = Inr c1 \<and>
    d = saturating_add 32 (anchor s) (ChallengeTimeout (Cfg E)) \<and>
    n = fmget 0 (NextChallengeIndex s) d \<and> n < MaxChallengesPerDeadline (Cfg E) \<and>
    c = \<lparr>ch_bucket_id = b, ch_provider = p, ch_challenger = w,
            ch_commitment = cm, ch_target = tg, ch_deposit = ChallengeDepositAmount (Cfg E),
            ch_authorized = is_authorized w b B s, ch_created_at = anchor s\<rparr> \<and>
    cid = \<lparr>deadline = d, index = n\<rparr> \<and>
    s' = deposit_event (ChallengeCreated cid b p w d)
      (s\<lparr>NextChallengeIndex := fmupd d (saturating_add 16 n 1) (NextChallengeIndex s),
         Challenges := fmupd (d, n) c (Challenges s),
         PendingChallenges := fmupd p (saturating_add 32 (fmget 0 (PendingChallenges s) p) 1) (PendingChallenges s),
         PendingChallengesByBucket := fmupd (b, p)
           (saturating_add 32 (fmget 0 (PendingChallengesByBucket s) (b, p)) 1) (PendingChallengesByBucket s),
         balances := c1\<rparr>)"
  using assms by (clarsimp simp: create_challenge_def result_simps Let_def)

context pallet_env
begin

lemma create_challenge_inv:
  assumes I: "inv E s" and cfg: "MaxChallengesPerDeadline (Cfg E) < 2 ^ 16"
    and range: "total_challenges (Challenges s) + 1 < 2 ^ 32"
    and ag: "fmlookup (StorageAgreements s) (b, p) \<noteq> None"
    and res: "create_challenge E w b B p role cm tg s = Inr (cid, s')"
  shows "inv E s'"
proof -
  note P = invD [OF I]
  from create_challenge_Inr [OF res] obtain c1 c d n where
    diff: "w \<noteq> p" and leaf: "leaf_index tg < leaf_count cm"
    and c1: "hold_challenge_deposit E w (ChallengeDepositAmount (Cfg E)) (balances s) = Inr c1"
    and d: "d = saturating_add 32 (anchor s) (ChallengeTimeout (Cfg E))"
    and n: "n = fmget 0 (NextChallengeIndex s) d" and cap: "n < MaxChallengesPerDeadline (Cfg E)"
    and c: "c = \<lparr>ch_bucket_id = b, ch_provider = p, ch_challenger = w,
            ch_commitment = cm, ch_target = tg, ch_deposit = ChallengeDepositAmount (Cfg E),
            ch_authorized = is_authorized w b B s, ch_created_at = anchor s\<rparr>"
    and s': "s' = deposit_event (ChallengeCreated cid b p w d)
      (s\<lparr>NextChallengeIndex := fmupd d (saturating_add 16 n 1) (NextChallengeIndex s),
         Challenges := fmupd (d, n) c (Challenges s),
         PendingChallenges := fmupd p (saturating_add 32 (fmget 0 (PendingChallenges s) p) 1) (PendingChallenges s),
         PendingChallengesByBucket := fmupd (b, p)
           (saturating_add 32 (fmget 0 (PendingChallengesByBucket s) (b, p)) 1) (PendingChallengesByBucket s),
         balances := c1\<rparr>)"
    by - (elim exE conjE, rule that; assumption)
  from hold_challenge_deposit_holds [OF P(1) c1] have h: "money_ok E c1"
    "holds E c1 = add_hold ChallengeDeposit w (ChallengeDepositAmount (Cfg E)) (holds E (balances s))" by auto
  have new: "fmlookup (Challenges s) (d, n) = None" unfolding n d by (rule index_free [OF P(11)])
  have "inv_pending (fmupd (d, n) c (Challenges s))
      (fmupd p (saturating_add 32 (fmget 0 (PendingChallenges s) p) 1) (PendingChallenges s))
      (fmupd (b, p) (saturating_add 32 (fmget 0 (PendingChallengesByBucket s) (b, p)) 1) (PendingChallengesByBucket s))"
    by (rule inv_pending_open [OF P(9) new range]) (simp_all add: c)
  moreover have "inv_index E (fmupd (d, n) c (Challenges s)) (fmupd d (saturating_add 16 n 1) (NextChallengeIndex s)) (anchor s)"
    using cap cfg leaf unfolding n by (intro inv_index_open [OF P(11)]) (simp_all add: challenge_ok_def c d n)
  moreover have "inv_obligation (fmupd (d, n) c (Challenges s)) (StorageAgreements s)"
    using P(10) ag diff by (auto simp: inv_obligation_def c)
  moreover have "inv_deposits E (fmupd (d, n) c (Challenges s)) c1"
    using P(7) h(2) new by (auto simp: inv_deposits_def challenge_totals_upd fmdrop_absent c)
  ultimately show ?thesis using P h unfolding s'
    by (simp add: inv_def inv_money_cong [of E c1 "balances s"])
qed

lemma challenge_checkpoint_inv:
  assumes "inv E s" "MaxChallengesPerDeadline (Cfg E) < 2 ^ 16" "total_challenges (Challenges s) + 1 < 2 ^ 32"
    and "challenge_checkpoint E origin b p tg s = Inr s'"
  shows "inv E s'"
  using assms(4) create_challenge_inv [OF assms(1-3)]
  by (fastforce simp: challenge_checkpoint_def do_challenge_checkpoint_def result_simps)

lemma challenge_offchain_inv:
  assumes "inv E s" "MaxChallengesPerDeadline (Cfg E) < 2 ^ 16" "total_challenges (Challenges s) + 1 < 2 ^ 32"
    and "challenge_offchain E origin b p cm tg sig s = Inr s'"
  shows "inv E s'"
  using assms(4) create_challenge_inv [OF assms(1-3)]
  by (fastforce simp: challenge_offchain_def result_simps)

lemma challenge_replica_inv:
  assumes "inv E s" "MaxChallengesPerDeadline (Cfg E) < 2 ^ 16" "total_challenges (Challenges s) + 1 < 2 ^ 32"
    and "challenge_replica E origin b p tg s = Inr s'"
  shows "inv E s'"
  using assms(4) create_challenge_inv [OF assms(1-3)]
  by (fastforce simp: challenge_replica_def result_simps)

end

section \<open>Resolving\<close>

lemma respond_to_challenge_Inr:
  assumes "respond_to_challenge E origin cid resp s = Inr s'"
  shows "\<exists>c B moved c1 f. fmlookup (Challenges s) (deadline cid, index cid) = Some c \<and>
    origin = Signed (ch_provider c) \<and> anchor s \<le> deadline cid \<and>
    fmlookup (Buckets s) (ch_bucket_id c) = Some B \<and>
    check_response E c B resp (decrement_pending (ch_bucket_id c) (ch_provider c)
        (s\<lparr>Challenges := fmdrop (deadline cid, index cid) (Challenges s)\<rparr>)) = Inr () \<and>
    settle_challenge_deposit E (ch_challenger c) (ch_provider c) (ch_deposit c)
      (wrapping_mul 128 (ch_deposit c) (challenger_percent c (anchor s - ch_created_at c)) div 100) (balances s) = (moved, c1) \<and>
    f = mutate_stats (\<lambda>st. if ch_authorized c
         then st\<lparr>st_challenges_received_authorized := saturating_add 32 (st_challenges_received_authorized st) 1\<rparr>
         else st\<lparr>st_challenges_received_public := saturating_add 32 (st_challenges_received_public st) 1\<rparr>) \<and>
    s' = deposit_event (ChallengeDefended cid (ch_provider c) (anchor s - ch_created_at c) moved (ch_deposit c - moved))
      (mutate_provider (ch_provider c) f ((decrement_pending (ch_bucket_id c) (ch_provider c)
        (s\<lparr>Challenges := fmdrop (deadline cid, index cid) (Challenges s)\<rparr>))\<lparr>balances := c1\<rparr>))"
  using assms
  by (clarsimp simp: respond_to_challenge_def result_simps Let_def decrement_pending_def case_prod_beta prod_eq_iff)

lemma challenger_share_le: "wrapping_mul 128 d (challenger_percent c t) div 100 \<le> d"
proof -
  have "(d * challenger_percent c t) mod 2 ^ 128 \<le> d * challenger_percent c t" by (rule mod_less_eq_dividend)
  also have "\<dots> \<le> d * 100" by (simp add: challenger_percent_def)
  finally have "(d * challenger_percent c t) mod 2 ^ 128 div 100 \<le> d * 100 div 100" by (rule div_le_mono)
  then show ?thesis by (simp add: wrapping_mul_def)
qed

context pallet_env
begin

lemma deposit_covered:
  assumes "inv E s" "fmlookup (Challenges s) k = Some c"
  shows "ch_deposit c \<le> holds E (balances s) ChallengeDeposit (ch_challenger c)"
  using invD(7) [OF assms(1)] challenge_totals_old(1) [OF assms(2)] by (simp add: inv_deposits_def)

text \<open>Closing a challenge whose deposit has left the challenger's hold.\<close>

lemma close_inv:
  assumes I: "inv E s" and c: "fmlookup (Challenges s) (d, n) = Some c"
    and s': "Challenges s' = fmdrop (d, n) (Challenges s)"
      "PendingChallenges s' = mutate_exists (PendingChallenges s) (ch_provider c) decrement_or_delete"
      "PendingChallengesByBucket s' =
         mutate_exists (PendingChallengesByBucket s) (ch_bucket_id c, ch_provider c) decrement_or_delete"
      "NextChallengeIndex s' = NextChallengeIndex s \<or> d < anchor s \<and> NextChallengeIndex s' = fmdrop d (NextChallengeIndex s)"
      "Buckets s' = Buckets s" "NextBucketId s' = NextBucketId s" "MemberBuckets s' = MemberBuckets s"
      "StorageAgreements s' = StorageAgreements s" "anchor s' = anchor s"
    and ps: "inv_committed (Providers s') (StorageAgreements s)" "inv_stake E (Providers s') (balances s')"
      "provider_ticket (Providers s') = provider_ticket (Providers s)"
    and m: "money_ok E (balances s')"
      "\<And>w. holds E (balances s') ChallengeDeposit w = sub_hold ChallengeDeposit (ch_challenger c) (ch_deposit c)
         (holds E (balances s)) ChallengeDeposit w"
      "\<And>w. holds E (balances s') AgreementPayment w = holds E (balances s) AgreementPayment w"
      "\<And>w. holds E (balances s') StorageDeposit w = holds E (balances s) StorageDeposit w"
  shows "inv E s'"
proof -
  note P = invD [OF I]
  have "inv_deposits E (Challenges s') (balances s')"
    using P(7) m(2) by (auto simp: inv_deposits_def s' challenge_totals_old(1) [OF c])
  moreover have "inv_pending (Challenges s') (PendingChallenges s') (PendingChallengesByBucket s')"
    unfolding s' by (rule inv_pending_close [OF P(9) c])
  moreover have "inv_index E (Challenges s') (NextChallengeIndex s') (anchor s')"
    using s'(4) inv_index_close [OF P(11)] by (auto simp: s'(1,9))
  moreover have "inv_obligation (Challenges s') (StorageAgreements s')"
    unfolding s' by (rule inv_obligation_close [OF P(10)])
  moreover have "inv_tickets E (Providers s') (Buckets s') (StorageAgreements s') (balances s')"
    using P(8) m(4) ps(3) by (simp add: inv_tickets_def s')
  ultimately show ?thesis using P m ps by (simp add: inv_def s' inv_money_cong(2) [of E "balances s'" "balances s"])
qed

lemma respond_to_challenge_inv:
  assumes I: "inv E s" and res: "respond_to_challenge E origin cid resp s = Inr s'"
  shows "inv E s'"
proof -
  note P = invD [OF I]
  from respond_to_challenge_Inr [OF res] obtain c moved c1 f where
    c: "fmlookup (Challenges s) (deadline cid, index cid) = Some c"
    and st: "settle_challenge_deposit E (ch_challenger c) (ch_provider c) (ch_deposit c)
      (wrapping_mul 128 (ch_deposit c) (challenger_percent c (anchor s - ch_created_at c)) div 100) (balances s) = (moved, c1)"
    and f: "f = mutate_stats (\<lambda>st. if ch_authorized c
         then st\<lparr>st_challenges_received_authorized := saturating_add 32 (st_challenges_received_authorized st) 1\<rparr>
         else st\<lparr>st_challenges_received_public := saturating_add 32 (st_challenges_received_public st) 1\<rparr>)"
    and s': "s' = deposit_event (ChallengeDefended cid (ch_provider c) (anchor s - ch_created_at c) moved (ch_deposit c - moved))
      (mutate_provider (ch_provider c) f ((decrement_pending (ch_bucket_id c) (ch_provider c)
        (s\<lparr>Challenges := fmdrop (deadline cid, index cid) (Challenges s)\<rparr>))\<lparr>balances := c1\<rparr>))"
    by - (elim exE conjE, rule that; assumption)
  from settle_challenge_deposit_holds [OF P(1) deposit_covered [OF I c] challenger_share_le st]
  have h: "money_ok E c1" "holds E c1 = sub_hold ChallengeDeposit (ch_challenger c) (ch_deposit c) (holds E (balances s))"
    by auto
  have stake: "inv_stake E (Providers s) c1" using P(5) h(2) by (simp add: inv_stake_def)
  show ?thesis
  proof (cases "fmlookup (Providers s) (ch_provider c)")
    case None
    with h stake P show ?thesis
      by (intro close_inv [OF I c]) (simp_all add: s' decrement_pending_def mutate_provider_def)
  next
    case (Some i)
    then have "inv_committed (fmupd (ch_provider c) (f i) (Providers s)) (StorageAgreements s)"
      "inv_stake E (fmupd (ch_provider c) (f i) (Providers s)) c1"
      using inv_committed_same_bytes [OF P(2) Some] inv_stake_provider [OF stake Some] by (simp_all add: f)
    with Some h show ?thesis
      by (intro close_inv [OF I c])
        (simp_all add: s' decrement_pending_def mutate_provider_def fun_eq_iff provider_values f)
  qed
qed

lemma resolve_expired_challenge_inv:
  assumes I: "inv E s" and res: "resolve_expired_challenge E origin cid s = Inr s'"
  shows "inv E s'"
proof -
  note P = invD [OF I]
  from res obtain c where exp: "deadline cid < anchor s"
    and c: "fmlookup (Challenges s) (deadline cid, index cid) = Some c"
    and s': "s' = slash_provider_for_failed_challenge E c cid (decrement_pending (ch_bucket_id c) (ch_provider c)
      (s\<lparr>Challenges := fmdrop (deadline cid, index cid) (Challenges s),
         NextChallengeIndex := fmdrop (deadline cid) (NextChallengeIndex s)\<rparr>))"
    by (auto simp: resolve_expired_challenge_def result_simps Let_def)
  obtain a where "fmlookup (StorageAgreements s) (ch_bucket_id c, ch_provider c) = Some a"
    using P(10) c by (force simp: inv_obligation_def)
  then obtain i where i: "fmlookup (Providers s) (ch_provider c) = Some i" by (rule agreement_provider [OF I])
  obtain slashed c1 where sl: "slash_stake_to_treasury E (ch_provider c) (pi_stake i) (balances s) = (slashed, c1)"
    by fastforce
  have "pi_stake i \<le> holds E (balances s) ProviderStake (ch_provider c)"
    using P(5) i by (simp add: inv_stake_def provider_values)
  from slash_stake_holds [OF P(1) this sl] have h1: "money_ok E c1" "slashed = pi_stake i"
    "holds E c1 = sub_hold ProviderStake (ch_provider c) (pi_stake i) (holds E (balances s))" by auto
  let ?c2 = "release_challenge_deposit E (ch_challenger c) (ch_deposit c) c1"
  have "ch_deposit c \<le> holds E c1 ChallengeDeposit (ch_challenger c)" using deposit_covered [OF I c] h1 by simp
  from release_challenge_deposit_holds [OF h1(1) this] have h2: "money_ok E ?c2"
    "holds E ?c2 = sub_hold ChallengeDeposit (ch_challenger c) (ch_deposit c) (holds E c1)" by auto
  let ?i = "(mutate_stats (\<lambda>st. st\<lparr>st_challenges_failed := saturating_add 32 (st_challenges_failed st) 1\<rparr>) i)\<lparr>pi_stake := 0\<rparr>"
  have "inv_committed (fmupd (ch_provider c) ?i (Providers s)) (StorageAgreements s)"
    by (rule inv_committed_same_bytes [OF P(2) i]) simp
  moreover have "inv_stake E (fmupd (ch_provider c) ?i (Providers s)) ?c2"
    using P(5) h1 h2 i by (auto simp: inv_stake_def provider_values)
  ultimately show ?thesis using h1 h2 exp i sl
    by (intro close_inv [OF I c])
      (simp_all add: s' slash_provider_for_failed_challenge_def decrement_pending_def fun_eq_iff provider_values)
qed

end

end
