(* ===== verification/Replicas.thy ===== *)
theory Replicas
  imports Challenges_Inv
begin

text \<open>
  Replica synchronisation (the calls \<open>confirm_replica_sync\<close> and
  \<open>top_up_replica_sync_balance\<close> of \<open>lib.rs\<close>): a replica attests the
  roots it holds, is paid its sync price out of the owner's escrow and becomes challengeable
  for the commitment it matched.
\<close>

section \<open>Operations\<close>

definition encode_roots :: "H256 option list \<Rightarrow> byte list" where
  "encode_roots roots = concat (map (\<lambda>r. case r of None \<Rightarrow> [0] | Some h \<Rightarrow> 1 # as_bytes h) roots)"

definition confirm_replica_sync ::
    "('c, 'm) env \<Rightarrow> RuntimeOrigin \<Rightarrow> BucketId \<Rightarrow> H256 option list \<Rightarrow> MultiSignature \<Rightarrow> 'c pstate \<Rightarrow>
     Error + 'c pstate" where
  "confirm_replica_sync E origin bucket_id roots signature s =
     ensure_signed origin (\<lambda>who.
     attempt (verify_signature E signature (encode_roots roots) who s) (\<lambda>_.
     ok_or (fmlookup (Buckets s) bucket_id) BucketNotFound (\<lambda>bucket.
     ok_or (fmlookup (StorageAgreements s) (bucket_id, who)) AgreementNotFound (\<lambda>agreement.
     case ag_role agreement of
       Primary \<Rightarrow> Inl NotReplica
     | Replica sync_bal price min_interval synced \<Rightarrow>
         ensure (anchor s < ag_expires_at agreement) AgreementExpired
         (ensure (case synced of
                    Some record \<Rightarrow> saturating_add 32 (rs_block record) min_interval \<le> anchor s
                  | None \<Rightarrow> True) SyncTooFrequent
         (attempt (find_matching_root bucket roots) (\<lambda>matched.
          ensure (case synced of
                    Some record \<Rightarrow> mmr_root (mr_commitment matched) \<noteq> mmr_root (rs_commitment record)
                  | None \<Rightarrow> True) InvalidSyncRoot
          (ensure (price \<le> sync_bal) InsufficientSyncBalance
          (let agreement' = agreement\<lparr>ag_role := Replica (saturating_sub sync_bal price) price min_interval
                 (Some \<lparr>rs_commitment = mr_commitment matched, rs_block = anchor s\<rparr>)\<rparr> in
           attempt (settle_payment E (ag_owner agreement) who price (balances s)) (\<lambda>c1.
           let s1 = mutate_provider who (mutate_stats (\<lambda>st.
                 st\<lparr>st_lifetime_revenue := saturating_add 128 (st_lifetime_revenue st) price\<rparr>)) (s\<lparr>balances := c1\<rparr>)
           in Inr (deposit_event (ReplicaSynced bucket_id who (mmr_root (mr_commitment matched)) (mr_position matched) price)
                (s1\<lparr>StorageAgreements := fmupd (bucket_id, who) agreement' (StorageAgreements s1)\<rparr>))))))))))))"

definition top_up_replica_sync_balance ::
    "('c, 'm) env \<Rightarrow> RuntimeOrigin \<Rightarrow> BucketId \<Rightarrow> account \<Rightarrow> nat \<Rightarrow> 'c pstate \<Rightarrow> Error + 'c pstate" where
  "top_up_replica_sync_balance E origin bucket_id provider amount s =
     ensure_signed origin (\<lambda>who.
     ok_or (fmlookup (StorageAgreements s) (bucket_id, provider)) AgreementNotFound (\<lambda>agreement.
     attempt (hold_payment_from E who (ag_owner agreement) amount (balances s)) (\<lambda>c1.
     case ag_role agreement of
       Primary \<Rightarrow> Inl NotReplica
     | Replica sync_bal price min_interval synced \<Rightarrow>
         ok_or (checked_add 128 sync_bal amount) ArithmeticOverflow (\<lambda>new_total.
           Inr (deposit_event (ReplicaSyncBalanceToppedUp bucket_id provider amount new_total)
             (s\<lparr>StorageAgreements := fmupd (bucket_id, provider)
                  (agreement\<lparr>ag_role := Replica new_total price min_interval synced\<rparr>) (StorageAgreements s),
                balances := c1\<rparr>))))))"

section \<open>Preservation of the invariant\<close>

lemma confirm_replica_sync_Inr:
  assumes "confirm_replica_sync E origin b roots sig s = Inr s'"
  shows "\<exists>who B a sb price iv synced m c1. origin = Signed who \<and> fmlookup (Buckets s) b = Some B \<and>
    fmlookup (StorageAgreements s) (b, who) = Some a \<and> ag_role a = Replica sb price iv synced \<and>
    verify_signature E sig (encode_roots roots) who s = Inr () \<and>
    anchor s < ag_expires_at a \<and>
    (\<forall>r. synced = Some r \<longrightarrow> saturating_add 32 (rs_block r) iv \<le> anchor s \<and>
       mmr_root (mr_commitment m) \<noteq> mmr_root (rs_commitment r)) \<and>
    find_matching_root B roots = Inr m \<and> price \<le> sb \<and>
    settle_payment E (ag_owner a) who price (balances s) = Inr c1 \<and>
    s' = deposit_event (ReplicaSynced b who (mmr_root (mr_commitment m)) (mr_position m) price)
      ((mutate_provider who (mutate_stats (\<lambda>st.
           st\<lparr>st_lifetime_revenue := saturating_add 128 (st_lifetime_revenue st) price\<rparr>)) (s\<lparr>balances := c1\<rparr>))
       \<lparr>StorageAgreements := fmupd (b, who)
          (a\<lparr>ag_role := Replica (sb - price) price iv
               (Some \<lparr>rs_commitment = mr_commitment m, rs_block = anchor s\<rparr>)\<rparr>) (StorageAgreements s)\<rparr>)"
proof -
  from assms obtain who a where a: "origin = Signed who" "fmlookup (StorageAgreements s) (b, who) = Some a"
    by (auto simp: confirm_replica_sync_def result_simps)
  show ?thesis
  proof (cases "ag_role a")
    case Primary
    with assms a show ?thesis by (simp add: confirm_replica_sync_def result_simps)
  next
    case (Replica sb price iv synced)
    with assms a show ?thesis
      by (cases synced) (auto simp: confirm_replica_sync_def result_simps Let_def)
  qed
qed

context pallet_env
begin

lemma confirm_replica_sync_inv:
  assumes I: "inv E s" and res: "confirm_replica_sync E origin b roots sig s = Inr s'"
  shows "inv E s'"
proof -
  note P = invD [OF I]
  from confirm_replica_sync_Inr [OF res] obtain who B a sb price iv synced m c1 where
    a: "fmlookup (StorageAgreements s) (b, who) = Some a" and role: "ag_role a = Replica sb price iv synced"
    and m: "find_matching_root B roots = Inr m"
    and le: "price \<le> sb" and c1: "settle_payment E (ag_owner a) who price (balances s) = Inr c1"
    and s': "s' = deposit_event (ReplicaSynced b who (mmr_root (mr_commitment m)) (mr_position m) price)
      ((mutate_provider who (mutate_stats (\<lambda>st.
           st\<lparr>st_lifetime_revenue := saturating_add 128 (st_lifetime_revenue st) price\<rparr>)) (s\<lparr>balances := c1\<rparr>))
       \<lparr>StorageAgreements := fmupd (b, who)
          (a\<lparr>ag_role := Replica (sb - price) price iv
               (Some \<lparr>rs_commitment = mr_commitment m, rs_block = anchor s\<rparr>)\<rparr>) (StorageAgreements s)\<rparr>)"
    by - (elim exE conjE, rule that; assumption)
  obtain i where i: "fmlookup (Providers s) who = Some i" by (rule agreement_provider [OF I a])
  from settle_payment_holds [OF P(1) c1] have h: "money_ok E c1" "price \<le> holds E (balances s) AgreementPayment (ag_owner a)"
    "holds E c1 = sub_hold AgreementPayment (ag_owner a) price (holds E (balances s))" by auto
  define i' where "i' = mutate_stats (\<lambda>st.
    st\<lparr>st_lifetime_revenue := saturating_add 128 (st_lifetime_revenue st) price\<rparr>) i"
  have "pi_committed_bytes i < 2 ^ 64" using inv_committedD(2) [OF P(2) i] .
  then show ?thesis
    by (intro change_inv [OF I a i, of i' 0])
      (use h le role i in \<open>auto simp: s' mutate_provider_def full_escrow_def i'_def\<close>)
qed

lemma top_up_replica_sync_balance_inv:
  assumes I: "inv E s" and res: "top_up_replica_sync_balance E origin b p amount s = Inr s'"
  shows "inv E s'"
proof -
  note P = invD [OF I]
  from res obtain who a c1 where a: "fmlookup (StorageAgreements s) (b, p) = Some a"
    and c1: "hold_payment_from E who (ag_owner a) amount (balances s) = Inr c1"
    by (auto simp: top_up_replica_sync_balance_def result_simps)
  with res obtain sb price iv synced where role: "ag_role a = Replica sb price iv synced"
    by (cases "ag_role a") (auto simp: top_up_replica_sync_balance_def result_simps)
  obtain c2 who2 where c2: "hold_payment_from E who2 (ag_owner a) amount (balances s) = Inr c2"
    and s': "s' = deposit_event (ReplicaSyncBalanceToppedUp b p amount (sb + amount))
      (s\<lparr>StorageAgreements := fmupd (b, p) (a\<lparr>ag_role := Replica (sb + amount) price iv synced\<rparr>) (StorageAgreements s),
         balances := c2\<rparr>)"
    using res a role by (auto simp: top_up_replica_sync_balance_def result_simps)
  obtain i where i: "fmlookup (Providers s) p = Some i" by (rule agreement_provider [OF I a])
  have same: "fmupd p i (Providers s) = Providers s" using i by (intro fmap_ext) auto
  from hold_payment_from_holds [OF P(1) c2] have h: "money_ok E c2"
    "holds E c2 = add_hold AgreementPayment (ag_owner a) amount (holds E (balances s))" by auto
  have "pi_committed_bytes i < 2 ^ 64" using inv_committedD(2) [OF P(2) i] .
  then show ?thesis
    by (intro change_inv [OF I a i, of i 0])
      (use h role in \<open>auto simp: s' same full_escrow_def\<close>)
qed

end

end
