(* ===== verification/Dispatch.thy ===== *)
theory Dispatch
  imports Replicas
begin

text \<open>
  The pallet as a state machine: the calls of \<open>lib.rs\<close> as one datatype with their
  dispatch, the genesis build, and the step relation of a chain running the pallet. A step
  is a successful call, a rejected call (which changes nothing), the anchor block moving
  forward, the reaping of an account, or activity of other pallets that leaves this pallet's
  holds alone. \<open>within_limits\<close> states the three counter ranges that the code does
  not check itself.
\<close>

section \<open>Calls\<close>

datatype (plugins only: code) Call =
    RegisterProvider "byte list" "byte list" nat
  | AddStake nat
  | DeregisterProvider
  | CompleteDeregister
  | CancelDeregister
  | UpdateProviderSettings ProviderSettings
  | UpdateProviderMultiaddr "byte list"
  | SetExtensionsBlocked BucketId bool
  | CreateBucket nat Visibility
  | DeleteBucket BucketId
  | CreateBucketWithPrimary account AgreementTerms MultiSignature Visibility
  | AddPrimaryProvider BucketId account AgreementTerms MultiSignature
  | SetMinProviders BucketId nat
  | FreezeBucket BucketId
  | SetBucketVisibility BucketId Visibility
  | SetMember BucketId account Role
  | RemoveMember BucketId account
  | RemoveSlashed BucketId account
  | AddReplicaProvider BucketId account AgreementTerms MultiSignature
  | EndAgreement BucketId account EndAction
  | ClaimExpiredAgreement BucketId
  | TopUpAgreement BucketId account nat nat
  | TransferAgreementOwnership BucketId account account
  | ExtendAgreement BucketId account nat nat
  | Checkpoint BucketId Commitment "(account \<times> MultiSignature) list"
  | ExtendCheckpoint BucketId "(account \<times> MultiSignature) list"
  | ChallengeCheckpoint BucketId account ChunkLocation
  | ChallengeOffchain BucketId account Commitment ChunkLocation MultiSignature
  | ChallengeReplica BucketId account ChunkLocation
  | RespondToChallenge ChallengeId ChallengeResponse
  | ResolveExpiredChallenge ChallengeId
  | ConfirmReplicaSync BucketId "H256 option list" MultiSignature
  | TopUpReplicaSyncBalance BucketId account nat

fun dispatch :: "('c, 'm) env \<Rightarrow> RuntimeOrigin \<Rightarrow> Call \<Rightarrow> 'c pstate \<Rightarrow> Error + 'c pstate" where
  "dispatch E o' (RegisterProvider ma pk stake) = register_provider E o' ma pk stake"
| "dispatch E o' (AddStake n) = add_stake E o' n"
| "dispatch E o' DeregisterProvider = deregister_provider E o'"
| "dispatch E o' CompleteDeregister = complete_deregister E o'"
| "dispatch E o' CancelDeregister = cancel_deregister E o'"
| "dispatch E o' (UpdateProviderSettings st) = update_provider_settings E o' st"
| "dispatch E o' (UpdateProviderMultiaddr ma) = update_provider_multiaddr E o' ma"
| "dispatch E o' (SetExtensionsBlocked b v) = set_extensions_blocked E o' b v"
| "dispatch E o' (CreateBucket n v) = create_bucket E o' n v"
| "dispatch E o' (DeleteBucket b) = delete_bucket E o' b"
| "dispatch E o' (CreateBucketWithPrimary p t sig v) = create_bucket_with_primary E o' p t sig v"
| "dispatch E o' (AddPrimaryProvider b p t sig) = add_primary_provider E o' b p t sig"
| "dispatch E o' (SetMinProviders b n) = set_min_providers E o' b n"
| "dispatch E o' (FreezeBucket b) = freeze_bucket E o' b"
| "dispatch E o' (SetBucketVisibility b v) = set_bucket_visibility E o' b v"
| "dispatch E o' (SetMember b w r) = set_member E o' b w r"
| "dispatch E o' (RemoveMember b w) = remove_member E o' b w"
| "dispatch E o' (RemoveSlashed b p) = remove_slashed E o' b p"
| "dispatch E o' (AddReplicaProvider b p t sig) = add_replica_provider E o' b p t sig"
| "dispatch E o' (EndAgreement b p a) = end_agreement E o' b p a"
| "dispatch E o' (ClaimExpiredAgreement b) = claim_expired_agreement E o' b"
| "dispatch E o' (TopUpAgreement b p n m) = top_up_agreement E o' b p n m"
| "dispatch E o' (TransferAgreementOwnership b p w) = transfer_agreement_ownership E o' b p w"
| "dispatch E o' (ExtendAgreement b p d m) = extend_agreement E o' b p d m"
| "dispatch E o' (Checkpoint b c sigs) = checkpoint E o' b c sigs"
| "dispatch E o' (ExtendCheckpoint b sigs) = extend_checkpoint E o' b sigs"
| "dispatch E o' (ChallengeCheckpoint b p t) = challenge_checkpoint E o' b p t"
| "dispatch E o' (ChallengeOffchain b p c t sig) = challenge_offchain E o' b p c t sig"
| "dispatch E o' (ChallengeReplica b p t) = challenge_replica E o' b p t"
| "dispatch E o' (RespondToChallenge cid r) = respond_to_challenge E o' cid r"
| "dispatch E o' (ResolveExpiredChallenge cid) = resolve_expired_challenge E o' cid"
| "dispatch E o' (ConfirmReplicaSync b rs sig) = confirm_replica_sync E o' b rs sig"
| "dispatch E o' (TopUpReplicaSyncBalance b p n) = top_up_replica_sync_balance E o' b p n"

fun within_limits :: "Call \<Rightarrow> 'c pstate \<Rightarrow> bool" where
  "within_limits (CreateBucket _ _) s \<longleftrightarrow> NextBucketId s + 1 < 2 ^ 64"
| "within_limits (CreateBucketWithPrimary _ _ _ _) s \<longleftrightarrow> NextBucketId s + 1 < 2 ^ 64"
| "within_limits (TopUpAgreement _ p n _) s \<longleftrightarrow>
     (case fmlookup (Providers s) p of None \<Rightarrow> True | Some i \<Rightarrow> pi_committed_bytes i + n < 2 ^ 64)"
| "within_limits (ChallengeCheckpoint _ _ _) s \<longleftrightarrow> total_challenges (Challenges s) + 1 < 2 ^ 32"
| "within_limits (ChallengeOffchain _ _ _ _ _) s \<longleftrightarrow> total_challenges (Challenges s) + 1 < 2 ^ 32"
| "within_limits (ChallengeReplica _ _ _) s \<longleftrightarrow> total_challenges (Challenges s) + 1 < 2 ^ 32"
| "within_limits _ s \<longleftrightarrow> True"

section \<open>Genesis\<close>

record GenesisProvider =
  gp_account :: account
  gp_multiaddr :: "byte list"
  gp_public_key :: "byte list"
  gp_stake :: nat
  gp_settings :: ProviderSettings

record GenesisConfig =
  gc_buckets :: "(account \<times> nat) list"
  gc_providers :: "GenesisProvider list"

text \<open>\<open>None\<close> is a failed \<open>expect\<close>: the chain does not start.\<close>

fun genesis_providers :: "('c, 'm) env \<Rightarrow> GenesisProvider list \<Rightarrow> 'c pstate \<Rightarrow> 'c pstate option" where
  "genesis_providers E [] s = Some s"
| "genesis_providers E (p # ps) s =
     (if length (gp_multiaddr p) \<le> MaxMultiaddrLength (Cfg E) \<and> length (gp_public_key p) \<le> 64
      then (case register_provider_internal E (gp_account p) (gp_multiaddr p) (gp_public_key p)
                   (gp_stake p) (gp_settings p) s of
              Inl _ \<Rightarrow> None
            | Inr s' \<Rightarrow> genesis_providers E ps s')
      else None)"

fun genesis_buckets :: "('c, 'm) env \<Rightarrow> (account \<times> nat) list \<Rightarrow> 'c pstate \<Rightarrow> 'c pstate option" where
  "genesis_buckets E [] s = Some s"
| "genesis_buckets E ((adm, min_providers) # bs) s =
     (case create_bucket_internal E adm min_providers None Private s of
        Inl _ \<Rightarrow> None
      | Inr (_, s') \<Rightarrow> genesis_buckets E bs s')"

definition empty_state :: "'c \<Rightarrow> nat \<Rightarrow> 'c pstate" where
  "empty_state c now = \<lparr>Providers = fmempty, AgreementNonces = fmempty, NextBucketId = 0, Buckets = fmempty,
     StorageAgreements = fmempty, Challenges = fmempty, NextChallengeIndex = fmempty,
     PendingChallenges = fmempty, PendingChallengesByBucket = fmempty, MemberBuckets = fmempty,
     events = [], balances = c, anchor = now\<rparr>"

definition genesis_build :: "('c, 'm) env \<Rightarrow> GenesisConfig \<Rightarrow> 'c pstate \<Rightarrow> 'c pstate option" where
  "genesis_build E g s =
     (case genesis_providers E (gc_providers g) s of
        None \<Rightarrow> None
      | Some s' \<Rightarrow> genesis_buckets E (gc_buckets g) s')"

section \<open>Steps and reachable states\<close>

inductive step :: "('c, 'm) env \<Rightarrow> 'c pstate \<Rightarrow> 'c pstate \<Rightarrow> bool" for E where
  call: "dispatch E origin c s = Inr s' \<Longrightarrow> within_limits c s \<Longrightarrow> step E s s'"
| rejected: "dispatch E origin c s = Inl e \<Longrightarrow> step E s s"
| advance: "anchor s \<le> now \<Longrightarrow> now < 2 ^ 32 \<Longrightarrow> step E s (s\<lparr>anchor := now\<rparr>)"
| reaped: "step E s (on_killed_account who s)"
| outside: "money_ok E c \<Longrightarrow> holds E c = holds E (balances s) \<Longrightarrow> step E s (s\<lparr>balances := c\<rparr>)"

inductive reachable :: "('c, 'm) env \<Rightarrow> 'c pstate \<Rightarrow> bool" for E where
  genesis: "genesis_build E g (empty_state c now) = Some s \<Longrightarrow> money_ok E c \<Longrightarrow> (\<And>r w. holds E c r w = 0) \<Longrightarrow>
    now < 2 ^ 32 \<Longrightarrow> length (gc_buckets g) < 2 ^ 64 \<Longrightarrow> reachable E s"
| step: "reachable E s \<Longrightarrow> step E s s' \<Longrightarrow> reachable E s'"

inductive_cases stepE: "step E s s'"

section \<open>The invariant holds in every reachable state\<close>

lemma inv_advance:
  assumes "inv E s" "anchor s \<le> now" "now < 2 ^ 32"
  shows "inv E (s\<lparr>anchor := now\<rparr>)"
proof -
  have "inv_index E (Challenges s) (NextChallengeIndex s) now"
    using inv_indexD(2,3) [OF invD(11) [OF assms(1)]] assms(2,3)
    unfolding inv_index_def challenge_ok_def by (metis le_trans less_le_trans)
  then show ?thesis using invD [OF assms(1)] by (simp add: inv_def)
qed

context pallet_env
begin

lemma inv_empty:
  assumes "money_ok E c" "\<And>r w. holds E c r w = 0" "now < 2 ^ 32"
  shows "inv E (empty_state c now)"
  using assms
  by (simp add: inv_def empty_state_def inv_committed_def inv_buckets_def inv_members_def inv_stake_def
      inv_escrow_def inv_deposits_def inv_tickets_def inv_pending_def inv_obligation_def inv_index_def
      totals_defs stake_of_def provider_ticket_def is_member_of_def)

lemma genesis_providers_inv:
  "inv E s \<Longrightarrow> genesis_providers E ps s = Some s' \<Longrightarrow> inv E s' \<and> NextBucketId s' = NextBucketId s"
proof (induction ps arbitrary: s)
  case (Cons p ps)
  then obtain s1 where s1: "register_provider_internal E (gp_account p) (gp_multiaddr p) (gp_public_key p)
      (gp_stake p) (gp_settings p) s = Inr s1" "genesis_providers E ps s1 = Some s'"
    by (auto split: if_splits sum.splits)
  have "NextBucketId s1 = NextBucketId s"
    using s1(1) by (auto simp: register_provider_internal_def result_simps Let_def)
  with Cons.IH [OF register_provider_internal_inv [OF Cons.prems(1) s1(1)] s1(2)] show ?case by simp
qed simp

lemma genesis_buckets_inv:
  "inv E s \<Longrightarrow> NextBucketId s + length bs < 2 ^ 64 \<Longrightarrow> genesis_buckets E bs s = Some s' \<Longrightarrow> inv E s'"
proof (induction bs arbitrary: s)
  case (Cons x bs)
  obtain adm n where x: "x = (adm, n)" by (cases x)
  with Cons.prems obtain b s1 where s1: "create_bucket_internal E adm n None Private s = Inr (b, s1)"
    "genesis_buckets E bs s1 = Some s'"
    by (auto split: sum.splits)
  have "create_bucket E (Signed adm) n Private s = Inr s1"
    using s1(1) by (simp add: create_bucket_def)
  then have "inv E s1" by (rule create_bucket_inv [OF Cons.prems(1), rotated]) (use Cons.prems(2) in simp)
  moreover have "NextBucketId s1 = saturating_add 64 (NextBucketId s) 1"
    using s1(1) by (auto simp: create_bucket_internal_def result_simps Let_def)
  then have "NextBucketId s1 + length bs < 2 ^ 64" using Cons.prems(2) by (simp add: saturating_add_def)
  ultimately show ?case using Cons.IH s1(2) by blast
qed simp

lemma genesis_build_inv:
  assumes "inv E s" "NextBucketId s + length (gc_buckets g) < 2 ^ 64" "genesis_build E g s = Some s'"
  shows "inv E s'"
proof -
  from assms(3) obtain s1 where "genesis_providers E (gc_providers g) s = Some s1"
    "genesis_buckets E (gc_buckets g) s1 = Some s'" by (auto simp: genesis_build_def split: option.splits)
  note s1 = this
  from genesis_providers_inv [OF assms(1) s1(1)] have "inv E s1" "NextBucketId s1 = NextBucketId s" by auto
  with assms(2) show ?thesis by (intro genesis_buckets_inv [OF _ _ s1(2)]) simp_all
qed

lemmas free_call_inv = register_provider_inv add_stake_inv deregister_provider_inv complete_deregister_inv
  cancel_deregister_inv update_provider_settings_inv update_provider_multiaddr_inv set_extensions_blocked_inv
  delete_bucket_inv add_primary_provider_inv set_min_providers_inv freeze_bucket_inv set_bucket_visibility_inv
  set_member_inv remove_member_inv remove_slashed_inv add_replica_provider_inv end_agreement_inv
  claim_expired_agreement_inv transfer_agreement_ownership_inv extend_agreement_inv checkpoint_inv
  extend_checkpoint_inv respond_to_challenge_inv resolve_expired_challenge_inv confirm_replica_sync_inv
  top_up_replica_sync_balance_inv

lemmas limited_call_inv = create_bucket_inv create_bucket_with_primary_inv

lemmas challenge_call_inv = challenge_checkpoint_inv challenge_offchain_inv challenge_replica_inv

lemma dispatch_inv:
  assumes I: "inv E s" and cfg: "MaxChallengesPerDeadline (Cfg E) < 2 ^ 16"
    and lim: "within_limits c s" and res: "dispatch E origin c s = Inr s'"
  shows "inv E s'"
proof (cases c)
  case (TopUpAgreement b p n m)
  with lim have "\<And>i. fmlookup (Providers s) p = Some i \<Longrightarrow> pi_committed_bytes i + n < 2 ^ 64" by simp
  with res TopUpAgreement show ?thesis by (intro top_up_agreement_inv [OF I, of p n origin b m]) simp_all
qed (insert res lim, simp_all only: dispatch.simps within_limits.simps,
    (erule free_call_inv [OF I] | erule (1) limited_call_inv [OF I] | erule (1) challenge_call_inv [OF I cfg])+)

lemma step_inv:
  assumes "inv E s" "MaxChallengesPerDeadline (Cfg E) < 2 ^ 16" "step E s s'"
  shows "inv E s'"
  using assms(3)
proof (cases rule: step.cases)
  case (call origin c)
  then show ?thesis using dispatch_inv [OF assms(1,2)] by blast
next
  case (advance now)
  then show ?thesis using inv_advance [OF assms(1)] by blast
next
  case (reaped who)
  then show ?thesis using assms(1) by (simp add: on_killed_account_def)
next
  case (outside c)
  then show ?thesis using invD [OF assms(1)] inv_money_cong [of E c "balances s"] by (simp add: inv_def)
qed (use assms(1) in auto)

lemma reachable_inv:
  assumes "MaxChallengesPerDeadline (Cfg E) < 2 ^ 16" "reachable E s"
  shows "inv E s"
  using assms(2)
proof (induction rule: reachable.induct)
  case (genesis g c now s)
  have "inv E (empty_state c now)" by (rule inv_empty [OF genesis(2-4)])
  then show ?case by (rule genesis_build_inv [OF _ _ genesis(1)]) (use genesis(5) in \<open>simp add: empty_state_def\<close>)
next
  case (step s s')
  then show ?case using step_inv assms(1) by blast
qed

end

end
