(* ===== verification/Try_State.thy ===== *)
theory Try_State
  imports Dispatch
begin

text \<open>
  The pallet's own consistency checks (\<open>impls/try_state.rs\<close>). Iteration order over
  storage maps does not influence which inputs pass, so a loop that returns at its first
  violation is a check over all entries, and a sum accumulated with saturating additions is
  the saturated sum. \<open>accounts\<close> are the keys of \<open>frame_system::Account\<close>.
\<close>

section \<open>Checks\<close>

definition check_timing_config :: "('c, 'm) env \<Rightarrow> string + unit" where
  "check_timing_config E =
     ensure (ChallengeTimeout (Cfg E) < DeregisterAnnouncementPeriod (Cfg E))
       ''DeregisterAnnouncementPeriod must be > ChallengeTimeout (challenge maturity)'' (Inr ())"

definition check_committed_bytes :: "'c pstate \<Rightarrow> string + unit" where
  "check_committed_bytes s =
     ensure (fmpred (\<lambda>k _. committed (StorageAgreements s) (snd k) < 2 ^ 64) (StorageAgreements s))
       ''committed_bytes sum overflows u64''
     (ensure (fmpred (\<lambda>k _. fmhas (Providers s) (snd k)) (StorageAgreements s))
       ''storage agreement exists for an unregistered provider''
     (ensure (fmpred (\<lambda>k _. case fmlookup (Providers s) (snd k) of
                 None \<Rightarrow> False
               | Some info \<Rightarrow> pi_committed_bytes info = committed (StorageAgreements s) (snd k)) (StorageAgreements s))
       ''provider committed_bytes != sum of agreement max_bytes''
     (ensure (fmpred (\<lambda>p info. fmany (\<lambda>k _. snd k = p) (StorageAgreements s) \<or> pi_committed_bytes info = 0) (Providers s))
       ''registered provider has committed_bytes but no agreements'' (Inr ()))))"

definition check_buckets_and_membership :: "'c pstate \<Rightarrow> string + unit" where
  "check_buckets_and_membership s =
     ensure (fmpred (\<lambda>_ buckets. distinct buckets) (MemberBuckets s))
       ''duplicate bucket id in MemberBuckets entry''
     (ensure (fmpred (\<lambda>_ bucket. distinct (b_primary_providers bucket)) (Buckets s))
       ''duplicate entry in bucket primary_providers''
     (ensure (fmpred (\<lambda>b bucket.
                list_all (\<lambda>p. case fmlookup (StorageAgreements s) (b, p) of
                    None \<Rightarrow> False | Some a \<Rightarrow> ag_role a = Primary) (b_primary_providers bucket) \<and>
                fmpred (\<lambda>k a. fst k = b \<and> ag_role a = Primary \<longrightarrow> snd k \<in> set (b_primary_providers bucket))
                  (StorageAgreements s)) (Buckets s))
       ''primary_providers does not match Primary-role agreements for bucket''
     (ensure (fmpred (\<lambda>_ bucket. case b_snapshot bucket of
                None \<Rightarrow> True
              | Some snapshot \<Rightarrow> length (primary_signers snapshot) = length (b_primary_providers bucket)) (Buckets s))
       ''snapshot primary_signers length does not match primary_providers''
     (ensure (fmpred (\<lambda>b bucket. list_all (\<lambda>m. case fmlookup (MemberBuckets s) (m_account m) of
                None \<Rightarrow> False | Some buckets \<Rightarrow> b \<in> set buckets) (b_members bucket)) (Buckets s))
       ''bucket member missing from MemberBuckets reverse index''
     (ensure (fmpred (\<lambda>_ buckets. list_all (\<lambda>b. fmhas (Buckets s) b) buckets) (MemberBuckets s))
       ''MemberBuckets references a non-existent bucket''
     (ensure (fmpred (\<lambda>w buckets. list_all (\<lambda>b. case fmlookup (Buckets s) b of
                None \<Rightarrow> False
              | Some bucket \<Rightarrow> list_ex (\<lambda>m. m_account m = w) (b_members bucket)) buckets) (MemberBuckets s))
       ''MemberBuckets entry is not an actual member of the bucket'' (Inr ())))))))"

definition saturated :: "nat \<Rightarrow> nat" where
  "saturated n = min n (2 ^ 128 - 1)"

definition check_holds_back_bookkeeping :: "('c, 'm) env \<Rightarrow> 'c pstate \<Rightarrow> string + unit" where
  "check_holds_back_bookkeeping E s =
     ensure (fmpred (\<lambda>p info. holds E (balances s) ProviderStake p = pi_stake info) (Providers s))
       ''ProviderStake hold does not match the recorded provider stake''
     (ensure (fmpred (\<lambda>_ a. holds E (balances s) AgreementPayment (ag_owner a) =
                saturated (fmsum (\<lambda>_ a'. if ag_owner a' = ag_owner a then escrow a' else 0) (StorageAgreements s)))
              (StorageAgreements s))
       ''AgreementPayment hold does not match the recorded agreement escrow''
     (ensure (fmpred (\<lambda>_ c. holds E (balances s) ChallengeDeposit (ch_challenger c) =
                saturated (challenge_deposits (Challenges s) (ch_challenger c))) (Challenges s))
       ''ChallengeDeposit hold does not match the recorded challenge deposits'' (Inr ())))"

definition check_storage_deposits :: "('c, 'm) env \<Rightarrow> account list \<Rightarrow> 'c pstate \<Rightarrow> string + unit" where
  "check_storage_deposits E accounts s =
     ensure (list_all (\<lambda>w. holds E (balances s) StorageDeposit w =
              saturated (provider_ticket (Providers s) w + bucket_tickets (Buckets s) w +
                agreement_tickets (StorageAgreements s) w)) accounts)
       ''StorageDeposit hold does not equal the sum of the tickets of the account'' (Inr ())"

definition check_no_empty_index_entries :: "'c pstate \<Rightarrow> string + unit" where
  "check_no_empty_index_entries s =
     ensure (fmpred (\<lambda>_ count. 0 < count) (PendingChallenges s)) ''PendingChallenges entry with a zero count''
     (ensure (fmpred (\<lambda>_ count. 0 < count) (PendingChallengesByBucket s))
       ''PendingChallengesByBucket entry with a zero count''
     (ensure (fmpred (\<lambda>_ buckets. buckets \<noteq> []) (MemberBuckets s)) ''MemberBuckets entry with no buckets'' (Inr ())))"

definition check_agreement_nonce_owners_exist :: "account list \<Rightarrow> 'c pstate \<Rightarrow> string + unit" where
  "check_agreement_nonce_owners_exist accounts s =
     ensure (fmpred (\<lambda>owner _. owner \<in> set accounts) (AgreementNonces s))
       ''AgreementNonces entry exists for an account that does not exist'' (Inr ())"

definition do_try_state :: "('c, 'm) env \<Rightarrow> account list \<Rightarrow> 'c pstate \<Rightarrow> string + unit" where
  "do_try_state E accounts s =
     attempt (check_timing_config E) (\<lambda>_.
     attempt (check_committed_bytes s) (\<lambda>_.
     attempt (check_buckets_and_membership s) (\<lambda>_.
     attempt (check_holds_back_bookkeeping E s) (\<lambda>_.
     attempt (check_storage_deposits E accounts s) (\<lambda>_.
     attempt (check_no_empty_index_entries s) (\<lambda>_.
     check_agreement_nonce_owners_exist accounts s))))))"

section \<open>The invariant implies every check\<close>

lemma check_committed_bytes_ok:
  assumes "inv E s"
  shows "check_committed_bytes s = Inr ()"
proof -
  note D = inv_committedD [OF invD(2) [OF assms]]
  have 1: "fmlookup (StorageAgreements s) (b, p) = Some a \<Longrightarrow>
      \<exists>i. fmlookup (Providers s) p = Some i \<and> pi_committed_bytes i = committed (StorageAgreements s) p \<and>
        committed (StorageAgreements s) p < 2 ^ 64" for b p a
    using D(1,2,3) by metis
  have 2: "pi_committed_bytes i = 0" if "fmlookup (Providers s) p = Some i"
    "\<not> fmany (\<lambda>k _. snd k = p) (StorageAgreements s)" for p i
    using D(1) [OF that(1)] that(2) by (auto simp: committed_def fmsum_eq_0_iff fmany_iff)
  show ?thesis using 1 2
    by (auto simp: check_committed_bytes_def result_simps fmpred_iff fmhas_def split: option.split) fastforce+
qed

lemma check_buckets_and_membership_ok:
  assumes "inv E s"
  shows "check_buckets_and_membership s = Inr ()"
proof -
  note B = inv_bucketsD [OF invD(3) [OF assms]] and M = inv_membersD [OF invD(4) [OF assms]]
  have mem: "b \<in> set l \<longleftrightarrow> is_member_of (Buckets s) w b" if "fmlookup (MemberBuckets s) w = Some l" for w l b
    using M(2) [of b w] that by (simp add: fmget_def)
  have fwd: "\<exists>l. fmlookup (MemberBuckets s) (m_account m) = Some l \<and> b \<in> set l"
    if "fmlookup (Buckets s) b = Some C" "m \<in> set (b_members C)" for b C m
  proof -
    have "b \<in> set (fmget [] (MemberBuckets s) (m_account m))" using M(2) that by (auto simp: is_member_of_def)
    then show ?thesis by (cases "fmlookup (MemberBuckets s) (m_account m)") (auto simp: fmget_def)
  qed
  have prim: "\<exists>a. fmlookup (StorageAgreements s) (b, p) = Some a \<and> ag_role a = Primary"
    if "fmlookup (Buckets s) b = Some C" "p \<in> set (b_primary_providers C)" for b C p
    using B(3) [OF that(1)] that(2) by (auto simp: primary_agreements_def)
  show ?thesis
    unfolding check_buckets_and_membership_def result_simps fmpred_iff list_all_iff list_ex_iff fmhas_def
  proof (intro conjI allI impI ballI refl)
    fix k l assume "fmlookup (MemberBuckets s) k = Some l"
    then show "distinct l" using M(1) by blast
  next
    fix k C assume "fmlookup (Buckets s) k = Some C"
    then show "distinct (b_primary_providers C)" using B(2) by (auto simp: bucket_ok_def)
  next
    fix k C p assume "fmlookup (Buckets s) k = Some C" "p \<in> set (b_primary_providers C)"
    from prim [OF this] show "case fmlookup (StorageAgreements s) (k, p) of None \<Rightarrow> False | Some a \<Rightarrow> ag_role a = Primary"
      by auto
  next
    fix k C kk a assume "fmlookup (Buckets s) k = Some C" "fmlookup (StorageAgreements s) kk = Some a"
      "fst kk = k \<and> ag_role a = Primary"
    then show "snd kk \<in> set (b_primary_providers C)" using B(3) by (cases kk) (auto simp: primary_agreements_def)
  next
    fix k C assume "fmlookup (Buckets s) k = Some C"
    then show "case b_snapshot C of None \<Rightarrow> True
      | Some snapshot \<Rightarrow> length (primary_signers snapshot) = length (b_primary_providers C)"
      using B(2) by (auto simp: bucket_ok_def split: option.split)
  next
    fix k C m assume "fmlookup (Buckets s) k = Some C" "m \<in> set (b_members C)"
    from fwd [OF this] show "case fmlookup (MemberBuckets s) (m_account m) of None \<Rightarrow> False | Some l \<Rightarrow> k \<in> set l" by auto
  next
    fix w l b assume "fmlookup (MemberBuckets s) w = Some l" "b \<in> set l"
    then show "fmlookup (Buckets s) b \<noteq> None" using mem by (auto simp: is_member_of_def)
  next
    fix w l b assume "fmlookup (MemberBuckets s) w = Some l" "b \<in> set l"
    then show "case fmlookup (Buckets s) b of None \<Rightarrow> False | Some C \<Rightarrow> \<exists>m\<in>set (b_members C). m_account m = w"
      using mem by (auto simp: is_member_of_def)
  qed
qed

context pallet_env
begin

lemma saturated_holds: "money_ok E c \<Longrightarrow> holds E c r w = n \<Longrightarrow> saturated n = n"
  using holds_bound [of c r w] by (simp add: saturated_def)

lemma check_holds_back_bookkeeping_ok:
  assumes I: "inv E s"
  shows "check_holds_back_bookkeeping E s = Inr ()"
proof -
  note P = invD [OF I]
  have "fmsum (\<lambda>_ a'. if ag_owner a' = w then escrow a' else 0) (StorageAgreements s) = escrowed (StorageAgreements s) w" for w
    unfolding escrowed_def by (rule fmsum_cong) (simp add: escrow_full(1) [OF I])
  moreover have "saturated (escrowed (StorageAgreements s) w) = escrowed (StorageAgreements s) w"
    "saturated (challenge_deposits (Challenges s) w) = challenge_deposits (Challenges s) w" for w
    using P(6,7) saturated_holds [OF P(1), of AgreementPayment w] saturated_holds [OF P(1), of ChallengeDeposit w]
    by (simp_all add: inv_escrow_def inv_deposits_def)
  ultimately show ?thesis using P(5,6,7)
    by (auto simp: check_holds_back_bookkeeping_def result_simps fmpred_iff inv_stake_def inv_escrow_def
        inv_deposits_def provider_values)
qed

lemma check_storage_deposits_ok:
  assumes I: "inv E s"
  shows "check_storage_deposits E accounts s = Inr ()"
proof -
  note P = invD [OF I]
  have "saturated (provider_ticket (Providers s) w + bucket_tickets (Buckets s) w + agreement_tickets (StorageAgreements s) w) =
      holds E (balances s) StorageDeposit w" for w
    using P(8) saturated_holds [OF P(1), of StorageDeposit w] by (simp add: inv_tickets_def)
  then show ?thesis by (simp add: check_storage_deposits_def result_simps list_all_iff)
qed

lemma do_try_state_checks:
  assumes I: "inv E s" and timing: "ChallengeTimeout (Cfg E) < DeregisterAnnouncementPeriod (Cfg E)"
  shows "do_try_state E accounts s = check_agreement_nonce_owners_exist accounts s"
proof -
  have "check_no_empty_index_entries s = Inr ()"
    using invD(4,9) [OF I]
    by (auto simp: check_no_empty_index_entries_def result_simps fmpred_iff inv_pending_def inv_members_def)
  moreover have "check_timing_config E = Inr ()"
    using timing by (simp add: check_timing_config_def)
  ultimately show ?thesis
    unfolding do_try_state_def
    by (simp add: check_committed_bytes_ok [OF I] check_buckets_and_membership_ok [OF I]
        check_holds_back_bookkeeping_ok [OF I] check_storage_deposits_ok [OF I])
qed

end

end
