(* ===== verification/Scenario.thy ===== *)
theory Scenario
  imports Try_State
begin

text \<open>
  A concrete run of the pallet over the ledger of \<open>Currency\<close>: genesis with a primary
  provider (account 11) and a replica provider (14), a bucket of owner 12, a checkpoint, a
  challenge by 13 that is defended or expires, a replica that syncs, and the two runs in
  which a live agreement is topped up and extended. Every state is written out and every
  transition is evaluated, so the theorems can be applied at states that are reached.
\<close>

section \<open>The environment\<close>

definition demo_config :: config where
  "demo_config = \<lparr>Treasury = 99, MinStakePerByte = 2, MaxMultiaddrLength = 64, MaxMembers = 10,
     MaxPrimaryProviders = 5, MinProviderStake = 100, MaxChunkSize = 262144, ChallengeTimeout = 10,
     ChallengeDepositAmount = 100, SettlementTimeout = 50, RequestTimeout = 20, MaxBucketsPerMember = 10,
     DeregisterAnnouncementPeriod = 20, MaxChallengesPerDeadline = 100, AnchorBlockTimeMillis = 6000\<rparr>"

text \<open>
  A key is 32 copies of the account's number, a signature by an account is its number, and
  a hash is 32 copies of the length of the hashed string. The range library is one for
  ranges of a single leaf, whose root is the hash of that leaf.
\<close>

definition demo_crypto :: crypto where
  "demo_crypto = \<lparr>sr25519_public = (\<lambda>k. if length k = 32 then Some k else None),
     ed25519_public = (\<lambda>_. None), ecdsa_public = (\<lambda>_. None), keccak_public = (\<lambda>_. None),
     into_account = (\<lambda>s. case s of Signer_Sr25519 k \<Rightarrow> unat (k ! 0) | _ \<Rightarrow> 0),
     account_id32_new = (\<lambda>k. unat (k ! 0)), encode_account = (\<lambda>a. replicate 32 (word_of_nat a)),
     sig_verify = (\<lambda>sig msg acc. sig = Sr25519 [word_of_nat acc]),
     blake2_256 = (\<lambda>bs. H256_repeat_byte (word_of_nat (length bs)))\<rparr>"

definition demo_mmr :: "H256 mmr_lib" where
  "demo_mmr = \<lparr>leaf_index_to_mmr_size = (\<lambda>i. 1), leaf_index_to_pos = (\<lambda>i. 0), get_peaks = (\<lambda>n. [0]),
     pos_height_in_tree = (\<lambda>_. 0), merkle_proof_verify = (\<lambda>_ _ _ root leaves. Inr (snd (leaves ! 0) = root)),
     bagging_peaks_hashes = (\<lambda>_ ps. case ps of [] \<Rightarrow> Inl 0 | p # _ \<Rightarrow> Inr p), mmr_new = H256_zero,
     mmr_push = (\<lambda>_ _ h. Inr h), mmr_get_root = (\<lambda>_ h. Inr h), mmr_size = (\<lambda>_. 1),
     mmr_ancestor_peaks_and_root = (\<lambda>_ h _. Inr ([h], h)), mmr_gen_proof = (\<lambda>_ _ _. Inr [])\<rparr>"

definition demo_env :: "(ledger, H256) env" where
  "demo_env = ledger_environment demo_config
     \<lparr>mel_ProviderInfo = 10, mel_Member = 4, mel_StorageAgreement = 10, mel_AccountId = 4, mel_Ticket = 4\<rparr>
     \<lparr>existential_deposit = 2, deposit_base = 3, deposit_per_byte = 0\<rparr> demo_crypto demo_mmr"

definition demo_ledger :: ledger where
  "demo_ledger = \<lparr>l_free = fmupd 11 10000 (fmupd 12 10000 (fmupd 13 10000 (fmupd 14 10000 (fmupd 99 50 fmempty)))),
     l_held = fmempty\<rparr>"

definition demo_genesis :: GenesisConfig where
  "demo_genesis = \<lparr>gc_buckets = [],
     gc_providers = [
       \<lparr>gp_account = 11, gp_multiaddr = [], gp_public_key = replicate 32 11, gp_stake = 1000,
        gp_settings = ProviderSettings_default\<lparr>ps_price_per_byte := 3, ps_max_capacity := 20\<rparr>\<rparr>,
       \<lparr>gp_account = 14, gp_multiaddr = [], gp_public_key = replicate 32 14, gp_stake = 1000,
        gp_settings = ProviderSettings_default\<lparr>ps_replica_sync_price := Some 7\<rparr>\<rparr>]\<rparr>"

definition demo_terms :: AgreementTerms where
  "demo_terms = \<lparr>at_owner = 12, at_max_bytes = 10, at_duration = 30, at_price_per_byte = 3, at_valid_until = 10,
     at_nonce = 0, at_bucket = New, at_replica_params = None\<rparr>"

definition demo_replica_terms :: AgreementTerms where
  "demo_replica_terms = \<lparr>at_owner = 13, at_max_bytes = 10, at_duration = 30, at_price_per_byte = 3, at_valid_until = 10,
     at_nonce = 0, at_bucket = Existing 0,
     at_replica_params = Some \<lparr>rt_sync_balance = 50, rt_min_sync_interval = 4, rt_sync_price = 7\<rparr>\<rparr>"

definition demo_leaf :: MmrLeaf where
  "demo_leaf = \<lparr>leaf_version = 1, data_root = H256_repeat_byte 4, data_size = 3, total_size = 3\<rparr>"

definition demo_commitment :: Commitment where
  "demo_commitment = \<lparr>mmr_root = H256_repeat_byte 50, start_seq = 0, leaf_count = 1\<rparr>"

definition demo_target :: ChunkLocation where
  "demo_target = \<lparr>leaf_index = 0, chunk_index = 0\<rparr>"

section \<open>States\<close>

definition demo_stats :: ProviderStats where
  "demo_stats = ProviderStats_default\<lparr>st_registered_at := 5\<rparr>"

definition provider11 :: ProviderInfo where
  "provider11 = \<lparr>pi_multiaddr = [], pi_public_key = replicate 32 11, pi_stake = 1000, pi_committed_bytes = 0,
     pi_settings = ProviderSettings_default\<lparr>ps_price_per_byte := 3, ps_max_capacity := 20\<rparr>,
     pi_stats = demo_stats, pi_deregister_at = None, pi_deposit = 3\<rparr>"

definition provider14 :: ProviderInfo where
  "provider14 = \<lparr>pi_multiaddr = [], pi_public_key = replicate 32 14, pi_stake = 1000, pi_committed_bytes = 0,
     pi_settings = ProviderSettings_default\<lparr>ps_replica_sync_price := Some 7\<rparr>,
     pi_stats = demo_stats, pi_deregister_at = None, pi_deposit = 3\<rparr>"

definition launched :: "ledger pstate" where
  "launched = (empty_state demo_ledger 5)\<lparr>
     Providers := fmupd 14 provider14 (fmupd 11 provider11 fmempty),
     events := [ProviderRegistered 11 1000, ProviderRegistered 14 1000],
     balances := \<lparr>
       l_free = fmupd 14 8997 (fmupd 11 8997 (l_free demo_ledger)),
       l_held = fmupd (StorageDeposit, 14) 3 (fmupd (ProviderStake, 14) 1000
         (fmupd (StorageDeposit, 11) 3 (fmupd (ProviderStake, 11) 1000 fmempty)))\<rparr>\<rparr>"

definition bucket0 :: Bucket where
  "bucket0 = \<lparr>b_members = [\<lparr>m_account = 12, m_role = Admin, m_depositor = 12, m_deposit = 3\<rparr>],
     b_visibility = Public, b_frozen_start_seq = None, b_min_providers = 1, b_primary_providers = [11],
     b_snapshot = None, b_historical_roots = replicate 6 (0, Commitment_default), b_total_snapshots = 0,
     b_creator = 12, b_deposit = 3\<rparr>"

definition agreement11 :: StorageAgreement where
  "agreement11 = \<lparr>ag_owner = 12, ag_max_bytes = 10, ag_payment_locked = 900, ag_price_per_byte = 3,
     ag_expires_at = 35, ag_extensions_blocked = False, ag_role = Primary, ag_started_at = 5,
     ag_depositor = 12, ag_deposit = 3\<rparr>"

definition provider11_storing :: ProviderInfo where
  "provider11_storing = provider11\<lparr>pi_committed_bytes := 10,
     pi_stats := demo_stats\<lparr>st_agreements_total := 1, st_total_bytes_committed := 10\<rparr>\<rparr>"

definition stored :: "ledger pstate" where
  "stored = launched\<lparr>
     Providers := fmupd 11 provider11_storing (Providers launched),
     AgreementNonces := fmupd 12 1 fmempty, NextBucketId := 1, Buckets := fmupd 0 bucket0 fmempty,
     StorageAgreements := fmupd (0, 11) agreement11 fmempty, MemberBuckets := fmupd 12 [0] fmempty,
     events := events launched @ [BucketCreated 0 12, ProviderAddedToBucket 0 11,
       StorageAgreementEstablished 0 11 12 demo_terms 35],
     balances := \<lparr>
       l_free = fmupd 12 9091 (l_free (balances launched)),
       l_held = fmupd (StorageDeposit, 12) 9 (fmupd (AgreementPayment, 12) 900 (l_held (balances launched)))\<rparr>\<rparr>"

definition snapshot0 :: BucketSnapshot where
  "snapshot0 = \<lparr>bs_commitment = demo_commitment, checkpoint_block = 5, primary_signers = [True]\<rparr>"

definition bucket0_checkpointed :: Bucket where
  "bucket0_checkpointed = bucket0\<lparr>b_snapshot := Some snapshot0, b_total_snapshots := 1,
     b_historical_roots := (replicate 6 (0, Commitment_default))[0 := (1, demo_commitment)]\<rparr>"

definition checkpointed :: "ledger pstate" where
  "checkpointed = stored\<lparr>Buckets := fmupd 0 bucket0_checkpointed fmempty,
     events := events stored @ [BucketCheckpointed 0 demo_commitment [11]]\<rparr>"

definition challenge0 :: Challenge where
  "challenge0 = \<lparr>ch_bucket_id = 0, ch_provider = 11, ch_challenger = 13, ch_commitment = demo_commitment,
     ch_target = demo_target, ch_deposit = 100, ch_authorized = False, ch_created_at = 5\<rparr>"

definition challenge_id0 :: ChallengeId where
  "challenge_id0 = \<lparr>deadline = 15, index = 0\<rparr>"

definition challenged :: "ledger pstate" where
  "challenged = checkpointed\<lparr>Challenges := fmupd (15, 0) challenge0 fmempty,
     NextChallengeIndex := fmupd 15 1 fmempty, PendingChallenges := fmupd 11 1 fmempty,
     PendingChallengesByBucket := fmupd (0, 11) 1 fmempty,
     events := events checkpointed @ [ChallengeCreated challenge_id0 0 11 13 15],
     balances := \<lparr>
       l_free = fmupd 13 9900 (l_free (balances checkpointed)),
       l_held = fmupd (ChallengeDeposit, 13) 100 (l_held (balances checkpointed))\<rparr>\<rparr>"

definition defended :: "ledger pstate" where
  "defended = challenged\<lparr>Challenges := fmempty, PendingChallenges := fmempty,
     PendingChallengesByBucket := fmempty,
     Providers := fmupd 11 (provider11_storing\<lparr>pi_stats := (pi_stats provider11_storing)
       \<lparr>st_challenges_received_public := 1\<rparr>\<rparr>) (Providers challenged),
     events := events challenged @ [ChallengeDefended challenge_id0 11 0 100 0],
     balances := \<lparr>
       l_free = fmupd 13 9900 (fmupd 11 9097 (l_free (balances challenged))),
       l_held = fmupd (ChallengeDeposit, 13) 0 (l_held (balances challenged))\<rparr>\<rparr>"

definition slashed :: "ledger pstate" where
  "slashed = challenged\<lparr>Challenges := fmempty, NextChallengeIndex := fmempty, PendingChallenges := fmempty,
     PendingChallengesByBucket := fmempty, anchor := 16,
     Providers := fmupd 11 (provider11_storing\<lparr>pi_stake := 0, pi_stats := (pi_stats provider11_storing)
       \<lparr>st_challenges_failed := 1\<rparr>\<rparr>) (Providers challenged),
     events := events challenged @ [ChallengeSlashed challenge_id0 11 1000],
     balances := \<lparr>
       l_free = fmupd 13 10000 (fmupd 99 1050 (l_free (balances challenged))),
       l_held = fmupd (ChallengeDeposit, 13) 0 (fmupd (ProviderStake, 11) 0 (l_held (balances challenged)))\<rparr>\<rparr>"

definition agreement14 :: StorageAgreement where
  "agreement14 = \<lparr>ag_owner = 13, ag_max_bytes = 10, ag_payment_locked = 900, ag_price_per_byte = 3,
     ag_expires_at = 35, ag_extensions_blocked = False, ag_role = Replica 50 7 4 None, ag_started_at = 5,
     ag_depositor = 13, ag_deposit = 3\<rparr>"

definition replicated :: "ledger pstate" where
  "replicated = checkpointed\<lparr>
     Providers := fmupd 14 (provider14\<lparr>pi_committed_bytes := 10,
       pi_stats := demo_stats\<lparr>st_agreements_total := 1, st_total_bytes_committed := 10\<rparr>\<rparr>) (Providers checkpointed),
     AgreementNonces := fmupd 13 1 (AgreementNonces checkpointed),
     StorageAgreements := fmupd (0, 14) agreement14 (StorageAgreements checkpointed),
     events := events checkpointed @ [ReplicaAgreementEstablished 0 14 13 demo_replica_terms 35],
     balances := \<lparr>
       l_free = fmupd 13 9047 (l_free (balances checkpointed)),
       l_held = fmupd (StorageDeposit, 13) 3 (fmupd (AgreementPayment, 13) 950 (l_held (balances checkpointed)))\<rparr>\<rparr>"

definition synced :: "ledger pstate" where
  "synced = replicated\<lparr>
     Providers := fmupd 14 (provider14\<lparr>pi_committed_bytes := 10,
       pi_stats := demo_stats\<lparr>st_agreements_total := 1, st_total_bytes_committed := 10, st_lifetime_revenue := 7\<rparr>\<rparr>)
       (Providers replicated),
     StorageAgreements := fmupd (0, 14) (agreement14\<lparr>ag_role := Replica 43 7 4
       (Some \<lparr>rs_commitment = demo_commitment, rs_block = 5\<rparr>)\<rparr>) (StorageAgreements replicated),
     events := events replicated @ [ReplicaSynced 0 14 (H256_repeat_byte 50) 0 7],
     balances := \<lparr>
       l_free = fmupd 14 9004 (l_free (balances replicated)),
       l_held = fmupd (AgreementPayment, 13) 943 (l_held (balances replicated))\<rparr>\<rparr>"

definition frozen :: "ledger pstate" where
  "frozen = checkpointed\<lparr>
     Buckets := fmupd 0 (bucket0_checkpointed\<lparr>b_frozen_start_seq := Some 0\<rparr>) fmempty,
     events := events checkpointed @ [Event.BucketFrozen 0 0]\<rparr>"

text \<open>The same state with the challenge aimed at a chunk the leaf does not have.\<close>

definition misdirected_challenge :: Challenge where
  "misdirected_challenge = challenge0\<lparr>ch_target := \<lparr>leaf_index = 0, chunk_index = 1\<rparr>\<rparr>"

definition misdirected :: "ledger pstate" where
  "misdirected = challenged\<lparr>Challenges := fmupd (15, 0) misdirected_challenge fmempty\<rparr>"

definition next_commitment :: Commitment where
  "next_commitment = \<lparr>mmr_root = H256_repeat_byte 51, start_seq = 0, leaf_count = 2\<rparr>"

definition resnapshotted :: "ledger pstate" where
  "resnapshotted = challenged\<lparr>
     Buckets := fmupd 0 (bucket0_checkpointed\<lparr>b_snapshot := Some (snapshot0\<lparr>bs_commitment := next_commitment\<rparr>),
       b_total_snapshots := Suc 1\<rparr>) fmempty,
     events := events challenged @ [BucketCheckpointed 0 next_commitment [11]]\<rparr>"

definition superseded :: "ledger pstate" where
  "superseded = defended\<lparr>Buckets := Buckets resnapshotted,
     events := events resnapshotted @ [ChallengeDefended challenge_id0 11 0 100 0]\<rparr>"

definition relocated :: "ledger pstate" where
  "relocated = challenged\<lparr>
     Providers := fmupd 11 (provider11_storing\<lparr>pi_multiaddr := [7]\<rparr>) (Providers challenged),
     events := events challenged @ [ProviderMultiaddrUpdated 11 [7]]\<rparr>"

definition leaving :: "ledger pstate" where
  "leaving = launched\<lparr>
     Providers := fmupd 14 (provider14\<lparr>pi_deregister_at := Some 25, pi_settings := (pi_settings provider14)
       \<lparr>ps_accepting_primary := False, ps_accepting_extensions := False\<rparr>\<rparr>) (Providers launched),
     events := events launched @ [Event.DeregisterAnnounced 14 25]\<rparr>"

definition refrozen :: "ledger pstate" where
  "refrozen = frozen\<lparr>
     Buckets := fmupd 0 (bucket0_checkpointed\<lparr>b_frozen_start_seq := Some 0,
       b_snapshot := Some (snapshot0\<lparr>bs_commitment := next_commitment\<rparr>), b_total_snapshots := Suc 1\<rparr>) fmempty,
     events := events frozen @ [BucketCheckpointed 0 next_commitment [11]]\<rparr>"

definition widened :: "ledger pstate" where
  "widened = stored\<lparr>
     Buckets := fmupd 0 (bucket0\<lparr>b_members := b_members bucket0 @
       [\<lparr>m_account = 13, m_role = Writer, m_depositor = 12, m_deposit = 3\<rparr>]\<rparr>) fmempty,
     MemberBuckets := fmupd 13 [0] (MemberBuckets stored),
     events := events stored @ [MemberSet 0 13 Writer],
     balances := \<lparr>
       l_free = fmupd 12 9088 (l_free (balances stored)),
       l_held = fmupd (StorageDeposit, 12) 12 (l_held (balances stored))\<rparr>\<rparr>"

text \<open>The agreement ended early by the admin with half burned, claimed after the window, and removed after the slash.\<close>

definition ended :: "ledger pstate" where
  "ended = stored\<lparr>
     Providers := fmupd 11 (provider11_storing\<lparr>pi_committed_bytes := 0, pi_stats := (pi_stats provider11_storing)
       \<lparr>st_lifetime_revenue := 450, st_agreements_burned := 1\<rparr>\<rparr>) (Providers stored),
     StorageAgreements := fmempty, Buckets := fmupd 0 (bucket0\<lparr>b_primary_providers := []\<rparr>) fmempty,
     events := events stored @ [PrimaryProviderRemoved 0 11 AdminTerminated, AgreementEnded 0 11 450 450],
     balances := \<lparr>
       l_free = fmupd 12 9094 (fmupd 99 500 (fmupd 11 9447 (l_free (balances stored)))),
       l_held = fmupd (StorageDeposit, 12) 6 (fmupd (AgreementPayment, 12) 0 (l_held (balances stored)))\<rparr>\<rparr>"

definition claimed :: "ledger pstate" where
  "claimed = stored\<lparr>anchor := 86,
     Providers := fmupd 11 (provider11_storing\<lparr>pi_committed_bytes := 0, pi_stats := (pi_stats provider11_storing)
       \<lparr>st_lifetime_revenue := 900, st_agreements_not_extended := 1\<rparr>\<rparr>) (Providers stored),
     StorageAgreements := fmempty, Buckets := fmupd 0 (bucket0\<lparr>b_primary_providers := []\<rparr>) fmempty,
     events := events stored @ [PrimaryProviderRemoved 0 11 Expired, AgreementEnded 0 11 900 0],
     balances := \<lparr>
       l_free = fmupd 12 9094 (fmupd 11 9897 (l_free (balances stored))),
       l_held = fmupd (StorageDeposit, 12) 6 (fmupd (AgreementPayment, 12) 0 (l_held (balances stored)))\<rparr>\<rparr>"

definition rid :: "ledger pstate" where
  "rid = slashed\<lparr>
     Providers := fmupd 11 (provider11_storing\<lparr>pi_stake := 0, pi_committed_bytes := 0,
       pi_stats := (pi_stats provider11_storing)\<lparr>st_challenges_failed := 1\<rparr>\<rparr>) (Providers slashed),
     StorageAgreements := fmempty,
     Buckets := fmupd 0 (bucket0_checkpointed\<lparr>b_primary_providers := [],
       b_snapshot := Some (snapshot0\<lparr>primary_signers := []\<rparr>)\<rparr>) fmempty,
     events := events slashed @ [PrimaryProviderRemoved 0 11 Slashed, SlashedProviderRemoved 0 11 900],
     balances := \<lparr>
       l_free = fmupd 12 9994 (l_free (balances slashed)),
       l_held = fmupd (StorageDeposit, 12) 6 (fmupd (AgreementPayment, 12) 0 (l_held (balances slashed)))\<rparr>\<rparr>"

lemmas fund_defs = hold_stake_def release_stake_def release_exact_def hold_payment_def hold_payment_from_def
  release_payment_def settle_payment_def transfer_payment_on_hold_def hold_challenge_deposit_def
  release_challenge_deposit_def settle_challenge_deposit_def slash_stake_to_treasury_def ticket_new_def
  ticket_drop_def currency_result_def provider_footprint_def member_footprint_def agreement_footprint_def
  bucket_footprint_def

lemmas ledger_defs = ledger_environment_def ledger_currency_def l_hold_def l_release_def l_transfer_on_hold_def
  l_transfer_and_hold_def l_slash_def l_resolve_def l_ticket_new_def l_ticket_drop_def l_free_of_def l_held_of_def
  l_set_free_def l_set_held_def l_issuance_def fmdrop_fmupd

lemmas call_defs = provider_call_defs validate_settings_def ProviderSettings_default_def ProviderStats_default_def
  create_bucket_with_primary_def create_bucket_with_primary_internal_def accept_quote_def validate_terms_def
  quote_role_def verify_terms_signature_def expected_signer_account_def check_capacity_def validate_duration_def
  calculate_payment_def create_bucket_internal_def insert_primary_agreement_def insert_agreement_def
  add_replica_provider_def add_replica_provider_internal_def confirm_replica_sync_def find_matching_root_def
  verify_signature_def checkpoint_def update_historical_roots_def HISTORICAL_ROOT_PRIMES_def
  ensure_writer_or_admin_def ensure_admin_def count_ones_def challenge_checkpoint_def do_challenge_checkpoint_def
  create_challenge_def is_authorized_def is_authorized_for_private_def is_member_def respond_to_challenge_def
  check_response_def responder_is_primary_def plain_account_verifies_def contains_seq_def range_end_def
  verify_challenged_leaf_def chunk_count_def chunk_size_def verify_mmr_proof_def mmr_proof_len_def
  verify_merkle_proof_def hash_leaf_def encode_leaf_def challenger_percent_def resolve_expired_challenge_def
  ensure_signed_or_root_def slash_provider_for_failed_challenge_def decrement_pending_def mutate_exists_def
  decrement_or_delete_def freeze_bucket_def top_up_agreement_def extend_agreement_def elapsed_settlement_def
  extended_role_def end_agreement_def finalize_agreement_def settlement_split_def remove_agreement_def
  remove_primary_from_bucket_def remove_slashed_def escrow_def claim_expired_agreement_def
  mutate_provider_def mutate_stats_def deposit_event_def try_push_def remove_at_def
  set_member_def set_member_internal_def locate_member_def genesis_build_def empty_state_def fmhas_def Let_def arith_defs
  div_ceil_def DEFAULT_CHUNK_SIZE_def max_def min_def

lemmas demo_defs = demo_env_def demo_config_def demo_crypto_def demo_mmr_def demo_ledger_def demo_genesis_def
  demo_stats_def provider11_def provider14_def
  bucket0_def agreement11_def provider11_storing_def snapshot0_def bucket0_checkpointed_def challenge0_def
  challenge_id0_def agreement14_def demo_terms_def demo_replica_terms_def demo_leaf_def demo_commitment_def demo_target_def

lemmas run_defs = demo_defs fund_defs ledger_defs call_defs

lemma verify_loop_one [simp]: "verify_loop hc current idx (Suc 0) steps = Some (current, steps)"
  by (subst verify_loop.simps) simp

section \<open>Runs\<close>

lemma run_genesis: "genesis_build demo_env demo_genesis (empty_state demo_ledger 5) = Some launched"
  by (simp add: launched_def run_defs)

lemma run_stored:
  "dispatch demo_env (Signed 12) (CreateBucketWithPrimary 11 demo_terms (Sr25519 [11]) Public) launched = Inr stored"
  by (simp add: launched_def stored_def run_defs)

lemma run_checkpointed:
  "dispatch demo_env (Signed 12) (Checkpoint 0 demo_commitment [(11, Sr25519 [11])]) stored = Inr checkpointed"
  by (simp add: launched_def stored_def checkpointed_def run_defs)

lemma run_challenged:
  "dispatch demo_env (Signed 13) (ChallengeCheckpoint 0 11 demo_target) checkpointed = Inr challenged"
  by (simp add: launched_def stored_def checkpointed_def challenged_def run_defs)

definition demo_response :: ChallengeResponse where
  "demo_response = Proof [1, 2, 3] \<lparr>mp_leaf = demo_leaf, mp_items = []\<rparr> []"

lemma run_defended:
  "dispatch demo_env (Signed 11) (RespondToChallenge challenge_id0 demo_response) challenged = Inr defended"
  by (simp add: demo_response_def launched_def stored_def checkpointed_def challenged_def defended_def run_defs)

lemma run_slashed:
  "dispatch demo_env (Signed 13) (ResolveExpiredChallenge challenge_id0) (challenged\<lparr>anchor := 16\<rparr>) = Inr slashed"
  by (simp add: launched_def stored_def checkpointed_def challenged_def slashed_def run_defs)

lemma run_misdirected:
  "dispatch demo_env (Signed 13) (ChallengeCheckpoint 0 11 \<lparr>leaf_index = 0, chunk_index = 1\<rparr>) checkpointed = Inr misdirected"
  by (simp add: launched_def stored_def checkpointed_def challenged_def misdirected_def misdirected_challenge_def run_defs)

lemma run_out_of_range:
  "dispatch demo_env (Signed 11) (RespondToChallenge challenge_id0
     (ChunkOutOfRange \<lparr>mp_leaf = demo_leaf, mp_items = []\<rparr>)) misdirected = Inr defended"
  by (simp add: launched_def stored_def checkpointed_def challenged_def misdirected_def misdirected_challenge_def
      defended_def run_defs)

lemma run_deleted:
  "dispatch demo_env (Signed 11) (RespondToChallenge challenge_id0 (Deleted H256_zero 1 12 (Sr25519 [12]))) challenged
     = Inr defended"
  by (simp add: launched_def stored_def checkpointed_def challenged_def defended_def run_defs)

lemma run_resnapshotted:
  "dispatch demo_env (Signed 12) (Checkpoint 0 next_commitment [(11, Sr25519 [11])]) challenged = Inr resnapshotted"
  by (simp add: launched_def stored_def checkpointed_def challenged_def resnapshotted_def next_commitment_def run_defs)

lemma run_superseded:
  "dispatch demo_env (Signed 11) (RespondToChallenge challenge_id0 Superseded) resnapshotted = Inr superseded"
  by (simp add: launched_def stored_def checkpointed_def challenged_def resnapshotted_def next_commitment_def
      superseded_def defended_def run_defs)

lemma run_relocated: "dispatch demo_env (Signed 11) (UpdateProviderMultiaddr [7]) challenged = Inr relocated"
  by (simp add: launched_def stored_def checkpointed_def challenged_def relocated_def run_defs)

lemma run_leaving: "dispatch demo_env (Signed 14) DeregisterProvider launched = Inr leaving"
  by (simp add: launched_def leaving_def run_defs)

lemma run_replicated:
  "dispatch demo_env (Signed 13) (AddReplicaProvider 0 14 demo_replica_terms (Sr25519 [14])) checkpointed = Inr replicated"
  by (simp add: launched_def stored_def checkpointed_def replicated_def run_defs)

lemma run_synced:
  "dispatch demo_env (Signed 14)
     (ConfirmReplicaSync 0 [Some (H256_repeat_byte 50), None, None, None, None, None, None] (Sr25519 [14])) replicated = Inr synced"
  by (simp add: launched_def stored_def checkpointed_def replicated_def synced_def run_defs)

lemma run_frozen: "dispatch demo_env (Signed 12) (FreezeBucket 0) checkpointed = Inr frozen"
  by (simp add: launched_def stored_def checkpointed_def frozen_def run_defs)

lemma run_refrozen:
  "dispatch demo_env (Signed 12) (Checkpoint 0 next_commitment [(11, Sr25519 [11])]) frozen = Inr refrozen"
  by (simp add: launched_def stored_def checkpointed_def frozen_def refrozen_def next_commitment_def run_defs)

lemma run_widened: "dispatch demo_env (Signed 12) (SetMember 0 13 Writer) stored = Inr widened"
  by (simp add: launched_def stored_def widened_def run_defs)

lemma run_ended: "dispatch demo_env (Signed 12) (EndAgreement 0 11 (Burn 50)) stored = Inr ended"
  by (simp add: launched_def stored_def ended_def run_defs)

lemma run_claimed: "dispatch demo_env (Signed 11) (ClaimExpiredAgreement 0) (stored\<lparr>anchor := 86\<rparr>) = Inr claimed"
  by (simp add: launched_def stored_def claimed_def run_defs)

lemma run_rid: "dispatch demo_env (Signed 13) (RemoveSlashed 0 11) slashed = Inr rid"
  by (simp add: launched_def stored_def checkpointed_def challenged_def slashed_def rid_def run_defs)

section \<open>Reachability\<close>

lemma demo_pallet_env: "pallet_env demo_env"
  by (simp add: demo_env_def ledger_env.pallet_env_axioms)

lemma demo_limits [simp]:
  "MaxChallengesPerDeadline (Cfg demo_env) = 100"
  "ChallengeTimeout (Cfg demo_env) = 10"
  "DeregisterAnnouncementPeriod (Cfg demo_env) = 20"
  by (simp_all add: demo_env_def demo_config_def ledger_environment_def)

lemma demo_holds [simp]: "holds demo_env c r w = fmget 0 (l_held c) (r, w)"
  by (simp add: holds_def demo_env_def ledger_environment_def ledger_currency_def l_held_of_def)

lemma reachable_launched: "reachable demo_env launched"
  by (rule reachable.genesis [OF run_genesis])
    (simp_all add: money_ok_def holds_def run_defs l_ok_def)

lemma reachable_call:
  "reachable E s \<Longrightarrow> dispatch E origin c s = Inr s' \<Longrightarrow> within_limits c s \<Longrightarrow> reachable E s'"
  by (rule reachable.step, assumption, rule step.call)

lemma reachable_stored: "reachable demo_env stored"
  by (rule reachable_call [OF reachable_launched run_stored]) (simp add: launched_def empty_state_def)

lemma reachable_checkpointed: "reachable demo_env checkpointed"
  by (rule reachable_call [OF reachable_stored run_checkpointed]) simp

lemma reachable_challenged: "reachable demo_env challenged"
  by (rule reachable_call [OF reachable_checkpointed run_challenged])
    (simp add: checkpointed_def stored_def launched_def empty_state_def total_challenges_def)

lemma reachable_overdue: "reachable demo_env (challenged\<lparr>anchor := 16\<rparr>)"
  by (rule reachable.step [OF reachable_challenged step.advance])
    (simp_all add: challenged_def checkpointed_def stored_def launched_def empty_state_def)

lemma reachable_defended: "reachable demo_env defended"
  by (rule reachable_call [OF reachable_challenged run_defended]) simp

lemma reachable_slashed: "reachable demo_env slashed"
  by (rule reachable_call [OF reachable_overdue run_slashed]) simp

lemma reachable_replicated: "reachable demo_env replicated"
  by (rule reachable_call [OF reachable_checkpointed run_replicated]) simp

lemma reachable_synced: "reachable demo_env synced"
  by (rule reachable_call [OF reachable_replicated run_synced]) simp

lemma reachable_frozen: "reachable demo_env frozen"
  by (rule reachable_call [OF reachable_checkpointed run_frozen]) simp

lemma reachable_notice_over: "reachable demo_env (leaving\<lparr>anchor := 25\<rparr>)"
  by (rule reachable.step [OF reachable_call [OF reachable_launched run_leaving] step.advance])
    (simp_all add: leaving_def launched_def empty_state_def)

end
