(* ===== verification/Frames.thy ===== *)
theory Frames
  imports Scenario
begin

text \<open>
  What a call leaves alone. \<open>frame\<close> collects three facts that the safety
  theorems follow through every call: no owner's nonce goes back, a frozen bucket stays
  frozen at its sequence number, and a provider that has announced its exit stays without
  commitments. \<open>quiet\<close> adds that the open challenges and the members of every
  bucket are the same. The last part treats the calls that open and close challenges.
\<close>

section \<open>Relations between states\<close>

definition announced_ok :: "(account, ProviderInfo) fmap \<Rightarrow> bool" where
  "announced_ok ps \<longleftrightarrow> (\<forall>p i. fmlookup ps p = Some i \<and> pi_deregister_at i \<noteq> None \<longrightarrow> pi_committed_bytes i = 0)"

definition nonces_grow :: "(account, nat) fmap \<Rightarrow> (account, nat) fmap \<Rightarrow> bool" where
  "nonces_grow n n' \<longleftrightarrow> (\<forall>w. fmget 0 n w < 2 ^ 64 \<longrightarrow> fmget 0 n w \<le> fmget 0 n' w \<and> fmget 0 n' w < 2 ^ 64)"

definition frozen_kept :: "(BucketId, Bucket) fmap \<Rightarrow> (BucketId, Bucket) fmap \<Rightarrow> bool" where
  "frozen_kept bs bs' \<longleftrightarrow> (\<forall>b B f. fmlookup bs b = Some B \<and> b_frozen_start_seq B = Some f \<longrightarrow>
     (\<exists>B'. fmlookup bs' b = Some B' \<and> b_frozen_start_seq B' = Some f))"

definition members_kept :: "(BucketId, Bucket) fmap \<Rightarrow> (BucketId, Bucket) fmap \<Rightarrow> bool" where
  "members_kept bs bs' \<longleftrightarrow> (\<forall>b B. fmlookup bs b = Some B \<longrightarrow>
     (\<exists>B'. fmlookup bs' b = Some B' \<and> b_members B' = b_members B))"

definition frame :: "'c pstate \<Rightarrow> 'c pstate \<Rightarrow> bool" where
  "frame s s' \<longleftrightarrow> nonces_grow (AgreementNonces s) (AgreementNonces s') \<and>
     frozen_kept (Buckets s) (Buckets s') \<and> (announced_ok (Providers s) \<longrightarrow> announced_ok (Providers s'))"

definition quiet :: "'c pstate \<Rightarrow> 'c pstate \<Rightarrow> bool" where
  "quiet s s' \<longleftrightarrow> Challenges s' = Challenges s \<and> members_kept (Buckets s) (Buckets s') \<and> frame s s'"

lemma nonces_grow_refl [simp]: "nonces_grow n n"
  by (simp add: nonces_grow_def)

lemma nonces_grow_next [simplified, simp]: "nonces_grow n (fmupd w (saturating_add 64 (fmget 0 n w) 1) n)"
  by (auto simp: nonces_grow_def saturating_add_def)

lemma frozen_kept_refl [simp]: "frozen_kept bs bs"
  by (simp add: frozen_kept_def)

lemma frozen_kept_upd:
  "fmlookup bs b = Some B \<Longrightarrow> b_frozen_start_seq B = None \<or> b_frozen_start_seq B' = b_frozen_start_seq B \<Longrightarrow>
   frozen_kept bs (fmupd b B' bs)"
  by (auto simp: frozen_kept_def)

lemma members_kept_refl [simp]: "members_kept bs bs"
  by (simp add: members_kept_def)

lemma members_kept_upd:
  "fmlookup bs b = Some B \<Longrightarrow> b_members B' = b_members B \<Longrightarrow> members_kept bs (fmupd b B' bs)"
  by (auto simp: members_kept_def)

lemmas bucket_kept = frozen_kept_upd members_kept_upd

lemma announced_ok_upd [simp]:
  "announced_ok (fmupd p i ps) \<longleftrightarrow>
   (pi_deregister_at i \<noteq> None \<longrightarrow> pi_committed_bytes i = 0) \<and> announced_ok (fmdrop p ps)"
  by (auto simp: announced_ok_def)

lemma announced_ok_drop [simp]: "announced_ok ps \<Longrightarrow> announced_ok (fmdrop p ps)"
  by (auto simp: announced_ok_def)

lemma announced_okD:
  "announced_ok ps \<Longrightarrow> fmlookup ps p = Some i \<Longrightarrow> pi_deregister_at i = Some d \<Longrightarrow> pi_committed_bytes i = 0"
  unfolding announced_ok_def by auto

lemma announced_ok_mutate:
  "announced_ok (Providers s) \<Longrightarrow> (\<And>i. pi_deregister_at (f i) = pi_deregister_at i) \<Longrightarrow>
   (\<And>i. pi_committed_bytes (f i) \<le> pi_committed_bytes i) \<Longrightarrow>
   announced_ok (Providers (mutate_provider p f s))"
  unfolding announced_ok_def mutate_provider_def by (auto split: option.splits) (metis le_zero_eq option.distinct(1))


section \<open>Quiet calls\<close>

lemmas frame_defs = quiet_def frame_def

lemma provider_calls_quiet:
  "register_provider E o' ma pk st s = Inr s' \<Longrightarrow> quiet s s'"
  "add_stake E o' n s = Inr s' \<Longrightarrow> quiet s s'"
  "deregister_provider E o' s = Inr s' \<Longrightarrow> quiet s s'"
  "complete_deregister E o' s = Inr s' \<Longrightarrow> quiet s s'"
  "cancel_deregister E o' s = Inr s' \<Longrightarrow> quiet s s'"
  "update_provider_settings E o' sett s = Inr s' \<Longrightarrow> quiet s s'"
  "update_provider_multiaddr E o' ma s = Inr s' \<Longrightarrow> quiet s s'"
  "set_extensions_blocked E o' b v s = Inr s' \<Longrightarrow> quiet s s'"
  by (auto simp: frame_defs provider_call_defs result_simps Let_def
      dest: announced_okD)

lemma bucket_calls_quiet:
  "set_min_providers E o' b n s = Inr s' \<Longrightarrow> quiet s s'"
  "freeze_bucket E o' b s = Inr s' \<Longrightarrow> quiet s s'"
  "set_bucket_visibility E o' b v s = Inr s' \<Longrightarrow> quiet s s'"
  "checkpoint E o' b c sigs s = Inr s' \<Longrightarrow> quiet s s'"
  "extend_checkpoint E o' b sigs s = Inr s' \<Longrightarrow> quiet s s'"
  by (auto simp: frame_defs set_min_providers_def freeze_bucket_def set_bucket_visibility_def checkpoint_def 
    extend_checkpoint_def result_simps Let_def intro!: bucket_kept)


text \<open>Membership changes keep everything but the members.\<close>

lemma set_member_frame:
  assumes "set_member E o' b w r s = Inr s'"
  shows "frame s s' \<and> Challenges s' = Challenges s"
proof -
  from assms obtain who B where B: "o' = Signed who" "fmlookup (Buckets s) b = Some B" "ensure_admin who B = Inr ()"
    by (auto simp: set_member_def set_member_internal_def result_simps)
  obtain t a n where loc: "locate_member B w = (t, a, n)" by (cases "locate_member B w")
  show ?thesis using assms B loc
    by (cases t) (auto simp: frame_defs set_member_def set_member_internal_def result_simps intro!: bucket_kept)
qed

lemma remove_member_frame:
  assumes "remove_member E o' b w s = Inr s'"
  shows "frame s s' \<and> Challenges s' = Challenges s"
proof -
  from assms obtain who B where B: "o' = Signed who" "fmlookup (Buckets s) b = Some B" "ensure_admin who B = Inr ()"
    by (auto simp: remove_member_def remove_member_internal_def result_simps)
  obtain t a n where loc: "locate_member B w = (t, a, n)" by (cases "locate_member B w")
  show ?thesis using assms B loc
    by (auto simp: frame_defs remove_member_def remove_member_internal_def result_simps Let_def intro!: bucket_kept)
qed

lemma remove_primary_kept:
  "frozen_kept (Buckets s) (Buckets (remove_primary_from_bucket b p s))"
  "members_kept (Buckets s) (Buckets (remove_primary_from_bucket b p s))"
  by (auto simp: remove_primary_from_bucket_def intro!: bucket_kept split: option.splits)

lemma finalize_agreement_quiet:
  assumes "finalize_agreement E b p a act early s = Inr s'" shows "quiet s s'"
  using assms 
  by (auto simp: finalize_agreement_def remove_agreement_def frame_defs result_simps Let_def remove_primary_kept intro!: announced_ok_mutate split: prod.splits if_splits)

lemma settlement_calls_quiet:
  "end_agreement E o' b p act s = Inr s' \<Longrightarrow> quiet s s'"
  "claim_expired_agreement E o' b s = Inr s' \<Longrightarrow> quiet s s'"
  by (auto simp: end_agreement_def claim_expired_agreement_def result_simps Let_def intro: finalize_agreement_quiet)

lemma remove_slashed_quiet: "remove_slashed E o' b p s = Inr s' \<Longrightarrow> quiet s s'"
  by (auto simp: remove_slashed_def remove_agreement_def frame_defs result_simps Let_def remove_primary_kept intro!: announced_ok_mutate split: if_splits)


lemma accept_quote_quiet: "accept_quote E w p t sig target k s = Inr (q, s') \<Longrightarrow> quiet s s'"
  by (drule accept_quote_Inr) (auto simp: frame_defs)

lemma accept_quote_active: "accept_quote E w p t sig target k s = Inr (q, s') \<Longrightarrow> \<exists>i. fmlookup (Providers s) p = Some i \<and> pi_deregister_at i = None \<and> Providers s' = Providers s"
  by (drule accept_quote_Inr) auto

lemma insert_agreement_quiet: "insert_agreement E b w p t q s = Inr (e, s') \<Longrightarrow> fmlookup (Providers s) p = Some i \<Longrightarrow> pi_deregister_at i = None \<Longrightarrow> quiet s s'"
  by (auto simp: insert_agreement_def frame_defs result_simps Let_def mutate_provider_def)

lemma quiet_trans: "quiet s t \<Longrightarrow> quiet t u \<Longrightarrow> quiet s u"
  unfolding quiet_def frame_def nonces_grow_def frozen_kept_def members_kept_def by (auto intro: le_trans) metis+

lemma add_replica_provider_quiet: 
  assumes "add_replica_provider E o' b p t sig s = Inr s'"
  shows "quiet s s'"
proof -
  from assms obtain who q s1 e s2 where *: "accept_quote E who p t sig (Existing b) Quote_Replica s = Inr (q, s1)"
    "insert_agreement E b who p t q s1 = Inr (e, s2)" "s' = deposit_event (ReplicaAgreementEstablished b p who t e) s2"
    by (auto simp: add_replica_provider_def add_replica_provider_internal_def result_simps)
  from accept_quote_active [OF *(1)] insert_agreement_quiet [OF *(2)] have "quiet s1 s2" by auto
  with accept_quote_quiet [OF *(1)] have "quiet s s2" by (rule quiet_trans)
  then show ?thesis by (simp add: *(3) frame_defs)
qed

lemma agreement_changes_quiet:
  "top_up_agreement E o' b p n m s = Inr s' \<Longrightarrow> quiet s s'"
  "transfer_agreement_ownership E o' b p w s = Inr s' \<Longrightarrow> quiet s s'"
  by (auto simp: top_up_agreement_def transfer_agreement_ownership_def ensure_provider_active_def result_simps Let_def frame_defs mutate_provider_def)

lemma extend_agreement_quiet: "extend_agreement E o' b p d m s = Inr s' \<Longrightarrow> quiet s s'"
  by (drule extend_agreement_Inr) (auto simp: frame_defs intro!: announced_ok_mutate)

lemma confirm_replica_sync_quiet: "confirm_replica_sync E o' b rs sig s = Inr s' \<Longrightarrow> quiet s s'"
  by (drule confirm_replica_sync_Inr) (auto simp: frame_defs intro!: announced_ok_mutate)

lemma top_up_replica_quiet:
  assumes "top_up_replica_sync_balance E o' b p n s = Inr s'"
  shows "quiet s s'"
proof -
  from assms obtain a where a: "fmlookup (StorageAgreements s) (b, p) = Some a"
    by (auto simp: top_up_replica_sync_balance_def result_simps)
  show ?thesis using assms a
    by (cases "ag_role a") (auto simp: top_up_replica_sync_balance_def result_simps frame_defs)
qed

lemma add_primary_provider_quiet: 
  assumes "add_primary_provider E o' b p t sig s = Inr s'"
  shows "quiet s s'"
proof -
  from assms obtain who q s1 e s2 B where *: "accept_quote E who p t sig (Existing b) Quote_Primary s = Inr (q, s1)"
    "insert_agreement E b who p t q (s1\<lparr>Buckets := fmupd b (with_primary p B) (Buckets s1)\<rparr>) = Inr (e, s2)" "fmlookup (Buckets s) b = Some B"
    "s' = deposit_event (StorageAgreementEstablished b p who t e) (deposit_event (ProviderAddedToBucket b p) s2)"
    by (auto simp: add_primary_provider_def add_primary_provider_internal_def insert_primary_agreement_def result_simps with_primary_def)
  have "Buckets s1 = Buckets s" using accept_quote_Inr [OF *(1)] by auto
  then have "quiet s1 (s1\<lparr>Buckets := fmupd b (with_primary p B) (Buckets s1)\<rparr>)"
    using *(3) by (auto simp: frame_defs with_primary_def intro!: bucket_kept)
  moreover from accept_quote_active [OF *(1)] insert_agreement_quiet [OF *(2)] have "quiet (s1\<lparr>Buckets := fmupd b (with_primary p B) (Buckets s1)\<rparr>) s2" by auto
  ultimately have "quiet s s2" using accept_quote_quiet [OF *(1)] by (blast intro: quiet_trans)
  then show ?thesis by (simp add: *(4) frame_defs)
qed

lemma create_bucket_internal_quiet:
  assumes "create_bucket_internal E w n prim v s = Inr (b, s')" "fmlookup (Buckets s) (NextBucketId s) = None"
  shows "quiet s s' \<and> Providers s' = Providers s"
  by (rule create_bucket_internal_Inr [OF assms(1)]) (use assms(2) in \<open>auto simp: frame_defs frozen_kept_def members_kept_def\<close>)

lemma create_bucket_quiet:
  "create_bucket E o' n v s = Inr s' \<Longrightarrow> fmlookup (Buckets s) (NextBucketId s) = None \<Longrightarrow> quiet s s'"
  by (auto simp: create_bucket_def result_simps dest: create_bucket_internal_quiet)

lemma create_bucket_with_primary_quiet:
  assumes "create_bucket_with_primary E o' p t sig v s = Inr s'" "fmlookup (Buckets s) (NextBucketId s) = None"
  shows "quiet s s'"
proof -
  from assms obtain who q s1 e s2 b s3 where *: "accept_quote E who p t sig New Quote_Primary s = Inr (q, s1)"
    "create_bucket_internal E who 1 (Some p) v s1 = Inr (b, s2)"
    "insert_agreement E b who p t q s2 = Inr (e, s3)" 
    "s' = deposit_event (StorageAgreementEstablished b p who t e) (deposit_event (ProviderAddedToBucket b p) s3)"
    by (auto simp: create_bucket_with_primary_def create_bucket_with_primary_internal_def insert_primary_agreement_def result_simps)
  have "Buckets s1 = Buckets s" "NextBucketId s1 = NextBucketId s" using accept_quote_Inr [OF *(1)] by auto
  with create_bucket_internal_quiet [OF *(2)] assms(2) have c: "quiet s1 s2" "Providers s2 = Providers s1" by auto
  moreover from accept_quote_active [OF *(1)] insert_agreement_quiet [OF *(3)] c(2) have "quiet s2 s3" by auto
  ultimately have "quiet s s3" using accept_quote_quiet [OF *(1)] by (blast intro: quiet_trans)
  then show ?thesis by (simp add: *(4) frame_defs)
qed


section \<open>Deletion and challenges\<close>

lemma drop_members_items:
  "drop_members E b ms s = Inr s' \<Longrightarrow>
   Challenges s' = Challenges s \<and> AgreementNonces s' = AgreementNonces s \<and> Buckets s' = Buckets s \<and>
   Providers s' = Providers s"
  by (induction ms arbitrary: s) (auto simp: result_simps)

lemma delete_bucket_frame:
  assumes "delete_bucket E o' b s = Inr s'"
  shows "Challenges s' = Challenges s" "AgreementNonces s' = AgreementNonces s"
    "Buckets s' = fmdrop b (Buckets s)" "Providers s' = Providers s"
  using assms by (auto simp: delete_bucket_def remove_bucket_internal_def result_simps dest!: drop_members_items)

lemma create_challenge_frame:
  assumes "inv E s" "create_challenge E w b B p r cm tg s = Inr (cid, s')"
  shows "frame s s' \<and> Buckets s' = Buckets s \<and> fmlookup (Challenges s) (deadline cid, index cid) = None \<and>
    (\<exists>c. Challenges s' = fmupd (deadline cid, index cid) c (Challenges s))"
  using create_challenge_Inr [OF assms(2)] index_free [OF invD(11) [OF assms(1)], of "ChallengeTimeout (Cfg E)"]
  by (auto simp: frame_def)

lemma challenge_calls_frame:
  assumes "inv E s"
  shows "challenge_checkpoint E o' b p t s = Inr s' \<Longrightarrow>
      frame s s' \<and> Buckets s' = Buckets s \<and> (\<exists>k c. fmlookup (Challenges s) k = None \<and> Challenges s' = fmupd k c (Challenges s))"
    and "challenge_offchain E o' b p cm t sig s = Inr s' \<Longrightarrow>
      frame s s' \<and> Buckets s' = Buckets s \<and> (\<exists>k c. fmlookup (Challenges s) k = None \<and> Challenges s' = fmupd k c (Challenges s))"
    and "challenge_replica E o' b p t s = Inr s' \<Longrightarrow>
      frame s s' \<and> Buckets s' = Buckets s \<and> (\<exists>k c. fmlookup (Challenges s) k = None \<and> Challenges s' = fmupd k c (Challenges s))"
  by (auto simp: challenge_checkpoint_def do_challenge_checkpoint_def challenge_offchain_def challenge_replica_def
      result_simps dest!: create_challenge_frame [OF assms])

lemma respond_to_challenge_frame:
  assumes "respond_to_challenge E o' cid resp s = Inr s'"
  shows "frame s s' \<and> Buckets s' = Buckets s \<and> Challenges s' = fmdrop (deadline cid, index cid) (Challenges s)"
proof -
  from respond_to_challenge_Inr [OF assms] obtain c c1 f moved where
    c: "fmlookup (Challenges s) (deadline cid, index cid) = Some c"
    and f: "f = mutate_stats (\<lambda>st. if ch_authorized c
         then st\<lparr>st_challenges_received_authorized := saturating_add 32 (st_challenges_received_authorized st) 1\<rparr>
         else st\<lparr>st_challenges_received_public := saturating_add 32 (st_challenges_received_public st) 1\<rparr>)"
    and s': "s' = deposit_event (ChallengeDefended cid (ch_provider c) (anchor s - ch_created_at c) moved (ch_deposit c - moved))
      (mutate_provider (ch_provider c) f ((decrement_pending (ch_bucket_id c) (ch_provider c)
        (s\<lparr>Challenges := fmdrop (deadline cid, index cid) (Challenges s)\<rparr>))\<lparr>balances := c1\<rparr>))"
    by - (elim exE conjE, rule that; assumption)
  show ?thesis by (auto simp: frame_def s' f decrement_pending_def intro!: announced_ok_mutate)
qed

lemma resolve_expired_challenge_frame:
  assumes "resolve_expired_challenge E o' cid s = Inr s'"
  shows "frame s s' \<and> Buckets s' = Buckets s \<and> Challenges s' = fmdrop (deadline cid, index cid) (Challenges s)"
  using assms
  by (auto simp: resolve_expired_challenge_def slash_provider_for_failed_challenge_def decrement_pending_def
      frame_def result_simps Let_def case_prod_beta split: option.splits) (rule announced_okD)

section \<open>All calls\<close>

fun closes :: "Call \<Rightarrow> nat \<times> nat \<Rightarrow> bool" where
  "closes (RespondToChallenge cid _) k \<longleftrightarrow> k = (deadline cid, index cid)"
| "closes (ResolveExpiredChallenge cid) k \<longleftrightarrow> k = (deadline cid, index cid)"
| "closes _ k \<longleftrightarrow> False"

lemmas quiet_calls = provider_calls_quiet bucket_calls_quiet settlement_calls_quiet remove_slashed_quiet add_replica_provider_quiet agreement_changes_quiet
  extend_agreement_quiet confirm_replica_sync_quiet top_up_replica_quiet add_primary_provider_quiet

lemmas frame_calls = set_member_frame remove_member_frame respond_to_challenge_frame resolve_expired_challenge_frame

lemma dispatch_frame:
  assumes I: "inv E s" and res: "dispatch E o' c s = Inr s'"
  shows "(\<forall>b. c \<noteq> DeleteBucket b) \<Longrightarrow> frame s s'"
    and "fmlookup (Challenges s) k = Some ch \<Longrightarrow> \<not> closes c k \<Longrightarrow> fmlookup (Challenges s') k = Some ch"
    and "(\<forall>b. c \<noteq> DeleteBucket b) \<Longrightarrow> (\<forall>b w r. c \<noteq> SetMember b w r) \<Longrightarrow> (\<forall>b w. c \<noteq> RemoveMember b w) \<Longrightarrow>
      members_kept (Buckets s) (Buckets s')"
proof -
  note free = no_bucket_at_next(1) [OF invD(3) [OF I]]
  have "((\<forall>b. c \<noteq> DeleteBucket b) \<longrightarrow> frame s s') \<and>
    (fmlookup (Challenges s) k = Some ch \<longrightarrow> \<not> closes c k \<longrightarrow> fmlookup (Challenges s') k = Some ch) \<and>
    ((\<forall>b. c \<noteq> DeleteBucket b) \<longrightarrow> (\<forall>b w r. c \<noteq> SetMember b w r) \<longrightarrow> (\<forall>b w. c \<noteq> RemoveMember b w) \<longrightarrow>
      members_kept (Buckets s) (Buckets s'))" for k ch
    using res by (cases c)
      (auto simp: quiet_def dest!: quiet_calls create_bucket_quiet [OF _ free] create_bucket_with_primary_quiet [OF _ free]
        challenge_calls_frame [OF I] frame_calls delete_bucket_frame(1))
  then show "(\<forall>b. c \<noteq> DeleteBucket b) \<Longrightarrow> frame s s'"
    "fmlookup (Challenges s) k = Some ch \<Longrightarrow> \<not> closes c k \<Longrightarrow> fmlookup (Challenges s') k = Some ch"
    "(\<forall>b. c \<noteq> DeleteBucket b) \<Longrightarrow> (\<forall>b w r. c \<noteq> SetMember b w r) \<Longrightarrow> (\<forall>b w. c \<noteq> RemoveMember b w) \<Longrightarrow>
      members_kept (Buckets s) (Buckets s')" by blast+
qed

end
