(* ===== verification/Challenge_Safety.thy ===== *)
theory Challenge_Safety
  imports Frames
begin

text \<open>
  What challenges guarantee: an open challenge can only be closed by an answer or by its
  expiry, the two exclude each other, an expired challenge always costs the provider its
  whole stake, a defended one costs it nothing, and the answers that are accepted prove
  what they claim.
\<close>

section \<open>Facts about reachable states\<close>

lemma reachable_invariant:
  assumes "pallet_env E" "MaxChallengesPerDeadline (Cfg E) < 2 ^ 16" "reachable E s"
  shows "inv E s"
  using pallet_env.reachable_inv [OF assms] .

lemma call_invariant:
  assumes "pallet_env E" "MaxChallengesPerDeadline (Cfg E) < 2 ^ 16" "reachable E s"
    and "dispatch E origin c s = Inr s'" "within_limits c s"
  shows "inv E s'"
  using reachable_invariant [OF assms(1,2) reachable_call [OF assms(3,4,5)]] .

lemma challenge_obligation:
  assumes "inv E s" "fmlookup (Challenges s) k = Some ch"
  obtains a i where "fmlookup (StorageAgreements s) (ch_bucket_id ch, ch_provider ch) = Some a"
    "fmlookup (Providers s) (ch_provider ch) = Some i"
proof -
  obtain a where a: "fmlookup (StorageAgreements s) (ch_bucket_id ch, ch_provider ch) = Some a"
    using invD(10) [OF assms(1)] assms(2) unfolding inv_obligation_def by fastforce
  then show ?thesis using inv_committedD(3) [OF invD(2) [OF assms(1)] a] that by blast
qed

section \<open>No escape\<close>

text \<open>
  C2. A challenge stays open under every call but the two that close it, and as long as it
  is open the challenged provider stays registered, its agreement stays in place and the
  challenger's deposit stays on hold: a challenged provider cannot leave, and nobody can
  remove the obligation it is challenged for.
\<close>

theorem open_challenge_persists:
  assumes "pallet_env E" "MaxChallengesPerDeadline (Cfg E) < 2 ^ 16" "reachable E s"
    and "fmlookup (Challenges s) k = Some ch"
    and "dispatch E origin c s = Inr s'" "within_limits c s" "\<not> closes c k"
  shows "fmlookup (Challenges s') k = Some ch \<and>
    fmhas (Providers s') (ch_provider ch) \<and>
    fmhas (StorageAgreements s') (ch_bucket_id ch, ch_provider ch) \<and>
    ch_deposit ch \<le> holds E (balances s') ChallengeDeposit (ch_challenger ch)"
proof -
  have I: "inv E s" using assms(1-3) by (rule reachable_invariant)
  have I': "inv E s'" using assms(1-3,5,6) by (rule call_invariant)
  have open': "fmlookup (Challenges s') k = Some ch"
    using dispatch_frame(2) [OF I assms(5,4,7)] .
  moreover have "ch_deposit ch \<le> holds E (balances s') ChallengeDeposit (ch_challenger ch)"
    using pallet_env.deposit_covered [OF assms(1) I' open'] .
  ultimately show ?thesis
    using challenge_obligation [OF I' open'] by (auto simp: fmhas_def)
qed

theorem open_challenge_persists_witness:
  "fmlookup (Challenges relocated) (15, 0) = Some challenge0 \<and> fmhas (Providers relocated) 11"
proof -
  have "fmlookup (Challenges relocated) (15, 0) = Some challenge0 \<and>
    fmhas (Providers relocated) (ch_provider challenge0) \<and>
    fmhas (StorageAgreements relocated) (ch_bucket_id challenge0, ch_provider challenge0) \<and>
    ch_deposit challenge0 \<le> holds demo_env (balances relocated) ChallengeDeposit (ch_challenger challenge0)"
    by (rule open_challenge_persists [OF demo_pallet_env _ reachable_challenged _ run_relocated])
      (simp_all add: challenged_def)
  then show ?thesis by (simp add: challenge0_def)
qed

section \<open>Expiry\<close>



text \<open>
  For one challenge there is never a moment at which both an answer and the resolution
  for expiry are accepted, whoever sends them and whatever the answer; resolution is
  accepted exactly from the block after the deadline on.
\<close>

theorem answer_and_expiry_exclude:
  "(is_ok (dispatch E origin (ResolveExpiredChallenge cid) s) \<longleftrightarrow>
     origin \<noteq> Unsigned \<and> deadline cid < anchor s \<and> fmhas (Challenges s) (deadline cid, index cid)) \<and>
   \<not> (is_ok (dispatch E origin (ResolveExpiredChallenge cid) s) \<and>
      is_ok (dispatch E origin' (RespondToChallenge cid response) s))"
proof -
  have resolve: "is_ok (dispatch E origin (ResolveExpiredChallenge cid) s) \<longleftrightarrow>
     origin \<noteq> Unsigned \<and> deadline cid < anchor s \<and> fmhas (Challenges s) (deadline cid, index cid)"
    by (cases origin) (auto simp: resolve_expired_challenge_def ensure_signed_or_root_def result_simps Let_def fmhas_def)
  have "is_ok (dispatch E origin' (RespondToChallenge cid response) s) \<Longrightarrow> anchor s \<le> deadline cid"
    by (auto simp: is_ok_iff dest!: respond_to_challenge_Inr)
  then show ?thesis using resolve by auto
qed

section \<open>Answers\<close>

text \<open>
  C20. An accepted answer comes from the challenged provider and not after the deadline. It
  closes the challenge and takes the whole deposit off hold; what the provider receives and
  what goes back to the challenger, as reported in the event, add up to the deposit; the
  provider keeps its stake.
\<close>

theorem defended_challenge_settles:
  assumes "pallet_env E" "MaxChallengesPerDeadline (Cfg E) < 2 ^ 16" "reachable E s"
    and ch: "fmlookup (Challenges s) (deadline cid, index cid) = Some ch"
    and res: "dispatch E origin (RespondToChallenge cid response) s = Inr s'"
  shows "origin = Signed (ch_provider ch) \<and> anchor s \<le> deadline cid \<and>
    fmlookup (Challenges s') (deadline cid, index cid) = None \<and>
    stake_of (Providers s') = stake_of (Providers s) \<and>
    holds E (balances s) ChallengeDeposit (ch_challenger ch) =
      holds E (balances s') ChallengeDeposit (ch_challenger ch) + ch_deposit ch \<and>
    (\<exists>t paid returned. paid + returned = ch_deposit ch \<and>
       events s' = events s @ [ChallengeDefended cid (ch_provider ch) t paid returned])"
proof -
  have I: "inv E s" using assms(1-3) by (rule reachable_invariant)
  have I': "inv E s'" using assms(1-3) res by (rule call_invariant) simp
  have res': "respond_to_challenge E origin cid response s = Inr s'" using res by simp
  from respond_to_challenge_Inr [OF res'] ch obtain moved c1 f where
    who: "origin = Signed (ch_provider ch)" and time: "anchor s \<le> deadline cid"
    and st: "settle_challenge_deposit E (ch_challenger ch) (ch_provider ch) (ch_deposit ch)
      (wrapping_mul 128 (ch_deposit ch) (challenger_percent ch (anchor s - ch_created_at ch)) div 100) (balances s) = (moved, c1)"
    and f: "f = mutate_stats (\<lambda>st. if ch_authorized ch
         then st\<lparr>st_challenges_received_authorized := saturating_add 32 (st_challenges_received_authorized st) 1\<rparr>
         else st\<lparr>st_challenges_received_public := saturating_add 32 (st_challenges_received_public st) 1\<rparr>)"
    and s': "s' = deposit_event (ChallengeDefended cid (ch_provider ch) (anchor s - ch_created_at ch) moved (ch_deposit ch - moved))
      (mutate_provider (ch_provider ch) f ((decrement_pending (ch_bucket_id ch) (ch_provider ch)
        (s\<lparr>Challenges := fmdrop (deadline cid, index cid) (Challenges s)\<rparr>))\<lparr>balances := c1\<rparr>))"
    by auto
  have "moved \<le> ch_deposit ch"
    using pallet_env.settle_challenge_deposit_holds [OF assms(1) invD(1) [OF I]
      pallet_env.deposit_covered [OF assms(1) I ch] challenger_share_le st] challenger_share_le
    by (meson le_trans)
  moreover have "stake_of (Providers s') = stake_of (Providers s)"
    by (auto simp: s' f stake_of_def fun_eq_iff decrement_pending_def split: option.split)
  moreover have chs: "Challenges s' = fmdrop (deadline cid, index cid) (Challenges s)"
    using respond_to_challenge_frame [OF res'] by simp
  moreover have "holds E (balances s) ChallengeDeposit (ch_challenger ch) =
      holds E (balances s') ChallengeDeposit (ch_challenger ch) + ch_deposit ch"
    using invD(7) [OF I] invD(7) [OF I'] challenge_totals_old(1) [OF ch] by (simp add: inv_deposits_def chs)
  ultimately show ?thesis using who time
    by (auto simp: s' decrement_pending_def intro!: exI [of _ moved] exI [of _ "ch_deposit ch - moved"])
qed

theorem defended_challenge_settles_witness:
  "stake_of (Providers defended) 11 = 1000 \<and> fmlookup (Challenges defended) (15, 0) = None"
  using defended_challenge_settles [OF demo_pallet_env _ reachable_challenged _ run_defended, of challenge0]
  by (simp add: challenged_def checkpointed_def stored_def launched_def challenge_id0_def provider11_storing_def
      provider11_def empty_state_def provider_values)

lemma accepted_response:
  assumes "dispatch E origin (RespondToChallenge cid response) s = Inr s'"
    and "fmlookup (Challenges s) (deadline cid, index cid) = Some ch"
  shows "\<exists>B. fmlookup (Buckets s) (ch_bucket_id ch) = Some B \<and>
    check_response E ch B response (decrement_pending (ch_bucket_id ch) (ch_provider ch)
        (s\<lparr>Challenges := fmdrop (deadline cid, index cid) (Challenges s)\<rparr>)) = Inr ()"
  using respond_to_challenge_Inr [of E origin cid response s s'] assms by auto

lemma verify_challenged_leaf_Inr:
  "verify_challenged_leaf E ch prf = Inr (root, count) \<longleftrightarrow>
   chunk_count (mp_leaf prf) = Some count \<and> root = data_root (mp_leaf prf) \<and>
   verify_mmr_proof (MmrLib E) (blake2_256 (Crypto E)) prf (leaf_index (ch_target ch)) (ch_commitment ch)"
  by (auto simp: verify_challenged_leaf_def result_simps)

text \<open>
  C4. A challenge answered with a chunk and its proofs is answered with the challenged
  chunk: if the leaf in the proof carries the Merkle root of some list of chunks of the
  size the leaf states, the chunk in the answer is the one at the challenged index, unless
  two of the strings hashed for the chunks, for their tree and for the check of the answer
  are different and have the same hash. The leaf itself is verified at the challenged
  position of the challenged commitment.
\<close>

theorem proof_response_is_challenged_chunk:
  fixes E :: "('c, 'm) env" and chunks :: "byte list list" and ch :: Challenge
  defines "h \<equiv> blake2_256 (Crypto E)" and "i \<equiv> chunk_index (ch_target ch)"
  assumes "dispatch E origin (RespondToChallenge cid (Proof chunk prf chunk_proof)) s = Inr s'"
    and "fmlookup (Challenges s) (deadline cid, index cid) = Some ch"
    and root: "data_root (mp_leaf prf) = merkle_root (hash_children h) (map (hash_leaf h) chunks)"
    and count: "chunk_count (mp_leaf prf) = Some (length chunks)"
  shows "verify_mmr_proof (MmrLib E) h prf (leaf_index (ch_target ch)) (ch_commitment ch) \<and> i < length chunks \<and>
    (chunk = chunks ! i \<or> collision_among h (leaf_string ` set (chunk # chunks) \<union>
       proof_strings h (hash_leaf h chunk) i (map (hash_leaf h) chunks) chunk_proof))"
proof -
  from accepted_response [OF assms(3,4)] count have
    mmr: "verify_mmr_proof (MmrLib E) h prf (leaf_index (ch_target ch)) (ch_commitment ch)"
    and v: "verify_merkle_proof (hash_children h) (hash_leaf h chunk) i (length (map (hash_leaf h) chunks)) chunk_proof
      (merkle_root (hash_children h) (map (hash_leaf h) chunks))"
    by (auto simp: check_response_def result_simps verify_challenged_leaf_Inr root [symmetric, unfolded h_def] h_def i_def)
  then have i: "i < length chunks" by (auto simp: verify_merkle_proof_def split: if_splits)
  let ?T = "proof_strings h (hash_leaf h chunk) i (map (hash_leaf h) chunks) chunk_proof"
  let ?S = "leaf_string ` set (chunk # chunks) \<union> ?T"
  have "h (leaf_string chunk) = h (leaf_string (chunks ! i)) \<or> collision_among h ?S"
    using verified_proof_sound [OF v] i collision_among_mono [of h ?T ?S] by (auto simp: hash_leaf_string)
  then have "chunk = chunks ! i \<or> collision_among h ?S"
    using collision_amongI [of h "leaf_string chunk" "leaf_string (chunks ! i)" ?S] i by auto
  with mmr i show ?thesis by blast
qed

theorem proof_response_is_challenged_chunk_witness:
  "verify_mmr_proof (MmrLib demo_env) (blake2_256 (Crypto demo_env)) \<lparr>mp_leaf = demo_leaf, mp_items = []\<rparr> 0 demo_commitment \<and>
   [1, 2, 3] = [[1, 2, 3 :: byte]] ! 0"
  using proof_response_is_challenged_chunk [OF run_defended [unfolded demo_response_def], of challenge0 "[[1, 2, 3]]"]
  by (simp add: challenged_def challenge_id0_def challenge0_def demo_target_def demo_leaf_def demo_env_def
      ledger_environment_def demo_crypto_def merkle_root_eq root_of_level_single hash_leaf_def chunk_count_def
      chunk_size_def div_ceil_def DEFAULT_CHUNK_SIZE_def)

text \<open>
  A challenge is only dismissed as out of range when the leaf at the challenged position
  of the commitment holds no byte at the challenged chunk.
\<close>

theorem out_of_range_response_sound:
  assumes "dispatch E origin (RespondToChallenge cid (ChunkOutOfRange prf)) s = Inr s'"
    and "fmlookup (Challenges s) (deadline cid, index cid) = Some ch"
  shows "verify_mmr_proof (MmrLib E) (blake2_256 (Crypto E)) prf (leaf_index (ch_target ch)) (ch_commitment ch) \<and>
    data_size (mp_leaf prf) \<le> chunk_index (ch_target ch) * DEFAULT_CHUNK_SIZE"
proof -
  from accepted_response [OF assms] obtain count where
    mmr: "verify_mmr_proof (MmrLib E) (blake2_256 (Crypto E)) prf (leaf_index (ch_target ch)) (ch_commitment ch)"
    and count: "chunk_count (mp_leaf prf) = Some count" "count \<le> chunk_index (ch_target ch)"
    by (auto simp: check_response_def result_simps verify_challenged_leaf_Inr)
  then show ?thesis using chunk_count_less_iff [OF count(1), of "chunk_index (ch_target ch)"] by auto
qed

theorem out_of_range_response_sound_witness:
  "data_size demo_leaf \<le> 1 * DEFAULT_CHUNK_SIZE"
  using out_of_range_response_sound [OF run_out_of_range, of misdirected_challenge]
  by (simp add: misdirected_def challenge_id0_def misdirected_challenge_def challenge0_def)

text \<open>
  A challenge is only dismissed as deleted when the challenged agreement is a primary
  one and a current admin of the bucket has signed, with a signature that verifies, an empty
  commitment of this bucket that starts after the challenged leaf.
\<close>

theorem deleted_response_sound:
  assumes "dispatch E origin (RespondToChallenge cid (Deleted root start adm sig)) s = Inr s'"
    and "fmlookup (Challenges s) (deadline cid, index cid) = Some ch"
  shows "\<exists>B a. fmlookup (Buckets s) (ch_bucket_id ch) = Some B \<and>
    (\<exists>m\<in>set (b_members B). m_account m = adm \<and> m_role m = Admin) \<and>
    fmlookup (StorageAgreements s) (ch_bucket_id ch, ch_provider ch) = Some a \<and> ag_role a = Primary \<and>
    saturating_add 64 (start_seq (ch_commitment ch)) (leaf_index (ch_target ch)) < start \<and>
    verify_signature E sig (encode_payload (CommitmentPayload_new (ch_bucket_id ch)
      \<lparr>mmr_root = root, start_seq = start, leaf_count = 0\<rparr>)) adm s = Inr ()"
proof -
  have same: "verify_signature E sg msg w (decrement_pending b p (s\<lparr>Challenges := cs\<rparr>)) = verify_signature E sg msg w s"
    for sg msg w b p cs by (simp add: verify_signature_def decrement_pending_def)
  from accepted_response [OF assms] obtain B where B: "fmlookup (Buckets s) (ch_bucket_id ch) = Some B"
    and adm: "ensure_admin adm B = Inr ()"
    and "responder_is_primary ch (decrement_pending (ch_bucket_id ch) (ch_provider ch)
        (s\<lparr>Challenges := fmdrop (deadline cid, index cid) (Challenges s)\<rparr>))"
    and "saturating_add 64 (start_seq (ch_commitment ch)) (leaf_index (ch_target ch)) < start"
    and "verify_signature E sig (encode_payload (CommitmentPayload_new (ch_bucket_id ch)
      \<lparr>mmr_root = root, start_seq = start, leaf_count = 0\<rparr>)) adm s = Inr ()"
    by (auto simp: check_response_def result_simps Let_def same)
  moreover from adm have "\<exists>m\<in>set (b_members B). m_account m = adm \<and> m_role m = Admin"
    by (auto simp: ensure_admin_def result_simps list_ex_iff)
  ultimately show ?thesis
    by (auto simp: responder_is_primary_def decrement_pending_def split: option.splits)
qed

theorem deleted_response_sound_witness:
  "\<exists>B. fmlookup (Buckets challenged) 0 = Some B \<and> (\<exists>m\<in>set (b_members B). m_account m = 12 \<and> m_role m = Admin)"
  using deleted_response_sound [OF run_deleted, of challenge0]
  by (auto simp: challenged_def challenge_id0_def challenge0_def)

text \<open>
  A challenge is only dismissed as superseded when the challenged agreement is a primary
  one and the bucket's current snapshot has another root and still covers the challenged
  sequence number, so that the same data can be challenged again under the new root.
\<close>

theorem superseded_response_sound:
  assumes "dispatch E origin (RespondToChallenge cid Superseded) s = Inr s'"
    and "fmlookup (Challenges s) (deadline cid, index cid) = Some ch"
  shows "\<exists>B sn a. fmlookup (Buckets s) (ch_bucket_id ch) = Some B \<and> b_snapshot B = Some sn \<and>
    fmlookup (StorageAgreements s) (ch_bucket_id ch, ch_provider ch) = Some a \<and> ag_role a = Primary \<and>
    mmr_root (bs_commitment sn) \<noteq> mmr_root (ch_commitment ch) \<and>
    contains_seq (bs_commitment sn) (saturating_add 64 (start_seq (ch_commitment ch)) (leaf_index (ch_target ch)))"
proof -
  from accepted_response [OF assms] obtain B sn where
    "fmlookup (Buckets s) (ch_bucket_id ch) = Some B" "b_snapshot B = Some sn"
    and "responder_is_primary ch (decrement_pending (ch_bucket_id ch) (ch_provider ch)
        (s\<lparr>Challenges := fmdrop (deadline cid, index cid) (Challenges s)\<rparr>))"
    and "mmr_root (bs_commitment sn) \<noteq> mmr_root (ch_commitment ch)"
    and "contains_seq (bs_commitment sn) (saturating_add 64 (start_seq (ch_commitment ch)) (leaf_index (ch_target ch)))"
    by (auto simp: check_response_def result_simps Let_def)
  then show ?thesis
    by (auto simp: responder_is_primary_def decrement_pending_def split: option.splits)
qed

theorem superseded_response_sound_witness:
  "\<exists>B sn. fmlookup (Buckets resnapshotted) 0 = Some B \<and> b_snapshot B = Some sn \<and>
    mmr_root (bs_commitment sn) \<noteq> mmr_root demo_commitment"
  using superseded_response_sound [OF run_superseded, of challenge0]
  by (auto simp: resnapshotted_def challenged_def challenge_id0_def challenge0_def)

section \<open>Opening\<close>

text \<open>
  A challenge to a checkpoint is opened only by a signed account other than the provider,
  only against a primary of the bucket whose bit is set in the current snapshot and whose
  agreement has not expired, and, in a private bucket, only by an account authorized there.
  It holds the configured deposit, and is recorded under an identifier that no open
  challenge has, for the snapshot's commitment and with the configured time to answer.
\<close>

theorem challenge_checkpoint_opens:
  assumes "pallet_env E" "MaxChallengesPerDeadline (Cfg E) < 2 ^ 16" "reachable E s"
    and res: "dispatch E origin (ChallengeCheckpoint b p target) s = Inr s'"
  shows "\<exists>who B sn j a ch n. let d = saturating_add 32 (anchor s) (ChallengeTimeout (Cfg E)) in
    origin = Signed who \<and> who \<noteq> p \<and> fmlookup (Buckets s) b = Some B \<and> b_snapshot B = Some sn \<and>
    j < length (primary_signers sn) \<and> primary_signers sn ! j \<and> b_primary_providers B ! j = p \<and>
    fmlookup (StorageAgreements s) (b, p) = Some a \<and> anchor s < ag_expires_at a \<and>
    (b_visibility B = Private \<and> ag_role a = Primary \<longrightarrow> is_authorized_for_private who b B s) \<and>
    fmlookup (Challenges s) (d, n) = None \<and> Challenges s' = fmupd (d, n) ch (Challenges s) \<and>
    ch_provider ch = p \<and> ch_bucket_id ch = b \<and> ch_challenger ch = who \<and> ch_target ch = target \<and>
    ch_commitment ch = bs_commitment sn \<and> ch_deposit ch = ChallengeDepositAmount (Cfg E) \<and>
    holds E (balances s') = add_hold ChallengeDeposit who (ch_deposit ch) (holds E (balances s))"
proof -
  have I: "inv E s" using assms(1-3) by (rule reachable_invariant)
  from res obtain who B sn j a cid where *: "origin = Signed who" "fmlookup (Buckets s) b = Some B"
    "b_snapshot B = Some sn" "position (\<lambda>q. q = p) (b_primary_providers B) = Some j"
    "j < length (primary_signers sn)" "primary_signers sn ! j"
    "fmlookup (StorageAgreements s) (b, p) = Some a" "anchor s < ag_expires_at a"
    and cr: "create_challenge E who b B p (ag_role a) (bs_commitment sn) target s = Inr (cid, s')"
    by (auto simp: challenge_checkpoint_def do_challenge_checkpoint_def result_simps)
  define ch where "ch = \<lparr>ch_bucket_id = b, ch_provider = p, ch_challenger = who, ch_commitment = bs_commitment sn,
    ch_target = target, ch_deposit = ChallengeDepositAmount (Cfg E), ch_authorized = is_authorized who b B s,
    ch_created_at = anchor s\<rparr>"
  from create_challenge_Inr [OF cr] have opened: "who \<noteq> p"
      "b_visibility B = Private \<and> ag_role a = Primary \<longrightarrow> is_authorized_for_private who b B s"
      "hold_challenge_deposit E who (ChallengeDepositAmount (Cfg E)) (balances s) = Inr (balances s')"
      "deadline cid = saturating_add 32 (anchor s) (ChallengeTimeout (Cfg E))"
      "Challenges s' = fmupd (deadline cid, index cid) ch (Challenges s)"
    by (auto simp: ch_def)
  have ch: "ch_provider ch = p" "ch_bucket_id ch = b" "ch_challenger ch = who" "ch_target ch = target"
      "ch_commitment ch = bs_commitment sn" "ch_deposit ch = ChallengeDepositAmount (Cfg E)"
    by (simp_all add: ch_def)
  have "fmlookup (Challenges s) (deadline cid, index cid) = None" using create_challenge_frame [OF I cr] by simp
  moreover have "b_primary_providers B ! j = p" using *(4) by (auto simp: position_Some)
  moreover have "holds E (balances s') = add_hold ChallengeDeposit who (ch_deposit ch) (holds E (balances s))"
    using pallet_env.hold_challenge_deposit_holds [OF assms(1) invD(1) [OF I] opened(3)] by (simp add: ch(6))
  ultimately show ?thesis unfolding Let_def opened(4) [symmetric]
    by (intro exI [of _ who] exI [of _ B] exI [of _ sn] exI [of _ j] exI [of _ a] exI [of _ ch]
        exI [of _ "index cid"] conjI * opened(1,2,5) ch)
qed

theorem challenge_checkpoint_opens_witness:
  "\<exists>ch n. Challenges challenged = fmupd (15, n) ch (Challenges checkpointed) \<and> ch_deposit ch = 100"
  using challenge_checkpoint_opens [OF demo_pallet_env _ reachable_checkpointed run_challenged]
  by (auto simp: Let_def demo_env_def ledger_environment_def demo_config_def checkpointed_def stored_def launched_def
      empty_state_def saturating_add_def)

end
