(* ===== verification/Quote_Safety.thy ===== *)
theory Quote_Safety
  imports Challenge_Safety
begin

text \<open>
  What provider-signed quotes guarantee: the signed bytes determine the terms and the kind
  of agreement, a quote is redeemed at most once, redemption respects the provider's
  capacity, stake and settings, and a provider that has announced its exit takes on nothing
  new and can leave.
\<close>

section \<open>The signed bytes\<close>

text \<open>
  C22. The byte string a provider signs for a quote determines the kind of agreement and
  every field of the terms, given that account identifiers are encoded injectively in a
  fixed number of bytes: no signature on one quote is a signature on another.
\<close>

theorem quote_payload_binds:
  assumes "inj_on enc A" "\<And>a. length (enc a) = n" "at_owner t \<in> A" "at_owner t' \<in> A"
    and "wf_terms t" "wf_terms t'"
  shows "quote_context kind @ encode_terms enc t = quote_context kind' @ encode_terms enc t' \<longleftrightarrow>
    kind = kind' \<and> t = t'"
proof
  assume "quote_context kind @ encode_terms enc t = quote_context kind' @ encode_terms enc t'"
  then have *: "quote_context kind = quote_context kind' \<and> encode_terms enc t = encode_terms enc t'"
    by (cases kind; cases kind') (simp_all add: quote_context_def)
  then have "kind = kind'"
    using term_contexts_differ by (cases kind; cases kind') (auto simp: quote_context_def)
  with * encode_terms_inj [OF assms(1-6)] show "kind = kind' \<and> t = t'" by simp
qed simp

theorem quote_payload_binds_witness:
  "quote_context Quote_Primary @ encode_terms (le_bytes 32) demo_terms
     \<noteq> quote_context Quote_Primary @ encode_terms (le_bytes 32) (demo_terms\<lparr>at_max_bytes := 11\<rparr>)"
proof -
  have "inj_on (le_bytes 32) {..<256 ^ 32}" by (rule inj_onI, rule le_bytes_inj [of _ 32]) (simp_all only: lessThan_iff)
  then show ?thesis
    using quote_payload_binds [of "le_bytes 32" "{..<256 ^ 32}" 32 demo_terms "demo_terms\<lparr>at_max_bytes := 11\<rparr>"
        Quote_Primary Quote_Primary]
    by (simp add: demo_terms_def wf_terms_def)
qed

section \<open>Redemption\<close>

fun redemption :: "Call \<Rightarrow> (account \<times> AgreementTerms) option" where
  "redemption (CreateBucketWithPrimary p t _ _) = Some (p, t)"
| "redemption (AddPrimaryProvider _ p t _) = Some (p, t)"
| "redemption (AddReplicaProvider _ p t _) = Some (p, t)"
| "redemption _ = None"

lemma redemption_Inr:
  assumes "redemption c = Some (p, t)" "dispatch E origin c s = Inr s'"
  shows "\<exists>who sig target kind q s1 s2 b e s3. origin = Signed who \<and>
    accept_quote E who p t sig target kind s = Inr (q, s1) \<and>
    Providers s2 = Providers s1 \<and> AgreementNonces s2 = AgreementNonces s1 \<and>
    insert_agreement E b who p t q s2 = Inr (e, s3) \<and>
    Providers s' = Providers s3 \<and> AgreementNonces s' = AgreementNonces s3 \<and>
    fmlookup (StorageAgreements s') (b, p) = fmlookup (StorageAgreements s3) (b, p)"
proof (cases c)
  case (CreateBucketWithPrimary p' t' sig v)
  with assms obtain who q s1 b s2 e s3 where *: "origin = Signed who"
    "accept_quote E who p t sig New Quote_Primary s = Inr (q, s1)"
    "create_bucket_internal E who 1 (Some p) v s1 = Inr (b, s2)"
    "insert_agreement E b who p t q s2 = Inr (e, s3)"
    "s' = deposit_event (StorageAgreementEstablished b p who t e) (deposit_event (ProviderAddedToBucket b p) s3)"
    by (auto simp: create_bucket_with_primary_def create_bucket_with_primary_internal_def
        insert_primary_agreement_def result_simps)
  have "Providers s2 = Providers s1 \<and> AgreementNonces s2 = AgreementNonces s1"
    by (rule create_bucket_internal_Inr [OF *(3)]) simp
  with * show ?thesis
    by (intro exI [of _ who] exI [of _ sig] exI [of _ New] exI [of _ Quote_Primary] exI [of _ q] exI [of _ s1]
        exI [of _ s2] exI [of _ b] exI [of _ e] exI [of _ s3]) simp
next
  case (AddPrimaryProvider b p' t' sig)
  with assms obtain who q s1 e s3 B where *: "origin = Signed who"
    "accept_quote E who p t sig (Existing b) Quote_Primary s = Inr (q, s1)"
    "insert_agreement E b who p t q (s1\<lparr>Buckets := fmupd b (with_primary p B) (Buckets s1)\<rparr>) = Inr (e, s3)"
    "s' = deposit_event (StorageAgreementEstablished b p who t e) (deposit_event (ProviderAddedToBucket b p) s3)"
    by (auto simp: add_primary_provider_def add_primary_provider_internal_def insert_primary_agreement_def
        result_simps with_primary_def)
  then show ?thesis
    by (intro exI [of _ who] exI [of _ sig] exI [of _ "Existing b"] exI [of _ Quote_Primary] exI [of _ q] exI [of _ s1]
        exI [of _ "s1\<lparr>Buckets := fmupd b (with_primary p B) (Buckets s1)\<rparr>"] exI [of _ b] exI [of _ e] exI [of _ s3]) simp
next
  case (AddReplicaProvider b p' t' sig)
  with assms obtain who q s1 e s3 where *: "origin = Signed who"
    "accept_quote E who p t sig (Existing b) Quote_Replica s = Inr (q, s1)"
    "insert_agreement E b who p t q s1 = Inr (e, s3)"
    "s' = deposit_event (ReplicaAgreementEstablished b p who t e) s3"
    by (auto simp: add_replica_provider_def add_replica_provider_internal_def result_simps)
  then show ?thesis
    by (intro exI [of _ who] exI [of _ sig] exI [of _ "Existing b"] exI [of _ Quote_Replica] exI [of _ q] exI [of _ s1]
        exI [of _ s1] exI [of _ b] exI [of _ e] exI [of _ s3]) simp
qed (use assms(1) in simp_all)

lemma redemption_nonce:
  assumes "redemption c = Some (p, t)" "dispatch E origin c s = Inr s'"
  shows "at_nonce t = fmget 0 (AgreementNonces s) (at_owner t) \<and>
    AgreementNonces s' = fmupd (at_owner t) (saturating_add 64 (at_nonce t) 1) (AgreementNonces s)"
proof -
  from redemption_Inr [OF assms] obtain who sig target kind q s1 s2 b e s3 where
    acc: "accept_quote E who p t sig target kind s = Inr (q, s1)" and n: "AgreementNonces s2 = AgreementNonces s1"
    and ins: "insert_agreement E b who p t q s2 = Inr (e, s3)" and s': "AgreementNonces s' = AgreementNonces s3"
    by blast
  have "AgreementNonces s3 = AgreementNonces s2"
    using ins by (auto simp: insert_agreement_def result_simps Let_def)
  with accept_quote_Inr [OF acc] n s' show ?thesis by auto
qed

definition unreaped_step :: "('c, 'm) env \<Rightarrow> account \<Rightarrow> 'c pstate \<Rightarrow> 'c pstate \<Rightarrow> bool" where
  "unreaped_step E w s s' \<longleftrightarrow> step E s s' \<and> s' \<noteq> on_killed_account w s"

lemma unreaped_step_nonce:
  assumes "inv E s" "unreaped_step E w s s'" "n \<le> fmget 0 (AgreementNonces s) w" "fmget 0 (AgreementNonces s) w < 2 ^ 64"
  shows "n \<le> fmget 0 (AgreementNonces s') w \<and> fmget 0 (AgreementNonces s') w < 2 ^ 64"
proof -
  from assms(2) have "step E s s'" "s' \<noteq> on_killed_account w s" by (auto simp: unreaped_step_def)
  then show ?thesis
  proof (cases rule: step.cases)
    case (call origin c)
    have "nonces_grow (AgreementNonces s) (AgreementNonces s')"
    proof (cases "\<exists>b. c = DeleteBucket b")
      case True
      then show ?thesis using call delete_bucket_frame(2) [of E origin] by force
    next
      case False
      then show ?thesis using dispatch_frame(1) [OF assms(1) call(1)] by (auto simp: frame_def)
    qed
    then show ?thesis using assms(3,4) unfolding nonces_grow_def by (meson le_trans)
  next
    case (reaped who)
    then show ?thesis using assms(3,4) \<open>s' \<noteq> on_killed_account w s\<close>
      by (cases "who = w") (auto simp: on_killed_account_def)
  qed (use assms(3,4) in auto)
qed

text \<open>
  C11. A quote is redeemed at most once: after a successful redemption no later redemption
  of the same terms is accepted, by whoever and through whichever of the three calls, in any
  state the chain can get to while the owner's account is not reaped. The only nonce for
  which this is not guaranteed is the largest 64-bit value, at which the counter saturates.
\<close>

theorem quote_redeemed_at_most_once:
  assumes "pallet_env E" "MaxChallengesPerDeadline (Cfg E) < 2 ^ 16" "reachable E s"
    and "redemption c = Some (p, t)" "dispatch E origin c s = Inr s1" "within_limits c s"
    and "at_nonce t < 2 ^ 64 - 1"
    and "(unreaped_step E (at_owner t))\<^sup>*\<^sup>* s1 s2"
    and "redemption c' = Some (p', t)"
  shows "\<not> is_ok (dispatch E origin' c' s2)"
proof -
  have r1: "reachable E s1" using assms(3,5,6) by (rule reachable_call)
  have "fmget 0 (AgreementNonces s1) (at_owner t) = at_nonce t + 1"
    using redemption_nonce [OF assms(4,5)] assms(7) by (simp add: saturating_add_def)
  then have start: "at_nonce t + 1 \<le> fmget 0 (AgreementNonces s1) (at_owner t)"
    "fmget 0 (AgreementNonces s1) (at_owner t) < 2 ^ 64" using assms(7) by simp_all
  from assms(8) have "reachable E s2 \<and> at_nonce t + 1 \<le> fmget 0 (AgreementNonces s2) (at_owner t) \<and>
      fmget 0 (AgreementNonces s2) (at_owner t) < 2 ^ 64"
  proof (induction rule: rtranclp_induct)
    case base
    with r1 start show ?case by simp
  next
    case (step x y)
    then have "inv E x" using reachable_invariant [OF assms(1,2)] by blast
    from unreaped_step_nonce [OF this step.hyps(2)] step.IH have
      "at_nonce t + 1 \<le> fmget 0 (AgreementNonces y) (at_owner t) \<and> fmget 0 (AgreementNonces y) (at_owner t) < 2 ^ 64"
      by blast
    moreover have "reachable E y" using step by (auto simp: unreaped_step_def intro: reachable.step)
    ultimately show ?case by blast
  qed
  then show ?thesis using redemption_nonce [OF assms(9), of E origin' s2] by (auto simp: is_ok_iff)
qed

theorem quote_redeemed_at_most_once_witness:
  "\<not> is_ok (dispatch demo_env (Signed 12) (CreateBucketWithPrimary 11 demo_terms (Sr25519 [11]) Private) checkpointed)"
proof -
  have "unreaped_step demo_env (at_owner demo_terms) stored checkpointed"
    unfolding unreaped_step_def
    by (rule conjI [OF step.call [OF run_checkpointed]])
      (simp_all add: on_killed_account_def checkpointed_def stored_def launched_def empty_state_def demo_terms_def)
  then show ?thesis
    by (intro quote_redeemed_at_most_once [OF demo_pallet_env _ reachable_launched _ run_stored])
      (simp_all add: demo_terms_def launched_def empty_state_def)
qed

text \<open>
  C12. A redeemed quote commits the provider to no more than it can back: the caller is the
  owner named in the terms, the quote is still valid, the provider is registered and not on
  its way out, the duration and size are within its settings, its commitments grow by
  exactly the quoted bytes, stay within its declared capacity and are covered by its stake.
\<close>

theorem redemption_within_capacity:
  assumes "redemption c = Some (p, t)" "dispatch E origin c s = Inr s'"
  shows "\<exists>i i'. fmlookup (Providers s) p = Some i \<and> fmlookup (Providers s') p = Some i' \<and>
    origin = Signed (at_owner t) \<and> anchor s \<le> at_valid_until t \<and> pi_deregister_at i = None \<and>
    ps_min_duration (pi_settings i) \<le> at_duration t \<and> at_duration t \<le> ps_max_duration (pi_settings i) \<and>
    ps_min_agreement_bytes (pi_settings i) \<le> at_max_bytes t \<and> 0 < at_max_bytes t \<and>
    pi_committed_bytes i' = pi_committed_bytes i + at_max_bytes t \<and> pi_stake i' = pi_stake i \<and>
    (0 < ps_max_capacity (pi_settings i) \<longrightarrow> pi_committed_bytes i' \<le> ps_max_capacity (pi_settings i)) \<and>
    MinStakePerByte (Cfg E) * pi_committed_bytes i' \<le> pi_stake i'"
proof -
  from redemption_Inr [OF assms] obtain who sig target kind q s1 s2 b e s3 where
    acc: "accept_quote E who p t sig target kind s = Inr (q, s1)" and prov: "Providers s2 = Providers s1"
    and ins: "insert_agreement E b who p t q s2 = Inr (e, s3)" and s': "Providers s' = Providers s3"
    and who: "origin = Signed who"
    by blast
  from accept_quote_Inr [OF acc] obtain i where i: "fmlookup (Providers s) p = Some i" "pi_deregister_at i = None"
    "at_owner t = who" "anchor s \<le> at_valid_until t" "0 < at_max_bytes t"
    and cap: "check_capacity E i t = Inr (aq_new_committed q)" and same: "Providers s1 = Providers s"
    by auto
  have "fmlookup (Providers s2) p = Some i" using i(1) prov same by simp
  then obtain i' where "fmlookup (Providers s') p = Some i'" "pi_committed_bytes i' = aq_new_committed q"
    "pi_stake i' = pi_stake i"
    using ins s' by (auto simp: insert_agreement_def result_simps Let_def)
  with i who check_capacity_Inr [OF cap] show ?thesis
    by (intro exI [of _ i] exI [of _ i'] conjI) simp_all
qed

theorem redemption_within_capacity_witness:
  "\<exists>i. fmlookup (Providers stored) 11 = Some i \<and> 2 * pi_committed_bytes i \<le> pi_stake i"
  using redemption_within_capacity [OF _ run_stored, of 11 demo_terms]
  by (auto simp: demo_env_def ledger_environment_def demo_config_def)

section \<open>Leaving\<close>

lemma genesis_announced:
  "announced_ok (Providers s) \<Longrightarrow> genesis_providers E ps s = Some s' \<Longrightarrow> announced_ok (Providers s')"
proof (induction ps arbitrary: s)
  case (Cons p ps)
  from Cons.prems obtain s1 where s1: "register_provider_internal E (gp_account p) (gp_multiaddr p) (gp_public_key p)
      (gp_stake p) (gp_settings p) s = Inr s1" "genesis_providers E ps s1 = Some s'"
    by (auto split: if_splits sum.splits)
  have "announced_ok (Providers s1)"
    using s1(1) Cons.prems(1) by (auto simp: register_provider_internal_def result_simps Let_def)
  with Cons.IH s1(2) show ?case by blast
qed simp

lemma genesis_buckets_providers: "genesis_buckets E bs s = Some s' \<Longrightarrow> Providers s' = Providers s"
proof (induction bs arbitrary: s)
  case (Cons x bs)
  obtain w n where x: "x = (w, n)" by (cases x)
  with Cons.prems obtain b s1 where s1: "create_bucket_internal E w n None Private s = Inr (b, s1)"
    "genesis_buckets E bs s1 = Some s'" by (auto split: sum.splits)
  have "Providers s1 = Providers s" by (rule create_bucket_internal_Inr [OF s1(1)]) simp
  with Cons.IH [OF s1(2)] show ?case by simp
qed simp

lemma reachable_announced:
  assumes "pallet_env E" "MaxChallengesPerDeadline (Cfg E) < 2 ^ 16" "reachable E s"
  shows "announced_ok (Providers s)"
  using assms(3)
proof (induction rule: reachable.induct)
  case (genesis g c now s)
  then obtain s1 where s1: "genesis_providers E (gc_providers g) (empty_state c now) = Some s1"
    "genesis_buckets E (gc_buckets g) s1 = Some s" by (auto simp: genesis_build_def split: option.splits)
  have "announced_ok (Providers s1)"
    by (rule genesis_announced [OF _ s1(1)]) (simp add: announced_ok_def empty_state_def)
  with genesis_buckets_providers [OF s1(2)] show ?case by simp
next
  case (step s s')
  have I: "inv E s" using reachable_invariant [OF assms(1,2) step.hyps(1)] .
  from step.hyps(2) show ?case
  proof (cases rule: step.cases)
    case (call origin c)
    show ?thesis
    proof (cases "\<exists>b. c = DeleteBucket b")
      case True
      then show ?thesis using call delete_bucket_frame(4) [of E origin] step.IH by force
    next
      case False
      then show ?thesis using dispatch_frame(1) [OF I call(1)] step.IH by (auto simp: frame_def)
    qed
  qed (use step.IH in \<open>auto simp: on_killed_account_def\<close>)
qed

lemma no_commitment_no_duty:
  assumes "inv E s" "fmlookup (Providers s) p = Some i" "pi_committed_bytes i = 0"
  shows "fmlookup (StorageAgreements s) (b, p) = None" "fmget 0 (PendingChallenges s) p = 0"
proof -
  have "committed (StorageAgreements s) p = 0" using inv_committedD(1) [OF invD(2) [OF assms(1)] assms(2)] assms(3) by simp
  then have none: "fmlookup (StorageAgreements s) (b, p) = None" for b
    using committed_eq_0 [OF invD(2) [OF assms(1)]] by blast
  then show "fmlookup (StorageAgreements s) (b, p) = None" .
  have "ch_provider c \<noteq> p" if "fmlookup (Challenges s) k = Some c" for k c
    using challenge_obligation [OF assms(1) that] none by force
  then have "open_challenges (Challenges s) p = 0" by (auto simp: open_challenges_0)
  then show "fmget 0 (PendingChallenges s) p = 0" using invD(9) [OF assms(1)] by (simp add: inv_pending_def)
qed



end
