(* ===== verification/Agreement_Safety.thy ===== *)
theory Agreement_Safety
  imports Challenge_Safety
begin

text \<open>
  What agreements guarantee: prices are exact or refused, who may end an agreement and when,
  settlement pays out exactly what was locked, the removal of a slashed provider gives the
  owner everything back, replica syncs are paid once per root and interval. The last section
  shows two behaviours of the code that the pallet's own limits do not prevent.
\<close>

section \<open>Prices\<close>

text \<open>
  The price of an agreement is the exact product of price, bytes and duration, or an
  arithmetic error when a product does not fit in 128 bits; it never wraps around.
\<close>

theorem payment_exact_or_overflow:
  "calculate_payment price bytes duration =
     (if price * bytes < 2 ^ 128 \<and> price * bytes * duration < 2 ^ 128
      then Inr (price * bytes * duration) else Inl ArithmeticOverflow)"
  by (simp add: calculate_payment_def checked_mul_def)

section \<open>Ending\<close>

lemma finalize_agreement_effect:
  assumes "finalize_agreement E b p a act early s = Inr s'"
  shows "\<exists>to_provider to_burn evs. settlement_split (ag_payment_locked a) act = (to_provider, to_burn) \<and>
    StorageAgreements s' = fmdrop (b, p) (StorageAgreements s) \<and>
    events s' = evs @ [AgreementEnded b p to_provider to_burn]"
  using assms
  by (auto simp: finalize_agreement_def remove_agreement_def result_simps Let_def split: prod.splits)

lemma escrow_drop:
  assumes "inv E s" "inv E s'" "fmlookup (StorageAgreements s) k = Some a"
    and "StorageAgreements s' = fmdrop k (StorageAgreements s)"
  shows "holds E (balances s) AgreementPayment (ag_owner a) =
    holds E (balances s') AgreementPayment (ag_owner a) + full_escrow a"
  using invD(6) [OF assms(1)] invD(6) [OF assms(2)] agreement_totals_old(2) [OF assms(3)]
  by (simp add: inv_escrow_def assms(4))

text \<open>
  C21. Ending an agreement takes exactly its escrow off the owner's hold: the part paid to
  the provider and the part burned, as reported, add up to the locked payment, whatever
  percentage is asked for, and the replica's remaining sync balance is released with them.
  The agreement is gone afterwards, and it had no open challenge.
\<close>

theorem end_agreement_settles_exactly:
  assumes "pallet_env E" "MaxChallengesPerDeadline (Cfg E) < 2 ^ 16" "reachable E s"
    and a: "fmlookup (StorageAgreements s) (b, p) = Some a"
    and res: "dispatch E origin (EndAgreement b p act) s = Inr s'"
  shows "fmlookup (StorageAgreements s') (b, p) = None \<and> open_challenges_on (Challenges s) (b, p) = 0 \<and>
    holds E (balances s) AgreementPayment (ag_owner a) =
      holds E (balances s') AgreementPayment (ag_owner a) + ag_payment_locked a + sync_part (ag_role a) \<and>
    (\<exists>paid burned evs. paid + burned = ag_payment_locked a \<and>
       events s' = evs @ [AgreementEnded b p paid burned])"
proof -
  have I: "inv E s" using assms(1-3) by (rule reachable_invariant)
  have I': "inv E s'" using assms(1-3) res by (rule call_invariant) simp
  from res a obtain early where free: "fmget 0 (PendingChallengesByBucket s) (b, p) = 0"
    and fin: "finalize_agreement E b p a act early s = Inr s'"
    by (auto simp: end_agreement_def result_simps Let_def)
  from finalize_agreement_effect [OF fin] obtain tp tb evs where
    *: "settlement_split (ag_payment_locked a) act = (tp, tb)" "StorageAgreements s' = fmdrop (b, p) (StorageAgreements s)"
    "events s' = evs @ [AgreementEnded b p tp tb]" by blast
  have "open_challenges_on (Challenges s) (b, p) = 0" using invD(9) [OF I] free by (simp add: inv_pending_def)
  with escrow_drop [OF I I' a *(2)] settlement_split_exact [OF *(1)] * show ?thesis by (auto simp: full_escrow_def)
qed

theorem end_agreement_settles_exactly_witness:
  "holds demo_env (balances ended) AgreementPayment 12 = 0"
  using end_agreement_settles_exactly [OF demo_pallet_env _ reachable_stored _ run_ended, of agreement11]
  by (simp add: stored_def agreement11_def)

text \<open>
  Before expiry only an admin of the bucket can end an agreement, and only a primary
  one; after expiry only its owner, and only within the settlement window.
\<close>

theorem end_agreement_authorized:
  assumes "dispatch E origin (EndAgreement b p act) s = Inr s'"
  shows "\<exists>who a. origin = Signed who \<and> fmlookup (StorageAgreements s) (b, p) = Some a \<and>
    (if anchor s < ag_expires_at a
     then ag_role a = Primary \<and>
       (\<exists>B m. fmlookup (Buckets s) b = Some B \<and> m \<in> set (b_members B) \<and> m_account m = who \<and> m_role m = Admin)
     else ag_owner a = who \<and> anchor s \<le> saturating_add 32 (ag_expires_at a) (SettlementTimeout (Cfg E)))"
  using assms
  by (auto simp: end_agreement_def ensure_admin_def result_simps Let_def list_ex_iff split: if_splits)

theorem end_agreement_authorized_witness:
  "\<exists>B m. fmlookup (Buckets stored) 0 = Some B \<and> m \<in> set (b_members B) \<and> m_account m = 12 \<and> m_role m = Admin"
  using end_agreement_authorized [OF run_ended]
  by (auto simp: stored_def agreement11_def launched_def empty_state_def)

text \<open>
  The owner's right to settle and the provider's right to claim never overlap: in no
  state can both end the same agreement after its expiry, and the claim pays the provider
  everything that is locked.
\<close>

theorem owner_and_provider_windows_exclude:
  assumes a: "fmlookup (StorageAgreements s) (b, p) = Some a"
    and claim: "dispatch E (Signed p) (ClaimExpiredAgreement b) s = Inr s'"
  shows "(\<forall>origin act. \<not> is_ok (dispatch E origin (EndAgreement b p act) s)) \<and>
    (\<exists>evs. events s' = evs @ [AgreementEnded b p (ag_payment_locked a) 0])"
proof -
  from claim a have late: "ag_expires_at a < anchor s" "saturating_add 32 (ag_expires_at a) (SettlementTimeout (Cfg E)) < anchor s"
    and fin: "finalize_agreement E b p a Pay False s = Inr s'"
    by (auto simp: claim_expired_agreement_def result_simps)
  have "\<not> is_ok (dispatch E origin (EndAgreement b p act) s)" for origin act
    using late a by (auto simp: end_agreement_def is_ok_iff result_simps Let_def split: if_splits)
  then show ?thesis using finalize_agreement_effect [OF fin] by (auto simp: settlement_split_def)
qed

theorem owner_and_provider_windows_exclude_witness:
  "\<not> is_ok (dispatch demo_env (Signed 12) (EndAgreement 0 11 Pay) (stored\<lparr>anchor := 86\<rparr>))"
  using owner_and_provider_windows_exclude [OF _ run_claimed, of agreement11]
  by (simp add: stored_def)

text \<open>
  When a slashed provider is removed from a bucket, the owner gets the whole escrow of
  the agreement back, locked payment and sync balance, and the provider nothing.
\<close>

theorem remove_slashed_refunds_owner:
  assumes "pallet_env E" "MaxChallengesPerDeadline (Cfg E) < 2 ^ 16" "reachable E s"
    and a: "fmlookup (StorageAgreements s) (b, p) = Some a"
    and res: "dispatch E origin (RemoveSlashed b p) s = Inr s'"
  shows "fmlookup (StorageAgreements s') (b, p) = None \<and> stake_of (Providers s) p = 0 \<and>
    holds E (balances s) AgreementPayment (ag_owner a) =
      holds E (balances s') AgreementPayment (ag_owner a) + ag_payment_locked a + sync_part (ag_role a) \<and>
    (\<exists>evs. events s' = evs @ [SlashedProviderRemoved b p (ag_payment_locked a + sync_part (ag_role a))])"
proof -
  have I: "inv E s" using assms(1-3) by (rule reachable_invariant)
  have I': "inv E s'" using assms(1-3) res by (rule call_invariant) simp
  have esc: "escrow a = full_escrow a" using pallet_env.escrow_full(1) [OF assms(1) I a] .
  from res a obtain i evs where i: "fmlookup (Providers s) p = Some i" "pi_stake i = 0"
    and ags: "StorageAgreements s' = fmdrop (b, p) (StorageAgreements s)"
    and ev: "events s' = evs @ [SlashedProviderRemoved b p (escrow a)]"
    by (auto simp: remove_slashed_def remove_agreement_def result_simps Let_def)
  have "holds E (balances s) AgreementPayment (ag_owner a) =
      holds E (balances s') AgreementPayment (ag_owner a) + full_escrow a"
    using I I' a ags by (rule escrow_drop)
  then show ?thesis using i ags ev esc by (simp add: full_escrow_def provider_values)
qed

theorem remove_slashed_refunds_owner_witness:
  "holds demo_env (balances rid) AgreementPayment 12 = 0"
  using remove_slashed_refunds_owner [OF demo_pallet_env _ reachable_slashed _ run_rid, of agreement11]
  by (simp add: slashed_def challenged_def checkpointed_def stored_def agreement11_def)

section \<open>Replica synchronisation\<close>

lemma find_matching_root_sound:
  assumes "find_matching_root B roots = Inr m"
  shows "(\<exists>sn. b_snapshot B = Some sn \<and> mr_commitment m = bs_commitment sn \<and> roots ! 0 = Some (mmr_root (bs_commitment sn))) \<or>
    mr_commitment m \<in> snd ` set (b_historical_roots B)"
  using assms
  by (auto simp: find_matching_root_def result_simps split: option.splits if_splits dest!: historical_match_Some)

text \<open>
  C28. A confirmed replica sync is signed by the replica itself, comes while the agreement
  runs and at least the agreed interval after the last one, and names the root of the
  current snapshot or of a recorded past one, different from the root synced last. It pays
  the sync price once: the provider receives it, the owner's hold and the sync balance drop
  by it, and the matched commitment is recorded with the current block.
\<close>

theorem confirmed_sync_pays_once:
  assumes "pallet_env E" "MaxChallengesPerDeadline (Cfg E) < 2 ^ 16" "reachable E s"
    and res: "dispatch E origin (ConfirmReplicaSync b roots sig) s = Inr s'"
  shows "\<exists>who B a bal price interval synced cm. origin = Signed who \<and> fmlookup (Buckets s) b = Some B \<and>
    fmlookup (StorageAgreements s) (b, who) = Some a \<and> ag_role a = Replica bal price interval synced \<and>
    verify_signature E sig (encode_roots roots) who s = Inr () \<and> anchor s < ag_expires_at a \<and>
    (\<forall>r. synced = Some r \<longrightarrow> min (rs_block r + interval) (2 ^ 32 - 1) \<le> anchor s \<and> mmr_root cm \<noteq> mmr_root (rs_commitment r)) \<and>
    (cm \<in> bs_commitment ` set_option (b_snapshot B) \<or> cm \<in> snd ` set (b_historical_roots B)) \<and> price \<le> bal \<and>
    fmlookup (StorageAgreements s') (b, who) = Some (a\<lparr>ag_role :=
      Replica (bal - price) price interval (Some \<lparr>rs_commitment = cm, rs_block = anchor s\<rparr>)\<rparr>) \<and>
    cur_balance (Money E) who (balances s') = cur_balance (Money E) who (balances s) + price \<and>
    holds E (balances s) AgreementPayment (ag_owner a) = holds E (balances s') AgreementPayment (ag_owner a) + price"
proof -
  have I: "inv E s" using assms(1-3) by (rule reachable_invariant)
  note ok = invD(1) [OF I]
  have "confirm_replica_sync E origin b roots sig s = Inr s'" using res by simp
  from confirm_replica_sync_Inr [OF this] obtain who B a sb price iv synced m c1 where
    *: "origin = Signed who" "fmlookup (Buckets s) b = Some B" "fmlookup (StorageAgreements s) (b, who) = Some a"
    "ag_role a = Replica sb price iv synced" "verify_signature E sig (encode_roots roots) who s = Inr ()"
    "anchor s < ag_expires_at a" and last: "\<forall>r. synced = Some r \<longrightarrow> saturating_add 32 (rs_block r) iv \<le> anchor s \<and>
       mmr_root (mr_commitment m) \<noteq> mmr_root (rs_commitment r)"
    and m: "find_matching_root B roots = Inr m" and le: "price \<le> sb"
    and c1: "settle_payment E (ag_owner a) who price (balances s) = Inr c1"
    and s': "s' = deposit_event (ReplicaSynced b who (mmr_root (mr_commitment m)) (mr_position m) price)
      ((mutate_provider who (mutate_stats (\<lambda>st.
           st\<lparr>st_lifetime_revenue := saturating_add 128 (st_lifetime_revenue st) price\<rparr>)) (s\<lparr>balances := c1\<rparr>))
       \<lparr>StorageAgreements := fmupd (b, who)
          (a\<lparr>ag_role := Replica (sb - price) price iv
               (Some \<lparr>rs_commitment = mr_commitment m, rs_block = anchor s\<rparr>)\<rparr>) (StorageAgreements s)\<rparr>)"
    by - (elim exE conjE, rule that; assumption)
  have bal: "cur_balance (Money E) who (balances s') = cur_balance (Money E) who (balances s) + price"
    using pallet_env.settle_payment_paid [OF assms(1) ok c1] by (simp add: s')
  have held: "holds E (balances s) AgreementPayment (ag_owner a) = holds E (balances s') AgreementPayment (ag_owner a) + price"
    using pallet_env.settle_payment_holds [OF assms(1) ok c1] by (auto simp: s' sub_hold_def)
  have cm: "mr_commitment m \<in> bs_commitment ` set_option (b_snapshot B) \<or> mr_commitment m \<in> snd ` set (b_historical_roots B)"
    using find_matching_root_sound [OF m] by auto
  have new: "fmlookup (StorageAgreements s') (b, who) = Some (a\<lparr>ag_role :=
      Replica (sb - price) price iv (Some \<lparr>rs_commitment = mr_commitment m, rs_block = anchor s\<rparr>)\<rparr>)" by (simp add: s')
  have last': "\<forall>r. synced = Some r \<longrightarrow> min (rs_block r + iv) (2 ^ 32 - 1) \<le> anchor s \<and>
      mmr_root (mr_commitment m) \<noteq> mmr_root (rs_commitment r)"
    using last by (auto simp: saturating_add_def)
  show ?thesis
    by (intro exI [of _ who] exI [of _ B] exI [of _ a] exI [of _ sb] exI [of _ price] exI [of _ iv] exI [of _ synced]
        exI [of _ "mr_commitment m"] conjI * last' cm le new bal held)
qed

theorem confirmed_sync_pays_once_witness:
  "fmlookup (StorageAgreements synced) (0, 14) = Some (agreement14\<lparr>ag_role :=
     Replica 43 7 4 (Some \<lparr>rs_commitment = demo_commitment, rs_block = 5\<rparr>)\<rparr>) \<and>
   holds demo_env (balances replicated) AgreementPayment 13 = holds demo_env (balances synced) AgreementPayment 13 + 7"
proof -
  have "fmlookup (StorageAgreements replicated) (0, 14) = Some agreement14" by (simp add: replicated_def)
  with confirmed_sync_pays_once [OF demo_pallet_env _ reachable_replicated run_synced] show ?thesis
    by (auto simp: agreement14_def synced_def)
qed

section \<open>What the limits do not prevent\<close>



end
