(* ===== verification/Bucket_Safety.thy ===== *)
theory Bucket_Safety
  imports Challenge_Safety
begin

text \<open>
  What buckets guarantee: a checkpoint carries a quorum of verified primary signatures, a
  frozen bucket never drops the data it was frozen with, and the history a replica may sync
  to is what past checkpoints committed.
\<close>

section \<open>Checkpoints\<close>

text \<open>
  C25. A checkpoint is only recorded when a writer or admin submits it with signatures of at
  least the required number of different primary providers of the bucket, at least one. The
  bits of the recorded snapshot stand for exactly the providers whose signatures on this
  bucket's commitment were submitted, and each of those signatures verifies.
\<close>

theorem checkpoint_has_quorum:
  assumes "pallet_env E" "MaxChallengesPerDeadline (Cfg E) < 2 ^ 16" "reachable E s"
    and res: "dispatch E origin (Checkpoint b c sigs) s = Inr s'"
  shows "\<exists>who B B' sn. origin = Signed who \<and> ensure_writer_or_admin who B = Inr () \<and>
    fmlookup (Buckets s) b = Some B \<and> fmlookup (Buckets s') b = Some B' \<and>
    b_primary_providers B' = b_primary_providers B \<and> b_snapshot B' = Some sn \<and> bs_commitment sn = c \<and>
    {b_primary_providers B ! j | j. j < length (primary_signers sn) \<and> primary_signers sn ! j} = fst ` set sigs \<and>
    max (b_min_providers B) 1 \<le> card (fst ` set sigs) \<and> fst ` set sigs \<subseteq> set (b_primary_providers B) \<and>
    (\<forall>(p, sg) \<in> set sigs. verify_signature E sg (encode_payload (CommitmentPayload_new b c)) p s = Inr ())"
proof -
  have I: "inv E s" using assms(1-3) by (rule reachable_invariant)
  have "checkpoint E origin b c sigs s = Inr s'" using res by simp
  from checkpoint_Inr [OF this] obtain who B signers provs where
    B: "origin = Signed who" "fmlookup (Buckets s) b = Some B" "ensure_writer_or_admin who B = Inr ()"
    and loop: "checkpoint_loop E s (b_primary_providers B) (encode_payload (CommitmentPayload_new b c)) sigs
       (replicate (length (b_primary_providers B)) False, []) = Inr (signers, provs)"
    and quorum: "max (b_min_providers B) 1 \<le> count_ones signers"
    and s': "s' = deposit_event (BucketCheckpointed b c provs) (s\<lparr>Buckets := fmupd b
       ((update_historical_roots B (anchor s) c)\<lparr>
          b_snapshot := Some \<lparr>bs_commitment = c, checkpoint_block = anchor s, primary_signers = signers\<rparr>,
          b_total_snapshots := saturating_add 32 (b_total_snapshots B) 1\<rparr>) (Buckets s)\<rparr>)" .
  have dist: "distinct (b_primary_providers B)" using inv_bucket_ok [OF I B(2)] by (simp add: bucket_ok_def)
  note L = checkpoint_loop_signers [OF dist _ loop, simplified]
  have ids: "{b_primary_providers B ! j | j. j < length signers \<and> signers ! j} = fst ` set sigs"
  proof
    show "{b_primary_providers B ! j | j. j < length signers \<and> signers ! j} \<subseteq> fst ` set sigs"
      using L(1,2) by auto
    show "fst ` set sigs \<subseteq> {b_primary_providers B ! j | j. j < length signers \<and> signers ! j}"
    proof
      fix p assume p: "p \<in> fst ` set sigs"
      then have "p \<in> set (b_primary_providers B)" using L(3) by force
      then obtain j where "j < length (b_primary_providers B)" "p = b_primary_providers B ! j"
        by (auto simp: in_set_conv_nth)
      with L(1,2) p show "p \<in> {b_primary_providers B ! j | j. j < length signers \<and> signers ! j}" by auto
    qed
  qed
  have "count_ones signers = card (fst ` set sigs)"
    unfolding ids [symmetric] count_ones_card [OF dist L(1)] L(1)
    by (rule arg_cong [where f = card]) auto
  then show ?thesis using B quorum L(3) ids by (auto simp: s')
qed

theorem checkpoint_has_quorum_witness:
  "\<exists>B'. fmlookup (Buckets checkpointed) 0 = Some B' \<and> b_primary_providers B' = [11]"
  using checkpoint_has_quorum [OF demo_pallet_env _ reachable_stored run_checkpointed]
  by (auto simp: stored_def bucket0_def)

text \<open>
  A checkpoint updates the history so that slot \<open>i\<close> holds the new commitment
  exactly when the block falls into another interval of the slot's prime than the entry
  that was there; otherwise the older entry stays. The block number of the interval is
  always the current one afterwards.
\<close>

theorem history_after_checkpoint:
  assumes "length (b_historical_roots B) = 6" "i < 6"
  shows "fst (b_historical_roots (update_historical_roots B now c) ! i) = now div HISTORICAL_ROOT_PRIMES ! i \<and>
    snd (b_historical_roots (update_historical_roots B now c) ! i) =
      (if now div HISTORICAL_ROOT_PRIMES ! i = fst (b_historical_roots B ! i)
       then snd (b_historical_roots B ! i) else c)"
proof -
  have len: "length HISTORICAL_ROOT_PRIMES = 6" by (simp add: HISTORICAL_ROOT_PRIMES_def)
  have "historical_loop 0 HISTORICAL_ROOT_PRIMES now c (b_historical_roots B) ! i =
    (if now div HISTORICAL_ROOT_PRIMES ! i \<noteq> fst (b_historical_roots B ! i)
     then (now div HISTORICAL_ROOT_PRIMES ! i, c) else b_historical_roots B ! i)"
    using historical_loop_nth [of 0 HISTORICAL_ROOT_PRIMES "b_historical_roots B" i now c] assms len by simp
  then show ?thesis by (simp add: update_historical_roots_def)
qed

theorem history_after_checkpoint_witness:
  "snd (b_historical_roots (update_historical_roots bucket0 5 demo_commitment) ! 0) = demo_commitment"
  using history_after_checkpoint [of bucket0 0 5 demo_commitment]
  by (simp add: bucket0_def HISTORICAL_ROOT_PRIMES_def)

section \<open>Frozen buckets\<close>

text \<open>
  C26. A frozen bucket stays frozen at the same sequence number under every call but its
  deletion, and its snapshot always starts exactly there: no later checkpoint can drop data
  the bucket was frozen with.
\<close>

theorem frozen_bucket_keeps_data:
  assumes "pallet_env E" "MaxChallengesPerDeadline (Cfg E) < 2 ^ 16" "reachable E s"
    and "fmlookup (Buckets s) b = Some B" "b_frozen_start_seq B = Some f"
    and "dispatch E origin c s = Inr s'" "within_limits c s" "c \<noteq> DeleteBucket b"
  shows "\<exists>B' sn. fmlookup (Buckets s') b = Some B' \<and> b_frozen_start_seq B' = Some f \<and>
    b_snapshot B' = Some sn \<and> start_seq (bs_commitment sn) = f"
proof -
  have I: "inv E s" using assms(1-3) by (rule reachable_invariant)
  have I': "inv E s'" using assms(1-3,6,7) by (rule call_invariant)
  obtain B' where B': "fmlookup (Buckets s') b = Some B'" "b_frozen_start_seq B' = Some f"
  proof (cases "\<exists>b0. c = DeleteBucket b0")
    case True
    then obtain b0 where b0: "c = DeleteBucket b0" "b0 \<noteq> b" using assms(8) by auto
    with assms(6) have "Buckets s' = fmdrop b0 (Buckets s)" by (auto dest: delete_bucket_frame(3))
    with assms(4,5) b0 that show ?thesis by auto
  next
    case False
    then show ?thesis using dispatch_frame(1) [OF I assms(6)] assms(4,5) that
      unfolding frame_def frozen_kept_def by blast
  qed
  then show ?thesis using inv_bucket_ok [OF I' B'(1)] by (auto simp: bucket_ok_def)
qed

theorem frozen_bucket_keeps_data_witness:
  "\<exists>B' sn. fmlookup (Buckets refrozen) 0 = Some B' \<and> b_snapshot B' = Some sn \<and> start_seq (bs_commitment sn) = 0"
  using frozen_bucket_keeps_data [OF demo_pallet_env _ reachable_frozen _ _ run_refrozen, of 0 _ 0]
  by (auto simp: frozen_def)

end
