(* ===== verification/Access_Control.thy ===== *)
theory Access_Control
  imports Challenge_Safety
begin

text \<open>
  Access control of buckets as a specification and its refinement. The specification is a
  step relation on the map from accounts to roles: an admin may add anyone in any role,
  change or remove any member that is not an admin, and give up its own admin role as long
  as another admin remains. Every call of the pallet refines it, on every bucket.
\<close>

section \<open>The specification\<close>

type_synonym roles = "account \<Rightarrow> Role option"

inductive access_step :: "account \<Rightarrow> roles \<Rightarrow> roles \<Rightarrow> bool" where
  grant: "R who = Some Admin \<Longrightarrow> R w = None \<Longrightarrow> access_step who R (R(w \<mapsto> r))"
| change: "R who = Some Admin \<Longrightarrow> R w = Some r0 \<Longrightarrow> r0 \<noteq> Admin \<or> r = Admin \<Longrightarrow> access_step who R (R(w \<mapsto> r))"
| revoke: "R who = Some Admin \<Longrightarrow> R w = Some r0 \<Longrightarrow> r0 \<noteq> Admin \<Longrightarrow> access_step who R (R(w := None))"
| step_down: "R who = Some Admin \<Longrightarrow> R other = Some Admin \<Longrightarrow> other \<noteq> who \<Longrightarrow> r' \<noteq> Some Admin \<Longrightarrow>
    access_step who R (R(who := r'))"

inductive_cases access_stepE: "access_step who R R'"

lemma access_step_caller: "access_step who R R' \<Longrightarrow> R who = Some Admin"
  by (auto elim: access_stepE)

lemma access_step_other_admin:
  "access_step who R R' \<Longrightarrow> R w = Some Admin \<Longrightarrow> w \<noteq> who \<Longrightarrow> R' w = Some Admin"
  by (auto elim!: access_stepE)

lemma access_step_keeps_admin: "access_step who R R' \<Longrightarrow> \<exists>w. R' w = Some Admin"
  by (erule access_stepE) (metis fun_upd_apply option.inject option.distinct(1))+

section \<open>Abstraction of a bucket\<close>

definition roles_of :: "Member list \<Rightarrow> roles" where
  "roles_of ms = map_of (map (\<lambda>m. (m_account m, m_role m)) ms)"

abbreviation bucket_roles :: "Bucket \<Rightarrow> roles" where
  "bucket_roles B \<equiv> roles_of (b_members B)"

lemma roles_of_Some:
  assumes "distinct (map m_account ms)"
  shows "roles_of ms w = Some r \<longleftrightarrow> (\<exists>m\<in>set ms. m_account m = w \<and> m_role m = r)"
proof -
  have "distinct (map fst (map (\<lambda>m. (m_account m, m_role m)) ms))" using assms by (simp add: comp_def)
  from map_of_eq_Some_iff [OF this] show ?thesis by (force simp: roles_of_def)
qed

lemma roles_of_None: "roles_of ms w = None \<longleftrightarrow> w \<notin> m_account ` set ms"
  by (auto simp: roles_of_def map_of_eq_None_iff image_iff)

lemma roles_of_append: "m_account x \<notin> m_account ` set ms \<Longrightarrow> roles_of (ms @ [x]) = (roles_of ms)(m_account x \<mapsto> m_role x)"
  unfolding roles_of_None [symmetric] by (auto simp: roles_of_def map_add_def fun_eq_iff split: option.splits)

lemma other_account:
  assumes "distinct (map m_account ms)" "j < length ms"
  shows "m \<in> set ms \<and> m_account m \<noteq> m_account (ms ! j) \<longleftrightarrow> m \<in> set ms - {ms ! j}"
  using assms by (auto simp: distinct_conv_nth in_set_conv_nth)

lemma roles_of_update:
  assumes d: "distinct (map m_account ms)" and j: "j < length ms"
  shows "roles_of (ms[j := (ms ! j)\<lparr>m_role := r\<rparr>]) = (roles_of ms)(m_account (ms ! j) \<mapsto> r)"
proof -
  have "distinct ms" using d by (simp add: distinct_map)
  with j have set: "set (ms[j := (ms ! j)\<lparr>m_role := r\<rparr>]) = insert ((ms ! j)\<lparr>m_role := r\<rparr>) (set ms - {ms ! j})"
    by (simp add: set_update_distinct)
  have "map m_account (ms[j := (ms ! j)\<lparr>m_role := r\<rparr>]) = map m_account ms"
    using j by (intro nth_equalityI) (auto simp: nth_list_update)
  then have d': "distinct (map m_account (ms[j := (ms ! j)\<lparr>m_role := r\<rparr>]))" using d by simp
  show ?thesis
  proof
    fix w
    have "roles_of (ms[j := (ms ! j)\<lparr>m_role := r\<rparr>]) w = Some x \<longleftrightarrow> ((roles_of ms)(m_account (ms ! j) \<mapsto> r)) w = Some x" for x
      unfolding roles_of_Some [OF d'] set using roles_of_Some [OF d, of w x] other_account [OF d j] by auto
    then show "roles_of (ms[j := (ms ! j)\<lparr>m_role := r\<rparr>]) w = ((roles_of ms)(m_account (ms ! j) \<mapsto> r)) w"
      by (metis option.exhaust)
  qed
qed

lemma roles_of_remove:
  assumes d: "distinct (map m_account ms)" and j: "j < length ms"
  shows "roles_of (remove_at j ms) = (roles_of ms)(m_account (ms ! j) := None)"
proof
  fix w
  have "distinct ms" using d by (simp add: distinct_map)
  with j have set: "set (remove_at j ms) = set ms - {ms ! j}" by (simp add: set_remove_at)
  have d': "distinct (map m_account (remove_at j ms))" using d by (simp add: map_remove_at distinct_remove_at)
  have "roles_of (remove_at j ms) w = Some x \<longleftrightarrow> ((roles_of ms)(m_account (ms ! j) := None)) w = Some x" for x
    unfolding roles_of_Some [OF d'] set using roles_of_Some [OF d, of w x] other_account [OF d j] by auto
  then show "roles_of (remove_at j ms) w = ((roles_of ms)(m_account (ms ! j) := None)) w" by (metis option.exhaust)
qed

lemma ensure_admin_role:
  assumes "bucket_ok E B" shows "ensure_admin who B = Inr () \<longleftrightarrow> bucket_roles B who = Some Admin"
  using assms by (auto simp: ensure_admin_def result_simps roles_of_Some bucket_ok_def list_ex_iff)

lemma locate_member_roles:
  assumes ok: "bucket_ok E B" and loc: "locate_member B w = (t, a, n)"
  shows "t = None \<Longrightarrow> bucket_roles B w = None"
    and "t = Some j \<Longrightarrow> j < length (b_members B) \<and> m_account (b_members B ! j) = w \<and>
      bucket_roles B w = Some (m_role (b_members B ! j)) \<and> (a \<longleftrightarrow> bucket_roles B w = Some Admin)"
    and "t = Some j \<Longrightarrow> 1 < n \<Longrightarrow> \<exists>other. other \<noteq> w \<and> bucket_roles B other = Some Admin"
proof -
  have d: "distinct (map m_account (b_members B))" using ok by (simp add: bucket_ok_def)
  show "t = None \<Longrightarrow> bucket_roles B w = None"
    using locate_member_None [OF ok] loc by (auto simp: roles_of_None)
  assume t: "t = Some j"
  note L = locate_member_Some [OF ok loc [unfolded t]]
  then have "bucket_roles B w = Some (m_role (b_members B ! j))" by (auto simp: roles_of_Some [OF d])
  with L show "j < length (b_members B) \<and> m_account (b_members B ! j) = w \<and>
      bucket_roles B w = Some (m_role (b_members B ! j)) \<and> (a \<longleftrightarrow> bucket_roles B w = Some Admin)" by auto
  assume "1 < n"
  with L obtain k where k: "k < length (b_members B)" "k \<noteq> j" "m_role (b_members B ! k) = Admin"
    using second_admin [of "b_members B" j] by auto
  then have "m_account (b_members B ! k) \<noteq> w" using d L(1,2) by (auto simp: distinct_conv_nth)
  with k show "\<exists>other. other \<noteq> w \<and> bucket_roles B other = Some Admin"
    by (auto simp: roles_of_Some [OF d] intro!: exI [of _ "m_account (b_members B ! k)"])
qed

section \<open>Refinement\<close>

lemma set_member_refines:
  assumes ok: "bucket_ok E B" and B: "fmlookup (Buckets s) b = Some B"
    and res: "set_member E origin b w r s = Inr s'"
  shows "\<exists>who B'. origin = Signed who \<and> Buckets s' = fmupd b B' (Buckets s) \<and>
    access_step who (bucket_roles B) (bucket_roles B')"
proof -
  have d: "distinct (map m_account (b_members B))" using ok by (simp add: bucket_ok_def)
  obtain t a n where loc: "locate_member B w = (t, a, n)" by (cases "locate_member B w")
  from res B obtain who where who: "origin = Signed who" "ensure_admin who B = Inr ()"
    by (auto simp: set_member_def set_member_internal_def result_simps)
  note admin = who(2) [unfolded ensure_admin_role [OF ok]]
  note L = locate_member_roles [OF ok loc]
  show ?thesis
  proof (cases t)
    case None
    with res B loc who obtain x where "m_account x = w \<and> m_role x = r \<and>
        Buckets s' = fmupd b (B\<lparr>b_members := b_members B @ [x]\<rparr>) (Buckets s)"
      by (force simp: set_member_def set_member_internal_def result_simps)
    moreover from this have "access_step who (bucket_roles B) (bucket_roles (B\<lparr>b_members := b_members B @ [x]\<rparr>))"
      using L(1) [OF None] admin by (auto simp: roles_of_append roles_of_None intro!: access_step.grant)
    ultimately show ?thesis using who(1) by blast
  next
    case (Some j)
    with res B loc who have s': "Buckets s' = fmupd b
        (B\<lparr>b_members := (b_members B)[j := (b_members B ! j)\<lparr>m_role := r\<rparr>]\<rparr>) (Buckets s)"
      and guard: "a \<and> r \<noteq> Admin \<longrightarrow> w = who \<and> 1 < n"
      by (auto simp: set_member_def set_member_internal_def result_simps)
    note j = L(2) [OF Some]
    have "access_step who (bucket_roles B) ((bucket_roles B)(w \<mapsto> r))"
    proof (cases "a \<and> r \<noteq> Admin")
      case True
      then show ?thesis using guard L(3) [OF Some] admin by (auto intro: access_step.step_down)
    next
      case False
      then show ?thesis using j admin by (auto intro: access_step.change)
    qed
    then show ?thesis using who(1) s' j roles_of_update [OF d, of j r] by auto
  qed
qed

lemma remove_member_refines:
  assumes ok: "bucket_ok E B" and B: "fmlookup (Buckets s) b = Some B"
    and res: "remove_member E origin b w s = Inr s'"
  shows "\<exists>who B'. origin = Signed who \<and> Buckets s' = fmupd b B' (Buckets s) \<and>
    access_step who (bucket_roles B) (bucket_roles B')"
proof -
  have d: "distinct (map m_account (b_members B))" using ok by (simp add: bucket_ok_def)
  obtain t a n where loc: "locate_member B w = (t, a, n)" by (cases "locate_member B w")
  from res B loc obtain who j where who: "origin = Signed who" "ensure_admin who B = Inr ()" and t: "t = Some j"
    and guard: "a \<longrightarrow> w = who \<and> 1 < n"
    and s': "Buckets s' = fmupd b (B\<lparr>b_members := remove_at j (b_members B)\<rparr>) (Buckets s)"
    by (auto simp: remove_member_def remove_member_internal_def result_simps Let_def)
  note admin = who(2) [unfolded ensure_admin_role [OF ok]]
  note L = locate_member_roles(2,3) [OF ok loc t]
  have "access_step who (bucket_roles B) ((bucket_roles B)(w := None))"
    using guard L admin by (cases a) (auto intro: access_step.step_down access_step.revoke)
  then show ?thesis using who(1) s' L(1) roles_of_remove [OF d, of j] by auto
qed

lemma dispatch_refines_access:
  assumes I: "inv E s" and B: "fmlookup (Buckets s) b = Some B"
    and res: "dispatch E origin c s = Inr s'" and c: "c \<noteq> DeleteBucket b"
  shows "\<exists>B'. fmlookup (Buckets s') b = Some B' \<and>
    (bucket_roles B' = bucket_roles B \<or> (\<exists>who. origin = Signed who \<and> access_step who (bucket_roles B) (bucket_roles B')))"
proof -
  note ok = inv_bucket_ok [OF I]
  consider (set) b' w r where "c = SetMember b' w r" | (rem) b' w where "c = RemoveMember b' w"
    | (del) b' where "c = DeleteBucket b'" "b' \<noteq> b"
    | (other) "\<forall>b w r. c \<noteq> SetMember b w r" "\<forall>b w. c \<noteq> RemoveMember b w" "\<forall>b. c \<noteq> DeleteBucket b"
    using c by blast
  then show ?thesis
  proof cases
    case set
    with res obtain B0 where B0: "fmlookup (Buckets s) b' = Some B0"
      by (auto simp: set_member_def set_member_internal_def result_simps)
    from set res have "set_member E origin b' w r s = Inr s'" by simp
    from set_member_refines [OF ok [OF B0] B0 this] B B0 show ?thesis by auto
  next
    case rem
    with res obtain B0 where B0: "fmlookup (Buckets s) b' = Some B0"
      by (auto simp: remove_member_def remove_member_internal_def result_simps)
    from rem res have "remove_member E origin b' w s = Inr s'" by simp
    from remove_member_refines [OF ok [OF B0] B0 this] B B0 show ?thesis by auto
  next
    case del
    with res have "Buckets s' = fmdrop b' (Buckets s)" by (auto dest: delete_bucket_frame(3))
    with B del show ?thesis by auto
  next
    case other
    from dispatch_frame(3) [OF I res other(3,1,2)] B show ?thesis by (fastforce simp: members_kept_def)
  qed
qed

text \<open>
  C27. Every call refines the access control specification: on every bucket it does not
  delete, either no role changes, or the caller is an admin and the roles change by one step
  of the specification.
\<close>

theorem calls_refine_access_control:
  assumes "pallet_env E" "MaxChallengesPerDeadline (Cfg E) < 2 ^ 16" "reachable E s"
    and "fmlookup (Buckets s) b = Some B" "dispatch E origin c s = Inr s'" "c \<noteq> DeleteBucket b"
  shows "\<exists>B'. fmlookup (Buckets s') b = Some B' \<and>
    (bucket_roles B' = bucket_roles B \<or> (\<exists>who. origin = Signed who \<and> access_step who (bucket_roles B) (bucket_roles B')))"
  using reachable_invariant [OF assms(1-3)] assms(4-6) by (rule dispatch_refines_access)

theorem calls_refine_access_control_witness:
  "\<exists>B'. fmlookup (Buckets widened) 0 = Some B' \<and>
    (bucket_roles B' = bucket_roles bucket0 \<or> access_step 12 (bucket_roles bucket0) (bucket_roles B'))"
proof -
  have "fmlookup (Buckets stored) 0 = Some bucket0" by (simp add: stored_def)
  from calls_refine_access_control [OF demo_pallet_env _ reachable_stored this run_widened] show ?thesis by auto
qed

text \<open>
  No call takes the admin role from anyone but its signer: an admin other than the
  caller stays one on every bucket that is not deleted, and the bucket still has an admin.
\<close>

theorem admin_only_steps_down:
  assumes "pallet_env E" "MaxChallengesPerDeadline (Cfg E) < 2 ^ 16" "reachable E s"
    and B: "fmlookup (Buckets s) b = Some B" and w: "bucket_roles B w = Some Admin"
    and res: "dispatch E origin c s = Inr s'" "c \<noteq> DeleteBucket b"
  shows "\<exists>B'. fmlookup (Buckets s') b = Some B' \<and> (\<exists>a. bucket_roles B' a = Some Admin) \<and>
    (origin = Signed w \<or> bucket_roles B' w = Some Admin)"
proof -
  from dispatch_refines_access [OF reachable_invariant [OF assms(1-3)] B res]
  obtain B' where B': "fmlookup (Buckets s') b = Some B'"
    and step: "bucket_roles B' = bucket_roles B \<or> (\<exists>who. origin = Signed who \<and> access_step who (bucket_roles B) (bucket_roles B'))"
    by blast
  from step w have "\<exists>a. bucket_roles B' a = Some Admin" by (auto dest: access_step_keeps_admin)
  moreover from step w have "origin = Signed w \<or> bucket_roles B' w = Some Admin" by (auto dest: access_step_other_admin)
  ultimately show ?thesis using B' by blast
qed

theorem admin_only_steps_down_witness:
  "\<exists>B'. fmlookup (Buckets challenged) 0 = Some B' \<and> bucket_roles B' 12 = Some Admin"
proof -
  have "fmlookup (Buckets checkpointed) 0 = Some bucket0_checkpointed" by (simp add: checkpointed_def)
  moreover have "bucket_roles bucket0_checkpointed 12 = Some Admin"
    by (simp add: roles_of_def bucket0_checkpointed_def bucket0_def)
  ultimately show ?thesis
    using admin_only_steps_down [OF demo_pallet_env _ reachable_checkpointed _ _ run_challenged] by fastforce
qed

end
