(* ===== verification/Data_Integrity.thy ===== *)
theory Data_Integrity
  imports Merkle Mmr "HOL-Library.Log_Nat"
begin

text \<open>
  What the data structures under a commitment guarantee: a proof the provider builds always
  verifies, a proof that verifies shows the chunk at its index, the chunk tree is the tree
  of RFC 6962 without its leaf hashing, it is built in logarithmically many levels, and the
  nodes reported for upload hash to one another up to the root.
\<close>

section \<open>The chunk tree against a reference\<close>

text \<open>
  The reference splits a list of more than one hash at the largest power of two below its
  length and hashes the roots of the two parts.
\<close>

definition split_point :: "nat \<Rightarrow> nat" where
  "split_point n = 2 ^ (floorlog 2 (n - 1) - 1)"

lemma split_point_bounds:
  assumes "1 < n" shows "0 < split_point n" "split_point n < n" "n \<le> 2 * split_point n"
proof -
  have "2 ^ (floorlog 2 (n - 1) - 1) \<le> n - 1 \<and> n - 1 < 2 ^ floorlog 2 (n - 1)"
    using assms by (intro floorlog_bounds) auto
  moreover have "0 < floorlog 2 (n - 1)" using assms floorlog_eq_zero_iff [of 2 "n - 1"] by linarith
  then have "(2::nat) ^ floorlog 2 (n - 1) = 2 * 2 ^ (floorlog 2 (n - 1) - 1)"
    by (cases "floorlog 2 (n - 1)") simp_all
  ultimately show "split_point n < n" "n \<le> 2 * split_point n" using assms unfolding split_point_def by linarith+
qed (simp add: split_point_def)

lemma split_point_unique:
  assumes "1 < n" "2 ^ e < n" "n \<le> 2 * 2 ^ e" shows "split_point n = 2 ^ e"
proof -
  obtain d where d: "split_point n = 2 ^ d" by (simp add: split_point_def)
  note b = split_point_bounds [OF assms(1), unfolded d]
  have "(2::nat) ^ d < 2 ^ Suc e" "(2::nat) ^ e < 2 ^ Suc d" using b assms(2,3) by auto
  then have "d = e" by (metis power_less_imp_less_exp one_less_numeral_iff semiring_norm(76) less_Suc_eq_le le_antisym)
  then show ?thesis by (simp add: d)
qed

function reference_root :: "(H256 \<Rightarrow> H256 \<Rightarrow> H256) \<Rightarrow> H256 list \<Rightarrow> H256" where
  "reference_root hc xs =
     (if length xs \<le> 1 then (if xs = [] then H256_zero else hd xs)
      else hc (reference_root hc (take (split_point (length xs)) xs))
              (reference_root hc (drop (split_point (length xs)) xs)))"
  by pat_completeness auto
termination
proof (relation "measure (\<lambda>(hc, xs). length xs)")
  fix hc :: "H256 \<Rightarrow> H256 \<Rightarrow> H256" and xs :: "H256 list"
  assume "\<not> length xs \<le> 1"
  then have "0 < split_point (length xs)" "split_point (length xs) < length xs"
    by (auto intro: split_point_bounds)
  then show "((hc, take (split_point (length xs)) xs), (hc, xs)) \<in> measure (\<lambda>(hc, xs). length xs)"
    "((hc, drop (split_point (length xs)) xs), (hc, xs)) \<in> measure (\<lambda>(hc, xs). length xs)" by auto
qed simp

declare reference_root.simps [simp del]

lemma reference_root_single: "reference_root hc [x] = x"
  by (simp add: reference_root.simps)

lemma reference_root_split:
  assumes "1 < length xs" "2 ^ e < length xs" "length xs \<le> 2 * 2 ^ e"
  shows "reference_root hc xs = hc (reference_root hc (take (2 ^ e) xs)) (reference_root hc (drop (2 ^ e) xs))"
  using assms split_point_unique [OF assms] by (subst reference_root.simps) simp

lemma next_level_append: "even (length xs) \<Longrightarrow> next_level hc (xs @ ys) = next_level hc xs @ next_level hc ys"
  by (induction hc xs rule: next_level.induct) auto

lemma next_level_short: "length xs \<le> 1 \<Longrightarrow> next_level hc xs = xs"
  by (induction hc xs rule: next_level.induct) auto

lemma reference_root_next_level: "reference_root hc (next_level hc xs) = reference_root hc xs"
proof (induction "length xs" arbitrary: xs rule: less_induct)
  case less
  consider "length xs \<le> 1" | "length xs = 2" | "2 < length xs" by linarith
  then show ?case
  proof cases
    case 1 then show ?thesis by (simp add: next_level_short)
  next
    case 2
    then obtain x y where "xs = [x, y]" by (auto simp: numeral_2_eq_2 length_Suc_conv)
    then show ?thesis using reference_root_split [of xs 0 hc] by (simp add: reference_root_single)
  next
    case 3
    let ?n = "length xs"
    obtain d where d: "split_point ?n = 2 ^ d" by (simp add: split_point_def)
    note b = split_point_bounds [of ?n, unfolded d]
    obtain e where e: "d = Suc e" using b 3 by (cases d) auto
    let ?k = "2 ^ Suc e :: nat" and ?up = "next_level hc xs"
    have k: "?k < ?n" "?n \<le> 2 * ?k" using b 3 e by auto
    have up: "?up = next_level hc (take ?k xs) @ next_level hc (drop ?k xs)"
      using next_level_append [of "take ?k xs" hc "drop ?k xs"] k by simp
    have half: "length (next_level hc (take ?k xs)) = 2 ^ e" using k by (simp add: length_next_level div_ceil_2)
    have len: "length ?up = (?n + 1) div 2" by (simp add: length_next_level div_ceil_2)
    have "2 ^ e < length ?up" "length ?up \<le> 2 * 2 ^ e" "1 < length ?up" unfolding len using k 3 by auto
    from reference_root_split [OF this(3,1,2), of hc]
    have "reference_root hc ?up =
        hc (reference_root hc (next_level hc (take ?k xs))) (reference_root hc (next_level hc (drop ?k xs)))"
      using half by (simp add: up)
    also have "\<dots> = hc (reference_root hc (take ?k xs)) (reference_root hc (drop ?k xs))"
      using less [of "take ?k xs"] less [of "drop ?k xs"] k by simp
    also have "\<dots> = reference_root hc xs" using reference_root_split [of xs "Suc e" hc] k 3 by simp
    finally show ?thesis .
  qed
qed

lemma root_is_reference: "merkle_root hc leaves = reference_root hc leaves"
proof -
  have "leaves \<noteq> [] \<Longrightarrow> root_of_level hc leaves = reference_root hc leaves"
  proof (induction "length leaves" arbitrary: leaves rule: less_induct)
    case less
    show ?case
    proof (cases "1 < length leaves")
      case True
      have "next_level hc leaves \<noteq> []" using True length_next_level [of hc leaves] by (auto simp: div_ceil_2)
      then show ?thesis using less(1) [of "next_level hc leaves"] True
        by (simp add: root_of_level_step length_next_level div_ceil_2_less reference_root_next_level)
    next
      case False
      with less(2) obtain x where "leaves = [x]" by (cases leaves) auto
      then show ?thesis by (simp add: root_of_level_single reference_root_single)
    qed
  qed
  then show ?thesis
    by (cases "leaves = []")
      (simp_all add: merkle_root_eq merkle_root_def [of hc "[]"] root_of_levels_def levels_def reference_root.simps [of hc "[]"])
qed

text \<open>
  The level-by-level construction, which promotes an unpaired last node unchanged,
  computes the same root as the recursive reference, for every number of leaves.
\<close>

theorem merkle_root_is_reference: "merkle_root hc leaves = reference_root hc leaves"
  by (rule root_is_reference)

section \<open>Proofs\<close>

text \<open>
  Every proof of a built batch verifies: for each leaf in the requested range the batch
  holds a proof that is accepted for the leaf's hash, its index, the number of leaves and
  the root of the tree.
\<close>

theorem built_proofs_verify:
  assumes "start \<le> i" "i < stop" "i < length leaves"
  shows "verify_merkle_proof hc (leaves ! i) i (length leaves)
    (build_merkle_proofs hc leaves start stop ! (i - start)) (merkle_root hc leaves)"
proof -
  have ne: "leaves \<noteq> []" using assms(3) by auto
  have "build_merkle_proofs hc leaves start stop ! (i - start) = proof_from_levels (levels_from hc leaves) i"
    using assms ne by (simp add: build_merkle_proofs_def levels_def Let_def min_def)
  then show ?thesis
    using verify_loop_complete [OF assms(3), of hc "[]"] assms(3) ne
    by (simp add: verify_merkle_proof_def merkle_root_eq)
qed

theorem built_proofs_verify_witness:
  "verify_merkle_proof (hash_children (\<lambda>_. H256_zero)) (H256_repeat_byte 3) 2 3
    (build_merkle_proofs (hash_children (\<lambda>_. H256_zero)) [H256_repeat_byte 1, H256_repeat_byte 2, H256_repeat_byte 3] 1 5 ! 1)
    (merkle_root (hash_children (\<lambda>_. H256_zero)) [H256_repeat_byte 1, H256_repeat_byte 2, H256_repeat_byte 3])"
  using built_proofs_verify [of 1 2 5 "[H256_repeat_byte 1, H256_repeat_byte 2, H256_repeat_byte 3]"
      "hash_children (\<lambda>_. H256_zero)"] by (simp add: eval_nat_numeral)

text \<open>
  C32. A proof that verifies against the root of a list of leaves is a proof of the leaf at
  that index, unless two of the strings hashed in building the tree and in checking the
  proof are different and have the same hash.
\<close>

theorem verified_leaf_is_at_index:
  assumes "verify_merkle_proof (hash_children blake2_256) leaf idx (length leaves) prf
    (merkle_root (hash_children blake2_256) leaves)"
  shows "idx < length leaves \<and> (leaf = leaves ! idx \<or> collision_among blake2_256 (proof_strings blake2_256 leaf idx leaves prf))"
proof -
  have "idx < length leaves" using assms by (simp add: verify_merkle_proof_def split: if_splits)
  then show ?thesis using verified_proof_sound [OF assms] by blast
qed

theorem verified_leaf_is_at_index_witness:
  "H256_repeat_byte 3 = [H256_repeat_byte 3, H256_repeat_byte 4] ! 0"
proof -
  let ?h = "\<lambda>_ :: byte list. H256_zero" and ?ls = "[H256_repeat_byte 3, H256_repeat_byte 4]"
  have "verify_merkle_proof (hash_children ?h) (H256_repeat_byte 3) 0 (length ?ls) [H256_repeat_byte 4] (merkle_root (hash_children ?h) ?ls)"
    by (simp add: verify_merkle_proof_def verify_loop.simps merkle_root_eq root_of_level_step root_of_level_single div_ceil_def)
  moreover have "\<not> collision_among ?h (proof_strings ?h (H256_repeat_byte 3) 0 ?ls [H256_repeat_byte 4])"
    by (simp add: collision_among_def proof_strings_def tree_pairs_def levels_from_step levels_from_single verify_pairs.simps
        div_ceil_def Let_def)
  ultimately show ?thesis using verified_leaf_is_at_index [of ?h "H256_repeat_byte 3" 0 ?ls "[H256_repeat_byte 4]"] by blast
qed

section \<open>Levels and nodes\<close>

lemma length_levels_from: "level \<noteq> [] \<Longrightarrow> length (levels_from hc level) = Suc (ceillog2 (length level))"
proof (induction "length level" arbitrary: level rule: less_induct)
  case less
  show ?case
  proof (cases "1 < length level")
    case True
    have "next_level hc level \<noteq> []" using True length_next_level [of hc level] by (auto simp: div_ceil_2)
    moreover have "ceillog2 (length level) = Suc (ceillog2 ((length level + 1) div 2))"
      using True ceillog2_rec [of "length level"] by simp
    ultimately show ?thesis using less(1) [of "next_level hc level"] True
      by (simp add: levels_from_step length_next_level div_ceil_2)
  next
    case False
    then show ?thesis by (simp add: levels_from_single)
  qed
qed

text \<open>
  Building the tree over \<open>n\<close> leaves ends with \<open>1 + \<lceil>log\<^sub>2 n\<rceil>\<close> levels, and
  none for no leaves, so a proof never has more than \<open>\<lceil>log\<^sub>2 n\<rceil>\<close> hashes.
\<close>

theorem levels_logarithmic:
  "length (levels hc leaves) = (if leaves = [] then 0 else 1 + ceillog2 (length leaves)) \<and>
   length (proof_from_levels (levels hc leaves) idx) \<le> ceillog2 (length leaves)"
proof -
  have "length (proof_from_levels ls idx) \<le> length ls - 1" for ls idx
    by (induction ls idx rule: proof_from_levels.induct) auto
  then have "length (proof_from_levels (levels hc leaves) idx) \<le> length (levels hc leaves) - 1" .
  then show ?thesis by (cases "leaves = []") (simp_all add: levels_def length_levels_from)
qed

lemma chunk_nodes_next_level:
  "n \<in> set (chunk_nodes xs (next_level hc xs)) \<Longrightarrow> node_hash n = hc (node_left n) (node_right n)"
  by (induction hc xs rule: next_level.induct) (auto split: list.splits)

lemma length_chunk_nodes: "length (chunk_nodes xs (next_level hc xs)) = length xs div 2"
  by (induction hc xs rule: next_level.induct) auto

lemma nodes_of_levels_from:
  "(\<forall>n\<in>set (nodes_of_levels (levels_from hc level)). node_hash n = hc (node_left n) (node_right n)) \<and>
   length (nodes_of_levels (levels_from hc level)) = length level - 1"
proof (induction "length level" arbitrary: level rule: less_induct)
  case less
  show ?case
  proof (cases "1 < length level")
    case True
    obtain rest where r: "levels_from hc (next_level hc level) = next_level hc level # rest"
      using levels_from.simps [of hc "next_level hc level"] by (cases "1 < length (next_level hc level)") auto
    have "length (next_level hc level) = (length level + 1) div 2" by (simp add: length_next_level div_ceil_2)
    then show ?thesis using less(1) [of "next_level hc level"] True chunk_nodes_next_level [of _ level hc]
      by (auto simp: levels_from_step r length_chunk_nodes)
  next
    case False
    then show ?thesis by (simp add: levels_from_single)
  qed
qed

text \<open>
  The nodes reported with the root of a tree over \<open>n\<close> leaves are \<open>n - 1\<close> in
  number, and each is the hash of the two children it names.
\<close>

theorem merkle_tree_nodes_hash:
  "fst (merkle_tree hc leaves) = merkle_root hc leaves \<and>
   length (snd (merkle_tree hc leaves)) = length leaves - 1 \<and>
   map node_hash (snd (merkle_tree hc leaves)) = map (\<lambda>n. hc (node_left n) (node_right n)) (snd (merkle_tree hc leaves))"
  using nodes_of_levels_from [of hc leaves]
  by (cases "leaves = []") (auto simp: merkle_tree_def merkle_root_def levels_def Let_def)

end
