(* ===== verification/Queries.thy ===== *)
theory Queries
  imports Agreements "HOL-Library.Product_Lexorder"
begin

text \<open>
  The read-only runtime interface (\<open>runtime_api.rs\<close>, \<open>impls/queries.rs\<close>,
  \<open>impls/marketplace.rs\<close>): the response records, the queries over the storage items
  and the marketplace matching. Storage maps are iterated in the order of their hashed keys;
  the hashed key of an entry, read as a number, is a field of \<open>storage_order\<close>.
  \<open>iter_prefix\<close> visits the entries of \<open>iter\<close> with that first key.
\<close>

section \<open>Iteration\<close>

record storage_order =
  Providers_key :: "account \<Rightarrow> nat"
  Buckets_key :: "BucketId \<Rightarrow> nat"
  StorageAgreements_key :: "BucketId \<times> account \<Rightarrow> nat"
  Challenges_key :: "nat \<times> nat \<Rightarrow> nat"

definition storage_iter :: "('k::linorder \<Rightarrow> nat) \<Rightarrow> ('k, 'v) fmap \<Rightarrow> ('k \<times> 'v) list" where
  "storage_iter key m = sort_key (key \<circ> fst) (sorted_list_of_fmap m)"

definition saturated_into :: "nat \<Rightarrow> nat \<Rightarrow> nat" where
  "saturated_into w x = min x (2 ^ w - 1)"

definition page :: "nat \<Rightarrow> nat \<Rightarrow> 'a list \<Rightarrow> 'a list" where
  "page offset limit xs = take limit (drop offset xs)"

section \<open>Responses\<close>

record ProviderStatsInfo =
  si_registered_at :: nat
  si_agreements_total :: nat
  si_agreements_extended :: nat
  si_agreements_not_extended :: nat
  si_agreements_burned :: nat
  si_total_bytes_committed :: nat
  si_challenges_received_authorized :: nat
  si_challenges_received_public :: nat
  si_challenges_failed :: nat
  si_lifetime_revenue :: nat
  si_reputation :: nat

record ProviderInfoResponse =
  pr_multiaddr :: "byte list"
  pr_public_key :: "byte list"
  pr_stake :: nat
  pr_committed_bytes :: nat
  pr_min_duration :: nat
  pr_max_duration :: nat
  pr_price_per_byte :: nat
  pr_accepting_primary :: bool
  pr_replica_sync_price :: "nat option"
  pr_accepting_extensions :: bool
  pr_max_capacity :: nat
  pr_min_agreement_bytes :: nat
  pr_available_capacity :: "nat option"
  pr_deregister_at :: "nat option"
  pr_stats :: ProviderStatsInfo

record StorageRequirements =
  rq_bytes_needed :: nat
  rq_min_duration :: nat
  rq_max_price_per_byte :: nat
  rq_primary_only :: bool

datatype PartialMatchReason =
    PriceTooHigh | InsufficientCapacity | DurationMismatch | NotAccepting | BelowMinAgreementBytes

record MatchedProvider =
  mt_account :: "byte list"
  mt_info :: ProviderInfoResponse
  mt_match_score :: nat
  mt_available_capacity :: "nat option"
  mt_partial_reason :: "PartialMatchReason option"

record BucketMemberResponse =
  bm_account :: "byte list"
  bm_role :: Role

record BucketResponse =
  br_bucket_id :: BucketId
  br_members :: "BucketMemberResponse list"
  br_frozen_start_seq :: "nat option"
  br_min_providers :: nat
  br_primary_providers :: "byte list list"
  br_snapshot :: "BucketSnapshot option"
  br_total_snapshots :: nat
  br_visibility :: Visibility

record AgreementResponse =
  ar_bucket_id :: BucketId
  ar_owner :: "byte list"
  ar_provider :: "byte list"
  ar_max_bytes :: nat
  ar_payment_locked :: nat
  ar_price_per_byte :: nat
  ar_expires_at :: nat
  ar_extensions_blocked :: bool
  ar_role :: ProviderRole
  ar_started_at :: nat

definition MAX_CHALLENGE_CANDIDATES :: nat where
  "MAX_CHALLENGE_CANDIDATES = 256"

record ChallengeCandidate =
  cc_bucket_id :: BucketId
  cc_provider :: "byte list"
  cc_stake :: nat
  cc_challenges_received_authorized :: nat
  cc_challenges_received_public :: nat
  cc_challenges_failed :: nat
  cc_reputation :: nat

record ChallengeView =
  cv_bucket_id :: BucketId
  cv_provider :: "byte list"
  cv_challenger :: "byte list"
  cv_commitment :: Commitment
  cv_target :: ChunkLocation
  cv_deadline :: nat
  cv_index :: nat
  cv_deposit :: nat
  cv_authorized :: bool

section \<open>Views of single entries\<close>

definition stats_info :: "ProviderStats \<Rightarrow> ProviderStatsInfo" where
  "stats_info st = \<lparr>
     si_registered_at = saturated_into 32 (st_registered_at st),
     si_agreements_total = st_agreements_total st,
     si_agreements_extended = st_agreements_extended st,
     si_agreements_not_extended = st_agreements_not_extended st,
     si_agreements_burned = st_agreements_burned st,
     si_total_bytes_committed = st_total_bytes_committed st,
     si_challenges_received_authorized = st_challenges_received_authorized st,
     si_challenges_received_public = st_challenges_received_public st,
     si_challenges_failed = st_challenges_failed st,
     si_lifetime_revenue = saturated_into 128 (st_lifetime_revenue st),
     si_reputation = reputation st\<rparr>"

definition available_capacity :: "ProviderInfo \<Rightarrow> nat option" where
  "available_capacity info =
     (if 0 < ps_max_capacity (pi_settings info)
      then Some (saturating_sub (ps_max_capacity (pi_settings info)) (pi_committed_bytes info))
      else None)"

definition provider_response :: "ProviderInfo \<Rightarrow> ProviderInfoResponse" where
  "provider_response info = \<lparr>
     pr_multiaddr = pi_multiaddr info,
     pr_public_key = pi_public_key info,
     pr_stake = saturated_into 128 (pi_stake info),
     pr_committed_bytes = pi_committed_bytes info,
     pr_min_duration = saturated_into 32 (ps_min_duration (pi_settings info)),
     pr_max_duration = saturated_into 32 (ps_max_duration (pi_settings info)),
     pr_price_per_byte = saturated_into 128 (ps_price_per_byte (pi_settings info)),
     pr_accepting_primary = ps_accepting_primary (pi_settings info),
     pr_replica_sync_price = map_option (saturated_into 128) (ps_replica_sync_price (pi_settings info)),
     pr_accepting_extensions = ps_accepting_extensions (pi_settings info),
     pr_max_capacity = ps_max_capacity (pi_settings info),
     pr_min_agreement_bytes = ps_min_agreement_bytes (pi_settings info),
     pr_available_capacity = available_capacity info,
     pr_deregister_at = map_option (saturated_into 32) (pi_deregister_at info),
     pr_stats = stats_info (pi_stats info)\<rparr>"

definition challenge_to_response :: "('c, 'm) env \<Rightarrow> nat \<Rightarrow> nat \<Rightarrow> Challenge \<Rightarrow> ChallengeView" where
  "challenge_to_response E dl idx c = \<lparr>
     cv_bucket_id = ch_bucket_id c,
     cv_provider = encode_account (Crypto E) (ch_provider c),
     cv_challenger = encode_account (Crypto E) (ch_challenger c),
     cv_commitment = ch_commitment c,
     cv_target = ch_target c,
     cv_deadline = saturated_into 32 dl,
     cv_index = idx,
     cv_deposit = saturated_into 128 (ch_deposit c),
     cv_authorized = ch_authorized c\<rparr>"

definition role_response :: "ProviderRole \<Rightarrow> ProviderRole" where
  "role_response r =
     (case r of
        Primary \<Rightarrow> Primary
      | Replica bal price interval synced \<Rightarrow>
          Replica (saturated_into 128 bal) (saturated_into 128 price) (saturated_into 32 interval)
            (map_option (\<lambda>r. r\<lparr>rs_block := saturated_into 32 (rs_block r)\<rparr>) synced))"

definition agreement_to_response ::
    "('c, 'm) env \<Rightarrow> BucketId \<Rightarrow> account \<Rightarrow> StorageAgreement \<Rightarrow> AgreementResponse" where
  "agreement_to_response E bucket_id provider a = \<lparr>
     ar_bucket_id = bucket_id,
     ar_owner = encode_account (Crypto E) (ag_owner a),
     ar_provider = encode_account (Crypto E) provider,
     ar_max_bytes = ag_max_bytes a,
     ar_payment_locked = saturated_into 128 (ag_payment_locked a),
     ar_price_per_byte = saturated_into 128 (ag_price_per_byte a),
     ar_expires_at = saturated_into 32 (ag_expires_at a),
     ar_extensions_blocked = ag_extensions_blocked a,
     ar_role = role_response (ag_role a),
     ar_started_at = saturated_into 32 (ag_started_at a)\<rparr>"

section \<open>Queries\<close>

definition current_anchor_block :: "'c pstate \<Rightarrow> nat" where
  "current_anchor_block s = anchor s"

definition anchor_block_time_millis :: "('c, 'm) env \<Rightarrow> nat" where
  "anchor_block_time_millis E = AnchorBlockTimeMillis (Cfg E)"

definition query_provider_info :: "account \<Rightarrow> 'c pstate \<Rightarrow> ProviderInfoResponse option" where
  "query_provider_info provider s = map_option provider_response (fmlookup (Providers s) provider)"

definition query_providers ::
    "storage_order \<Rightarrow> nat \<Rightarrow> nat \<Rightarrow> 'c pstate \<Rightarrow> (account \<times> ProviderInfoResponse) list" where
  "query_providers ord offset limit s =
     map (\<lambda>(account, info). (account, provider_response info))
       (page offset limit (storage_iter (Providers_key ord) (Providers s)))"

definition query_bucket_info :: "('c, 'm) env \<Rightarrow> BucketId \<Rightarrow> 'c pstate \<Rightarrow> BucketResponse option" where
  "query_bucket_info E bucket_id s = map_option (\<lambda>bucket. \<lparr>
     br_bucket_id = bucket_id,
     br_members = map (\<lambda>m. \<lparr>bm_account = encode_account (Crypto E) (m_account m), bm_role = m_role m\<rparr>)
       (b_members bucket),
     br_frozen_start_seq = b_frozen_start_seq bucket,
     br_min_providers = b_min_providers bucket,
     br_primary_providers = map (encode_account (Crypto E)) (b_primary_providers bucket),
     br_snapshot = map_option (\<lambda>sn. sn\<lparr>checkpoint_block := saturated_into 32 (checkpoint_block sn)\<rparr>)
       (b_snapshot bucket),
     br_total_snapshots = b_total_snapshots bucket,
     br_visibility = b_visibility bucket\<rparr>) (fmlookup (Buckets s) bucket_id)"

definition query_bucket_providers :: "BucketId \<Rightarrow> 'c pstate \<Rightarrow> account list" where
  "query_bucket_providers bucket_id s =
     (case fmlookup (Buckets s) bucket_id of None \<Rightarrow> [] | Some bucket \<Rightarrow> b_primary_providers bucket)"

definition query_agreement_info ::
    "('c, 'm) env \<Rightarrow> BucketId \<Rightarrow> account \<Rightarrow> 'c pstate \<Rightarrow> AgreementResponse option" where
  "query_agreement_info E bucket_id provider s =
     map_option (agreement_to_response E bucket_id provider) (fmlookup (StorageAgreements s) (bucket_id, provider))"

definition query_bucket_agreements ::
    "('c, 'm) env \<Rightarrow> storage_order \<Rightarrow> BucketId \<Rightarrow> 'c pstate \<Rightarrow> AgreementResponse list" where
  "query_bucket_agreements E ord bucket_id s =
     map (\<lambda>((_, provider), a). agreement_to_response E bucket_id provider a)
       (filter (\<lambda>((b, _), _). b = bucket_id) (storage_iter (StorageAgreements_key ord) (StorageAgreements s)))"

definition query_bucket_ids :: "storage_order \<Rightarrow> nat \<Rightarrow> nat \<Rightarrow> 'c pstate \<Rightarrow> BucketId list" where
  "query_bucket_ids ord offset limit s =
     page offset limit (map fst (storage_iter (Buckets_key ord) (Buckets s)))"

definition query_provider_agreements ::
    "('c, 'm) env \<Rightarrow> storage_order \<Rightarrow> account \<Rightarrow> 'c pstate \<Rightarrow> AgreementResponse list" where
  "query_provider_agreements E ord provider s =
     map (\<lambda>((bucket_id, _), a). agreement_to_response E bucket_id provider a)
       (filter (\<lambda>((_, p), _). p = provider) (storage_iter (StorageAgreements_key ord) (StorageAgreements s)))"

definition query_challenges_at ::
    "('c, 'm) env \<Rightarrow> storage_order \<Rightarrow> nat \<Rightarrow> 'c pstate \<Rightarrow> ChallengeView list" where
  "query_challenges_at E ord block s =
     map (\<lambda>((_, idx), c). challenge_to_response E block idx c)
       (filter (\<lambda>((dl, _), _). dl = block) (storage_iter (Challenges_key ord) (Challenges s)))"

text \<open>The three queries below share one shape and differ in the filter.\<close>

definition challenges_where ::
    "('c, 'm) env \<Rightarrow> storage_order \<Rightarrow> (nat \<Rightarrow> Challenge \<Rightarrow> bool) \<Rightarrow> 'c pstate \<Rightarrow> ChallengeView list" where
  "challenges_where E ord P s =
     map (\<lambda>((dl, idx), c). challenge_to_response E dl idx c)
       (filter (\<lambda>((dl, _), c). P dl c) (storage_iter (Challenges_key ord) (Challenges s)))"

definition query_bucket_challenges ::
    "('c, 'm) env \<Rightarrow> storage_order \<Rightarrow> BucketId \<Rightarrow> 'c pstate \<Rightarrow> ChallengeView list" where
  "query_bucket_challenges E ord bucket_id = challenges_where E ord (\<lambda>_ c. ch_bucket_id c = bucket_id)"

definition query_provider_challenges ::
    "('c, 'm) env \<Rightarrow> storage_order \<Rightarrow> account \<Rightarrow> 'c pstate \<Rightarrow> ChallengeView list" where
  "query_provider_challenges E ord provider s =
     challenges_where E ord (\<lambda>dl c. ch_provider c = provider \<and> current_anchor_block s \<le> dl) s"

definition query_challenger_challenges ::
    "('c, 'm) env \<Rightarrow> storage_order \<Rightarrow> account \<Rightarrow> 'c pstate \<Rightarrow> ChallengeView list" where
  "query_challenger_challenges E ord challenger = challenges_where E ord (\<lambda>_ c. ch_challenger c = challenger)"

definition query_can_accept_bytes :: "('c, 'm) env \<Rightarrow> account \<Rightarrow> nat \<Rightarrow> 'c pstate \<Rightarrow> bool" where
  "query_can_accept_bytes E provider additional_bytes s =
     (case fmlookup (Providers s) provider of
        None \<Rightarrow> False
      | Some info \<Rightarrow>
          let new_committed_bytes = saturating_add 64 (pi_committed_bytes info) additional_bytes
          in if 0 < ps_max_capacity (pi_settings info) \<and> ps_max_capacity (pi_settings info) < new_committed_bytes
             then False
             else case checked_mul 128 (MinStakePerByte (Cfg E)) (saturated_into 128 new_committed_bytes) of
                    None \<Rightarrow> False
                  | Some required_stake \<Rightarrow> required_stake \<le> pi_stake info)"

section \<open>Marketplace\<close>

text \<open>One check of the matching: a failed one lowers the score and is the reason if it is the first.\<close>

definition penalize ::
    "bool \<Rightarrow> nat \<Rightarrow> PartialMatchReason \<Rightarrow> nat \<times> PartialMatchReason option \<Rightarrow> nat \<times> PartialMatchReason option" where
  "penalize failed points why = (\<lambda>(score, reason).
     if 0 < score \<and> failed
     then (saturating_sub score points, if reason = None then Some why else reason)
     else (score, reason))"

definition match_provider ::
    "StorageRequirements \<Rightarrow> ProviderInfo \<Rightarrow> nat \<times> PartialMatchReason option" where
  "match_provider req info =
     (let settings = pi_settings info;
          available = (if 0 < ps_max_capacity settings
                       then saturating_sub (ps_max_capacity settings) (pi_committed_bytes info) else 2 ^ 64 - 1);
          price = saturated_into 128 (ps_price_per_byte settings);
          min_dur = saturated_into 32 (ps_min_duration settings);
          max_dur = saturated_into 32 (ps_max_duration settings);
          not_accepting = (if rq_primary_only req then \<not> ps_accepting_primary settings
                           else \<not> ps_accepting_primary settings \<and> ps_replica_sync_price settings = None);
          start = (if not_accepting then (0, Some NotAccepting) else (100, None))
      in penalize (rq_min_duration req < min_dur \<or> max_dur < rq_min_duration req) 20 DurationMismatch
        (penalize (rq_max_price_per_byte req < price) 30 PriceTooHigh
        (penalize (rq_bytes_needed req < ps_min_agreement_bytes settings) 50 BelowMinAgreementBytes
        (penalize (available < rq_bytes_needed req) 50 InsufficientCapacity start))))"

definition matched :: "('c, 'm) env \<Rightarrow> StorageRequirements \<Rightarrow> account \<Rightarrow> ProviderInfo \<Rightarrow> MatchedProvider" where
  "matched E req account info = \<lparr>
     mt_account = encode_account (Crypto E) account,
     mt_info = provider_response info,
     mt_match_score = fst (match_provider req info),
     mt_available_capacity = available_capacity info,
     mt_partial_reason = snd (match_provider req info)\<rparr>"

definition query_find_matching_providers ::
    "('c, 'm) env \<Rightarrow> storage_order \<Rightarrow> StorageRequirements \<Rightarrow> nat \<Rightarrow> 'c pstate \<Rightarrow> MatchedProvider list" where
  "query_find_matching_providers E ord req limit s =
     take limit
       (sort_key (\<lambda>r. (- int (mt_match_score r), pr_price_per_byte (mt_info r)))
         (map (\<lambda>(account, info). matched E req account info)
           (filter (\<lambda>(_, info). pi_deregister_at info = None)
             (storage_iter (Providers_key ord) (Providers s)))))"

definition has_capacity :: "('c, 'm) env \<Rightarrow> nat \<Rightarrow> ProviderInfo \<Rightarrow> bool" where
  "has_capacity E bytes_needed info =
     (let settings = pi_settings info in
      if \<not> ps_accepting_primary settings \<and> ps_replica_sync_price settings = None then False
      else if 0 < ps_max_capacity settings \<and>
              saturating_sub (ps_max_capacity settings) (pi_committed_bytes info) < bytes_needed then False
      else if bytes_needed < ps_min_agreement_bytes settings then False
      else case checked_mul 128 (MinStakePerByte (Cfg E))
                  (saturated_into 128 (saturating_add 64 (pi_committed_bytes info) bytes_needed)) of
             None \<Rightarrow> False
           | Some required_stake \<Rightarrow> required_stake \<le> pi_stake info)"

definition query_providers_with_capacity ::
    "('c, 'm) env \<Rightarrow> storage_order \<Rightarrow> nat \<Rightarrow> nat \<Rightarrow> nat \<Rightarrow> 'c pstate \<Rightarrow>
     (account \<times> ProviderInfoResponse) list" where
  "query_providers_with_capacity E ord bytes_needed offset limit s =
     map (\<lambda>(account, info). (account, provider_response info))
       (page offset limit
         (filter (\<lambda>(_, info). has_capacity E bytes_needed info)
           (storage_iter (Providers_key ord) (Providers s))))"

fun candidates_from ::
    "('c, 'm) env \<Rightarrow> nat \<Rightarrow> (account, ProviderInfo) fmap \<Rightarrow> account set \<Rightarrow>
     ((BucketId \<times> account) \<times> StorageAgreement) list \<Rightarrow> ChallengeCandidate list" where
  "candidates_from E max_reputation ps seen [] = []"
| "candidates_from E max_reputation ps seen (((bucket_id, provider), _) # rest) =
     (if provider \<in> seen then candidates_from E max_reputation ps seen rest
      else case fmlookup ps provider of
             None \<Rightarrow> candidates_from E max_reputation ps (insert provider seen) rest
           | Some info \<Rightarrow>
               if max_reputation \<le> reputation (pi_stats info)
               then candidates_from E max_reputation ps (insert provider seen) rest
               else \<lparr>cc_bucket_id = bucket_id,
                      cc_provider = encode_account (Crypto E) provider,
                      cc_stake = saturated_into 128 (pi_stake info),
                      cc_challenges_received_authorized = st_challenges_received_authorized (pi_stats info),
                      cc_challenges_received_public = st_challenges_received_public (pi_stats info),
                      cc_challenges_failed = st_challenges_failed (pi_stats info),
                      cc_reputation = reputation (pi_stats info)\<rparr>
                    # candidates_from E max_reputation ps (insert provider seen) rest)"

definition query_challenge_candidates ::
    "('c, 'm) env \<Rightarrow> storage_order \<Rightarrow> nat \<Rightarrow> nat \<Rightarrow> 'c pstate \<Rightarrow> ChallengeCandidate list" where
  "query_challenge_candidates E ord max_reputation limit s =
     take (min limit MAX_CHALLENGE_CANDIDATES)
       (sort_key cc_reputation
         (candidates_from E max_reputation (Providers s) {}
           (storage_iter (StorageAgreements_key ord) (StorageAgreements s))))"

section \<open>Iteration visits every entry once\<close>

lemma set_storage_iter [simp]: "set (storage_iter key m) = {(k, v). fmlookup m k = Some v}"
  by (auto simp: storage_iter_def sorted_list_of_fmap_def fmlookup_dom_iff image_iff)

lemma distinct_storage_iter: "distinct (map fst (storage_iter key m))"
proof -
  have "map fst (sorted_list_of_fmap m) = sorted_list_of_fset (fmdom m)"
    by (simp add: sorted_list_of_fmap_def comp_def)
  then have "distinct (map fst (sorted_list_of_fmap m))" by (simp add: sorted_list_of_fset.rep_eq)
  then show ?thesis by (simp add: storage_iter_def distinct_map inj_on_def)
qed

lemma set_take_sort_key: "set (take n (sort_key f xs)) \<subseteq> set xs"
  using set_take_subset [of n "sort_key f xs"] by simp

lemma take_sort_key_best:
  assumes "x \<in> set xs" "x \<notin> set (take n (sort_key f xs))"
  shows "length (take n (sort_key f xs)) = n" "y \<in> set (take n (sort_key f xs)) \<Longrightarrow> f y \<le> f x"
proof -
  let ?ys = "sort_key f xs"
  from assms have x: "x \<in> set (drop n ?ys)" by (metis Un_iff append_take_drop_id set_append set_sort)
  then have "n < length ?ys" by (metis drop_eq_Nil empty_iff list.set(1) not_le)
  then show "length (take n ?ys) = n" by simp
  assume "y \<in> set (take n ?ys)"
  moreover have "sorted (map f (take n ?ys) @ map f (drop n ?ys))" using sorted_sort_key [of f xs] by (metis append_take_drop_id map_append)
  ultimately show "f y \<le> f x" using x by (auto simp: sorted_append)
qed

section \<open>Challenge candidates\<close>

text \<open>
  A provider qualifies as a candidate when it is registered, holds an agreement and its
  reputation is below the threshold.
\<close>

definition qualifies :: "'c pstate \<Rightarrow> nat \<Rightarrow> account \<Rightarrow> bool" where
  "qualifies s max_reputation p \<longleftrightarrow>
     (\<exists>b a info. fmlookup (StorageAgreements s) (b, p) = Some a \<and> fmlookup (Providers s) p = Some info \<and>
        reputation (pi_stats info) < max_reputation)"

definition candidate_of :: "('c, 'm) env \<Rightarrow> ChallengeCandidate \<Rightarrow> account \<Rightarrow> ProviderInfo \<Rightarrow> bool" where
  "candidate_of E c p info \<longleftrightarrow> cc_provider c = encode_account (Crypto E) p \<and>
     cc_stake c = saturated_into 128 (pi_stake info) \<and> cc_reputation c = reputation (pi_stats info)"

lemma candidates_from_sound:
  "c \<in> set (candidates_from E r ps seen its) \<Longrightarrow>
   \<exists>p a info. ((cc_bucket_id c, p), a) \<in> set its \<and> p \<notin> seen \<and> fmlookup ps p = Some info \<and>
     reputation (pi_stats info) < r \<and> candidate_of E c p info"
  by (induction E r ps seen its rule: candidates_from.induct)
    (fastforce simp: candidate_of_def split: if_splits option.splits)+

lemma candidates_from_complete:
  "((b, p), a) \<in> set its \<Longrightarrow> p \<notin> seen \<Longrightarrow> fmlookup ps p = Some info \<Longrightarrow> reputation (pi_stats info) < r \<Longrightarrow>
   \<exists>c\<in>set (candidates_from E r ps seen its). candidate_of E c p info"
proof (induction E r ps seen its rule: candidates_from.induct)
  case (2 E r ps seen b' p' a' rest)
  show ?case
  proof (cases "p' = p")
    case True
    with "2.prems" show ?thesis by (auto simp: candidate_of_def)
  next
    case False
    with "2.prems" "2.IH" show ?thesis by (fastforce split: option.splits)
  qed
qed simp

lemma candidates_from_distinct:
  assumes "inj_on (encode_account (Crypto E)) A" "snd ` fst ` set its \<subseteq> A"
  shows "distinct (map cc_provider (candidates_from E r ps seen its))"
  using assms
proof (induction E r ps seen its rule: candidates_from.induct)
  case (2 E r ps seen b p a rest)
  have "encode_account (Crypto E) p \<notin> cc_provider ` set (candidates_from E r ps (insert p seen) rest)"
  proof
    assume "encode_account (Crypto E) p \<in> cc_provider ` set (candidates_from E r ps (insert p seen) rest)"
    then obtain c where c: "c \<in> set (candidates_from E r ps (insert p seen) rest)" "cc_provider c = encode_account (Crypto E) p"
      by auto
    from candidates_from_sound [OF this(1)] obtain q a' where
      "((cc_bucket_id c, q), a') \<in> set rest" "q \<noteq> p" "cc_provider c = encode_account (Crypto E) q"
      by (auto simp: candidate_of_def)
    with c(2) "2.prems" show False by (force dest: inj_onD)
  qed
  with 2 show ?case by (auto split: option.splits)
qed simp

end
