(* ===== verification/Query_Safety.thy ===== *)
theory Query_Safety
  imports Queries Frames
begin

text \<open>
  What the read-only interface promises: matching returns the best providers first and calls
  a match perfect exactly when every requirement is met, candidates for a challenge are the
  providers with the worst reputation and each appears once, and the capacity query agrees
  with the check a redemption makes.
\<close>

section \<open>Marketplace matching\<close>

definition demo_order :: storage_order where
  "demo_order = \<lparr>Providers_key = id, Buckets_key = id, StorageAgreements_key = snd, Challenges_key = fst\<rparr>"

definition demo_requirements :: StorageRequirements where
  "demo_requirements = \<lparr>rq_bytes_needed = 5, rq_min_duration = 10, rq_max_price_per_byte = 3, rq_primary_only = True\<rparr>"

text \<open>The requirements of a client, as the provider's settings must meet them.\<close>

definition meets :: "StorageRequirements \<Rightarrow> ProviderInfo \<Rightarrow> bool" where
  "meets req info \<longleftrightarrow>
     (let st = pi_settings info in
      (ps_accepting_primary st \<or> \<not> rq_primary_only req \<and> ps_replica_sync_price st \<noteq> None) \<and>
      (ps_max_capacity st = 0 \<or> pi_committed_bytes info + rq_bytes_needed req \<le> ps_max_capacity st \<or> rq_bytes_needed req = 0) \<and>
      ps_min_agreement_bytes st \<le> rq_bytes_needed req \<and>
      ps_price_per_byte st \<le> rq_max_price_per_byte req \<and>
      ps_min_duration st \<le> rq_min_duration req \<and> rq_min_duration req \<le> ps_max_duration st)"

definition wf_requirements :: "StorageRequirements \<Rightarrow> bool" where
  "wf_requirements req \<longleftrightarrow> rq_bytes_needed req < 2 ^ 64 \<and> rq_min_duration req < 2 ^ 32 \<and> rq_max_price_per_byte req < 2 ^ 128"

definition wf_settings :: "ProviderSettings \<Rightarrow> bool" where
  "wf_settings st \<longleftrightarrow> ps_min_duration st < 2 ^ 32 \<and> ps_max_duration st < 2 ^ 32 \<and> ps_price_per_byte st < 2 ^ 128"

lemma saturated_into_exact [simp]: "x < 2 ^ w \<Longrightarrow> saturated_into w x = x"
  by (simp add: saturated_into_def)

lemma penalize_fst: "fst (penalize failed points why x) \<le> fst x"
  by (simp add: penalize_def split: prod.splits)

lemma penalize_perfect:
  "0 < points \<Longrightarrow> fst (penalize failed points why x) = 100 \<longleftrightarrow> fst x = 100 \<and> \<not> failed" if "fst x \<le> 100"
  using that by (auto simp: penalize_def split: prod.splits)

lemma penalize_reason: "snd (penalize failed points why x) = None \<longleftrightarrow> snd x = None \<and> \<not> (0 < fst x \<and> failed)"
  by (auto simp: penalize_def split: prod.splits)

lemma match_provider_perfect:
  assumes "wf_requirements req" "wf_settings (pi_settings info)"
  shows "fst (match_provider req info) \<le> 100"
    "fst (match_provider req info) = 100 \<longleftrightarrow> meets req info"
    "snd (match_provider req info) = None \<longleftrightarrow> meets req info"
proof -
  note wf = assms [unfolded wf_requirements_def wf_settings_def]
  show "fst (match_provider req info) \<le> 100"
    unfolding match_provider_def Let_def by (rule order_trans, rule penalize_fst)+ simp
  show "fst (match_provider req info) = 100 \<longleftrightarrow> meets req info"
    using wf
    by (auto simp: match_provider_def Let_def meets_def penalize_def)
  show "snd (match_provider req info) = None \<longleftrightarrow> meets req info"
    using wf
    by (auto simp: match_provider_def Let_def meets_def penalize_def)
qed

text \<open>
  Matching returns at most \<open>limit\<close> providers, best score first and cheaper first
  among equals; every one of them is registered and has not announced its exit, its score
  is at most 100, and the score is 100, with no reason given, exactly when the provider
  meets every requirement. A provider that is left out although it has not announced its
  exit is no better than any that is returned, and then the answer is full.
\<close>

theorem matching_returns_best:
  assumes "wf_requirements req" "\<And>p info. fmlookup (Providers s) p = Some info \<Longrightarrow> wf_settings (pi_settings info)"
    and res: "res = query_find_matching_providers E ord req limit s"
  shows "length res \<le> limit \<and>
    sorted (map (\<lambda>r. (- int (mt_match_score r), pr_price_per_byte (mt_info r))) res) \<and>
    (\<forall>r\<in>set res. \<exists>p info. fmlookup (Providers s) p = Some info \<and> pi_deregister_at info = None \<and>
       r = matched E req p info \<and> mt_match_score r \<le> 100 \<and>
       (mt_match_score r = 100 \<longleftrightarrow> meets req info) \<and> (mt_partial_reason r = None \<longleftrightarrow> meets req info)) \<and>
    (\<forall>p info. fmlookup (Providers s) p = Some info \<and> pi_deregister_at info = None \<and> matched E req p info \<notin> set res \<longrightarrow>
       length res = limit \<and> (\<forall>r\<in>set res. fst (match_provider req info) \<le> mt_match_score r))"
proof -
  let ?key = "\<lambda>r. (- int (mt_match_score r), pr_price_per_byte (mt_info r))"
  let ?all = "map (\<lambda>(account, info). matched E req account info)
    (filter (\<lambda>(_, info). pi_deregister_at info = None) (storage_iter (Providers_key ord) (Providers s)))"
  have res': "res = take limit (sort_key ?key ?all)" by (simp add: res query_find_matching_providers_def)
  have sub: "set res \<subseteq> set ?all" unfolding res' by (rule set_take_sort_key)
  have "sorted (map ?key res)" unfolding res' take_map [symmetric] by (rule sorted_wrt_take) simp
  moreover have "\<exists>p info. fmlookup (Providers s) p = Some info \<and> pi_deregister_at info = None \<and>
       r = matched E req p info \<and> mt_match_score r \<le> 100 \<and>
       (mt_match_score r = 100 \<longleftrightarrow> meets req info) \<and> (mt_partial_reason r = None \<longleftrightarrow> meets req info)"
    if "r \<in> set res" for r
  proof -
    from that sub obtain p info where p: "fmlookup (Providers s) p = Some info" "pi_deregister_at info = None"
      "r = matched E req p info" by auto
    then show ?thesis using match_provider_perfect [OF assms(1) assms(2) [OF p(1)]] by (auto simp: matched_def)
  qed
  moreover have "length res = limit \<and> (\<forall>r\<in>set res. fst (match_provider req info) \<le> mt_match_score r)"
    if "fmlookup (Providers s) p = Some info" "pi_deregister_at info = None" "matched E req p info \<notin> set res" for p info
  proof -
    have "(p, info) \<in> set (filter (\<lambda>(_, info). pi_deregister_at info = None) (storage_iter (Providers_key ord) (Providers s)))"
      using that(1,2) by simp
    then have "matched E req p info \<in> set ?all" by (metis (mono_tags, lifting) image_eqI list.set_map case_prod_conv)
    note best = take_sort_key_best [OF this that(3) [unfolded res'], folded res']
    have "fst (match_provider req info) \<le> mt_match_score r" if "r \<in> set res" for r
      using best(2) [OF that] by (auto simp: matched_def less_eq_prod_def)
    then show ?thesis using best(1) by blast
  qed
  ultimately show ?thesis by (auto simp: res')
qed

theorem matching_returns_best_witness:
  "length (query_find_matching_providers demo_env demo_order demo_requirements 1 stored) \<le> 1 \<and>
   list_all (\<lambda>r. mt_match_score r \<le> 100) (query_find_matching_providers demo_env demo_order demo_requirements 1 stored)"
proof -
  have "wf_requirements demo_requirements" by (simp add: demo_requirements_def wf_requirements_def)
  moreover have "wf_settings (pi_settings info)" if "fmlookup (Providers stored) p = Some info" for p info
    using that by (auto simp: stored_def launched_def provider11_storing_def provider11_def provider14_def
        wf_settings_def ProviderSettings_default_def split: if_splits)
  ultimately show ?thesis unfolding list_all_iff
    using matching_returns_best [OF _ _ refl, of demo_requirements stored demo_env demo_order 1] by blast
qed

section \<open>Challenge candidates\<close>

text \<open>
  The candidates for a challenge are returned worst reputation first, each provider at
  most once, never more than the limit or 256. Each is a registered provider with an
  agreement on the named bucket and a reputation below the threshold; a qualifying provider
  is only left out when the answer is full of providers whose reputation is no better.
\<close>

theorem candidates_worst_first:
  assumes inj: "inj_on (encode_account (Crypto E)) (snd ` fmdom' (StorageAgreements s))"
    and res: "res = query_challenge_candidates E ord max_reputation limit s"
  shows "length res \<le> min limit 256 \<and> sorted (map cc_reputation res) \<and> distinct (map cc_provider res) \<and>
    (\<forall>c\<in>set res. \<exists>p info. fmhas (StorageAgreements s) (cc_bucket_id c, p) \<and>
       fmlookup (Providers s) p = Some info \<and> candidate_of E c p info \<and> cc_reputation c < max_reputation) \<and>
    (\<forall>p info. qualifies s max_reputation p \<and> fmlookup (Providers s) p = Some info \<longrightarrow>
       (\<exists>c\<in>set res. candidate_of E c p info) \<or>
       length res = min limit 256 \<and> (\<forall>c\<in>set res. cc_reputation c \<le> reputation (pi_stats info)))"
proof -
  let ?its = "storage_iter (StorageAgreements_key ord) (StorageAgreements s)"
  let ?all = "candidates_from E max_reputation (Providers s) {} ?its"
  have res': "res = take (min limit 256) (sort_key cc_reputation ?all)"
    by (simp add: res query_challenge_candidates_def MAX_CHALLENGE_CANDIDATES_def)
  have sub: "set res \<subseteq> set ?all" unfolding res' by (rule set_take_sort_key)
  have "snd ` fst ` set ?its \<subseteq> snd ` fmdom' (StorageAgreements s)"
    by (auto simp: image_iff fmlookup_dom'_iff)
  then have "distinct (map cc_provider ?all)" by (rule candidates_from_distinct [OF inj])
  then have "distinct (map cc_provider (sort_key cc_reputation ?all))" by (simp add: distinct_map)
  then have "distinct (map cc_provider res)" unfolding res' take_map [symmetric] by (rule distinct_take)
  moreover have "sorted (map cc_reputation res)" unfolding res' take_map [symmetric] by (rule sorted_wrt_take) simp
  moreover have "\<exists>p info. fmhas (StorageAgreements s) (cc_bucket_id c, p) \<and> fmlookup (Providers s) p = Some info \<and>
      candidate_of E c p info \<and> cc_reputation c < max_reputation" if "c \<in> set res" for c
    using candidates_from_sound [of c] that sub by (fastforce simp: fmhas_def candidate_of_def)
  moreover have "(\<exists>c\<in>set res. candidate_of E c p info) \<or>
       length res = min limit 256 \<and> (\<forall>c\<in>set res. cc_reputation c \<le> reputation (pi_stats info))"
    if q: "qualifies s max_reputation p" and p: "fmlookup (Providers s) p = Some info" for p info
  proof -
    from q p obtain b a where "((b, p), a) \<in> set ?its" "reputation (pi_stats info) < max_reputation"
      by (auto simp: qualifies_def)
    then obtain c where c: "c \<in> set ?all" "candidate_of E c p info"
      using candidates_from_complete [of b p a ?its "{}" "Providers s" info max_reputation E] p by auto
    show ?thesis
    proof (cases "c \<in> set res")
      case False
      from take_sort_key_best [OF c(1) False [unfolded res']] c(2) show ?thesis
        unfolding res' candidate_of_def by auto
    qed (use c in blast)
  qed
  ultimately show ?thesis by (auto simp: res')
qed

theorem candidates_worst_first_witness:
  "sorted (map cc_reputation (query_challenge_candidates demo_env demo_order 101 10 stored))"
proof -
  have "inj_on (encode_account (Crypto demo_env)) (snd ` fmdom' (StorageAgreements stored))"
    by (simp add: stored_def launched_def empty_state_def)
  from candidates_worst_first [OF this refl] show ?thesis by blast
qed

section \<open>Capacity\<close>

text \<open>
  C34. The capacity query and a redemption agree: as long as the new total of committed bytes
  fits 64 bits, a quote over \<open>n\<close> bytes with a duration the provider offers passes the
  capacity check exactly when the provider can accept \<open>n\<close> more bytes and \<open>n\<close>
  reaches its minimum; the filter of the paginated query adds that the provider accepts
  agreements at all.
\<close>

theorem capacity_query_agrees:
  assumes p: "fmlookup (Providers s) p = Some info"
    and fits: "pi_committed_bytes info + at_max_bytes terms < 2 ^ 64" "0 < at_max_bytes terms"
    and dur: "validate_duration (pi_settings info) (at_duration terms) = Inr ()"
  shows "(is_ok (check_capacity E info terms) \<longleftrightarrow>
      query_can_accept_bytes E p (at_max_bytes terms) s \<and> ps_min_agreement_bytes (pi_settings info) \<le> at_max_bytes terms) \<and>
    (has_capacity E (at_max_bytes terms) info \<longleftrightarrow>
      (ps_accepting_primary (pi_settings info) \<or> ps_replica_sync_price (pi_settings info) \<noteq> None) \<and>
      is_ok (check_capacity E info terms))"
proof -
  have sat: "saturating_add 64 (pi_committed_bytes info) (at_max_bytes terms) = pi_committed_bytes info + at_max_bytes terms"
    using fits by (simp add: saturating_add_exact)
  have into: "saturated_into 128 (pi_committed_bytes info + at_max_bytes terms) = pi_committed_bytes info + at_max_bytes terms"
    using fits by simp
  have add: "checked_add 64 (pi_committed_bytes info) (at_max_bytes terms) = Some (pi_committed_bytes info + at_max_bytes terms)"
    using fits by (simp add: checked_add_def)
  have cap: "ps_max_capacity (pi_settings info) - pi_committed_bytes info < at_max_bytes terms \<longleftrightarrow>
      ps_max_capacity (pi_settings info) < pi_committed_bytes info + at_max_bytes terms"
    using fits by auto
  show ?thesis
    by (auto simp: query_can_accept_bytes_def has_capacity_def check_capacity_def p sat into add cap dur Let_def
        ensure_def ok_or_def split: option.splits if_splits)
qed

theorem capacity_query_agrees_witness:
  "is_ok (check_capacity demo_env provider11 demo_terms) \<longleftrightarrow>
     query_can_accept_bytes demo_env 11 10 launched \<and> ps_min_agreement_bytes (pi_settings provider11) \<le> 10"
  using capacity_query_agrees [of launched 11 provider11 demo_terms demo_env]
  by (simp add: launched_def provider11_def ProviderSettings_default_def demo_terms_def validate_duration_def)

text \<open>
  C35. The paginated capacity query offers a provider that has announced its exit, although
  every redemption of a quote with it fails; matching leaves such a provider out.
\<close>

theorem leaving_provider_still_offered:
  "14 \<in> fst ` set (query_providers_with_capacity demo_env demo_order 5 0 2 leaving) \<and>
   dispatch demo_env (Signed 14) DeregisterProvider launched = Inr leaving \<and>
   (\<forall>owner terms sig target kind. \<not> is_ok (accept_quote demo_env owner 14 terms sig target kind leaving))"
proof -
  let ?p = "provider14\<lparr>pi_deregister_at := Some 25, pi_settings := (pi_settings provider14)
       \<lparr>ps_accepting_primary := False, ps_accepting_extensions := False\<rparr>\<rparr>"
  have p: "fmlookup (Providers leaving) 14 = Some ?p" by (simp add: leaving_def)
  have cap: "has_capacity demo_env 5 ?p"
    by (simp add: has_capacity_def provider14_def ProviderSettings_default_def demo_env_def demo_config_def
        ledger_environment_def checked_mul_def saturating_add_def)
  let ?xs = "filter (\<lambda>(_, info). has_capacity demo_env 5 info) (storage_iter (Providers_key demo_order) (Providers leaving))"
  have "length ?xs \<le> 2"
  proof -
    have "fst ` set ?xs \<subseteq> {11, 14}" by (auto simp: leaving_def launched_def split: if_splits)
    then have "card (fst ` set ?xs) \<le> card {11, 14::nat}" by (rule card_mono [rotated]) simp
    moreover have "distinct (map fst ?xs)" using distinct_storage_iter by (rule distinct_map_filter)
    ultimately show ?thesis using distinct_card [of "map fst ?xs"] by simp
  qed
  moreover have "(14, ?p) \<in> set ?xs" using p cap by simp
  ultimately have "14 \<in> fst ` set (query_providers_with_capacity demo_env demo_order 5 0 2 leaving)"
    by (force simp: query_providers_with_capacity_def page_def image_iff)
  moreover have "\<not> is_ok (accept_quote demo_env owner 14 terms sig target kind leaving)" for owner terms sig target kind
    using p by (auto simp: is_ok_def split: sum.splits dest!: accept_quote_active)
  ultimately show ?thesis using run_leaving by blast
qed

end
