(* ===== verification/Provider_Store.thy ===== *)
theory Provider_Store
  imports Data_Integrity
begin

text \<open>
  The provider's storage engine (\<open>crates/providers/storage/src/backend\<close>): the
  content-addressed chunk trees, the per-bucket leaf lists, and the proofs read from them.
  The database is two finite maps, the node table and the bucket table. Each operation is
  one transaction that locks the bucket row, so operations are modelled one after the other;
  failures of the database engine itself (\<open>BucketBusy\<close>, \<open>RocksDb\<close>,
  \<open>Serialization\<close>, \<open>ColumnFamilyMissing\<close>, \<open>IncompatibleFormat\<close>)
  have no counterpart. Error texts are left out of the error values. \<open>h\<close> is
  \<open>blake2_256\<close>, \<open>lib\<close> the range library.
\<close>

section \<open>Records\<close>

datatype ChunkTreeNode = Chunk "byte list" | Internal H256 H256

datatype StoreError =
    NodeNotFound H256
  | LeafNotFound BucketId nat
  | CommitmentNotReproducible
  | LeavesNotHeld nat nat nat nat
  | ChildrenMissing "H256 list"
  | InvalidChildCount nat
  | InvalidNode
  | QuotaExceeded nat nat
  | InvalidStartSeq nat nat nat
  | ChunkTooLarge nat
  | ChunkIndexOutOfRange nat nat
  | StoreBucketNotFound BucketId
  | RootNotFound H256
  | TreeTooLarge nat
  | InvalidHash H256 H256
  | NonCanonicalTree H256
  | StoreMmr mmr_error

record BucketState =
  bk_mmr_root :: H256
  bk_start_seq :: nat
  bk_leaves :: "MmrLeaf list"
  bk_used_bytes :: nat
  bk_node_count :: nat
  bk_max_bytes :: nat

record DiskStorage =
  cf_nodes :: "(H256, ChunkTreeNode) fmap"
  cf_buckets :: "(BucketId, BucketState) fmap"

record CommitOutcome =
  co_mmr_root :: H256
  co_start_seq :: nat
  co_leaf_count :: nat
  co_leaf_indices :: "nat list"

record BucketInfo =
  bi_mmr_root :: H256
  bi_start_seq :: nat
  bi_leaf_count :: nat

record StorageStats =
  ss_buckets :: nat
  ss_nodes :: nat
  ss_bytes :: nat

definition BucketState_new :: "nat \<Rightarrow> BucketState" where
  "BucketState_new max_bytes = \<lparr>bk_mmr_root = H256_zero, bk_start_seq = 0, bk_leaves = [],
     bk_used_bytes = 0, bk_node_count = 0, bk_max_bytes = max_bytes\<rparr>"

definition from_wire :: "byte list option \<Rightarrow> H256 list option \<Rightarrow> StoreError + ChunkTreeNode" where
  "from_wire data children =
     (case (data, children) of
        (Some d, None) \<Rightarrow>
          if DEFAULT_CHUNK_SIZE < length d then Inl (ChunkTooLarge (length d)) else Inr (Chunk d)
      | (None, Some cs) \<Rightarrow>
          (case cs of [left, right] \<Rightarrow> Inr (Internal left right) | _ \<Rightarrow> Inl (InvalidChildCount (length cs)))
      | _ \<Rightarrow> Inl InvalidNode)"

definition node_size :: "ChunkTreeNode \<Rightarrow> nat" where
  "node_size n = (case n of Chunk d \<Rightarrow> length d | Internal _ _ \<Rightarrow> 2 * 32)"

definition hash_of_node :: "(byte list \<Rightarrow> H256) \<Rightarrow> ChunkTreeNode \<Rightarrow> H256" where
  "hash_of_node h n = (case n of Chunk d \<Rightarrow> hash_leaf h d | Internal l r \<Rightarrow> hash_children h l r)"

definition commitment_of :: "BucketState \<Rightarrow> Commitment" where
  "commitment_of b = \<lparr>mmr_root = bk_mmr_root b, start_seq = bk_start_seq b, leaf_count = length (bk_leaves b)\<rparr>"

section \<open>Reading trees\<close>

definition MAX_TREE_WALK_VISITS :: nat where
  "MAX_TREE_WALK_VISITS = 2 ^ 22"

definition MAX_TREE_DEPTH :: nat where
  "MAX_TREE_DEPTH = 63"

type_synonym nodes = "(H256, ChunkTreeNode) fmap"

text \<open>
  \<open>walk_from\<close> is the loop of \<open>walk_tree\<close>; it returns the visited nodes in
  order. The top of the stack is the head of the list.
\<close>

function walk_from :: "nodes \<Rightarrow> nat \<Rightarrow> nat \<Rightarrow> H256 list \<Rightarrow> StoreError + (H256 \<times> ChunkTreeNode) list" where
  "walk_from ns max_nodes visited [] = Inr []"
| "walk_from ns max_nodes visited (hash # stack) =
     (if max_nodes < visited + 1 then Inl (TreeTooLarge max_nodes)
      else case fmlookup ns hash of
             None \<Rightarrow> Inl (NodeNotFound hash)
           | Some node \<Rightarrow>
               (case walk_from ns max_nodes (visited + 1)
                       (case node of Internal left right \<Rightarrow> left # right # stack | Chunk _ \<Rightarrow> stack) of
                  Inl e \<Rightarrow> Inl e
                | Inr rest \<Rightarrow> Inr ((hash, node) # rest)))"
  by pat_completeness auto
termination
  by (relation "measure (\<lambda>(ns, max_nodes, visited, stack). max_nodes - visited)") auto

definition walk_tree :: "nodes \<Rightarrow> H256 \<Rightarrow> StoreError + (H256 \<times> ChunkTreeNode) list" where
  "walk_tree ns tree = walk_from ns MAX_TREE_WALK_VISITS 0 [tree]"

definition collect_leaves :: "nodes \<Rightarrow> H256 \<Rightarrow> StoreError + (H256 \<times> nat) list" where
  "collect_leaves ns tree =
     attempt (walk_tree ns tree) (\<lambda>visited.
       Inr (List.map_filter (\<lambda>(hash, node). case node of Chunk d \<Rightarrow> Some (hash, length d) | Internal _ _ \<Rightarrow> None) visited))"

definition canonical_data_size :: "(byte list \<Rightarrow> H256) \<Rightarrow> nodes \<Rightarrow> H256 \<Rightarrow> StoreError + nat" where
  "canonical_data_size h ns tree =
     attempt (collect_leaves ns tree) (\<lambda>leaves.
       let chunk_hashes = map fst leaves;
           chunk_sizes = map snd leaves;
           fixed_sizes = (chunk_sizes \<noteq> [] \<and> list_all (\<lambda>size. size = DEFAULT_CHUNK_SIZE) (butlast chunk_sizes) \<and>
             1 \<le> last chunk_sizes \<and> last chunk_sizes \<le> DEFAULT_CHUNK_SIZE)
       in if \<not> fixed_sizes \<or> merkle_root (hash_children h) chunk_hashes \<noteq> tree
          then Inl (NonCanonicalTree tree) else Inr (sum_list chunk_sizes))"

fun left_child_loop :: "nodes \<Rightarrow> H256 \<Rightarrow> nat \<Rightarrow> nat \<Rightarrow> H256 \<Rightarrow> StoreError + nat" where
  "left_child_loop ns tree height 0 hash = Inl (NonCanonicalTree tree)"
| "left_child_loop ns tree height (Suc rounds) hash =
     (case fmlookup ns hash of
        None \<Rightarrow> Inl (NodeNotFound hash)
      | Some (Chunk _) \<Rightarrow> Inr (2 ^ height)
      | Some (Internal left _) \<Rightarrow> left_child_loop ns tree (height + 1) rounds left)"

definition left_child_chunks :: "nodes \<Rightarrow> H256 \<Rightarrow> H256 \<Rightarrow> StoreError + nat" where
  "left_child_chunks ns left tree = left_child_loop ns tree 0 (MAX_TREE_DEPTH + 1) left"

fun chunk_count_loop :: "nodes \<Rightarrow> H256 \<Rightarrow> nat \<Rightarrow> nat \<Rightarrow> H256 \<Rightarrow> StoreError + nat" where
  "chunk_count_loop ns tree count 0 hash = Inl (NonCanonicalTree tree)"
| "chunk_count_loop ns tree count (Suc rounds) hash =
     (case fmlookup ns hash of
        None \<Rightarrow> Inl (NodeNotFound hash)
      | Some (Chunk _) \<Rightarrow> ok_or (checked_add 64 count 1) (NonCanonicalTree tree) Inr
      | Some (Internal left right) \<Rightarrow>
          attempt (left_child_chunks ns left tree) (\<lambda>n.
          ok_or (checked_add 64 count n) (NonCanonicalTree tree) (\<lambda>count'.
          chunk_count_loop ns tree count' rounds right)))"

definition tree_chunk_count :: "nodes \<Rightarrow> H256 \<Rightarrow> StoreError + nat" where
  "tree_chunk_count ns tree = chunk_count_loop ns tree 0 (MAX_TREE_DEPTH + 1) tree"

text \<open>\<open>1 << (count - 1).ilog2()\<close> is the split point of the reference tree.\<close>

function chunk_proof_loop ::
    "nodes \<Rightarrow> H256 \<Rightarrow> H256 \<Rightarrow> nat \<Rightarrow> nat \<Rightarrow> H256 list \<Rightarrow> StoreError + H256 \<times> byte list \<times> H256 list" where
  "chunk_proof_loop ns tree hash count idx siblings =
     (case fmlookup ns hash of
        None \<Rightarrow> Inl (NodeNotFound hash)
      | Some (Chunk data) \<Rightarrow>
          if count = 1 then Inr (hash, data, rev siblings) else Inl (NonCanonicalTree tree)
      | Some (Internal left right) \<Rightarrow>
          if 1 < count then
            let split = split_point count
            in if idx < split
               then chunk_proof_loop ns tree left split idx (siblings @ [right])
               else chunk_proof_loop ns tree right (count - split) (idx - split) (siblings @ [left])
          else Inl (NonCanonicalTree tree))"
  by pat_completeness auto
termination
  by (relation "measure (\<lambda>(ns, tree, hash, count, idx, siblings). count)")
    (use split_point_bounds in \<open>auto simp: Let_def\<close>)

declare chunk_proof_loop.simps [simp del]

definition chunk_with_proof ::
    "nodes \<Rightarrow> H256 \<Rightarrow> nat \<Rightarrow> nat \<Rightarrow> StoreError + H256 \<times> byte list \<times> H256 list" where
  "chunk_with_proof ns tree count idx = chunk_proof_loop ns tree tree count idx []"

definition get_chunk_at_index :: "nodes \<Rightarrow> H256 \<Rightarrow> nat \<Rightarrow> StoreError + byte list \<times> H256 list" where
  "get_chunk_at_index ns tree idx =
     attempt (tree_chunk_count ns tree) (\<lambda>count.
     if count \<le> idx then Inl (ChunkIndexOutOfRange idx count)
     else attempt (chunk_with_proof ns tree count idx) (\<lambda>(_, data, prf). Inr (data, prf)))"

fun chunks_from :: "nodes \<Rightarrow> H256 \<Rightarrow> nat \<Rightarrow> nat list \<Rightarrow> StoreError + (H256 \<times> byte list \<times> H256 list) list" where
  "chunks_from ns tree count [] = Inr []"
| "chunks_from ns tree count (i # is) =
     attempt (chunk_with_proof ns tree count i) (\<lambda>c.
     attempt (chunks_from ns tree count is) (\<lambda>cs. Inr (c # cs)))"

definition get_chunks_in_range ::
    "nodes \<Rightarrow> H256 \<Rightarrow> nat \<Rightarrow> nat \<Rightarrow> StoreError + (H256 \<times> byte list \<times> H256 list) list" where
  "get_chunks_in_range ns tree range_start range_stop =
     attempt (tree_chunk_count ns tree) (\<lambda>count.
       chunks_from ns tree count [range_start..<min range_stop count])"

section \<open>Buckets\<close>

definition init_bucket :: "BucketId \<Rightarrow> nat \<Rightarrow> DiskStorage \<Rightarrow> DiskStorage" where
  "init_bucket bucket_id max_bytes d =
     (if fmhas (cf_buckets d) bucket_id then d
      else d\<lparr>cf_buckets := fmupd bucket_id (BucketState_new max_bytes) (cf_buckets d)\<rparr>)"

definition get_bucket :: "BucketId \<Rightarrow> DiskStorage \<Rightarrow> BucketInfo option" where
  "get_bucket bucket_id d = map_option (\<lambda>state. \<lparr>bi_mmr_root = bk_mmr_root state,
     bi_start_seq = bk_start_seq state, bi_leaf_count = length (bk_leaves state)\<rparr>) (fmlookup (cf_buckets d) bucket_id)"

text \<open>
  The engine iterates over rows in the byte order of their keys, the little-endian bucket
  ids: the order of the numbers the bytes spell when the first is the most significant.
\<close>

definition bucket_key :: "BucketId \<Rightarrow> nat" where
  "bucket_key bucket_id = foldl (\<lambda>v byte. v * 256 + unat byte) 0 (le_bytes 8 bucket_id)"

definition bucket_ids :: "DiskStorage \<Rightarrow> BucketId list" where
  "bucket_ids d = sort_key bucket_key (sorted_list_of_fset (fmdom (cf_buckets d)))"

definition stats :: "DiskStorage \<Rightarrow> StorageStats" where
  "stats d = fold (\<lambda>(_, b) totals. \<lparr>ss_buckets = ss_buckets totals + 1,
       ss_nodes = saturating_add 64 (ss_nodes totals) (bk_node_count b),
       ss_bytes = saturating_add 64 (ss_bytes totals) (bk_used_bytes b)\<rparr>)
     (sorted_list_of_fmap (cf_buckets d)) \<lparr>ss_buckets = 0, ss_nodes = 0, ss_bytes = 0\<rparr>"

definition store_node ::
    "(byte list \<Rightarrow> H256) \<Rightarrow> BucketId \<Rightarrow> H256 \<Rightarrow> ChunkTreeNode \<Rightarrow> DiskStorage \<Rightarrow> StoreError + DiskStorage" where
  "store_node h bucket_id expected_hash node d =
     ensure (hash_of_node h node = expected_hash) (InvalidHash expected_hash (hash_of_node h node))
     (let missing = (case node of
                       Internal left right \<Rightarrow> filter (\<lambda>child. \<not> fmhas (cf_nodes d) child) [left, right]
                     | Chunk _ \<Rightarrow> []) in
      ensure (missing = []) (ChildrenMissing missing)
      (ok_or (fmlookup (cf_buckets d) bucket_id) (StoreBucketNotFound bucket_id) (\<lambda>bucket.
       let charge = node_size node in
       ensure (saturating_add 64 (bk_used_bytes bucket) charge \<le> bk_max_bytes bucket)
         (QuotaExceeded (bk_used_bytes bucket) (bk_max_bytes bucket))
       (if fmhas (cf_nodes d) expected_hash then Inr d
        else Inr (d\<lparr>cf_nodes := fmupd expected_hash node (cf_nodes d),
              cf_buckets := fmupd bucket_id (bucket\<lparr>
                bk_used_bytes := saturating_add 64 (bk_used_bytes bucket) charge,
                bk_node_count := saturating_add 64 (bk_node_count bucket) 1\<rparr>) (cf_buckets d)\<rparr>)))))"

definition check_exists :: "H256 list \<Rightarrow> DiskStorage \<Rightarrow> H256 list \<times> H256 list" where
  "check_exists hashes d = (filter (fmhas (cf_nodes d)) hashes, filter (\<lambda>x. \<not> fmhas (cf_nodes d) x) hashes)"

fun canonical_sizes :: "(byte list \<Rightarrow> H256) \<Rightarrow> nodes \<Rightarrow> H256 list \<Rightarrow> StoreError + nat list" where
  "canonical_sizes h ns [] = Inr []"
| "canonical_sizes h ns (tree # roots) =
     attempt (canonical_data_size h ns tree) (\<lambda>bytes.
     attempt (canonical_sizes h ns roots) (\<lambda>sizes. Inr (bytes # sizes)))"

fun push_leaves :: "MmrLeaf list \<Rightarrow> (H256 \<times> nat) list \<Rightarrow> MmrLeaf list" where
  "push_leaves leaves [] = leaves"
| "push_leaves leaves ((tree, bytes) # rest) =
     push_leaves (leaves @ [\<lparr>leaf_version = LEAF_VERSION, data_root = tree, data_size = bytes,
       total_size = saturating_add 64 (if leaves = [] then 0 else total_size (last leaves)) bytes\<rparr>]) rest"

definition mmr_result :: "mmr_error + 'a \<Rightarrow> ('a \<Rightarrow> StoreError + 'b) \<Rightarrow> StoreError + 'b" where
  "mmr_result r k = (case r of Inl e \<Rightarrow> Inl (StoreMmr e) | Inr v \<Rightarrow> k v)"

definition commit ::
    "'m mmr_lib \<Rightarrow> (byte list \<Rightarrow> H256) \<Rightarrow> BucketId \<Rightarrow> H256 list \<Rightarrow> DiskStorage \<Rightarrow>
     StoreError + CommitOutcome \<times> DiskStorage" where
  "commit lib h bucket_id data_roots d =
     (case find (\<lambda>r. \<not> fmhas (cf_nodes d) r) data_roots of
        Some r \<Rightarrow> Inl (RootNotFound r)
      | None \<Rightarrow>
          attempt (canonical_sizes h (cf_nodes d) data_roots) (\<lambda>data_sizes.
          ok_or (fmlookup (cf_buckets d) bucket_id) (StoreBucketNotFound bucket_id) (\<lambda>bucket.
          let start_index = length (bk_leaves bucket);
              leaves = push_leaves (bk_leaves bucket) (zip data_roots data_sizes)
          in mmr_result (mmr_root_of lib h leaves) (\<lambda>new_root.
             let bucket' = bucket\<lparr>bk_leaves := leaves, bk_mmr_root := new_root\<rparr>
             in Inr (\<lparr>co_mmr_root = new_root, co_start_seq = bk_start_seq bucket, co_leaf_count = length leaves,
                      co_leaf_indices = map (\<lambda>i. start_index + i) [0..<length data_roots]\<rparr>,
                     d\<lparr>cf_buckets := fmupd bucket_id bucket' (cf_buckets d)\<rparr>)))))"

definition delete_before ::
    "'m mmr_lib \<Rightarrow> (byte list \<Rightarrow> H256) \<Rightarrow> BucketId \<Rightarrow> nat \<Rightarrow> DiskStorage \<Rightarrow> StoreError + Commitment \<times> DiskStorage" where
  "delete_before lib h bucket_id new_start_seq d =
     ok_or (fmlookup (cf_buckets d) bucket_id) (StoreBucketNotFound bucket_id) (\<lambda>bucket.
     let end_seq = saturating_add 64 (bk_start_seq bucket) (length (bk_leaves bucket)) in
     ensure (bk_start_seq bucket \<le> new_start_seq \<and> new_start_seq \<le> end_seq)
       (InvalidStartSeq new_start_seq (bk_start_seq bucket) end_seq)
     (let to_remove = new_start_seq - bk_start_seq bucket in
      if 0 < to_remove then
        let leaves = drop to_remove (bk_leaves bucket)
        in mmr_result (mmr_root_of lib h leaves) (\<lambda>new_root.
           let bucket' = bucket\<lparr>bk_leaves := leaves, bk_start_seq := new_start_seq, bk_mmr_root := new_root\<rparr>
           in Inr (commitment_of bucket', d\<lparr>cf_buckets := fmupd bucket_id bucket' (cf_buckets d)\<rparr>))
      else Inr (commitment_of bucket, d)))"

section \<open>Range proofs\<close>

definition leaf_proof ::
    "'m mmr_lib \<Rightarrow> (byte list \<Rightarrow> H256) \<Rightarrow> BucketId \<Rightarrow> MmrLeaf list \<Rightarrow> nat \<Rightarrow> StoreError + H256 \<times> MmrProof" where
  "leaf_proof lib h bucket_id leaves idx =
     mmr_result (mmr_proof lib h leaves idx) (\<lambda>p. ok_or p (LeafNotFound bucket_id idx) Inr)"

definition get_mmr_proof ::
    "'m mmr_lib \<Rightarrow> (byte list \<Rightarrow> H256) \<Rightarrow> BucketId \<Rightarrow> nat \<Rightarrow> DiskStorage \<Rightarrow> StoreError + MmrProof" where
  "get_mmr_proof lib h bucket_id idx d =
     ok_or (fmlookup (cf_buckets d) bucket_id) (StoreBucketNotFound bucket_id) (\<lambda>bucket.
     attempt (leaf_proof lib h bucket_id (bk_leaves bucket) idx) (\<lambda>(_, prf). Inr prf))"

definition get_mmr_proof_for_commitment ::
    "'m mmr_lib \<Rightarrow> (byte list \<Rightarrow> H256) \<Rightarrow> BucketId \<Rightarrow> Commitment \<Rightarrow> nat \<Rightarrow> DiskStorage \<Rightarrow> StoreError + MmrProof" where
  "get_mmr_proof_for_commitment lib h bucket_id commitment idx d =
     ok_or (fmlookup (cf_buckets d) bucket_id) (StoreBucketNotFound bucket_id) (\<lambda>bucket.
     ensure (idx < leaf_count commitment) CommitmentNotReproducible
     (let not_held = LeavesNotHeld (start_seq commitment) (leaf_count commitment) (bk_start_seq bucket)
            (saturating_add 64 (bk_start_seq bucket) (length (bk_leaves bucket))) in
      ensure (bk_start_seq bucket \<le> start_seq commitment) not_held
      (let offset = start_seq commitment - bk_start_seq bucket;
           stop = saturating_add 64 offset (leaf_count commitment) in
       ensure (stop \<le> length (bk_leaves bucket)) not_held
       (attempt (leaf_proof lib h bucket_id (take (stop - offset) (drop offset (bk_leaves bucket))) idx) (\<lambda>(range_root, prf).
        ensure (range_root = mmr_root commitment) CommitmentNotReproducible (Inr prf))))))"

definition get_mmr_peaks ::
    "'m mmr_lib \<Rightarrow> (byte list \<Rightarrow> H256) \<Rightarrow> BucketId \<Rightarrow> DiskStorage \<Rightarrow> StoreError + H256 \<times> H256 list" where
  "get_mmr_peaks lib h bucket_id d =
     ok_or (fmlookup (cf_buckets d) bucket_id) (StoreBucketNotFound bucket_id) (\<lambda>bucket.
     mmr_result (mmr_peaks lib h (bk_leaves bucket)) Inr)"

end
