(* ===== verification/Challenge_Responder.thy ===== *)
theory Challenge_Responder
  imports Provider_Store Queries Dispatch
begin

text \<open>
  The provider's challenge responder (\<open>crates/providers/challenge/src/lib.rs\<close>), the
  proof source that adapts the store to it (\<open>provider-node/src/challenge_proofs.rs\<close>) and
  the chain client it talks to (\<open>provider-node/src/subxt_client.rs\<close>). The state of the
  chain is threaded through as \<open>'s\<close>; the client is the record \<open>chain_client\<close>. The
  client of the node reads and dispatches on the modelled pallet; whether its connection
  works is the parameter \<open>online\<close>. Log output and error texts are left out, and a result
  is reported by returning it.
\<close>

section \<open>Data\<close>

datatype ProofTarget = TargetMmrLeaf BucketId nat | TargetChunk H256 nat

datatype ChallengeError = ProofDataMissing ProofTarget | StorageFailed | ChainFailed | Shutdown

definition risks_slashing :: "ChallengeError \<Rightarrow> bool" where
  "risks_slashing e = (case e of ProofDataMissing _ \<Rightarrow> True | _ \<Rightarrow> False)"

record DetectedChallenge =
  dc_bucket_id :: BucketId
  dc_deadline :: nat
  dc_index :: nat
  dc_commitment :: Commitment
  dc_target :: ChunkLocation

datatype ResponderAnswer = AnswerProof "byte list" MmrProof "H256 list" | AnswerOutOfRange MmrProof

datatype ChallengeResponseResult =
    Success "nat \<times> nat" H256
  | ProofGenerationFailed "nat \<times> nat"
  | SubmissionFailed "nat \<times> nat"
  | DataNotFound "nat \<times> nat" BucketId nat

record 's chain_client =
  poll_challenges :: "'s \<Rightarrow> ChallengeError + DetectedChallenge list"
  fetch_challenge :: "nat \<Rightarrow> nat \<Rightarrow> 's \<Rightarrow> ChallengeError + DetectedChallenge option"
  submit_response :: "nat \<times> nat \<Rightarrow> ResponderAnswer \<Rightarrow> 's \<Rightarrow> (ChallengeError + H256) \<times> 's"

record ChallengeProofSource =
  source_mmr_proof :: "BucketId \<Rightarrow> Commitment \<Rightarrow> nat \<Rightarrow> ChallengeError + MmrProof"
  source_chunk :: "H256 \<Rightarrow> nat \<Rightarrow> ChallengeError + byte list \<times> H256 list"

section \<open>Proofs from the store\<close>

definition mmr_proof_error :: "BucketId \<Rightarrow> nat \<Rightarrow> StoreError \<Rightarrow> ChallengeError" where
  "mmr_proof_error bucket_id leaf_idx e =
     (case e of
        StoreBucketNotFound _ \<Rightarrow> ProofDataMissing (TargetMmrLeaf bucket_id leaf_idx)
      | LeafNotFound _ _ \<Rightarrow> ProofDataMissing (TargetMmrLeaf bucket_id leaf_idx)
      | LeavesNotHeld _ _ _ _ \<Rightarrow> ProofDataMissing (TargetMmrLeaf bucket_id leaf_idx)
      | _ \<Rightarrow> StorageFailed)"

definition chunk_error :: "H256 \<Rightarrow> nat \<Rightarrow> StoreError \<Rightarrow> ChallengeError" where
  "chunk_error tree idx e =
     (case e of
        NodeNotFound _ \<Rightarrow> ProofDataMissing (TargetChunk tree idx)
      | ChunkIndexOutOfRange _ _ \<Rightarrow> ProofDataMissing (TargetChunk tree idx)
      | _ \<Rightarrow> StorageFailed)"

definition StorageProofSource :: "'m mmr_lib \<Rightarrow> (byte list \<Rightarrow> H256) \<Rightarrow> DiskStorage \<Rightarrow> ChallengeProofSource" where
  "StorageProofSource lib h d = \<lparr>
     source_mmr_proof = (\<lambda>bucket_id commitment leaf_idx.
       map_sum (mmr_proof_error bucket_id leaf_idx) id (get_mmr_proof_for_commitment lib h bucket_id commitment leaf_idx d)),
     source_chunk = (\<lambda>tree idx. map_sum (chunk_error tree idx) id (get_chunk_at_index (cf_nodes d) tree idx))\<rparr>"

section \<open>Answering\<close>

definition proof_failure :: "DetectedChallenge \<Rightarrow> ChallengeError \<Rightarrow> ChallengeResponseResult" where
  "proof_failure challenge e =
     (let challenge_id = (dc_deadline challenge, dc_index challenge)
      in if risks_slashing e then DataNotFound challenge_id (dc_bucket_id challenge) (leaf_index (dc_target challenge))
         else ProofGenerationFailed challenge_id)"

definition answer_challenge ::
    "ChallengeProofSource \<Rightarrow> 's chain_client \<Rightarrow> DetectedChallenge \<Rightarrow> 's \<Rightarrow> ChallengeResponseResult \<times> 's" where
  "answer_challenge source client challenge s =
     (let challenge_id = (dc_deadline challenge, dc_index challenge)
      in case source_mmr_proof source (dc_bucket_id challenge) (dc_commitment challenge) (leaf_index (dc_target challenge)) of
           Inl e \<Rightarrow> (proof_failure challenge e, s)
         | Inr mmr_prf \<Rightarrow>
             (case chunk_count (mp_leaf mmr_prf) of
                None \<Rightarrow> (ProofGenerationFailed challenge_id, s)
              | Some count \<Rightarrow>
                  let response =
                    (if count \<le> chunk_index (dc_target challenge) then Inr (AnswerOutOfRange mmr_prf)
                     else case source_chunk source (data_root (mp_leaf mmr_prf)) (chunk_index (dc_target challenge)) of
                            Inl e \<Rightarrow> Inl (proof_failure challenge e)
                          | Inr (chunk_data, chunk_proof) \<Rightarrow> Inr (AnswerProof chunk_data mmr_prf chunk_proof))
                  in case response of
                       Inl failure \<Rightarrow> (failure, s)
                     | Inr answer \<Rightarrow>
                         (case submit_response client challenge_id answer s of
                            (Inl e, s') \<Rightarrow> (SubmissionFailed challenge_id, s')
                          | (Inr block_hash, s') \<Rightarrow> (Success challenge_id block_hash, s'))))"

fun answer_all ::
    "ChallengeProofSource \<Rightarrow> 's chain_client \<Rightarrow> DetectedChallenge list \<Rightarrow> 's \<Rightarrow> ChallengeResponseResult list \<times> 's" where
  "answer_all source client [] s = ([], s)"
| "answer_all source client (c # cs) s =
     (let (r, s1) = answer_challenge source client c s; (rs, s2) = answer_all source client cs s1 in (r # rs, s2))"

definition scan_and_respond ::
    "ChallengeProofSource \<Rightarrow> 's chain_client \<Rightarrow> 's \<Rightarrow> ChallengeResponseResult list \<times> 's" where
  "scan_and_respond source client s =
     (case poll_challenges client s of
        Inl e \<Rightarrow> ([], s)
      | Inr challenges \<Rightarrow> answer_all source client challenges s)"

section \<open>The main loop\<close>

text \<open>
  One round of the loop takes one of the inputs the \<open>select\<close> waits for. The store is the
  proof source at the time of the round. The arm for block events is disabled while the
  responder is paused or the event channel is closed: \<open>accepts\<close> says which inputs a state
  takes. After \<open>Stop\<close>, or when every command sender is gone, the loop has ended.
\<close>

datatype ResponderCommand = Stop | Pause | Resume | RespondTo DetectedChallenge

datatype BlockEvent =
    EvChallengeCreated nat nat BucketId account
  | EvReplicaAgreementEstablished BucketId account
  | EvBucketCheckpointed BucketId
  | EvBucketMembershipChanged BucketId
  | EvResubscribed nat
  | EvMembershipScopeUnknown nat

datatype RecvEvent = Event BlockEvent | Lagged nat | Closed

datatype LoopInput = RecvCommand "ResponderCommand option" | RecvBlockEvent RecvEvent | Tick

record ChallengeResponderConfig =
  rc_provider_account :: account
  rc_poll_interval :: nat
  rc_proof_timeout :: nat
  rc_auto_respond :: bool

record LoopState =
  ls_running :: bool
  ls_paused :: bool
  ls_events_open :: bool

definition loop_start :: LoopState where
  "loop_start = \<lparr>ls_running = True, ls_paused = False, ls_events_open = True\<rparr>"

definition accepts :: "LoopState \<Rightarrow> LoopInput \<Rightarrow> bool" where
  "accepts st i \<longleftrightarrow> ls_running st \<and>
     (case i of RecvBlockEvent _ \<Rightarrow> ls_events_open st \<and> \<not> ls_paused st | _ \<Rightarrow> True)"

definition run_loop_round ::
    "ChallengeResponderConfig \<Rightarrow> ChallengeProofSource \<Rightarrow> 's chain_client \<Rightarrow> LoopInput \<Rightarrow> LoopState \<times> 's \<Rightarrow>
     ChallengeResponseResult list \<times> LoopState \<times> 's" where
  "run_loop_round cfg source client i = (\<lambda>(st, s).
     (case i of
        RecvCommand cmd \<Rightarrow>
          (case cmd of
             None \<Rightarrow> ([], st\<lparr>ls_running := False\<rparr>, s)
           | Some Stop \<Rightarrow> ([], st\<lparr>ls_running := False\<rparr>, s)
           | Some Pause \<Rightarrow> ([], st\<lparr>ls_paused := True\<rparr>, s)
           | Some Resume \<Rightarrow> ([], st\<lparr>ls_paused := False\<rparr>, s)
           | Some (RespondTo challenge) \<Rightarrow>
               (let (r, s') = answer_challenge source client challenge s in ([r], st, s')))
      | RecvBlockEvent event \<Rightarrow>
          if event = Closed then ([], st\<lparr>ls_events_open := False\<rparr>, s)
          else if \<not> rc_auto_respond cfg then ([], st, s)
          else
            (case event of
               Event (EvChallengeCreated dl idx _ provider) \<Rightarrow>
                 if rc_provider_account cfg \<noteq> provider then ([], st, s)
                 else (case fetch_challenge client dl idx s of
                         Inr (Some challenge) \<Rightarrow>
                           (let (r, s') = answer_challenge source client challenge s in ([r], st, s'))
                       | Inr None \<Rightarrow> ([], st, s)
                       | Inl _ \<Rightarrow> ([], st, s))
             | Event (EvResubscribed _) \<Rightarrow>
                 (let (rs, s') = scan_and_respond source client s in (rs, st, s'))
             | Lagged _ \<Rightarrow> (let (rs, s') = scan_and_respond source client s in (rs, st, s'))
             | _ \<Rightarrow> ([], st, s))
      | Tick \<Rightarrow>
          if ls_paused st \<or> \<not> rc_auto_respond cfg \<or> rc_poll_interval cfg = 0 then ([], st, s)
          else (let (rs, s') = scan_and_respond source client s in (rs, st, s'))))"

section \<open>The client of the node\<close>

definition detected_challenge :: "nat \<Rightarrow> nat \<Rightarrow> Challenge \<Rightarrow> account \<Rightarrow> DetectedChallenge option" where
  "detected_challenge dl idx challenge ours =
     (if ch_provider challenge \<noteq> ours then None
      else Some \<lparr>dc_bucket_id = ch_bucket_id challenge, dc_deadline = dl, dc_index = idx,
             dc_commitment = ch_commitment challenge, dc_target = ch_target challenge\<rparr>)"

definition detected_from_response :: "ChallengeView \<Rightarrow> DetectedChallenge" where
  "detected_from_response challenge = \<lparr>dc_bucket_id = cv_bucket_id challenge, dc_deadline = cv_deadline challenge,
     dc_index = cv_index challenge, dc_commitment = cv_commitment challenge, dc_target = cv_target challenge\<rparr>"

definition runtime_response :: "ResponderAnswer \<Rightarrow> ChallengeResponse" where
  "runtime_response answer =
     (case answer of
        AnswerProof chunk_data mmr_prf chunk_proof \<Rightarrow> Proof chunk_data mmr_prf chunk_proof
      | AnswerOutOfRange mmr_prf \<Rightarrow> ChunkOutOfRange mmr_prf)"

text \<open>
  The runtime decodes the call before it dispatches it, and a chunk longer than
  \<open>MaxChunkSize\<close> does not decode. \<open>block_hash\<close> is the block that takes the call.
\<close>

definition decodes :: "('c, 'm) env \<Rightarrow> ResponderAnswer \<Rightarrow> bool" where
  "decodes E answer = (case answer of AnswerProof chunk_data _ _ \<Rightarrow> length chunk_data \<le> MaxChunkSize (Cfg E) | _ \<Rightarrow> True)"

definition SubxtChainClient ::
    "('c, 'm) env \<Rightarrow> storage_order \<Rightarrow> account \<Rightarrow> ('c pstate \<Rightarrow> bool) \<Rightarrow> ('c pstate \<Rightarrow> H256) \<Rightarrow> 'c pstate chain_client" where
  "SubxtChainClient E ord ours online block_hash = \<lparr>
     poll_challenges = (\<lambda>s. if \<not> online s then Inl ChainFailed
       else Inr (map detected_from_response (query_provider_challenges E ord ours s))),
     fetch_challenge = (\<lambda>dl idx s. if \<not> online s then Inl ChainFailed
       else Inr (case fmlookup (Challenges s) (dl, idx) of
                   None \<Rightarrow> None
                 | Some challenge \<Rightarrow> detected_challenge dl idx challenge ours)),
     submit_response = (\<lambda>(dl, idx) answer s.
       if \<not> online s \<or> \<not> decodes E answer then (Inl ChainFailed, s)
       else case dispatch E (Signed ours) (RespondToChallenge \<lparr>deadline = dl, index = idx\<rparr> (runtime_response answer)) s of
              Inl _ \<Rightarrow> (Inl ChainFailed, s)
            | Inr s' \<Rightarrow> (Inr (block_hash s'), s'))\<rparr>"

end
