(* ===== verification/Store_Safety.thy ===== *)
theory Store_Safety
  imports Provider_Store Scenario
begin

text \<open>
  What the provider's store guarantees: trees are read along the split of the reference
  tree, so a chunk is found with a proof that verifies; a bucket only ever lists data roots
  whose canonical tree is stored; quotas hold; and a commitment the provider has made stays
  provable until its own prefix is deleted.
\<close>

section \<open>Proofs along the split of the reference tree\<close>

abbreviation leaf_proof_in :: "(H256 \<Rightarrow> H256 \<Rightarrow> H256) \<Rightarrow> H256 list \<Rightarrow> nat \<Rightarrow> H256 list" where
  "leaf_proof_in hc hs i \<equiv> proof_from_levels (levels_from hc hs) i"

lemma leaf_proof_in_single: "length hs \<le> 1 \<Longrightarrow> leaf_proof_in hc hs i = []"
  by (simp add: levels_from_single)

lemma sibling_index_shift: "even k \<Longrightarrow> k \<le> i \<Longrightarrow> sibling_index i = k + sibling_index (i - k)"
  by (cases "even i"; cases "i = k") (auto simp: sibling_index_even sibling_index_odd)

lemma sibling_index_less: "even k \<Longrightarrow> i < k \<Longrightarrow> sibling_index i < k"
  by (cases "even i") (auto simp: sibling_index_even sibling_index_odd elim!: evenE oddE)

lemma next_level_halves:
  assumes "even k" "k \<le> length hs"
  shows "take (k div 2) (next_level hc hs) = next_level hc (take k hs)"
    "drop (k div 2) (next_level hc hs) = next_level hc (drop k hs)"
proof -
  have "next_level hc hs = next_level hc (take k hs) @ next_level hc (drop k hs)"
    using next_level_append [of "take k hs" hc "drop k hs"] assms by simp
  moreover have "length (next_level hc (take k hs)) = k div 2" using assms by (simp add: length_next_level div_ceil_2)
  ultimately show "take (k div 2) (next_level hc hs) = next_level hc (take k hs)"
    "drop (k div 2) (next_level hc hs) = next_level hc (drop k hs)" by simp_all
qed

lemma leaf_proof_split:
  assumes "1 < length hs" "2 ^ e < length hs" "length hs \<le> 2 * 2 ^ e" "i < length hs"
  shows "leaf_proof_in hc hs i =
    (if i < 2 ^ e then leaf_proof_in hc (take (2 ^ e) hs) i @ [reference_root hc (drop (2 ^ e) hs)]
     else leaf_proof_in hc (drop (2 ^ e) hs) (i - 2 ^ e) @ [reference_root hc (take (2 ^ e) hs)])"
  using assms
proof (induction e arbitrary: hs i)
  case 0
  then have "length hs = 2" by simp
  then obtain x y where hs: "hs = [x, y]" by (auto simp: numeral_2_eq_2 length_Suc_conv)
  with "0.prems" have "i = 0 \<or> i = 1" by auto
  then show ?case
    by (auto simp: hs proof_from_levels_step levels_from_single reference_root_single sibling_index_even sibling_index_odd)
next
  case (Suc e)
  let ?k = "2 ^ Suc e :: nat" and ?up = "next_level hc hs"
  have k: "even ?k" "?k \<le> length hs" "?k div 2 = 2 ^ e" using Suc.prems by auto
  have len: "length ?up = (length hs + 1) div 2" by (simp add: length_next_level div_ceil_2)
  have "1 \<le> (2::nat) ^ e" by simp
  with Suc.prems(2) have "2 < length hs" unfolding power_Suc by linarith
  have one: "Suc 0 < 2 * 2 ^ e" using \<open>1 \<le> (2::nat) ^ e\<close> by linarith
  from \<open>2 < length hs\<close> Suc.prems have "1 < length ?up" "2 ^ e < length ?up" "length ?up \<le> 2 * 2 ^ e" "i div 2 < length ?up"
    unfolding len by auto
  from Suc.IH [OF this] have IH: "leaf_proof_in hc ?up (i div 2) =
    (if i div 2 < 2 ^ e then leaf_proof_in hc (next_level hc (take ?k hs)) (i div 2) @ [reference_root hc (drop ?k hs)]
     else leaf_proof_in hc (next_level hc (drop ?k hs)) (i div 2 - 2 ^ e) @ [reference_root hc (take ?k hs)])"
    using next_level_halves [OF k(1,2), of hc, unfolded k(3)] by (simp add: reference_root_next_level)
  note step = proof_from_levels_step [OF Suc.prems(1), of hc i]
  show ?case
  proof (cases "i < ?k")
    case True
    then have "i div 2 < 2 ^ e" "i \<noteq> length hs - 1" using Suc.prems by auto
    moreover have "leaf_proof_in hc (take ?k hs) i = [hs ! sibling_index i] @ leaf_proof_in hc (next_level hc (take ?k hs)) (i div 2)"
      using proof_from_levels_step [of "take ?k hs" hc i] k Suc.prems sibling_index_less [OF k(1) True] one by simp
    ultimately show ?thesis using IH step True by simp
  next
    case False
    then have ge: "\<not> i div 2 < 2 ^ e" and half: "(i - ?k) div 2 = i div 2 - 2 ^ e" by auto
    have cond: "(i - ?k \<noteq> length hs - ?k - 1 \<or> even (length hs - ?k)) \<longleftrightarrow> (i \<noteq> length hs - 1 \<or> even (length hs))"
      using False Suc.prems k(1,2) by auto
    show ?thesis
    proof (cases "length hs - ?k = 1")
      case True
      then have n: "length hs = Suc ?k" using k(2) by linarith
      then have "i = length hs - 1" "odd (length hs)" using False Suc.prems(4) by auto
      then show ?thesis using IH step ge False True
        by (simp add: leaf_proof_in_single next_level_short)
    next
      case False2: False
      then have "1 < length (drop ?k hs)" using Suc.prems by auto
      from proof_from_levels_step [OF this, of hc "i - ?k"] cond half
      have "leaf_proof_in hc (drop ?k hs) (i - ?k) =
        (if i \<noteq> length hs - 1 \<or> even (length hs) then [drop ?k hs ! sibling_index (i - ?k)] else [])
          @ leaf_proof_in hc (next_level hc (drop ?k hs)) (i div 2 - 2 ^ e)" by (simp only: length_drop)
      moreover have "drop ?k hs ! sibling_index (i - ?k) = hs ! sibling_index i"
        using k(2) False sibling_index_shift [OF k(1), of i] by simp
      ultimately show ?thesis using IH step ge False by simp
    qed
  qed
qed

section \<open>Stored trees\<close>

text \<open>
  Every node is stored under its own hash, and the children of a stored node are stored.
\<close>

definition nodes_ok :: "(byte list \<Rightarrow> H256) \<Rightarrow> nodes \<Rightarrow> bool" where
  "nodes_ok h ns \<longleftrightarrow>
     (\<forall>x n. fmlookup ns x = Some n \<longrightarrow> hash_of_node h n = x) \<and>
     (\<forall>x l r. fmlookup ns x = Some (Internal l r) \<longrightarrow> fmlookup ns l \<noteq> None \<and> fmlookup ns r \<noteq> None)"

text \<open>The tree under \<open>x\<close> is the chunk tree over the stored chunks with hashes \<open>hs\<close>.\<close>

definition stored_tree :: "(byte list \<Rightarrow> H256) \<Rightarrow> nodes \<Rightarrow> H256 list \<Rightarrow> H256 \<Rightarrow> bool" where
  "stored_tree h ns hs x \<longleftrightarrow> hs \<noteq> [] \<and> x = reference_root (hash_children h) hs \<and> fmlookup ns x \<noteq> None \<and>
     (\<forall>y\<in>set hs. \<exists>d. fmlookup ns y = Some (Chunk d))"

text \<open>
  The strings that were hashed for the stored nodes, and the pairs of children the reference
  tree over a list of hashes hashes.
\<close>

fun preimage :: "ChunkTreeNode \<Rightarrow> byte list" where
  "preimage (Chunk d) = leaf_string d"
| "preimage (Internal l r) = node_string (l, r)"

definition stored_strings :: "nodes \<Rightarrow> byte list set" where
  "stored_strings ns = preimage ` fmran' ns"

function reference_pairs :: "(H256 \<Rightarrow> H256 \<Rightarrow> H256) \<Rightarrow> H256 list \<Rightarrow> (H256 \<times> H256) list" where
  "reference_pairs hc xs =
     (if length xs \<le> 1 then []
      else let left = take (split_point (length xs)) xs; right = drop (split_point (length xs)) xs
           in (reference_root hc left, reference_root hc right) # reference_pairs hc left @ reference_pairs hc right)"
  by pat_completeness auto
termination
  by (relation "measure (\<lambda>(hc, xs). length xs)") (auto simp: not_le min_less_iff_disj intro: split_point_bounds intro!: diff_less)

declare reference_pairs.simps [simp del]

text \<open>All strings hashed for the reference tree over \<open>hs\<close> are in \<open>S\<close>.\<close>

abbreviation covered :: "byte list set \<Rightarrow> (byte list \<Rightarrow> H256) \<Rightarrow> nodes \<Rightarrow> H256 list \<Rightarrow> H256 \<Rightarrow> bool" where
  "covered S h ns hs x \<equiv> stored_tree h ns hs x \<and> node_string ` set (reference_pairs (hash_children h) hs) \<subseteq> S"

lemma hash_of_preimage: "hash_of_node h n = h (preimage n)"
  by (cases n) (simp_all add: hash_of_node_def hash_leaf_string hash_children_string)

lemma preimage_eq [simp]: "preimage n = preimage n' \<longleftrightarrow> n = n'"
  by (cases n; cases n') simp_all

lemma stored_stringsI: "fmlookup ns x = Some n \<Longrightarrow> preimage n \<in> stored_strings ns"
  by (auto simp: stored_strings_def intro: fmran'I)

lemma nodes_ok_hash:
  assumes "nodes_ok h ns"
  shows "fmlookup ns x = Some (Chunk d) \<Longrightarrow> hash_leaf h d = x"
    and "fmlookup ns x = Some (Internal l r) \<Longrightarrow> hash_children h l r = x"
  using assms unfolding nodes_ok_def by (force simp: hash_of_node_def)+

lemma stored_tree_leaf:
  assumes "stored_tree h ns hs x" "length hs = 1"
  shows "\<exists>d. fmlookup ns x = Some (Chunk d) \<and> x = hs ! 0"
proof -
  from assms(2) obtain y where "hs = [y]" by (auto simp: length_Suc_conv)
  with assms(1) show ?thesis by (auto simp: stored_tree_def reference_root_single)
qed

lemma stored_tree_split:
  assumes ok: "nodes_ok h ns" "\<not> collision_among h S" "stored_strings ns \<subseteq> S" and t: "covered S h ns hs x"
    and n: "1 < length hs" "2 ^ e < length hs" "length hs \<le> 2 * 2 ^ e"
  obtains l r where "fmlookup ns x = Some (Internal l r)" "covered S h ns (take (2 ^ e) hs) l"
    "covered S h ns (drop (2 ^ e) hs) r"
proof -
  let ?hc = "hash_children h"
  let ?l = "reference_root ?hc (take (2 ^ e) hs)" and ?r = "reference_root ?hc (drop (2 ^ e) hs)"
  have x: "x = h (node_string (?l, ?r))"
    using t reference_root_split [OF n] by (simp add: stored_tree_def hash_children_string)
  have pairs: "reference_pairs ?hc hs = (?l, ?r) # reference_pairs ?hc (take (2 ^ e) hs) @ reference_pairs ?hc (drop (2 ^ e) hs)"
    using n split_point_unique [OF n] by (subst reference_pairs.simps) (simp add: Let_def)
  from t obtain node where node: "fmlookup ns x = Some node" by (auto simp: stored_tree_def)
  have "h (preimage node) = x" using ok(1) node by (auto simp: nodes_ok_def hash_of_preimage)
  moreover have "preimage node \<in> S" "node_string (?l, ?r) \<in> S" using stored_stringsI [OF node] ok(3) t pairs by auto
  ultimately have "preimage node = node_string (?l, ?r)" using collision_amongI [of h _ _ S] x ok(2) by metis
  then have lr: "node = Internal ?l ?r" by (cases node) auto
  moreover have "fmlookup ns ?l \<noteq> None" "fmlookup ns ?r \<noteq> None" using ok(1) node lr by (auto simp: nodes_ok_def)
  ultimately show thesis using that [OF node [unfolded lr]] t n pairs
    by (auto simp: stored_tree_def dest: in_set_takeD in_set_dropD)
qed

lemma split_point_exponent:
  assumes "1 < n" obtains e where "split_point n = 2 ^ e" "2 ^ e < n" "n \<le> 2 * 2 ^ e"
proof -
  obtain e where e: "split_point n = 2 ^ e" by (simp add: split_point_def)
  with that split_point_bounds [OF assms] show thesis by simp
qed

lemma chunk_proof_loop_stored:
  assumes ok: "nodes_ok h ns" "\<not> collision_among h S" "stored_strings ns \<subseteq> S"
  shows "covered S h ns hs x \<Longrightarrow> i < length hs \<Longrightarrow>
    \<exists>d. chunk_proof_loop ns tree x (length hs) i sibs = Inr (hs ! i, d, leaf_proof_in (hash_children h) hs i @ rev sibs) \<and>
      fmlookup ns (hs ! i) = Some (Chunk d)"
proof (induction "length hs" arbitrary: hs x i sibs rule: less_induct)
  case less
  show ?case
  proof (cases "1 < length hs")
    case False
    with less.prems have one: "length hs = 1" "i = 0" by auto
    from stored_tree_leaf [OF conjunct1 [OF less.prems(1)] one(1)] obtain d where d: "fmlookup ns x = Some (Chunk d)" "x = hs ! 0" by blast
    then show ?thesis using one by (subst chunk_proof_loop.simps) (simp add: leaf_proof_in_single)
  next
    case True
    obtain e where e: "split_point (length hs) = 2 ^ e" "2 ^ e < length hs" "length hs \<le> 2 * 2 ^ e"
      by (rule split_point_exponent [OF True])
    obtain l r where lr: "fmlookup ns x = Some (Internal l r)" "covered S h ns (take (2 ^ e) hs) l"
      "covered S h ns (drop (2 ^ e) hs) r"
      by (rule stored_tree_split [OF ok less.prems(1) True e(2,3)])
    have roots: "l = reference_root (hash_children h) (take (2 ^ e) hs)" "r = reference_root (hash_children h) (drop (2 ^ e) hs)"
      using lr by (auto simp: stored_tree_def)
    note split = leaf_proof_split [OF True e(2,3) less.prems(2), of "hash_children h", folded roots]
    show ?thesis
    proof (cases "i < 2 ^ e")
      case i: True
      have "length (take (2 ^ e) hs) < length hs" "i < length (take (2 ^ e) hs)" using e i by auto
      from less.hyps [OF this(1) lr(2) this(2), of "sibs @ [r]"] obtain d where
        "chunk_proof_loop ns tree l (2 ^ e) i (sibs @ [r]) = Inr (hs ! i, d, leaf_proof_in (hash_children h) hs i @ rev sibs)"
        "fmlookup ns (hs ! i) = Some (Chunk d)"
        using e i split by auto
      then show ?thesis using True e(1) lr(1) i by (subst chunk_proof_loop.simps) (simp add: Let_def)
    next
      case i: False
      have "length (drop (2 ^ e) hs) < length hs" "i - 2 ^ e < length (drop (2 ^ e) hs)" using e i less.prems by auto
      from less.hyps [OF this(1) lr(3) this(2), of "sibs @ [l]"] obtain d where
        "chunk_proof_loop ns tree r (length hs - 2 ^ e) (i - 2 ^ e) (sibs @ [l]) =
           Inr (hs ! i, d, leaf_proof_in (hash_children h) hs i @ rev sibs)" "fmlookup ns (hs ! i) = Some (Chunk d)"
        using e i split less.prems(2) by auto
      then show ?thesis using True e(1) lr(1) i by (subst chunk_proof_loop.simps) (simp add: Let_def)
    qed
  qed
qed

lemma left_child_loop_stored:
  assumes ok: "nodes_ok h ns" "\<not> collision_among h S" "stored_strings ns \<subseteq> S"
  shows "covered S h ns hs x \<Longrightarrow> length hs = 2 ^ e \<Longrightarrow> e < rounds \<Longrightarrow>
    left_child_loop ns tree height rounds x = Inr (2 ^ (height + e))"
proof (induction e arbitrary: hs x height rounds)
  case 0
  from stored_tree_leaf [OF conjunct1 [OF "0.prems"(1)]] "0.prems" show ?case by (cases rounds) auto
next
  case (Suc e)
  have "0 < (2::nat) ^ e" by simp
  then have n: "1 < length hs" "2 ^ e < length hs" "length hs \<le> 2 * 2 ^ e" unfolding Suc.prems(2) power_Suc by linarith+
  obtain l r where "fmlookup ns x = Some (Internal l r)" "covered S h ns (take (2 ^ e) hs) l"
    by (rule stored_tree_split [OF ok Suc.prems(1) n])
  with Suc.IH [of "take (2 ^ e) hs" l "rounds - 1" "height + 1"] Suc.prems n show ?case by (cases rounds) auto
qed

lemma chunk_count_loop_stored:
  assumes ok: "nodes_ok h ns" "\<not> collision_among h S" "stored_strings ns \<subseteq> S"
  shows "covered S h ns hs x \<Longrightarrow> length hs \<le> 2 ^ f \<Longrightarrow> f < rounds \<Longrightarrow> f \<le> MAX_TREE_DEPTH \<Longrightarrow>
    count + length hs < 2 ^ 64 \<Longrightarrow> chunk_count_loop ns tree count rounds x = Inr (count + length hs)"
proof (induction f arbitrary: hs x count rounds rule: less_induct)
  case (less f)
  obtain m where rounds: "rounds = Suc m" using less.prems(3) by (cases rounds) auto
  show ?case
  proof (cases "1 < length hs")
    case False
    with less.prems(1) have "length hs = 1" by (cases hs) (auto simp: stored_tree_def)
    with stored_tree_leaf [OF conjunct1 [OF less.prems(1)]] less.prems rounds show ?thesis by (auto simp: checked_add_def)
  next
    case True
    obtain e where e: "split_point (length hs) = 2 ^ e" "2 ^ e < length hs" "length hs \<le> 2 * 2 ^ e"
      by (rule split_point_exponent [OF True])
    obtain l r where lr: "fmlookup ns x = Some (Internal l r)" "covered S h ns (take (2 ^ e) hs) l"
      "covered S h ns (drop (2 ^ e) hs) r"
      by (rule stored_tree_split [OF ok less.prems(1) True e(2,3)])
    have "(2::nat) ^ e < 2 ^ f" using e less.prems(2) by linarith
    then have ef: "e < f" by (simp add: power_strict_increasing_iff)
    have left: "left_child_chunks ns l tree = Inr (2 ^ e)"
      using left_child_loop_stored [OF ok lr(2), of e "MAX_TREE_DEPTH + 1" tree 0] e ef less.prems(4)
      by (simp add: left_child_chunks_def)
    have "chunk_count_loop ns tree (count + 2 ^ e) m r = Inr (count + 2 ^ e + length (drop (2 ^ e) hs))"
      using less.prems rounds ef e by (intro less.IH [OF ef lr(3)]) auto
    then show ?thesis using lr(1) left e less.prems(5) rounds by (simp add: checked_add_def)
  qed
qed

lemma get_chunk_stored:
  assumes ok: "nodes_ok h ns" "\<not> collision_among h S" "stored_strings ns \<subseteq> S" and t: "covered S h ns hs x"
    and n: "length hs \<le> 2 ^ MAX_TREE_DEPTH"
  shows "tree_chunk_count ns x = Inr (length hs)"
    and "i < length hs \<Longrightarrow> \<exists>d prf. get_chunk_at_index ns x i = Inr (d, prf) \<and> fmlookup ns (hs ! i) = Some (Chunk d) \<and>
      verify_merkle_proof (hash_children h) (hash_leaf h d) i (length hs) prf x"
    and "length hs \<le> i \<Longrightarrow> get_chunk_at_index ns x i = Inl (ChunkIndexOutOfRange i (length hs))"
proof -
  have "(2::nat) ^ MAX_TREE_DEPTH < 2 ^ 64" by (simp add: MAX_TREE_DEPTH_def)
  then have "length hs < 2 ^ 64" using n by linarith
  then show count: "tree_chunk_count ns x = Inr (length hs)"
    using chunk_count_loop_stored [OF ok t n, of "MAX_TREE_DEPTH + 1" 0] by (simp add: tree_chunk_count_def)
  show "length hs \<le> i \<Longrightarrow> get_chunk_at_index ns x i = Inl (ChunkIndexOutOfRange i (length hs))"
    by (simp add: get_chunk_at_index_def count)
  assume i: "i < length hs"
  from chunk_proof_loop_stored [OF ok t i, of x "[]"] obtain d where
    d: "chunk_with_proof ns x (length hs) i = Inr (hs ! i, d, leaf_proof_in (hash_children h) hs i)" "fmlookup ns (hs ! i) = Some (Chunk d)"
    by (auto simp: chunk_with_proof_def)
  have "hs \<noteq> []" "x = root_of_level (hash_children h) hs"
    using t root_is_reference [of "hash_children h" hs] by (auto simp: stored_tree_def merkle_root_eq)
  then have "verify_merkle_proof (hash_children h) (hs ! i) i (length hs) (leaf_proof_in (hash_children h) hs i) x"
    using verify_loop_complete [OF i, of "hash_children h" "[]"] i by (simp add: verify_merkle_proof_def)
  with d show "\<exists>d prf. get_chunk_at_index ns x i = Inr (d, prf) \<and> fmlookup ns (hs ! i) = Some (Chunk d) \<and>
      verify_merkle_proof (hash_children h) (hash_leaf h d) i (length hs) prf x"
    using i nodes_ok_hash(1) [OF ok(1) d(2)] by (auto simp: get_chunk_at_index_def count)
qed

section \<open>Canonical data\<close>

lemma walk_from_mono:
  "walk_from ns max_nodes v stack = Inr vs \<Longrightarrow> fmlookup ns y = None \<Longrightarrow> walk_from (fmupd y n ns) max_nodes v stack = Inr vs"
proof (induction ns max_nodes v stack arbitrary: vs rule: walk_from.induct)
  case (2 ns max_nodes v hash stack)
  then show ?case by (auto split: if_splits option.splits sum.splits)
qed simp

lemma collect_leaves_mono:
  assumes "collect_leaves ns tree = Inr leaves" "fmlookup ns y = None"
  shows "collect_leaves (fmupd y n ns) tree = Inr leaves"
proof -
  from assms(1) obtain vs where "walk_from ns MAX_TREE_WALK_VISITS 0 [tree] = Inr vs"
    by (auto simp: collect_leaves_def walk_tree_def result_simps simp del: walk_from.simps)
  with walk_from_mono [OF this assms(2), of n] assms(1) show ?thesis
    by (simp add: collect_leaves_def walk_tree_def del: walk_from.simps)
qed

lemma walk_from_sound:
  "walk_from ns max_nodes v stack = Inr vs \<Longrightarrow>
   (\<forall>(x, n)\<in>set vs. fmlookup ns x = Some n) \<and> (vs = [] \<or> v + length vs \<le> max_nodes) \<and>
   (\<forall>x rest. stack = x # rest \<longrightarrow> fmlookup ns x \<noteq> None)"
proof (induction ns max_nodes v stack arbitrary: vs rule: walk_from.induct)
  case (2 ns max_nodes v hash stack)
  from "2.prems" obtain node rest where node: "fmlookup ns hash = Some node" "\<not> max_nodes < v + 1"
    and rest: "walk_from ns max_nodes (v + 1)
       (case node of Internal l r \<Rightarrow> l # r # stack | Chunk _ \<Rightarrow> stack) = Inr rest" and vs: "vs = (hash, node) # rest"
    by (auto split: if_splits option.splits sum.splits)
  from "2.IH" [OF node(2,1) rest] show ?case using node by (auto simp: vs)
qed auto

lemma collect_leaves_sound:
  assumes "collect_leaves ns tree = Inr leaves"
  shows "\<forall>(x, n)\<in>set leaves. \<exists>d. fmlookup ns x = Some (Chunk d) \<and> length d = n"
    "length leaves \<le> MAX_TREE_WALK_VISITS" "fmlookup ns tree \<noteq> None"
proof -
  let ?f = "\<lambda>(hash :: H256, node). case node of Chunk d \<Rightarrow> Some (hash, length d) | Internal _ _ \<Rightarrow> None"
  from assms obtain vs where vs: "walk_from ns MAX_TREE_WALK_VISITS 0 [tree] = Inr vs" "leaves = List.map_filter ?f vs"
    by (auto simp: collect_leaves_def walk_tree_def result_simps)
  note W = walk_from_sound [OF vs(1)]
  show "fmlookup ns tree \<noteq> None" using W by blast
  have "length (List.map_filter ?f vs) \<le> length vs" by (simp add: List.map_filter_def)
  moreover have "length vs \<le> MAX_TREE_WALK_VISITS" using W by auto
  ultimately show "length leaves \<le> MAX_TREE_WALK_VISITS" unfolding vs(2) by (rule le_trans)
  show "\<forall>(x, n)\<in>set leaves. \<exists>d. fmlookup ns x = Some (Chunk d) \<and> length d = n"
    using W by (fastforce simp: vs(2) List.map_filter_def split: ChunkTreeNode.splits)
qed

lemma sum_fixed_sizes:
  assumes "sizes \<noteq> []" "list_all (\<lambda>n. n = c) (butlast sizes)" "1 \<le> last sizes" "last sizes \<le> (c::nat)"
  shows "div_ceil (sum_list sizes) c = length sizes" "sum_list sizes \<le> length sizes * c"
proof -
  have "butlast sizes = replicate (length sizes - 1) c"
    using assms(2) by (intro replicate_eqI) (auto simp: list_all_iff)
  then have sum: "sum_list sizes = (length sizes - 1) * c + last sizes"
    using arg_cong [OF append_butlast_last_id [OF assms(1)], of sum_list] by (simp add: sum_list_replicate)
  obtain m where m: "length sizes = Suc m" using assms(1) by (cases sizes) auto
  show "sum_list sizes \<le> length sizes * c" using assms(4) by (simp add: sum m)
  have c: "0 < c" using assms(3,4) by linarith
  have "div_ceil (sum_list sizes) c \<le> q \<longleftrightarrow> Suc m \<le> q" for q
  proof
    assume "div_ceil (sum_list sizes) c \<le> q"
    then have "m * c + last sizes \<le> q * c" by (simp add: div_ceil_le_iff [OF c] sum m)
    then have "m * c < q * c" using assms(3) by linarith
    then show "Suc m \<le> q" by simp
  next
    assume "Suc m \<le> q"
    then have "Suc m * c \<le> q * c" by (rule mult_le_mono1)
    then show "div_ceil (sum_list sizes) c \<le> q" using assms(4) by (simp add: div_ceil_le_iff [OF c] sum m)
  qed
  then show "div_ceil (sum_list sizes) c = length sizes" unfolding m by (metis le_refl le_antisym)
qed

text \<open>A leaf is held when the chunk tree of its data is stored.\<close>

definition leaf_held :: "(byte list \<Rightarrow> H256) \<Rightarrow> nodes \<Rightarrow> MmrLeaf \<Rightarrow> bool" where
  "leaf_held h ns l \<longleftrightarrow> (\<exists>leaves. collect_leaves ns (data_root l) = Inr leaves \<and>
     stored_tree h ns (map fst leaves) (data_root l) \<and> length leaves \<le> MAX_TREE_WALK_VISITS \<and>
     chunk_count l = Some (length leaves) \<and> (\<forall>(x, n)\<in>set leaves. n \<le> DEFAULT_CHUNK_SIZE) \<and>
     list_all (\<lambda>n. n = DEFAULT_CHUNK_SIZE) (butlast (map snd leaves)) \<and> data_size l = sum_list (map snd leaves))"

text \<open>The strings hashed for the stored nodes and for the trees of the given leaves.\<close>

definition leaf_hashes :: "nodes \<Rightarrow> MmrLeaf \<Rightarrow> H256 list" where
  "leaf_hashes ns l = (case collect_leaves ns (data_root l) of Inl _ \<Rightarrow> [] | Inr leaves \<Rightarrow> map fst leaves)"

definition store_strings :: "(byte list \<Rightarrow> H256) \<Rightarrow> nodes \<Rightarrow> MmrLeaf set \<Rightarrow> byte list set" where
  "store_strings h ns ls = stored_strings ns \<union>
     (\<Union>l\<in>ls. node_string ` set (reference_pairs (hash_children h) (leaf_hashes ns l)))"

lemma canonical_data_size_held:
  assumes "canonical_data_size h ns tree = Inr n"
  shows "leaf_held h ns \<lparr>leaf_version = LEAF_VERSION, data_root = tree, data_size = n, total_size = t\<rparr>"
proof -
  from assms obtain leaves where leaves: "collect_leaves ns tree = Inr leaves"
    and sizes: "map snd leaves \<noteq> []" "list_all (\<lambda>n. n = DEFAULT_CHUNK_SIZE) (butlast (map snd leaves))"
      "1 \<le> last (map snd leaves)" "last (map snd leaves) \<le> DEFAULT_CHUNK_SIZE"
    and tree: "merkle_root (hash_children h) (map fst leaves) = tree" and n: "n = sum_list (map snd leaves)"
    by (auto simp: canonical_data_size_def result_simps Let_def split: if_splits)
  note L = collect_leaves_sound [OF leaves]
  have "stored_tree h ns (map fst leaves) tree"
    using L(1,3) sizes(1) tree by (fastforce simp: stored_tree_def root_is_reference)
  moreover have "div_ceil n DEFAULT_CHUNK_SIZE = length leaves" using sum_fixed_sizes(1) [OF sizes] by (simp add: n)
  moreover have "\<forall>m\<in>set (map snd leaves). m \<le> DEFAULT_CHUNK_SIZE"
    using sizes(2,4) unfolding arg_cong [OF append_butlast_last_id [OF sizes(1)], of set, symmetric] by (auto simp: list_all_iff)
  ultimately show ?thesis using L(2) leaves sizes(2) n
    by (auto simp: leaf_held_def chunk_count_def chunk_size_def LEAF_VERSION_def)
qed

section \<open>The invariant of the store\<close>

definition bucket_held :: "'m mmr_lib \<Rightarrow> (byte list \<Rightarrow> H256) \<Rightarrow> nodes \<Rightarrow> BucketState \<Rightarrow> bool" where
  "bucket_held lib h ns bk \<longleftrightarrow> (\<forall>l\<in>set (bk_leaves bk). leaf_held h ns l) \<and>
     mmr_root_of lib h (bk_leaves bk) = Inr (bk_mmr_root bk) \<and> bk_used_bytes bk \<le> bk_max_bytes bk"

definition store_ok :: "'m mmr_lib \<Rightarrow> (byte list \<Rightarrow> H256) \<Rightarrow> DiskStorage \<Rightarrow> bool" where
  "store_ok lib h d \<longleftrightarrow> nodes_ok h (cf_nodes d) \<and>
     (\<forall>b bk. fmlookup (cf_buckets d) b = Some bk \<longrightarrow> bucket_held lib h (cf_nodes d) bk)"

inductive store_step :: "'m mmr_lib \<Rightarrow> (byte list \<Rightarrow> H256) \<Rightarrow> DiskStorage \<Rightarrow> DiskStorage \<Rightarrow> bool"
  for lib :: "'m mmr_lib" and h :: "byte list \<Rightarrow> H256" where
  init: "store_step lib h d (init_bucket b q d)"
| node: "store_node h b x n d = Inr d' \<Longrightarrow> store_step lib h d d'"
| commit: "commit lib h b roots d = Inr (out, d') \<Longrightarrow> store_step lib h d d'"
| delete: "delete_before lib h b n d = Inr (c, d') \<Longrightarrow> store_step lib h d d'"

inductive store_reachable :: "'m mmr_lib \<Rightarrow> (byte list \<Rightarrow> H256) \<Rightarrow> DiskStorage \<Rightarrow> bool"
  for lib :: "'m mmr_lib" and h :: "byte list \<Rightarrow> H256" where
  empty: "store_reachable lib h \<lparr>cf_nodes = fmempty, cf_buckets = fmempty\<rparr>"
| step: "store_reachable lib h d \<Longrightarrow> store_step lib h d d' \<Longrightarrow> store_reachable lib h d'"

inductive_cases store_stepE: "store_step lib h d d'"

lemma mmr_result_Inr [result_simps]: "mmr_result r k = Inr y \<longleftrightarrow> (\<exists>v. r = Inr v \<and> k v = Inr y)"
  by (simp add: mmr_result_def split: sum.split)

lemma stored_tree_mono:
  "stored_tree h ns hs x \<Longrightarrow> fmlookup ns y = None \<Longrightarrow> stored_tree h (fmupd y n ns) hs x"
  unfolding stored_tree_def by (auto; metis option.distinct(1))

lemma leaf_held_mono: "leaf_held h ns l \<Longrightarrow> fmlookup ns y = None \<Longrightarrow> leaf_held h (fmupd y n ns) l"
  unfolding leaf_held_def by (blast intro: stored_tree_mono collect_leaves_mono)

lemma push_leaves_append: "\<exists>new. push_leaves leaves xs = leaves @ new \<and> length new = length xs"
proof (induction leaves xs rule: push_leaves.induct)
  case (2 leaves tree bytes rest)
  then show ?case by (auto simp: Let_def)
qed simp

lemma push_leaves_held:
  "canonical_sizes h ns roots = Inr sizes \<Longrightarrow> \<forall>l\<in>set leaves. leaf_held h ns l \<Longrightarrow>
   \<forall>l\<in>set (push_leaves leaves (zip roots sizes)). leaf_held h ns l"
proof (induction h ns roots arbitrary: leaves sizes rule: canonical_sizes.induct)
  case (2 h ns tree roots)
  from "2.prems"(1) obtain n rest where n: "canonical_data_size h ns tree = Inr n"
    "canonical_sizes h ns roots = Inr rest" "sizes = n # rest" by (auto simp: result_simps)
  show ?case unfolding n(3) zip_Cons_Cons push_leaves.simps
    using "2.prems"(2) canonical_data_size_held [OF n(1)] by (intro "2.IH" [OF n(2)]) auto
qed auto

lemma store_okD:
  assumes "store_ok lib h d"
  shows "nodes_ok h (cf_nodes d)" "fmlookup (cf_buckets d) b = Some bk \<Longrightarrow> bucket_held lib h (cf_nodes d) bk"
  using assms by (auto simp: store_ok_def)

lemma store_ok_bucket_upd:
  assumes "store_ok lib h d" "bucket_held lib h (cf_nodes d) bk"
  shows "store_ok lib h (d\<lparr>cf_buckets := fmupd b bk (cf_buckets d)\<rparr>)"
  using assms by (auto simp: store_ok_def)

lemma store_node_ok:
  assumes I: "store_ok lib h d" and res: "store_node h b x n d = Inr d'"
  shows "store_ok lib h d'"
proof (cases "fmhas (cf_nodes d) x")
  case True
  with res have "d' = d" by (auto simp: store_node_def result_simps Let_def)
  with I show ?thesis by simp
next
  case False
  with res obtain bk where bk: "fmlookup (cf_buckets d) b = Some bk" and x: "hash_of_node h n = x"
    and quota: "saturating_add 64 (bk_used_bytes bk) (node_size n) \<le> bk_max_bytes bk"
    and kids: "\<And>l r. n = Internal l r \<Longrightarrow> fmhas (cf_nodes d) l \<and> fmhas (cf_nodes d) r"
    and d': "d' = d\<lparr>cf_nodes := fmupd x n (cf_nodes d), cf_buckets := fmupd b (bk\<lparr>
        bk_used_bytes := saturating_add 64 (bk_used_bytes bk) (node_size n),
        bk_node_count := saturating_add 64 (bk_node_count bk) 1\<rparr>) (cf_buckets d)\<rparr>"
    by (auto simp: store_node_def result_simps Let_def split: if_splits ChunkTreeNode.splits)
  have new: "fmlookup (cf_nodes d) x = None" using False by (simp add: fmhas_def)
  have "nodes_ok h (cf_nodes d')"
    using store_okD(1) [OF I] x kids by (auto simp: nodes_ok_def d' fmhas_def)
  moreover have "bucket_held lib h (cf_nodes d') bk'" if "bucket_held lib h (cf_nodes d) bk'" for bk'
    using that leaf_held_mono [OF _ new] by (auto simp: bucket_held_def d')
  moreover have "bucket_held lib h (cf_nodes d') (bk\<lparr>bk_used_bytes := u, bk_node_count := c\<rparr>)" if "u \<le> bk_max_bytes bk" for u c
    using store_okD(2) [OF I bk] leaf_held_mono [OF _ new] that by (auto simp: bucket_held_def d')
  ultimately show ?thesis using store_okD(2) [OF I] quota unfolding store_ok_def
    by (auto simp: d')
qed

lemma commit_Inr:
  assumes "commit lib h b roots d = Inr (out, d')"
  obtains bk sizes rt where "fmlookup (cf_buckets d) b = Some bk" "canonical_sizes h (cf_nodes d) roots = Inr sizes"
    "mmr_root_of lib h (push_leaves (bk_leaves bk) (zip roots sizes)) = Inr rt"
    "d' = d\<lparr>cf_buckets := fmupd b (bk\<lparr>bk_leaves := push_leaves (bk_leaves bk) (zip roots sizes), bk_mmr_root := rt\<rparr>) (cf_buckets d)\<rparr>"
    "co_mmr_root out = rt" "co_start_seq out = bk_start_seq bk"
    "co_leaf_count out = length (push_leaves (bk_leaves bk) (zip roots sizes))"
  using assms by (auto simp: commit_def result_simps Let_def split: option.splits)

lemma commit_ok:
  assumes I: "store_ok lib h d" and res: "commit lib h b roots d = Inr (out, d')"
  shows "store_ok lib h d'"
proof -
  from res obtain bk sizes rt where bk: "fmlookup (cf_buckets d) b = Some bk" "canonical_sizes h (cf_nodes d) roots = Inr sizes"
    "mmr_root_of lib h (push_leaves (bk_leaves bk) (zip roots sizes)) = Inr rt"
    "d' = d\<lparr>cf_buckets := fmupd b (bk\<lparr>bk_leaves := push_leaves (bk_leaves bk) (zip roots sizes), bk_mmr_root := rt\<rparr>) (cf_buckets d)\<rparr>"
    by (rule commit_Inr)
  then show ?thesis using store_okD(2) [OF I bk(1)] push_leaves_held [OF bk(2), of "bk_leaves bk"]
    by (auto intro!: store_ok_bucket_upd [OF I] simp: bucket_held_def)
qed

lemma delete_before_Inr:
  assumes "delete_before lib h b n d = Inr (c, d')"
  obtains bk where "fmlookup (cf_buckets d) b = Some bk" "n = bk_start_seq bk" "d' = d" "c = commitment_of bk"
  | bk rt where "fmlookup (cf_buckets d) b = Some bk" "bk_start_seq bk < n"
    "n \<le> saturating_add 64 (bk_start_seq bk) (length (bk_leaves bk))"
    "mmr_root_of lib h (drop (n - bk_start_seq bk) (bk_leaves bk)) = Inr rt"
    "d' = d\<lparr>cf_buckets := fmupd b (bk\<lparr>bk_leaves := drop (n - bk_start_seq bk) (bk_leaves bk), bk_start_seq := n,
       bk_mmr_root := rt\<rparr>) (cf_buckets d)\<rparr>"
    "c = \<lparr>mmr_root = rt, start_seq = n, leaf_count = length (bk_leaves bk) - (n - bk_start_seq bk)\<rparr>"
  using assms by (auto simp: delete_before_def result_simps Let_def commitment_of_def split: if_splits)

lemma delete_before_ok:
  assumes I: "store_ok lib h d" and res: "delete_before lib h b n d = Inr (c, d')"
  shows "store_ok lib h d'"
  using res
proof (cases rule: delete_before_Inr)
  case (2 bk rt)
  then show ?thesis using store_okD(2) [OF I 2(1)] set_drop_subset [of "n - bk_start_seq bk" "bk_leaves bk"]
    by (auto intro!: store_ok_bucket_upd [OF I] simp: bucket_held_def subset_iff)
qed (use I in simp)

lemma init_bucket_ok: "store_ok lib h d \<Longrightarrow> store_ok lib h (init_bucket b q d)"
  by (auto simp: init_bucket_def BucketState_new_def bucket_held_def mmr_root_of_def mmr_peaks_def intro: store_ok_bucket_upd)

lemma store_step_ok: "store_step lib h d d' \<Longrightarrow> store_ok lib h d \<Longrightarrow> store_ok lib h d'"
  by (erule store_stepE) (auto intro: init_bucket_ok store_node_ok commit_ok delete_before_ok)

lemma store_reachable_ok: "store_reachable lib h d \<Longrightarrow> store_ok lib h d"
proof (induction rule: store_reachable.induct)
  case empty
  show ?case by (simp add: store_ok_def nodes_ok_def)
next
  case (step d d')
  then show ?case by (blast intro: store_step_ok)
qed

section \<open>A run of the store\<close>

text \<open>
  The store of the provider of the scenario: one bucket with one chunk, committed as the
  leaf the scenario checkpoints.
\<close>

abbreviation demo_hash :: "byte list \<Rightarrow> H256" where
  "demo_hash \<equiv> blake2_256 (Crypto demo_env)"

definition demo_uploaded :: DiskStorage where
  "demo_uploaded = \<lparr>cf_nodes = fmupd (H256_repeat_byte 4) (Chunk [1, 2, 3]) fmempty,
     cf_buckets = fmupd 0 ((BucketState_new 100)\<lparr>bk_used_bytes := 3, bk_node_count := 1\<rparr>) fmempty\<rparr>"

definition demo_bucket :: BucketState where
  "demo_bucket = \<lparr>bk_mmr_root = H256_repeat_byte 50, bk_start_seq = 0, bk_leaves = [demo_leaf],
     bk_used_bytes = 3, bk_node_count = 1, bk_max_bytes = 100\<rparr>"

definition demo_store :: DiskStorage where
  "demo_store = demo_uploaded\<lparr>cf_buckets := fmupd 0 demo_bucket fmempty\<rparr>"

lemma demo_hash_apply [simp]: "demo_hash bs = H256_repeat_byte (word_of_nat (length bs))"
  by (simp add: demo_env_def ledger_environment_def demo_crypto_def)

lemma demo_collect_leaves: "collect_leaves (cf_nodes demo_uploaded) (H256_repeat_byte 4) = Inr [(H256_repeat_byte 4, 3)]"
  by (simp add: collect_leaves_def walk_tree_def demo_uploaded_def MAX_TREE_WALK_VISITS_def List.map_filter_def)

lemma demo_commit: "\<exists>out. commit demo_mmr demo_hash 0 [H256_repeat_byte 4] demo_uploaded = Inr (out, demo_store)"
  using demo_collect_leaves
  by (simp add: commit_def canonical_data_size_def merkle_root_eq root_of_level_single DEFAULT_CHUNK_SIZE_def)
    (simp add: demo_uploaded_def demo_store_def demo_bucket_def demo_leaf_def fmhas_def BucketState_new_def mmr_root_of_def
      mmr_peaks_def mmr_build_def mmr_result_def demo_mmr_def saturating_add_def LEAF_VERSION_def hash_leaf_def encode_leaf_def Let_def)

lemma demo_store_reachable: "store_reachable demo_mmr demo_hash demo_store"
proof -
  let ?d1 = "init_bucket 0 100 \<lparr>cf_nodes = fmempty, cf_buckets = fmempty\<rparr>"
  have "store_node demo_hash 0 (H256_repeat_byte 4) (Chunk [1, 2, 3]) ?d1 = Inr demo_uploaded"
    by (simp add: store_node_def init_bucket_def hash_of_node_def hash_leaf_def node_size_def demo_uploaded_def
        BucketState_new_def saturating_add_def fmhas_def Let_def numeral_3_eq_3)
  moreover have "store_step demo_mmr demo_hash \<lparr>cf_nodes = fmempty, cf_buckets = fmempty\<rparr> ?d1" by (rule store_step.init)
  ultimately show ?thesis using demo_commit by (meson store_reachable.intros store_step.intros)
qed

section \<open>Chunks of committed data\<close>

lemma held_chunk:
  assumes ok: "nodes_ok h ns" and l: "leaf_held h ns l" and free: "\<not> collision_among h (store_strings h ns {l})"
  obtains n where "chunk_count l = Some n"
    "\<And>i. i < n \<Longrightarrow> \<exists>data prf. get_chunk_at_index ns (data_root l) i = Inr (data, prf) \<and> length data \<le> DEFAULT_CHUNK_SIZE \<and>
      verify_merkle_proof (hash_children h) (hash_leaf h data) i n prf (data_root l)"
    "\<And>i. n \<le> i \<Longrightarrow> get_chunk_at_index ns (data_root l) i = Inl (ChunkIndexOutOfRange i n)"
proof -
  from l obtain leaves where leaves: "collect_leaves ns (data_root l) = Inr leaves"
    "stored_tree h ns (map fst leaves) (data_root l)" "length leaves \<le> MAX_TREE_WALK_VISITS"
    "chunk_count l = Some (length leaves)" "\<And>x n. (x, n) \<in> set leaves \<Longrightarrow> n \<le> DEFAULT_CHUNK_SIZE"
    by (auto simp: leaf_held_def)
  have len: "length (map fst leaves) \<le> 2 ^ MAX_TREE_DEPTH" using leaves(3) by (simp add: MAX_TREE_WALK_VISITS_def MAX_TREE_DEPTH_def)
  have cov: "covered (store_strings h ns {l}) h ns (map fst leaves) (data_root l)"
    using leaves(1,2) by (simp add: store_strings_def leaf_hashes_def)
  have sub: "stored_strings ns \<subseteq> store_strings h ns {l}" by (simp add: store_strings_def)
  have G: "i < length leaves \<Longrightarrow> \<exists>d prf. get_chunk_at_index ns (data_root l) i = Inr (d, prf) \<and>
        fmlookup ns (fst (leaves ! i)) = Some (Chunk d) \<and>
        verify_merkle_proof (hash_children h) (hash_leaf h d) i (length leaves) prf (data_root l)"
    "length leaves \<le> i \<Longrightarrow> get_chunk_at_index ns (data_root l) i = Inl (ChunkIndexOutOfRange i (length leaves))" for i
    using get_chunk_stored(2,3) [OF ok free sub cov len, of i] by simp_all
  have "length d \<le> DEFAULT_CHUNK_SIZE" if "i < length leaves" "fmlookup ns (fst (leaves ! i)) = Some (Chunk d)" for i d
    using collect_leaves_sound(1) [OF leaves(1)] leaves(5) nth_mem [OF that(1)] that(2) by (cases "leaves ! i") force
  then show thesis using that [OF leaves(4)] G by blast
qed

text \<open>
  Whatever was uploaded, in whatever order, every chunk of every leaf a bucket lists can
  be read with a proof that verifies against the leaf's data root for that index, and an
  index past the last chunk is reported as such, unless two of the strings hashed for the
  stored nodes and for the leaf's tree are different and have the same hash.
\<close>

theorem listed_chunks_are_provable:
  assumes "store_reachable lib h d" "fmlookup (cf_buckets d) b = Some bk" "l \<in> set (bk_leaves bk)"
    and "\<not> collision_among h (store_strings h (cf_nodes d) {l})"
  shows "\<exists>n. chunk_count l = Some n \<and>
    (\<forall>i. if i < n
         then \<exists>data prf. get_chunk_at_index (cf_nodes d) (data_root l) i = Inr (data, prf) \<and>
           verify_merkle_proof (hash_children h) (hash_leaf h data) i n prf (data_root l)
         else get_chunk_at_index (cf_nodes d) (data_root l) i = Inl (ChunkIndexOutOfRange i n))"
proof -
  have ok: "store_ok lib h d" using assms(1) by (rule store_reachable_ok)
  have "leaf_held h (cf_nodes d) l" using store_okD(2) [OF ok assms(2)] assms(3) by (simp add: bucket_held_def)
  from held_chunk [OF store_okD(1) [OF ok] this assms(4)] show ?thesis by (metis not_le)
qed

lemma fmran'_singleton [simp]: "fmran' (fmupd k v fmempty) = {v}"
  by (auto elim!: fmran'E intro: fmran'I [of _ k] split: if_splits)

lemma demo_store_strings: "store_strings demo_hash (cf_nodes demo_store) {demo_leaf} = {leaf_string [1, 2, 3]}"
  using demo_collect_leaves
  by (simp add: store_strings_def stored_strings_def leaf_hashes_def demo_store_def demo_leaf_def reference_pairs.simps)
    (simp add: demo_uploaded_def)

theorem listed_chunks_are_provable_witness:
  "\<exists>data prf. get_chunk_at_index (cf_nodes demo_store) (H256_repeat_byte 4) 0 = Inr (data, prf) \<and>
     verify_merkle_proof (hash_children demo_hash) (hash_leaf demo_hash data) 0 1 prf (H256_repeat_byte 4)"
proof -
  have count: "chunk_count demo_leaf = Some 1"
    by (simp add: chunk_count_def chunk_size_def demo_leaf_def div_ceil_def DEFAULT_CHUNK_SIZE_def)
  have "fmlookup (cf_buckets demo_store) 0 = Some demo_bucket" "demo_leaf \<in> set (bk_leaves demo_bucket)"
    by (simp_all add: demo_store_def demo_bucket_def)
  moreover have "\<not> collision_among demo_hash (store_strings demo_hash (cf_nodes demo_store) {demo_leaf})"
    unfolding demo_store_strings by (simp add: collision_among_def)
  ultimately obtain n where n: "chunk_count demo_leaf = Some n"
    "\<forall>i. if i < n
         then \<exists>data prf. get_chunk_at_index (cf_nodes demo_store) (data_root demo_leaf) i = Inr (data, prf) \<and>
           verify_merkle_proof (hash_children demo_hash) (hash_leaf demo_hash data) i n prf (data_root demo_leaf)
         else get_chunk_at_index (cf_nodes demo_store) (data_root demo_leaf) i = Inl (ChunkIndexOutOfRange i n)"
    using listed_chunks_are_provable [OF demo_store_reachable] by blast
  from n(2) [rule_format, of 0] n(1) count show ?thesis by (simp add: demo_leaf_def)
qed

section \<open>Commitments\<close>

text \<open>
  A bucket holds a commitment when the leaves it covers are a window of its leaf list and
  their range has the committed root.
\<close>

definition window :: "BucketState \<Rightarrow> Commitment \<Rightarrow> MmrLeaf list" where
  "window bk c = take (leaf_count c) (drop (start_seq c - bk_start_seq bk) (bk_leaves bk))"

definition holds_commitment :: "'m mmr_lib \<Rightarrow> (byte list \<Rightarrow> H256) \<Rightarrow> BucketState \<Rightarrow> Commitment \<Rightarrow> bool" where
  "holds_commitment lib h bk c \<longleftrightarrow> bk_start_seq bk \<le> start_seq c \<and>
     start_seq c - bk_start_seq bk + leaf_count c \<le> length (bk_leaves bk) \<and>
     mmr_root_of lib h (window bk c) = Inr (mmr_root c)"

abbreviation held_or_pruned :: "'m mmr_lib \<Rightarrow> (byte list \<Rightarrow> H256) \<Rightarrow> BucketState \<Rightarrow> Commitment \<Rightarrow> bool" where
  "held_or_pruned lib h bk c \<equiv> start_seq c < bk_start_seq bk \<or> holds_commitment lib h bk c"

lemma held_commitment_of: "bucket_held lib h ns bk \<Longrightarrow> holds_commitment lib h bk (commitment_of bk)"
  by (simp add: holds_commitment_def commitment_of_def bucket_held_def window_def)

lemma held_after_push:
  "holds_commitment lib h bk c \<Longrightarrow> holds_commitment lib h (bk\<lparr>bk_leaves := bk_leaves bk @ new, bk_mmr_root := rt\<rparr>) c"
  by (auto simp: holds_commitment_def window_def)

lemma held_after_drop:
  assumes "holds_commitment lib h bk c" "bk_start_seq bk < n"
  shows "held_or_pruned lib h (bk\<lparr>bk_leaves := drop (n - bk_start_seq bk) (bk_leaves bk), bk_start_seq := n, bk_mmr_root := rt\<rparr>) c"
proof (cases "start_seq c < n")
  case False
  then have "start_seq c - n + (n - bk_start_seq bk) = start_seq c - bk_start_seq bk" using assms(2) by linarith
  then show ?thesis using assms False by (auto simp: holds_commitment_def window_def)
qed simp

lemma store_step_holds:
  assumes step: "store_step lib h d d'" and bk: "fmlookup (cf_buckets d) b = Some bk" and c: "held_or_pruned lib h bk c"
  shows "\<exists>bk'. fmlookup (cf_buckets d') b = Some bk' \<and> held_or_pruned lib h bk' c"
  using step
proof (cases rule: store_step.cases)
  case (init b' q)
  with bk c show ?thesis by (auto simp: init_bucket_def fmhas_def)
next
  case (node b' x n)
  with bk c show ?thesis
    by (auto simp: store_node_def result_simps Let_def holds_commitment_def window_def split: if_splits)
next
  case (commit b' roots out)
  then obtain bk0 sizes rt where "fmlookup (cf_buckets d) b' = Some bk0"
    and d': "d' = d\<lparr>cf_buckets := fmupd b' (bk0\<lparr>bk_leaves := push_leaves (bk_leaves bk0) (zip roots sizes), bk_mmr_root := rt\<rparr>) (cf_buckets d)\<rparr>"
    by (rule commit_Inr)
  moreover obtain new where "push_leaves (bk_leaves bk0) (zip roots sizes) = bk_leaves bk0 @ new"
    using push_leaves_append by blast
  ultimately show ?thesis using bk c held_after_push [of lib h bk c rt new] by auto
next
  case (delete b' n c')
  from delete show ?thesis
  proof (cases rule: delete_before_Inr)
    case (2 bk0 rt)
    then show ?thesis using bk c held_after_drop [of lib h bk c n rt] by auto
  qed (use bk c in auto)
qed

text \<open>
  What the parts of the node that share the store rely on: whatever one of them does to it
  keeps the invariant, and keeps what a bucket holds until the bucket is pruned past it.
\<close>

locale storage_backend =
  fixes backend_step :: "'d \<Rightarrow> 'd \<Rightarrow> bool" and ok :: "'d \<Rightarrow> bool" and keeps :: "'d \<Rightarrow> 'k \<Rightarrow> bool"
  assumes step_ok: "ok d \<Longrightarrow> backend_step d d' \<Longrightarrow> ok d'"
    and step_keeps: "backend_step d d' \<Longrightarrow> keeps d k \<Longrightarrow> keeps d' k"
begin

lemma steps_ok: "backend_step\<^sup>*\<^sup>* d d' \<Longrightarrow> ok d \<Longrightarrow> ok d'"
  by (induction rule: rtranclp_induct) (auto intro: step_ok)

lemma steps_keep: "backend_step\<^sup>*\<^sup>* d d' \<Longrightarrow> keeps d k \<Longrightarrow> keeps d' k"
  by (induction rule: rtranclp_induct) (auto intro: step_keeps)

text \<open>A client whose own steps are made of steps of the backend has the same guarantees.\<close>

lemma client_steps:
  assumes "\<And>d d'. client d d' \<Longrightarrow> backend_step\<^sup>*\<^sup>* d d'" and "client\<^sup>*\<^sup>* d d'"
  shows "backend_step\<^sup>*\<^sup>* d d'"
  using assms(2) by (induction rule: rtranclp_induct) (auto dest: assms(1))

end

definition keeps_commitment :: "'m mmr_lib \<Rightarrow> (byte list \<Rightarrow> H256) \<Rightarrow> DiskStorage \<Rightarrow> BucketId \<times> Commitment \<Rightarrow> bool" where
  "keeps_commitment lib h d k \<longleftrightarrow> (\<exists>bk. fmlookup (cf_buckets d) (fst k) = Some bk \<and> held_or_pruned lib h bk (snd k))"

interpretation store: storage_backend "store_step lib h" "store_reachable lib h" "keeps_commitment lib h" for lib h
  by unfold_locales (auto simp: keeps_commitment_def intro: store_reachable.step dest: store_step_holds)

text \<open>
  Whatever the provider commits, uploads or deletes after it has made a commitment, the
  bucket keeps the leaves of that commitment in order, with a range of the committed root,
  until it is pruned past the commitment's first sequence number.
\<close>

theorem commitment_stays_held:
  assumes "store_reachable lib h d" "fmlookup (cf_buckets d) b = Some bk" "(store_step lib h)\<^sup>*\<^sup>* d d'"
  shows "\<exists>bk'. fmlookup (cf_buckets d') b = Some bk' \<and>
    (bk_start_seq bk < bk_start_seq bk' \<or> holds_commitment lib h bk' (commitment_of bk))"
proof -
  have "keeps_commitment lib h d (b, commitment_of bk)"
    using held_commitment_of [OF store_okD(2) [OF store_reachable_ok [OF assms(1)] assms(2)]] assms(2) by (simp add: keeps_commitment_def)
  from store.steps_keep [OF assms(3) this] show ?thesis by (simp add: keeps_commitment_def commitment_of_def)
qed

theorem commitment_stays_held_witness:
  "\<exists>bk. fmlookup (cf_buckets demo_store) 0 = Some bk \<and> holds_commitment demo_mmr demo_hash bk demo_commitment"
proof -
  have "fmlookup (cf_buckets demo_store) 0 = Some demo_bucket" by (simp add: demo_store_def)
  from commitment_stays_held [OF demo_store_reachable this, of demo_store] show ?thesis
    by (simp add: demo_store_def commitment_of_def) (simp add: demo_bucket_def demo_commitment_def)
qed

section \<open>Range proofs\<close>

text \<open>
  What the code relies on from the range library, for one list of leaves: the range over them
  can be built and has one root, whichever way it is asked for, and the proof it generates
  for a leaf, or for each of them, verifies against that root and consists of the hashes of the
  earlier peaks, the path to the leaf's own peak, and one hash for the later peaks.
\<close>

definition range_law_at :: "'m mmr_lib \<Rightarrow> (byte list \<Rightarrow> H256) \<Rightarrow> MmrLeaf list \<Rightarrow> nat \<Rightarrow> bool" where
  "range_law_at lib h ls i \<longleftrightarrow> (\<exists>m rt ps items k.
     let sz = leaf_index_to_mmr_size lib (length ls - 1); pos = leaf_index_to_pos lib i; peaks = get_peaks lib sz in
     mmr_build lib h ls = Inr m \<and> mmr_get_root lib (StorageMerge h) m = Inr rt \<and>
     mmr_ancestor_peaks_and_root lib (StorageMerge h) m (mmr_size lib m) = Inr (ps, rt) \<and>
     mmr_gen_proof lib (StorageMerge h) m [pos] = Inr items \<and>
     merkle_proof_verify lib (StorageMerge h) sz items rt [(pos, hash_leaf h (encode_leaf (ls ! i)))] = Inr True \<and>
     k < length peaks \<and> pos \<le> peaks ! k \<and> (\<forall>j < k. peaks ! j < pos) \<and>
     length items = k + pos_height_in_tree lib (peaks ! k) + (if k + 1 < length peaks then 1 else 0))"

definition range_law :: "'m mmr_lib \<Rightarrow> (byte list \<Rightarrow> H256) \<Rightarrow> MmrLeaf list \<Rightarrow> bool" where
  "range_law lib h ls \<longleftrightarrow> (\<forall>i < length ls. range_law_at lib h ls i)"

lemma position_first:
  "k < length xs \<Longrightarrow> P (xs ! k) \<Longrightarrow> (\<forall>j < k. \<not> P (xs ! j)) \<Longrightarrow> position P xs = Some k"
proof (induction xs arbitrary: k)
  case (Cons x xs)
  show ?case
  proof (cases k)
    case (Suc m)
    have "\<not> P x" using Cons.prems(3) Suc by force
    moreover have "position P xs = Some m" using Cons.prems Suc by (intro Cons.IH) auto
    ultimately show ?thesis using Suc by simp
  qed (use Cons.prems in simp)
qed simp

lemma range_proof_verifies:
  assumes law: "range_law_at lib h ls i" and i: "i < length ls" and rt: "mmr_root_of lib h ls = Inr rt"
    and small: "length ls \<le> (2 ^ 64 - 1) div 2"
  shows "\<exists>prf. mmr_proof lib h ls i = Inr (Some (rt, prf)) \<and> mp_leaf prf = ls ! i \<and>
    verify_mmr_proof lib h prf i \<lparr>mmr_root = rt, start_seq = s, leaf_count = length ls\<rparr>"
proof -
  from law i obtain m rt' ps items k where m: "mmr_build lib h ls = Inr m" "mmr_get_root lib (StorageMerge h) m = Inr rt'"
    "mmr_ancestor_peaks_and_root lib (StorageMerge h) m (mmr_size lib m) = Inr (ps, rt')"
    and p: "mmr_gen_proof lib (StorageMerge h) m [leaf_index_to_pos lib i] = Inr items"
      "merkle_proof_verify lib (StorageMerge h) (leaf_index_to_mmr_size lib (length ls - 1)) items rt'
         [(leaf_index_to_pos lib i, hash_leaf h (encode_leaf (ls ! i)))] = Inr True"
    and k: "k < length (get_peaks lib (leaf_index_to_mmr_size lib (length ls - 1)))"
      "leaf_index_to_pos lib i \<le> get_peaks lib (leaf_index_to_mmr_size lib (length ls - 1)) ! k"
      "\<forall>j < k. get_peaks lib (leaf_index_to_mmr_size lib (length ls - 1)) ! j < leaf_index_to_pos lib i"
      "length items = k + pos_height_in_tree lib (get_peaks lib (leaf_index_to_mmr_size lib (length ls - 1)) ! k) +
         (if k + 1 < length (get_peaks lib (leaf_index_to_mmr_size lib (length ls - 1))) then 1 else 0)"
    unfolding range_law_at_def Let_def by blast
  have "ls \<noteq> []" using i by auto
  with rt m have "rt' = rt" by (simp add: mmr_root_of_def mmr_peaks_def)
  moreover have "position (\<lambda>pos. leaf_index_to_pos lib i \<le> pos) (get_peaks lib (leaf_index_to_mmr_size lib (length ls - 1))) = Some k"
    using k by (intro position_first) (auto simp: not_le)
  then have "mmr_proof_len lib (leaf_index_to_pos lib i) (leaf_index_to_mmr_size lib (length ls - 1)) = Some (length items)"
    using k(4) by (simp add: mmr_proof_len_def)
  ultimately show ?thesis using m p i small by (auto simp: mmr_proof_def verify_mmr_proof_def Let_def)
qed

lemma commitment_proof:
  assumes c: "holds_commitment lib h bk c" and bk: "fmlookup (cf_buckets d) b = Some bk"
    and law: "range_law lib h (window bk c)" and i: "i < leaf_count c" and small: "length (bk_leaves bk) \<le> (2 ^ 64 - 1) div 2"
  shows "\<exists>prf. get_mmr_proof_for_commitment lib h b c i d = Inr prf \<and> mp_leaf prf \<in> set (bk_leaves bk) \<and>
    verify_mmr_proof lib h prf i c"
proof -
  let ?off = "start_seq c - bk_start_seq bk"
  have C: "bk_start_seq bk \<le> start_seq c" "?off + leaf_count c \<le> length (bk_leaves bk)"
    "mmr_root_of lib h (window bk c) = Inr (mmr_root c)" using c by (simp_all only: holds_commitment_def)
  have len: "length (window bk c) = leaf_count c" using C by (auto simp: window_def)
  then have "i < length (window bk c)" "length (window bk c) \<le> (2 ^ 64 - 1) div 2" using i C small by auto
  note P = range_proof_verifies [OF law [unfolded range_law_def, rule_format, OF this(1)] this(1) _ this(2), of "mmr_root c" "start_seq c"]
  have eq: "\<lparr>mmr_root = mmr_root c, start_seq = start_seq c, leaf_count = leaf_count c\<rparr> = c" by (cases c) simp
  obtain pf where pf: "mmr_proof lib h (window bk c) i = Inr (Some (mmr_root c, pf))" "mp_leaf pf = window bk c ! i"
    "verify_mmr_proof lib h pf i c"
    using P C unfolding len eq by blast
  have "window bk c ! i \<in> set (window bk c)" using i len by simp
  then have "window bk c ! i \<in> set (bk_leaves bk)" unfolding window_def by (blast dest: in_set_takeD in_set_dropD)
  moreover have "length (bk_leaves bk) < 2 ^ 64" using small by (rule le_less_trans) simp
  then have sum: "?off + leaf_count c < 2 ^ 64" by (rule le_less_trans [rotated]) (rule C)
  have "saturating_add 64 ?off (leaf_count c) = ?off + leaf_count c" using sum by (rule saturating_add_exact)
  then have "get_mmr_proof_for_commitment lib h b c i d = Inr pf"
    using C bk i pf(1) by (simp add: get_mmr_proof_for_commitment_def leaf_proof_def mmr_result_def window_def Let_def)
  ultimately show ?thesis using pf by auto
qed

end
