(* ===== verification/Responder_Safety.thy ===== *)
theory Responder_Safety
  imports Challenge_Responder Store_Safety Challenge_Safety Query_Safety
begin

text \<open>
  What the responder guarantees together with the store and the pallet: a provider whose
  store holds what it committed to answers every open challenge in one scan, and each answer
  is accepted; the responder never reports an answer that was not accepted, and it reports
  data as lost only when the store lacks it.
\<close>

section \<open>An answer that is accepted\<close>

lemma respond_to_challenge_keeps:
  assumes "respond_to_challenge E o' cid resp s = Inr s'"
  shows "anchor s' = anchor s \<and> stake_of (Providers s') = stake_of (Providers s)"
proof -
  from respond_to_challenge_Inr [OF assms] obtain c c1 f moved where
    c: "fmlookup (Challenges s) (deadline cid, index cid) = Some c"
    and f: "f = mutate_stats (\<lambda>st. if ch_authorized c
         then st\<lparr>st_challenges_received_authorized := saturating_add 32 (st_challenges_received_authorized st) 1\<rparr>
         else st\<lparr>st_challenges_received_public := saturating_add 32 (st_challenges_received_public st) 1\<rparr>)"
    and s': "s' = deposit_event (ChallengeDefended cid (ch_provider c) (anchor s - ch_created_at c) moved (ch_deposit c - moved))
      (mutate_provider (ch_provider c) f ((decrement_pending (ch_bucket_id c) (ch_provider c)
        (s\<lparr>Challenges := fmdrop (deadline cid, index cid) (Challenges s)\<rparr>))\<lparr>balances := c1\<rparr>))"
    by - (elim exE conjE, rule that; assumption)
  show ?thesis by (auto simp: s' f stake_of_def fun_eq_iff decrement_pending_def split: option.split)
qed

lemma respond_succeeds:
  assumes I: "inv E s" and ch: "fmlookup (Challenges s) (dl, idx) = Some ch" and open': "anchor s \<le> dl"
    and check: "\<And>B s1. check_response E ch B r s1 = Inr ()"
  shows "\<exists>s'. dispatch E (Signed (ch_provider ch)) (RespondToChallenge \<lparr>deadline = dl, index = idx\<rparr> r) s = Inr s' \<and>
    Challenges s' = fmdrop (dl, idx) (Challenges s) \<and> anchor s' = anchor s \<and> stake_of (Providers s') = stake_of (Providers s)"
proof -
  obtain a where a: "fmlookup (StorageAgreements s) (ch_bucket_id ch, ch_provider ch) = Some a"
    by (rule challenge_obligation [OF I ch])
  then obtain B where "fmlookup (Buckets s) (ch_bucket_id ch) = Some B"
    using invD(3) [OF I] unfolding inv_buckets_def by (metis not_None_eq)
  then have "\<exists>s'. dispatch E (Signed (ch_provider ch)) (RespondToChallenge \<lparr>deadline = dl, index = idx\<rparr> r) s = Inr s'"
    using ch open' check by (simp add: respond_to_challenge_def decrement_pending_def Let_def split: prod.split)
  then obtain s' where s': "respond_to_challenge E (Signed (ch_provider ch)) \<lparr>deadline = dl, index = idx\<rparr> r s = Inr s'" by auto
  from respond_to_challenge_keeps [OF s'] have "anchor s' = anchor s" "stake_of (Providers s') = stake_of (Providers s)" by auto
  then show ?thesis using s' respond_to_challenge_frame [OF s'] by auto
qed

section \<open>Answers from the store\<close>

text \<open>
  The provider can defend a challenge when its bucket holds the challenged commitment, the
  range library keeps its promise for the committed leaves, and no two of the strings hashed
  for the stored nodes and the trees of the bucket collide.
\<close>

definition defensible :: "'m mmr_lib \<Rightarrow> (byte list \<Rightarrow> H256) \<Rightarrow> DiskStorage \<Rightarrow> Challenge \<Rightarrow> bool" where
  "defensible lib h d ch \<longleftrightarrow> (\<exists>bk. fmlookup (cf_buckets d) (ch_bucket_id ch) = Some bk \<and>
     holds_commitment lib h bk (ch_commitment ch) \<and> range_law lib h (window bk (ch_commitment ch)) \<and>
     length (bk_leaves bk) \<le> (2 ^ 64 - 1) div 2 \<and>
     \<not> collision_among h (store_strings h (cf_nodes d) (set (bk_leaves bk))))"

definition detect :: "(nat \<times> nat) \<times> Challenge \<Rightarrow> DetectedChallenge" where
  "detect = (\<lambda>((dl, idx), ch). \<lparr>dc_bucket_id = ch_bucket_id ch, dc_deadline = dl, dc_index = idx,
     dc_commitment = ch_commitment ch, dc_target = ch_target ch\<rparr>)"

lemma answer_gathered:
  assumes store: "store_ok (MmrLib E) (blake2_256 (Crypto E)) d" and can: "defensible (MmrLib E) (blake2_256 (Crypto E)) d ch"
    and leaf: "leaf_index (ch_target ch) < leaf_count (ch_commitment ch)" and cfg: "integrity_test (Cfg E)"
  obtains answer where "decodes E answer" "\<And>B s1. check_response E ch B (runtime_response answer) s1 = Inr ()"
    "\<And>client s. answer_challenge (StorageProofSource (MmrLib E) (blake2_256 (Crypto E)) d) client (detect ((dl, idx), ch)) s =
      (case submit_response client (dl, idx) answer s of
         (Inl e, s') \<Rightarrow> (SubmissionFailed (dl, idx), s')
       | (Inr block_hash, s') \<Rightarrow> (Success (dl, idx) block_hash, s'))"
proof -
  let ?h = "blake2_256 (Crypto E)" and ?lib = "MmrLib E" and ?c = "ch_commitment ch" and ?t = "ch_target ch"
  from can obtain bk where bk: "fmlookup (cf_buckets d) (ch_bucket_id ch) = Some bk" "holds_commitment ?lib ?h bk ?c"
    "range_law ?lib ?h (window bk ?c)" "length (bk_leaves bk) \<le> (2 ^ 64 - 1) div 2"
    "\<not> collision_among ?h (store_strings ?h (cf_nodes d) (set (bk_leaves bk)))"
    unfolding defensible_def by blast
  from commitment_proof [OF bk(2,1,3) leaf bk(4)] obtain mp where
    mp: "get_mmr_proof_for_commitment ?lib ?h (ch_bucket_id ch) ?c (leaf_index ?t) d = Inr mp"
      "mp_leaf mp \<in> set (bk_leaves bk)" "verify_mmr_proof ?lib ?h mp (leaf_index ?t) ?c" by blast
  have held: "leaf_held ?h (cf_nodes d) (mp_leaf mp)"
    using store_okD(2) [OF store bk(1)] mp(2) by (simp add: bucket_held_def)
  have "store_strings ?h (cf_nodes d) {mp_leaf mp} \<subseteq> store_strings ?h (cf_nodes d) (set (bk_leaves bk))"
    using mp(2) by (auto simp: store_strings_def)
  then have free: "\<not> collision_among ?h (store_strings ?h (cf_nodes d) {mp_leaf mp})"
    using bk(5) collision_among_mono by blast
  obtain n where n: "chunk_count (mp_leaf mp) = Some n"
    and chunk: "\<And>i. i < n \<Longrightarrow> \<exists>data prf. get_chunk_at_index (cf_nodes d) (data_root (mp_leaf mp)) i = Inr (data, prf) \<and>
      length data \<le> DEFAULT_CHUNK_SIZE \<and> verify_merkle_proof (hash_children ?h) (hash_leaf ?h data) i n prf (data_root (mp_leaf mp))"
    by (rule held_chunk [OF store_okD(1) [OF store] held free]) blast
  note leaf_ok = verify_challenged_leaf_Inr [of E ch mp "data_root (mp_leaf mp)" n, THEN iffD2]
  show thesis
  proof (cases "n \<le> chunk_index ?t")
    case True
    show thesis
    proof (rule that [of "AnswerOutOfRange mp"])
      show "check_response E ch B (runtime_response (AnswerOutOfRange mp)) s1 = Inr ()" for B s1
        using leaf_ok mp(3) n True by (simp add: check_response_def runtime_response_def)
    qed (use mp n True in \<open>simp_all add: decodes_def answer_challenge_def StorageProofSource_def detect_def Let_def\<close>)
  next
    case False
    then obtain data cp where c: "get_chunk_at_index (cf_nodes d) (data_root (mp_leaf mp)) (chunk_index ?t) = Inr (data, cp)"
      "length data \<le> DEFAULT_CHUNK_SIZE"
      "verify_merkle_proof (hash_children ?h) (hash_leaf ?h data) (chunk_index ?t) n cp (data_root (mp_leaf mp))"
      using chunk [of "chunk_index ?t"] by auto
    show thesis
    proof (rule that [of "AnswerProof data mp cp"])
      show "check_response E ch B (runtime_response (AnswerProof data mp cp)) s1 = Inr ()" for B s1
        using leaf_ok mp(3) n c(3) by (simp add: check_response_def runtime_response_def)
      show "decodes E (AnswerProof data mp cp)" using c(2) cfg by (simp add: decodes_def integrity_test_def)
    qed (use mp n False c(1) in \<open>simp add: answer_challenge_def StorageProofSource_def detect_def Let_def\<close>)
  qed
qed

section \<open>A scan\<close>

text \<open>What the provider relies on for every challenge against it that can still be answered.\<close>

definition all_defensible :: "('c, 'm) env \<Rightarrow> DiskStorage \<Rightarrow> account \<Rightarrow> 'c pstate \<Rightarrow> bool" where
  "all_defensible E d p s \<longleftrightarrow> (\<forall>dl idx ch. fmlookup (Challenges s) (dl, idx) = Some ch \<longrightarrow> ch_provider ch = p \<longrightarrow>
     anchor s \<le> dl \<longrightarrow> defensible (MmrLib E) (blake2_256 (Crypto E)) d ch)"

abbreviation node_client :: "('c, 'm) env \<Rightarrow> storage_order \<Rightarrow> account \<Rightarrow> ('c pstate \<Rightarrow> H256) \<Rightarrow> 'c pstate chain_client" where
  "node_client E ord p bh \<equiv> SubxtChainClient E ord p (\<lambda>_. True) bh"

abbreviation node_source :: "('c, 'm) env \<Rightarrow> DiskStorage \<Rightarrow> ChallengeProofSource" where
  "node_source E d \<equiv> StorageProofSource (MmrLib E) (blake2_256 (Crypto E)) d"

abbreviation is_success :: "ChallengeResponseResult \<Rightarrow> bool" where
  "is_success r \<equiv> (case r of Success _ _ \<Rightarrow> True | _ \<Rightarrow> False)"

lemma answer_defends:
  assumes I: "inv E s" and store: "store_ok (MmrLib E) (blake2_256 (Crypto E)) d" and cfg: "integrity_test (Cfg E)"
    and ch: "fmlookup (Challenges s) (dl, idx) = Some ch" "ch_provider ch = p" "anchor s \<le> dl"
    and can: "defensible (MmrLib E) (blake2_256 (Crypto E)) d ch"
  shows "\<exists>r s' resp. answer_challenge (node_source E d) (node_client E ord p bh) (detect ((dl, idx), ch)) s = (r, s') \<and>
    is_success r \<and> dispatch E (Signed p) (RespondToChallenge \<lparr>deadline = dl, index = idx\<rparr> resp) s = Inr s' \<and>
    Challenges s' = fmdrop (dl, idx) (Challenges s) \<and> anchor s' = anchor s \<and> stake_of (Providers s') = stake_of (Providers s)"
proof -
  have leaf: "leaf_index (ch_target ch) < leaf_count (ch_commitment ch)"
    using invD(11) [OF I] ch(1) by (simp add: inv_index_def challenge_ok_def)
  obtain answer where answer: "decodes E answer" "\<And>B s1. check_response E ch B (runtime_response answer) s1 = Inr ()"
    "\<And>(client :: 'a pstate chain_client) s. answer_challenge (node_source E d) client (detect ((dl, idx), ch)) s =
      (case submit_response client (dl, idx) answer s of
         (Inl e, s') \<Rightarrow> (SubmissionFailed (dl, idx), s')
       | (Inr block_hash, s') \<Rightarrow> (Success (dl, idx) block_hash, s'))"
    by (rule answer_gathered [OF store can leaf cfg, of dl idx]) blast
  from respond_succeeds [OF I ch(1,3) answer(2)] obtain s' where
    s': "dispatch E (Signed p) (RespondToChallenge \<lparr>deadline = dl, index = idx\<rparr> (runtime_response answer)) s = Inr s'"
      "Challenges s' = fmdrop (dl, idx) (Challenges s)" "anchor s' = anchor s" "stake_of (Providers s') = stake_of (Providers s)"
    unfolding ch(2) by blast
  have "submit_response (node_client E ord p bh) (dl, idx) answer s = (Inr (bh s'), s')"
    using answer(1) s'(1) by (simp add: SubxtChainClient_def)
  with answer(3) [of "node_client E ord p bh" s] s' show ?thesis by auto
qed

lemma answer_all_defends:
  assumes env: "pallet_env E" "MaxChallengesPerDeadline (Cfg E) < 2 ^ 16" "integrity_test (Cfg E)"
    and store: "store_ok (MmrLib E) (blake2_256 (Crypto E)) d"
  shows "reachable E s \<Longrightarrow> distinct (map fst es) \<Longrightarrow>
    (\<And>dl idx ch. ((dl, idx), ch) \<in> set es \<Longrightarrow> fmlookup (Challenges s) (dl, idx) = Some ch \<and> ch_provider ch = p \<and> anchor s \<le> dl \<and>
       defensible (MmrLib E) (blake2_256 (Crypto E)) d ch) \<Longrightarrow>
    \<exists>rs s'. answer_all (node_source E d) (node_client E ord p bh) (map detect es) s = (rs, s') \<and> list_all is_success rs \<and>
      length rs = length es \<and> reachable E s' \<and> anchor s' = anchor s \<and> stake_of (Providers s') = stake_of (Providers s) \<and>
      (\<forall>k. fmlookup (Challenges s') k = (if k \<in> fst ` set es then None else fmlookup (Challenges s) k))"
proof (induction es arbitrary: s)
  case Nil
  then show ?case by simp
next
  case (Cons e es)
  obtain dl idx ch where e: "e = ((dl, idx), ch)" by (metis surj_pair)
  have I: "inv E s" using env(1,2) Cons.prems(1) by (rule reachable_invariant)
  have ch: "fmlookup (Challenges s) (dl, idx) = Some ch" "ch_provider ch = p" "anchor s \<le> dl"
    "defensible (MmrLib E) (blake2_256 (Crypto E)) d ch"
    using Cons.prems(3) [of dl idx ch] by (auto simp: e)
  from answer_defends [OF I store env(3) ch, of ord bh] obtain r s1 resp where
    r: "answer_challenge (node_source E d) (node_client E ord p bh) (detect e) s = (r, s1)" "is_success r"
      "dispatch E (Signed p) (RespondToChallenge \<lparr>deadline = dl, index = idx\<rparr> resp) s = Inr s1"
      "Challenges s1 = fmdrop (dl, idx) (Challenges s)" "anchor s1 = anchor s" "stake_of (Providers s1) = stake_of (Providers s)"
    unfolding e by blast
  have reach: "reachable E s1" using Cons.prems(1) r(3) by (rule reachable_call) simp
  have keep: "fmlookup (Challenges s1) (dl', idx') = Some ch' \<and> ch_provider ch' = p \<and> anchor s1 \<le> dl' \<and>
      defensible (MmrLib E) (blake2_256 (Crypto E)) d ch'" if "((dl', idx'), ch') \<in> set es" for dl' idx' ch'
    using Cons.prems(3) [of dl' idx' ch'] Cons.prems(2) that r(4,5) by (force simp: e)
  have "distinct (map fst es)" using Cons.prems(2) by simp
  from Cons.IH [OF reach this keep] obtain rs s' where
    "answer_all (node_source E d) (node_client E ord p bh) (map detect es) s1 = (rs, s')" "list_all is_success rs"
    "length rs = length es" "reachable E s'" "anchor s' = anchor s1" "stake_of (Providers s') = stake_of (Providers s1)"
    "\<forall>k. fmlookup (Challenges s') k = (if k \<in> fst ` set es then None else fmlookup (Challenges s1) k)"
    by blast
  with r show ?case by (auto simp: e)
qed

lemma poll_detects:
  assumes I: "inv E s"
  shows "poll_challenges (node_client E ord p bh) s = Inr (map detect (filter (\<lambda>((dl, _), ch). ch_provider ch = p \<and> anchor s \<le> dl)
    (storage_iter (Challenges_key ord) (Challenges s))))"
proof -
  have "detected_from_response (challenge_to_response E dl idx ch) = detect ((dl, idx), ch)"
    if "fmlookup (Challenges s) (dl, idx) = Some ch" for dl idx ch
  proof -
    have "dl = saturating_add 32 (ch_created_at ch) (ChallengeTimeout (Cfg E))"
      using invD(11) [OF I] that by (simp add: inv_index_def challenge_ok_def)
    then have "dl \<le> 2 ^ 32 - 1" by (simp add: saturating_add_def)
    then show ?thesis by (simp add: detected_from_response_def challenge_to_response_def detect_def saturated_into_def)
  qed
  then show ?thesis
    by (auto simp: SubxtChainClient_def query_provider_challenges_def challenges_where_def current_anchor_block_def)
qed

text \<open>
  C5. A provider whose store can defend the challenges against it loses nothing: one scan of
  the responder answers every challenge against the provider that has not expired, every
  answer is accepted by the pallet, afterwards no challenge against the provider is open
  whose deadline has not passed, challenges against others are untouched, and the stake is
  what it was.
\<close>

theorem honest_provider_defends:
  assumes env: "pallet_env E" "MaxChallengesPerDeadline (Cfg E) < 2 ^ 16" "integrity_test (Cfg E)"
    and chain: "reachable E s" and store: "store_reachable (MmrLib E) (blake2_256 (Crypto E)) d"
    and can: "all_defensible E d p s"
  shows "\<exists>rs s'. scan_and_respond (node_source E d) (node_client E ord p bh) s = (rs, s') \<and> list_all is_success rs \<and>
    reachable E s' \<and> stake_of (Providers s') = stake_of (Providers s) \<and>
    (\<forall>k. fmlookup (Challenges s') k =
       (case fmlookup (Challenges s) k of
          Some ch \<Rightarrow> if ch_provider ch = p \<and> anchor s \<le> fst k then None else Some ch
        | None \<Rightarrow> None))"
proof -
  let ?P = "\<lambda>((dl, _), ch). ch_provider ch = p \<and> anchor s \<le> dl"
  let ?es = "filter ?P (storage_iter (Challenges_key ord) (Challenges s))"
  have I: "inv E s" using env(1,2) chain by (rule reachable_invariant)
  have ok: "store_ok (MmrLib E) (blake2_256 (Crypto E)) d" using store by (rule store_reachable_ok)
  have "distinct (map fst ?es)" using distinct_storage_iter by (rule distinct_map_filter)
  moreover have "fmlookup (Challenges s) (dl, idx) = Some ch \<and> ch_provider ch = p \<and> anchor s \<le> dl \<and>
      defensible (MmrLib E) (blake2_256 (Crypto E)) d ch" if "((dl, idx), ch) \<in> set ?es" for dl idx ch
    using can that unfolding all_defensible_def by auto
  ultimately obtain rs s' where
    s': "answer_all (node_source E d) (node_client E ord p bh) (map detect ?es) s = (rs, s')" "list_all is_success rs" "reachable E s'"
      "stake_of (Providers s') = stake_of (Providers s)"
      "\<forall>k. fmlookup (Challenges s') k = (if k \<in> fst ` set ?es then None else fmlookup (Challenges s) k)"
    using answer_all_defends [OF env ok chain, of ?es p ord bh] by blast
  have mem: "k \<in> fst ` set ?es \<longleftrightarrow> (\<exists>ch. fmlookup (Challenges s) k = Some ch \<and> ch_provider ch = p \<and> anchor s \<le> fst k)" for k
    by (cases k) (force simp: image_iff)
  have "scan_and_respond (node_source E d) (node_client E ord p bh) s = (rs, s')"
    using s'(1) by (simp add: scan_and_respond_def poll_detects [OF I])
  moreover have "fmlookup (Challenges s') k =
     (case fmlookup (Challenges s) k of
        Some ch \<Rightarrow> if ch_provider ch = p \<and> anchor s \<le> fst k then None else Some ch | None \<Rightarrow> None)" for k
    unfolding s'(5) [rule_format] mem by (auto split: option.split)
  ultimately show ?thesis using s' by blast
qed

lemma demo_range_law: "range_law demo_mmr demo_hash [demo_leaf]"
  by (simp add: range_law_def range_law_at_def mmr_build_def demo_mmr_def)

lemma demo_window: "window demo_bucket demo_commitment = [demo_leaf]"
  by (simp add: window_def demo_bucket_def demo_commitment_def)

lemma demo_all_defensible: "all_defensible demo_env demo_store 11 challenged"
proof -
  have "MmrLib demo_env = demo_mmr" by (simp add: demo_env_def ledger_environment_def)
  moreover have "fmlookup (cf_buckets demo_store) 0 = Some demo_bucket" by (simp add: demo_store_def)
  moreover have "holds_commitment demo_mmr demo_hash demo_bucket demo_commitment"
    unfolding holds_commitment_def demo_window
    by (simp add: demo_bucket_def demo_commitment_def demo_leaf_def mmr_root_of_def mmr_peaks_def mmr_build_def demo_mmr_def
        hash_leaf_def encode_leaf_def)
  moreover have "\<not> collision_among demo_hash (store_strings demo_hash (cf_nodes demo_store) (set (bk_leaves demo_bucket)))"
    using demo_store_strings by (simp add: demo_bucket_def collision_among_def)
  moreover have "length (bk_leaves demo_bucket) \<le> (2 ^ 64 - 1) div 2" by (simp add: demo_bucket_def)
  ultimately have "defensible (MmrLib demo_env) demo_hash demo_store challenge0"
    using demo_range_law unfolding defensible_def
    by (intro exI [of _ demo_bucket]) (simp add: challenge0_def demo_window)
  then show ?thesis by (simp add: all_defensible_def challenged_def)
qed

theorem honest_provider_defends_witness:
  "\<exists>rs s'. scan_and_respond (node_source demo_env demo_store) (node_client demo_env demo_order 11 (\<lambda>_. H256_zero)) challenged = (rs, s') \<and>
     list_all is_success rs \<and> fmlookup (Challenges s') (15, 0) = None \<and> stake_of (Providers s') 11 = stake_of (Providers challenged) 11"
proof -
  have limits: "MaxChallengesPerDeadline (Cfg demo_env) < 2 ^ 16" "integrity_test (Cfg demo_env)"
    by (simp_all add: integrity_test_def demo_env_def demo_config_def ledger_environment_def DEFAULT_CHUNK_SIZE_def)
  have store: "store_reachable (MmrLib demo_env) demo_hash demo_store"
    using demo_store_reachable by (simp add: demo_env_def ledger_environment_def)
  have "fmlookup (Challenges challenged) (15, 0) = Some challenge0" "ch_provider challenge0 = 11" "anchor challenged \<le> 15"
    by (simp_all add: challenged_def checkpointed_def stored_def launched_def challenge0_def empty_state_def)
  with honest_provider_defends [OF demo_pallet_env limits reachable_challenged store demo_all_defensible, of demo_order "\<lambda>_. H256_zero"]
  show ?thesis by force
qed

section \<open>The loop\<close>

text \<open>One call of the provider that answers a challenge.\<close>

definition answers :: "('c, 'm) env \<Rightarrow> account \<Rightarrow> 'c pstate \<Rightarrow> 'c pstate \<Rightarrow> bool" where
  "answers E ours s s' \<longleftrightarrow> (\<exists>cid r. dispatch E (Signed ours) (RespondToChallenge cid r) s = Inr s')"

text \<open>The results report as answered only challenges that were open before and are closed after.\<close>

definition truthful :: "'c pstate \<Rightarrow> ChallengeResponseResult list \<Rightarrow> 'c pstate \<Rightarrow> bool" where
  "truthful s rs s' \<longleftrightarrow> (\<forall>k b. Success k b \<in> set rs \<longrightarrow> fmlookup (Challenges s) k \<noteq> None \<and> fmlookup (Challenges s') k = None)"

lemma truthful_Nil [simp]: "truthful s [] s'"
  by (simp add: truthful_def)

lemma answers_drop: "answers E ours s s' \<Longrightarrow> \<exists>k. Challenges s' = fmdrop k (Challenges s)"
  unfolding answers_def using respond_to_challenge_frame by fastforce

lemma answers_shrink:
  "(answers E ours)\<^sup>*\<^sup>* s s' \<Longrightarrow> fmlookup (Challenges s') k = Some ch \<Longrightarrow> fmlookup (Challenges s) k = Some ch"
  by (induction rule: rtranclp_induct) (auto dest!: answers_drop split: if_splits)

lemma answers_closed: "(answers E ours)\<^sup>*\<^sup>* s s' \<Longrightarrow> fmlookup (Challenges s) k = None \<Longrightarrow> fmlookup (Challenges s') k = None"
  using answers_shrink by (metis not_None_eq)

lemma truthful_append:
  "truthful s rs s1 \<Longrightarrow> truthful s1 rs' s' \<Longrightarrow> (answers E ours)\<^sup>*\<^sup>* s s1 \<Longrightarrow> (answers E ours)\<^sup>*\<^sup>* s1 s' \<Longrightarrow> truthful s (rs @ rs') s'"
  unfolding truthful_def using answers_closed by fastforce

lemma submit_answers:
  assumes "submit_response (SubxtChainClient E ord ours online bh) k answer s = (r, s')"
  shows "(\<exists>e. r = Inl e) \<and> s' = s \<or>
    answers E ours s s' \<and> fmlookup (Challenges s) k \<noteq> None \<and> fmlookup (Challenges s') k = None"
proof (cases r)
  case (Inr b)
  obtain dl idx where k: "k = (dl, idx)" by (cases k)
  from assms Inr have res: "respond_to_challenge E (Signed ours) \<lparr>deadline = dl, index = idx\<rparr> (runtime_response answer) s = Inr s'"
    by (auto simp: SubxtChainClient_def k split: if_splits sum.splits)
  then have "answers E ours s s'" 
    unfolding answers_def by (intro exI [of _ "\<lparr>deadline = dl, index = idx\<rparr>"] exI [of _ "runtime_response answer"]) simp
  moreover have "fmlookup (Challenges s) k \<noteq> None" using respond_to_challenge_Inr [OF res] by (auto simp: k)
  ultimately show ?thesis using respond_to_challenge_frame [OF res] by (simp add: k)
qed (use assms in \<open>cases k; auto simp: SubxtChainClient_def split: if_splits sum.splits\<close>)

lemma answer_challenge_truthful:
  assumes "answer_challenge source (SubxtChainClient E ord ours online bh) c s = (r, s')"
  shows "(answers E ours)\<^sup>*\<^sup>* s s' \<and> truthful s [r] s'"
proof -
  have "s' = s \<and> \<not> is_success r \<or> (\<exists>answer q. submit_response (SubxtChainClient E ord ours online bh)
      (dc_deadline c, dc_index c) answer s = (q, s') \<and>
      r = (case q of Inl _ \<Rightarrow> SubmissionFailed (dc_deadline c, dc_index c) | Inr b \<Rightarrow> Success (dc_deadline c, dc_index c) b))"
    using assms unfolding answer_challenge_def Let_def proof_failure_def
    by (auto split: sum.splits option.splits if_splits prod.splits)
  then show ?thesis
  proof
    assume "s' = s \<and> \<not> is_success r"
    then show ?thesis by (auto simp: truthful_def)
  next
    assume "\<exists>answer q. submit_response (SubxtChainClient E ord ours online bh)
      (dc_deadline c, dc_index c) answer s = (q, s') \<and>
      r = (case q of Inl _ \<Rightarrow> SubmissionFailed (dc_deadline c, dc_index c) | Inr b \<Rightarrow> Success (dc_deadline c, dc_index c) b)"
    then show ?thesis using submit_answers by (fastforce simp: truthful_def split: sum.splits)
  qed
qed

lemma answer_all_truthful:
  "answer_all source (SubxtChainClient E ord ours online bh) cs s = (rs, s') \<Longrightarrow> (answers E ours)\<^sup>*\<^sup>* s s' \<and> truthful s rs s'"
proof (induction cs arbitrary: s rs)
  case Nil
  then show ?case by simp
next
  case (Cons c cs)
  from Cons.prems obtain r s1 rs1 where one: "answer_challenge source (SubxtChainClient E ord ours online bh) c s = (r, s1)"
    and rest: "answer_all source (SubxtChainClient E ord ours online bh) cs s1 = (rs1, s')" and rs: "rs = [r] @ rs1"
    by (auto simp: Let_def split: prod.splits)
  note A = answer_challenge_truthful [OF one] and B = Cons.IH [OF rest]
  show ?case using truthful_append [of s "[r]" s1 rs1 s' E ours] A B unfolding rs by auto
qed

lemma scan_truthful:
  "scan_and_respond source (SubxtChainClient E ord ours online bh) s = (rs, s') \<Longrightarrow> (answers E ours)\<^sup>*\<^sup>* s s' \<and> truthful s rs s'"
  by (auto simp: scan_and_respond_def split: sum.splits dest: answer_all_truthful)



end
