(* ===== verification/Provider_Auth.thy ===== *)
theory Provider_Auth
  imports Challenge_Responder
begin

text \<open>
  Authorization of requests at the provider node (\<open>crates/providers/auth/src\<close>, with the
  chain-backed resolver and feed of \<open>provider-node/src/membership.rs\<close>): the signed header,
  the role check, and the cache of bucket membership. Hex coding and signature verification
  are the record \<open>auth_lib\<close>; the clock is the argument \<open>now\<close>, in seconds.
\<close>

section \<open>Text\<close>

definition digit_char :: "nat \<Rightarrow> char" where
  "digit_char d = char_of (48 + d)"

text \<open>Decimal output of an unsigned integer, and the parser of \<open>u64\<close>.\<close>

function decimal :: "nat \<Rightarrow> string" where
  "decimal n = (if n < 10 then [digit_char n] else decimal (n div 10) @ [digit_char (n mod 10)])"
  by pat_completeness auto
termination
  by (relation "measure id") auto

declare decimal.simps [simp del]

definition digit_value :: "char \<Rightarrow> nat option" where
  "digit_value c = (if 48 \<le> (of_char c :: nat) \<and> (of_char c :: nat) \<le> 57 then Some (of_char c - 48) else None)"

fun parse_digits :: "nat \<Rightarrow> string \<Rightarrow> nat option" where
  "parse_digits acc [] = Some acc"
| "parse_digits acc (c # cs) =
     (case digit_value c of
        None \<Rightarrow> None
      | Some d \<Rightarrow> if acc * 10 + d < 2 ^ 64 then parse_digits (acc * 10 + d) cs else None)"

definition parse_u64 :: "string \<Rightarrow> nat option" where
  "parse_u64 s =
     (let digits = (case s of c # cs \<Rightarrow> if c = CHR ''+'' then cs else s | [] \<Rightarrow> [])
      in if digits = [] then None else parse_digits 0 digits)"

definition split_once :: "char \<Rightarrow> string \<Rightarrow> (string \<times> string) option" where
  "split_once c s =
     (case dropWhile (\<lambda>x. x \<noteq> c) s of [] \<Rightarrow> None | _ # rest \<Rightarrow> Some (takeWhile (\<lambda>x. x \<noteq> c) s, rest))"

text \<open>\<open>splitn(3, ':')\<close>, when it yields three parts.\<close>

definition split_three :: "string \<Rightarrow> (string \<times> string \<times> string) option" where
  "split_three s =
     (case split_once CHR '':'' s of
        None \<Rightarrow> None
      | Some (a, rest) \<Rightarrow>
          (case split_once CHR '':'' rest of None \<Rightarrow> None | Some (b, c) \<Rightarrow> Some (a, b, c)))"

definition strip_prefix :: "string \<Rightarrow> string \<Rightarrow> string option" where
  "strip_prefix p s = (if take (length p) s = p then Some (drop (length p) s) else None)"

section \<open>The signed header\<close>

datatype MembershipError = Unavailable | Undecodable BucketId

datatype AuthError = AuthRequired | TimestampExpired | InsufficientRole | MembershipLookup MembershipError

record auth_lib =
  hex2array :: "nat \<Rightarrow> string \<Rightarrow> byte list option"
  bytes2hex :: "string \<Rightarrow> byte list \<Rightarrow> string"
  sr25519_verify :: "byte list \<Rightarrow> byte list \<Rightarrow> byte list \<Rightarrow> bool"
  account_new :: "byte list \<Rightarrow> account"

definition auth_message :: "string \<Rightarrow> BucketId \<Rightarrow> string \<Rightarrow> string" where
  "auth_message method bucket_id timestamp =
     ''web3storage:'' @ method @ '':'' @ decimal bucket_id @ '':'' @ timestamp"

definition build_auth_header ::
    "auth_lib \<Rightarrow> byte list \<Rightarrow> string \<Rightarrow> BucketId \<Rightarrow> nat \<Rightarrow> (byte list \<Rightarrow> byte list) \<Rightarrow> string" where
  "build_auth_header L pubkey method bucket_id timestamp sign =
     (let timestamp_str = decimal timestamp;
          signature = sign (bytes_of (auth_message method bucket_id timestamp_str))
      in ''Web3Storage '' @ bytes2hex L ''0x'' pubkey @ '':'' @ bytes2hex L ''0x'' signature @ '':'' @ timestamp_str)"

definition wrap_bytes :: "byte list \<Rightarrow> byte list" where
  "wrap_bytes msg = bytes_of ''<Bytes>'' @ msg @ bytes_of ''</Bytes>''"

definition abs_diff :: "nat \<Rightarrow> nat \<Rightarrow> nat" where
  "abs_diff a b = (if a < b then b - a else a - b)"

definition verify_auth_signature ::
    "auth_lib \<Rightarrow> string \<Rightarrow> string \<Rightarrow> BucketId \<Rightarrow> nat \<Rightarrow> nat \<Rightarrow> AuthError + account" where
  "verify_auth_signature L auth_header method bucket_id max_skew now =
     ok_or (strip_prefix ''Web3Storage '' auth_header) AuthRequired (\<lambda>payload.
     ok_or (split_three payload) AuthRequired (\<lambda>(pubkey_hex, sig_hex, timestamp_str).
     ok_or (parse_u64 timestamp_str) TimestampExpired (\<lambda>timestamp.
     ensure (abs_diff now timestamp \<le> max_skew) TimestampExpired
     (ok_or (hex2array L 32 pubkey_hex) AuthRequired (\<lambda>pubkey.
      ok_or (hex2array L 64 sig_hex) AuthRequired (\<lambda>signature.
      let message = bytes_of (auth_message method bucket_id timestamp_str) in
      ensure (sr25519_verify L signature message pubkey \<or> sr25519_verify L signature (wrap_bytes message) pubkey) AuthRequired
      (Inr (account_new L pubkey))))))))"

section \<open>Roles\<close>

datatype RequiredRole = NeedReader | NeedWriter | NeedAdmin

fun is_satisfied_by :: "RequiredRole \<Rightarrow> Role \<Rightarrow> bool" where
  "is_satisfied_by NeedReader _ = True"
| "is_satisfied_by NeedWriter granted = (granted \<noteq> Reader)"
| "is_satisfied_by NeedAdmin granted = (granted = Admin)"

record BucketAccess =
  ba_members :: "(account \<times> Role) list"
  ba_visibility :: Visibility

definition BucketAccess_private :: "(account \<times> Role) list \<Rightarrow> BucketAccess" where
  "BucketAccess_private members = \<lparr>ba_members = members, ba_visibility = Private\<rparr>"

record CachedMembership =
  cm_access :: BucketAccess
  cm_serves_as_replica :: bool
  cm_fetched_at :: nat

definition role_of :: "CachedMembership \<Rightarrow> account \<Rightarrow> Role option" where
  "role_of entry who = map_option snd (find (\<lambda>(account, _). account = who) (ba_members (cm_access entry)))"

definition require_role ::
    "auth_lib \<Rightarrow> nat \<Rightarrow> account option \<Rightarrow> MembershipError + CachedMembership \<Rightarrow> string option \<Rightarrow> string \<Rightarrow> BucketId \<Rightarrow>
     RequiredRole \<Rightarrow> nat \<Rightarrow> AuthError + unit" where
  "require_role L max_skew provider_account access auth_header method bucket_id required now =
     (if required = NeedReader \<and>
         (case access of Inr entry \<Rightarrow> ba_visibility (cm_access entry) = Public \<or> cm_serves_as_replica entry | Inl _ \<Rightarrow> False)
      then Inr ()
      else ok_or auth_header AuthRequired (\<lambda>header.
           attempt (verify_auth_signature L header method bucket_id max_skew now) (\<lambda>account.
           if required = NeedReader \<and> provider_account = Some account then Inr ()
           else (case access of
                   Inl e \<Rightarrow> Inl (MembershipLookup e)
                 | Inr entry \<Rightarrow>
                     ok_or (role_of entry account) InsufficientRole (\<lambda>role.
                     ensure (is_satisfied_by required role) InsufficientRole (Inr ()))))))"

section \<open>Resolving membership from the chain\<close>

definition member_roles :: "Member list \<Rightarrow> (account \<times> Role) list" where
  "member_roles members = map (\<lambda>m. (m_account m, m_role m)) members"

definition fetch_access :: "BucketId \<Rightarrow> 'c pstate \<Rightarrow> BucketAccess" where
  "fetch_access bucket_id s =
     (case fmlookup (Buckets s) bucket_id of
        None \<Rightarrow> BucketAccess_private []
      | Some bucket \<Rightarrow> \<lparr>ba_members = member_roles (b_members bucket), ba_visibility = b_visibility bucket\<rparr>)"

definition fetch_serves_as_replica :: "account option \<Rightarrow> BucketId \<Rightarrow> 'c pstate \<Rightarrow> bool" where
  "fetch_serves_as_replica provider_account bucket_id s =
     (case provider_account of
        None \<Rightarrow> False
      | Some own \<Rightarrow>
          (case fmlookup (StorageAgreements s) (bucket_id, own) of
             None \<Rightarrow> False
           | Some agreement \<Rightarrow> (case ag_role agreement of Replica _ _ _ _ \<Rightarrow> True | Primary \<Rightarrow> False)))"

datatype Invalidation = InvNone | InvBuckets "BucketId list" | InvAll

definition invalidation :: "bool \<Rightarrow> BucketId list \<Rightarrow> Invalidation" where
  "invalidation all buckets = (if all then InvAll else if buckets = [] then InvNone else InvBuckets buckets)"

text \<open>
  \<open>drain_from\<close> is the loop of \<open>drain\<close> over the events that wait in the channel; it returns
  what is left there, which is nothing unless the channel is closed.
\<close>

fun drain_from :: "bool \<Rightarrow> BucketId list \<Rightarrow> RecvEvent list \<Rightarrow> Invalidation \<times> RecvEvent list" where
  "drain_from all buckets [] = (invalidation all buckets, [])"
| "drain_from all buckets (e # es) =
     (case e of
        Event (EvBucketMembershipChanged b) \<Rightarrow> drain_from all (if all then buckets else buckets @ [b]) es
      | Event (EvReplicaAgreementEstablished b _) \<Rightarrow> drain_from all (if all then buckets else buckets @ [b]) es
      | Event (EvResubscribed _) \<Rightarrow> drain_from True buckets es
      | Event (EvMembershipScopeUnknown _) \<Rightarrow> drain_from True buckets es
      | Event _ \<Rightarrow> drain_from all buckets es
      | Lagged _ \<Rightarrow> drain_from True buckets es
      | Closed \<Rightarrow> (invalidation all buckets, e # es))"

section \<open>The membership cache\<close>

text \<open>
  Requests look buckets up concurrently. The state the requests share is the cache, the
  epoch, the event channel and the clock; \<open>lookup_step\<close> is one atomic action of one
  request, and the constructors of \<open>pc\<close> are the points between two actions of
  \<open>lookup\<close>, \<open>drain_invalidations\<close>, \<open>invalidate\<close> and \<open>invalidate_all\<close>. A resident entry
  is one the expiry policy has not dropped. \<open>access\<close> and \<open>replica\<close> are the answers of the
  resolver at the time of the action.
\<close>

record cache_config =
  mc_ttl :: nat
  mc_max_stale :: nat

record shared =
  sh_cache :: "BucketId \<rightharpoonup> CachedMembership"
  sh_epoch :: nat
  sh_events :: "RecvEvent list"
  sh_now :: nat

definition residency :: "cache_config \<Rightarrow> CachedMembership \<Rightarrow> nat" where
  "residency cfg entry = (if ba_members (cm_access entry) = [] then mc_ttl cfg else mc_max_stale cfg)"

definition is_fresh :: "nat \<Rightarrow> nat \<Rightarrow> CachedMembership \<Rightarrow> bool" where
  "is_fresh ttl now entry \<longleftrightarrow> now - cm_fetched_at entry < ttl"

definition cache_get :: "cache_config \<Rightarrow> BucketId \<Rightarrow> shared \<Rightarrow> CachedMembership option" where
  "cache_get cfg b sh =
     (case sh_cache sh b of
        None \<Rightarrow> None
      | Some entry \<Rightarrow> if sh_now sh - cm_fetched_at entry < residency cfg entry then Some entry else None)"

datatype drain_point = BeforeLookup | AfterError MembershipError

datatype pc =
    Idle
  | Waiting BucketId
  | Invalidating drain_point BucketId BucketId "BucketId list"
  | Removing drain_point BucketId BucketId "BucketId list"
  | DroppingAll drain_point BucketId
  | Clearing drain_point BucketId
  | Reading BucketId
  | Sampling BucketId
  | FetchingAccess BucketId nat
  | FetchingReplica BucketId nat BucketAccess
  | Persisting BucketId nat CachedMembership
  | Inserting BucketId nat CachedMembership
  | Rechecking BucketId nat CachedMembership
  | Undoing BucketId CachedMembership
  | Failed BucketId MembershipError
  | ReadingStale BucketId MembershipError
  | Finished BucketId "MembershipError + CachedMembership"

definition after_drain :: "drain_point \<Rightarrow> BucketId \<Rightarrow> pc" where
  "after_drain dp b = (case dp of BeforeLookup \<Rightarrow> Reading b | AfterError e \<Rightarrow> ReadingStale b e)"

fun start_drain :: "drain_point \<Rightarrow> BucketId \<Rightarrow> Invalidation \<Rightarrow> pc" where
  "start_drain dp b (InvBuckets (i # is)) = Invalidating dp b i is"
| "start_drain dp b InvAll = DroppingAll dp b"
| "start_drain dp b _ = after_drain dp b"

fun next_invalidation :: "drain_point \<Rightarrow> BucketId \<Rightarrow> BucketId list \<Rightarrow> pc" where
  "next_invalidation dp b [] = after_drain dp b"
| "next_invalidation dp b (i # is) = Invalidating dp b i is"

definition drain :: "drain_point \<Rightarrow> BucketId \<Rightarrow> shared \<Rightarrow> pc \<times> shared" where
  "drain dp b sh = (let (inv', rest) = drain_from False [] (sh_events sh) in (start_drain dp b inv', sh\<lparr>sh_events := rest\<rparr>))"

fun lookup_step ::
    "cache_config \<Rightarrow> (BucketId \<Rightarrow> MembershipError + BucketAccess) \<Rightarrow> (BucketId \<Rightarrow> MembershipError + bool) \<Rightarrow>
     pc \<Rightarrow> shared \<Rightarrow> pc \<times> shared" where
  "lookup_step cfg access replica (Waiting b) sh = drain BeforeLookup b sh"
| "lookup_step cfg access replica (Invalidating dp b i is) sh = (Removing dp b i is, sh\<lparr>sh_epoch := sh_epoch sh + 1\<rparr>)"
| "lookup_step cfg access replica (Removing dp b i is) sh =
     (next_invalidation dp b is, sh\<lparr>sh_cache := (sh_cache sh)(i := None)\<rparr>)"
| "lookup_step cfg access replica (DroppingAll dp b) sh = (Clearing dp b, sh\<lparr>sh_epoch := sh_epoch sh + 1\<rparr>)"
| "lookup_step cfg access replica (Clearing dp b) sh = (after_drain dp b, sh\<lparr>sh_cache := (\<lambda>_. None)\<rparr>)"
| "lookup_step cfg access replica (Reading b) sh =
     (case cache_get cfg b sh of
        Some entry \<Rightarrow> if is_fresh (mc_ttl cfg) (sh_now sh) entry then (Finished b (Inr entry), sh) else (Sampling b, sh)
      | None \<Rightarrow> (Sampling b, sh))"
| "lookup_step cfg access replica (Sampling b) sh = (FetchingAccess b (sh_epoch sh), sh)"
| "lookup_step cfg access replica (FetchingAccess b epoch_before) sh =
     (case access b of Inl e \<Rightarrow> (Failed b e, sh) | Inr a \<Rightarrow> (FetchingReplica b epoch_before a, sh))"
| "lookup_step cfg access replica (FetchingReplica b epoch_before a) sh =
     (case replica b of
        Inl e \<Rightarrow> (Failed b e, sh)
      | Inr r \<Rightarrow> (Persisting b epoch_before \<lparr>cm_access = a, cm_serves_as_replica = r, cm_fetched_at = sh_now sh\<rparr>, sh))"
| "lookup_step cfg access replica (Persisting b epoch_before entry) sh =
     (if sh_epoch sh = epoch_before then (Inserting b epoch_before entry, sh) else (Finished b (Inr entry), sh))"
| "lookup_step cfg access replica (Inserting b epoch_before entry) sh =
     (Rechecking b epoch_before entry, sh\<lparr>sh_cache := (sh_cache sh)(b \<mapsto> entry)\<rparr>)"
| "lookup_step cfg access replica (Rechecking b epoch_before entry) sh =
     (if sh_epoch sh \<noteq> epoch_before then (Undoing b entry, sh) else (Finished b (Inr entry), sh))"
| "lookup_step cfg access replica (Undoing b entry) sh =
     (Finished b (Inr entry), sh\<lparr>sh_cache := (sh_cache sh)(b := None)\<rparr>)"
| "lookup_step cfg access replica (Failed b e) sh = drain (AfterError e) b sh"
| "lookup_step cfg access replica (ReadingStale b e) sh =
     (case cache_get cfg b sh of Some entry \<Rightarrow> (Finished b (Inr entry), sh) | None \<Rightarrow> (Finished b (Inl e), sh))"
| "lookup_step cfg access replica Idle sh = (Idle, sh)"
| "lookup_step cfg access replica (Finished b r) sh = (Finished b r, sh)"

end
