(* ===== verification/Provider_Coordinator.thy ===== *)
theory Provider_Coordinator
  imports Provider_Auth
begin

text \<open>
  How the node follows the chain: decoding of a block's events
  (\<open>provider-node/src/event_decoding.rs\<close>), the node's view of its registration
  (\<open>crates/providers/types/src/provider_info.rs\<close>,
  \<open>provider-node/src/chain_follower.rs\<close>) and the coordinator that keeps it
  (\<open>crates/providers/coordinator/src/lib.rs\<close>). What the connection delivers (read
  results, blocks, time-outs) is an argument; \<open>decodable\<close> says which raw events the static
  bindings decode, and \<open>lossy\<close> is the lossy conversion of bytes to text.
\<close>

section \<open>Events of a block\<close>

fun is_membership_event :: "Event \<Rightarrow> bool" where
  "is_membership_event (BucketCreated _ _) = True"
| "is_membership_event (MemberSet _ _ _) = True"
| "is_membership_event (MemberRemoved _ _) = True"
| "is_membership_event (BucketDeleted _) = True"
| "is_membership_event (BucketVisibilityChanged _ _) = True"
| "is_membership_event _ = False"

fun is_other_relevant_event :: "Event \<Rightarrow> bool" where
  "is_other_relevant_event (ChallengeCreated _ _ _ _ _) = True"
| "is_other_relevant_event (ReplicaAgreementEstablished _ _ _ _ _) = True"
| "is_other_relevant_event (BucketCheckpointed _ _ _) = True"
| "is_other_relevant_event (ProviderRegistered _ _) = True"
| "is_other_relevant_event (ProviderSettingsUpdated _ _) = True"
| "is_other_relevant_event (ProviderMultiaddrUpdated _ _) = True"
| "is_other_relevant_event (Event.DeregisterAnnounced _ _) = True"
| "is_other_relevant_event (DeregisterCancelled _) = True"
| "is_other_relevant_event (ProviderDeregistered _ _) = True"
| "is_other_relevant_event _ = False"

fun lifecycle_account :: "Event \<Rightarrow> account option" where
  "lifecycle_account (ProviderDeregistered provider _) = Some provider"
| "lifecycle_account (ProviderRegistered provider _) = Some provider"
| "lifecycle_account (ProviderSettingsUpdated provider _) = Some provider"
| "lifecycle_account (ProviderMultiaddrUpdated provider _) = Some provider"
| "lifecycle_account (Event.DeregisterAnnounced provider _) = Some provider"
| "lifecycle_account (DeregisterCancelled provider) = Some provider"
| "lifecycle_account _ = None"

fun block_event :: "Event \<Rightarrow> BlockEvent option" where
  "block_event (ChallengeCreated challenge_id bucket_id provider _ _) =
     Some (EvChallengeCreated (deadline challenge_id) (index challenge_id) bucket_id provider)"
| "block_event (ReplicaAgreementEstablished bucket_id provider _ _ _) = Some (EvReplicaAgreementEstablished bucket_id provider)"
| "block_event (BucketCheckpointed bucket_id _ _) = Some (EvBucketCheckpointed bucket_id)"
| "block_event (BucketCreated bucket_id _) = Some (EvBucketMembershipChanged bucket_id)"
| "block_event (MemberSet bucket_id _ _) = Some (EvBucketMembershipChanged bucket_id)"
| "block_event (MemberRemoved bucket_id _) = Some (EvBucketMembershipChanged bucket_id)"
| "block_event (BucketDeleted bucket_id) = Some (EvBucketMembershipChanged bucket_id)"
| "block_event (BucketVisibilityChanged bucket_id _) = Some (EvBucketMembershipChanged bucket_id)"
| "block_event _ = None"

record BlockContents =
  bc_events :: "BlockEvent list"
  bc_lifecycle :: "account list"

definition escalate_membership_decode_failure :: "nat \<Rightarrow> BlockEvent" where
  "escalate_membership_decode_failure block_number = EvMembershipScopeUnknown block_number"

fun decode_events :: "(Event \<Rightarrow> bool) \<Rightarrow> nat \<Rightarrow> Event list \<Rightarrow> BlockContents \<Rightarrow> BlockContents" where
  "decode_events decodable block_number [] contents = contents"
| "decode_events decodable block_number (event # rest) contents =
     decode_events decodable block_number rest
       (if \<not> is_membership_event event \<and> \<not> is_other_relevant_event event then contents
        else if decodable event
        then contents\<lparr>bc_lifecycle := bc_lifecycle contents @ (case lifecycle_account event of None \<Rightarrow> [] | Some p \<Rightarrow> [p]),
               bc_events := bc_events contents @ (case block_event event of None \<Rightarrow> [] | Some e \<Rightarrow> [e])\<rparr>
        else if is_membership_event event
        then contents\<lparr>bc_events := bc_events contents @ [escalate_membership_decode_failure block_number]\<rparr>
        else contents)"

definition decode_block_contents :: "(Event \<Rightarrow> bool) \<Rightarrow> Event list \<Rightarrow> nat \<Rightarrow> BlockContents" where
  "decode_block_contents decodable evs block_number =
     decode_events decodable block_number evs \<lparr>bc_events = [], bc_lifecycle = []\<rparr>"

section \<open>The registration as the node sees it\<close>

record NodeProviderStats =
  ns_registered_at :: nat
  ns_agreements_total :: nat
  ns_agreements_extended :: nat
  ns_agreements_not_extended :: nat
  ns_agreements_burned :: nat
  ns_total_bytes_committed :: nat
  ns_challenges_received_authorized :: nat
  ns_challenges_received_public :: nat
  ns_challenges_failed :: nat

record NodeProviderInfo =
  ni_multiaddr :: string
  ni_public_key :: "byte list"
  ni_stake :: nat
  ni_committed_bytes :: nat
  ni_settings :: ProviderSettings
  ni_stats :: NodeProviderStats
  ni_deregister_at :: "nat option"

definition provider_info_from_runtime :: "(byte list \<Rightarrow> string) \<Rightarrow> ProviderInfo \<Rightarrow> NodeProviderInfo" where
  "provider_info_from_runtime lossy info = \<lparr>
     ni_multiaddr = lossy (pi_multiaddr info),
     ni_public_key = pi_public_key info,
     ni_stake = pi_stake info,
     ni_committed_bytes = pi_committed_bytes info,
     ni_settings = pi_settings info,
     ni_stats = \<lparr>
       ns_registered_at = st_registered_at (pi_stats info),
       ns_agreements_total = st_agreements_total (pi_stats info),
       ns_agreements_extended = st_agreements_extended (pi_stats info),
       ns_agreements_not_extended = st_agreements_not_extended (pi_stats info),
       ns_agreements_burned = st_agreements_burned (pi_stats info),
       ns_total_bytes_committed = st_total_bytes_committed (pi_stats info),
       ns_challenges_received_authorized = st_challenges_received_authorized (pi_stats info),
       ns_challenges_received_public = st_challenges_received_public (pi_stats info),
       ns_challenges_failed = st_challenges_failed (pi_stats info)\<rparr>,
     ni_deregister_at = pi_deregister_at info\<rparr>"

datatype ChainClientError = QueryFailed | DecodeFailed | InvalidAccount | TxSubmitFailed | TxRejected

text \<open>The entry \<open>who\<close> has in the state the read sees.\<close>

definition get_provider_info :: "(byte list \<Rightarrow> string) \<Rightarrow> account \<Rightarrow> 'c pstate \<Rightarrow> ChainClientError + NodeProviderInfo option" where
  "get_provider_info lossy who s = Inr (map_option (provider_info_from_runtime lossy) (fmlookup (Providers s) who))"

section \<open>The coordinator\<close>

record ChainState =
  cs_current_anchor_block :: nat
  cs_request_timeout :: "nat option"
  cs_provider_info :: "NodeProviderInfo option"

definition ChainState_default :: ChainState where
  "ChainState_default = \<lparr>cs_current_anchor_block = 0, cs_request_timeout = None, cs_provider_info = None\<rparr>"

definition sync_constants :: "ChainClientError + nat option \<Rightarrow> ChainState \<Rightarrow> ChainState" where
  "sync_constants fetched cs =
     (case fetched of Inr (Some timeout) \<Rightarrow> cs\<lparr>cs_request_timeout := Some timeout\<rparr> | Inr None \<Rightarrow> cs | Inl _ \<Rightarrow> cs)"

definition refresh_provider_state :: "ChainClientError + NodeProviderInfo option \<Rightarrow> ChainState \<Rightarrow> ChainState" where
  "refresh_provider_state fetched cs =
     (case fetched of
        Inr (Some info) \<Rightarrow> cs\<lparr>cs_provider_info := Some info\<rparr>
      | Inr None \<Rightarrow> cs\<lparr>cs_provider_info := None\<rparr>
      | Inl _ \<Rightarrow> cs)"

definition refresh_if_relevant_event ::
    "ChainClientError + NodeProviderInfo option \<Rightarrow> account \<Rightarrow> account list \<Rightarrow> ChainState \<Rightarrow> ChainState" where
  "refresh_if_relevant_event fetched provider_account event_providers cs =
     (if provider_account \<in> set event_providers then refresh_provider_state fetched cs else cs)"

definition escalate_block_read_failure :: "nat \<Rightarrow> BlockEvent" where
  "escalate_block_read_failure block_number = EvMembershipScopeUnknown block_number"

record FinalizedBlock =
  fb_number :: nat
  fb_anchor_block :: "nat option"
  fb_contents :: "BlockContents option"

text \<open>
  One round of the loop of \<open>follow\<close>: the new state of the node and the events sent to the
  other parts. \<open>fetched\<close> is what a read of the registration returns in this round.
\<close>

definition follow_block ::
    "account \<Rightarrow> FinalizedBlock \<times> (ChainClientError + NodeProviderInfo option) \<Rightarrow> ChainState \<Rightarrow> ChainState \<times> BlockEvent list" where
  "follow_block provider_account r cs =
     (let (block, fetched) = r;
          cs1 = (case fb_anchor_block block of None \<Rightarrow> cs | Some n \<Rightarrow> cs\<lparr>cs_current_anchor_block := n\<rparr>)
      in case fb_contents block of
           None \<Rightarrow> (cs1, [escalate_block_read_failure (fb_number block)])
         | Some contents \<Rightarrow>
             (refresh_if_relevant_event fetched provider_account (bc_lifecycle contents) cs1, bc_events contents))"

fun follow_blocks ::
    "account \<Rightarrow> (FinalizedBlock \<times> (ChainClientError + NodeProviderInfo option)) list \<Rightarrow> ChainState \<Rightarrow> ChainState \<times> BlockEvent list" where
  "follow_blocks provider_account [] cs = (cs, [])"
| "follow_blocks provider_account (r # rounds) cs =
     (let (cs1, sent) = follow_block provider_account r cs; (cs2, more) = follow_blocks provider_account rounds cs1
      in (cs2, sent @ more))"

text \<open>
  \<open>None\<close> as the result of a bootstrap read is a time-out; \<open>follow\<close> then returns an error, and
  the caller connects anew. The rounds are the blocks until the stream ends or stalls.
\<close>

datatype FollowError = BootstrapTimeout

definition follow ::
    "account \<Rightarrow> (ChainClientError + nat option) option \<Rightarrow> (ChainClientError + NodeProviderInfo option) option \<Rightarrow>
     (FinalizedBlock \<times> (ChainClientError + NodeProviderInfo option)) list \<Rightarrow> ChainState \<Rightarrow>
     (FollowError + unit) \<times> ChainState \<times> BlockEvent list" where
  "follow provider_account timeout_read info_read rounds cs =
     (case timeout_read of
        None \<Rightarrow> (Inl BootstrapTimeout, cs, [])
      | Some fetched_timeout \<Rightarrow>
          let cs1 = sync_constants fetched_timeout cs
          in case info_read of
               None \<Rightarrow> (Inl BootstrapTimeout, cs1, [])
             | Some fetched \<Rightarrow>
                 let cs2 = refresh_provider_state fetched cs1;
                     (cs3, sent) = follow_blocks provider_account rounds cs2
                 in (Inr (), cs3, EvResubscribed (cs_current_anchor_block cs2) # sent))"

end
