(* ===== verification/Negotiation.thy ===== *)
theory Negotiation
  imports Provider_Coordinator
begin

text \<open>
  Negotiation of terms at the provider node (\<open>provider-node/src/negotiate.rs\<close>, the handler
  \<open>negotiate_terms\<close> of \<open>provider-node/src/api.rs\<close>), and the node's signing key with its
  guards (\<open>crates/providers/types/src/keys.rs\<close>, \<open>provider-node/src/lib.rs\<close>). Key
  derivation and signing of the four schemes are the record \<open>pair_lib\<close>.
\<close>

section \<open>Keys\<close>

datatype SigningRefused = NoKey | Unregistered | KeyMismatch

datatype KeyScheme = Scheme_Sr25519 | Scheme_Ed25519 | Scheme_Ecdsa | Scheme_Eth

datatype ProviderKeypair =
    Pair_Sr25519 "byte list" | Pair_Ed25519 "byte list" | Pair_Ecdsa "byte list" | Pair_Eth "byte list"

record pair_lib =
  pair_from_string :: "KeyScheme \<Rightarrow> string \<Rightarrow> byte list option"
  pair_public :: "KeyScheme \<Rightarrow> byte list \<Rightarrow> byte list"
  pair_sign :: "KeyScheme \<Rightarrow> byte list \<Rightarrow> byte list \<Rightarrow> byte list"

definition from_seed :: "pair_lib \<Rightarrow> string \<Rightarrow> KeyScheme \<Rightarrow> ProviderKeypair option" where
  "from_seed P seed scheme =
     (case pair_from_string P scheme seed of
        None \<Rightarrow> None
      | Some k \<Rightarrow> Some (case scheme of
            Scheme_Sr25519 \<Rightarrow> Pair_Sr25519 k | Scheme_Ed25519 \<Rightarrow> Pair_Ed25519 k
          | Scheme_Ecdsa \<Rightarrow> Pair_Ecdsa k | Scheme_Eth \<Rightarrow> Pair_Eth k))"

fun keypair_sign :: "pair_lib \<Rightarrow> ProviderKeypair \<Rightarrow> byte list \<Rightarrow> MultiSignature" where
  "keypair_sign P (Pair_Sr25519 k) message = Sr25519 (pair_sign P Scheme_Sr25519 k message)"
| "keypair_sign P (Pair_Ed25519 k) message = Ed25519 (pair_sign P Scheme_Ed25519 k message)"
| "keypair_sign P (Pair_Ecdsa k) message = Ecdsa (pair_sign P Scheme_Ecdsa k message)"
| "keypair_sign P (Pair_Eth k) message = Eth (pair_sign P Scheme_Eth k message)"

fun public_key_bytes :: "pair_lib \<Rightarrow> ProviderKeypair \<Rightarrow> byte list" where
  "public_key_bytes P (Pair_Sr25519 k) = pair_public P Scheme_Sr25519 k"
| "public_key_bytes P (Pair_Ed25519 k) = pair_public P Scheme_Ed25519 k"
| "public_key_bytes P (Pair_Ecdsa k) = pair_public P Scheme_Ecdsa k"
| "public_key_bytes P (Pair_Eth k) = pair_public P Scheme_Eth k"

record SignedTerms =
  sg_terms :: AgreementTerms
  sg_signature :: MultiSignature

definition sign_terms :: "crypto \<Rightarrow> pair_lib \<Rightarrow> ProviderKeypair \<Rightarrow> AgreementTerms \<Rightarrow> SignedTerms" where
  "sign_terms C P keypair terms =
     \<lparr>sg_terms = terms,
      sg_signature = keypair_sign P keypair (as_bytes (blake2_256 C (signing_payload (encode_account C) terms)))\<rparr>"

section \<open>Errors\<close>

datatype NodeError =
    NodeBackend StoreError
  | NodeInvalidHash string
  | NodeInvalidSignature
  | NodeNotAuthorized
  | NodeChainClient ChainClientError
  | NodeDecode
  | RateLimiterFailed
  | StorageTaskFailed
  | NodeAuth AuthError
  | NotAcceptingPrimary
  | NotAcceptingReplicas
  | ReplicaRequiresBucket
  | PriceBelowListed nat nat
  | DurationOutOfBounds nat nat nat
  | RequestExceedsCapacity nat nat nat
  | RequestBelowMinimum nat nat
  | ProviderDeregistering
  | ChainStateNotReady
  | ChainNotConnected
  | Refused SigningRefused
  | RequestedMaxBytesZero
  | RateLimited

section \<open>The node's state and its signing guards\<close>

record NodeState =
  nd_keypair :: "ProviderKeypair option"
  nd_signing_public_key :: "byte list option"
  nd_chain_state :: ChainState

definition node_from_parts :: "pair_lib \<Rightarrow> ProviderKeypair option \<Rightarrow> NodeState" where
  "node_from_parts P keypair =
     \<lparr>nd_keypair = keypair, nd_signing_public_key = map_option (public_key_bytes P) keypair, nd_chain_state = ChainState_default\<rparr>"

definition ensure_signing_key_matches :: "NodeState \<Rightarrow> NodeProviderInfo \<Rightarrow> SigningRefused + unit" where
  "ensure_signing_key_matches node info =
     (case nd_signing_public_key node of
        None \<Rightarrow> Inr ()
      | Some own \<Rightarrow> ensure (ni_public_key info = own) KeyMismatch (Inr ()))"

definition ensure_signing_key_registered :: "NodeState \<Rightarrow> SigningRefused + unit" where
  "ensure_signing_key_registered node =
     ok_or (cs_provider_info (nd_chain_state node)) Unregistered (\<lambda>info. ensure_signing_key_matches node info)"

definition signing_keypair :: "NodeState \<Rightarrow> SigningRefused + ProviderKeypair" where
  "signing_keypair node =
     ok_or (nd_keypair node) NoKey (\<lambda>keypair.
     attempt (ensure_signing_key_registered node) (\<lambda>_. Inr keypair))"

text \<open>\<open>hex\<close> writes an encoded signature as text, the form in which the node hands signatures out.\<close>

definition node_sign :: "(MultiSignature \<Rightarrow> string) \<Rightarrow> pair_lib \<Rightarrow> NodeState \<Rightarrow> byte list \<Rightarrow> NodeError + string" where
  "node_sign hex P node message =
     attempt (map_sum Refused id (signing_keypair node)) (\<lambda>keypair. Inr (hex (keypair_sign P keypair message)))"

definition sign_sync_roots :: "pair_lib \<Rightarrow> NodeState \<Rightarrow> H256 option list \<Rightarrow> SigningRefused + MultiSignature" where
  "sign_sync_roots P node roots = attempt (signing_keypair node) (\<lambda>keypair. Inr (keypair_sign P keypair (encode_roots roots)))"

section \<open>Requests\<close>

record NegotiateRequest =
  nr_owner :: account
  nr_max_bytes :: nat
  nr_duration :: nat
  nr_price_per_byte :: nat
  nr_nonce :: nat
  nr_bucket :: "BucketId option"
  nr_replica_params :: "ReplicaTerms option"

definition validate_kind :: "NegotiateRequest \<Rightarrow> NodeProviderInfo \<Rightarrow> NodeError + unit" where
  "validate_kind req info =
     (case nr_replica_params req of
        None \<Rightarrow> if \<not> ps_accepting_primary (ni_settings info) then Inl NotAcceptingPrimary else Inr ()
      | Some _ \<Rightarrow>
          if ps_replica_sync_price (ni_settings info) = None then Inl NotAcceptingReplicas
          else if nr_bucket req = None then Inl ReplicaRequiresBucket
          else Inr ())"

definition validate_request :: "NegotiateRequest \<Rightarrow> NodeProviderInfo \<Rightarrow> NodeError + unit" where
  "validate_request req info =
     (let settings = ni_settings info in
      attempt (validate_kind req info) (\<lambda>_.
      if nr_price_per_byte req < ps_price_per_byte settings
      then Inl (PriceBelowListed (nr_price_per_byte req) (ps_price_per_byte settings))
      else if nr_duration req < ps_min_duration settings \<or> ps_max_duration settings < nr_duration req
      then Inl (DurationOutOfBounds (nr_duration req) (ps_min_duration settings) (ps_max_duration settings))
      else if nr_max_bytes req = 0 then Inl RequestedMaxBytesZero
      else if nr_max_bytes req < ps_min_agreement_bytes settings
      then Inl (RequestBelowMinimum (nr_max_bytes req) (ps_min_agreement_bytes settings))
      else if 0 < ps_max_capacity settings \<and>
              ps_max_capacity settings < saturating_add 64 (ni_committed_bytes info) (nr_max_bytes req)
      then Inl (RequestExceedsCapacity (nr_max_bytes req) (ni_committed_bytes info) (ps_max_capacity settings))
      else Inr ()))"

definition target_of :: "BucketId option \<Rightarrow> BucketTarget" where
  "target_of b = (case b of None \<Rightarrow> New | Some bucket_id \<Rightarrow> Existing bucket_id)"

definition negotiated_terms :: "NegotiateRequest \<Rightarrow> NodeProviderInfo \<Rightarrow> nat \<Rightarrow> nat \<Rightarrow> AgreementTerms" where
  "negotiated_terms req info anchor_block request_timeout = \<lparr>
     at_owner = nr_owner req, at_max_bytes = nr_max_bytes req, at_duration = nr_duration req,
     at_price_per_byte = ps_price_per_byte (ni_settings info),
     at_valid_until = saturating_add 32 anchor_block request_timeout,
     at_nonce = nr_nonce req, at_bucket = target_of (nr_bucket req), at_replica_params = nr_replica_params req\<rparr>"

definition negotiate_terms :: "crypto \<Rightarrow> pair_lib \<Rightarrow> NodeState \<Rightarrow> NegotiateRequest \<Rightarrow> NodeError + SignedTerms" where
  "negotiate_terms C P node req =
     ok_or (nd_keypair node) (Refused NoKey) (\<lambda>keypair.
     (let anchor_block = cs_current_anchor_block (nd_chain_state node);
          request_timeout = (case cs_request_timeout (nd_chain_state node) of None \<Rightarrow> 0 | Some t \<Rightarrow> t) in
      ensure (\<not> (anchor_block = 0 \<or> request_timeout = 0)) ChainStateNotReady
      (ok_or (cs_provider_info (nd_chain_state node)) (Refused Unregistered) (\<lambda>info.
       ensure (ni_deregister_at info = None) ProviderDeregistering
       (attempt (map_sum Refused id (ensure_signing_key_matches node info)) (\<lambda>_.
        attempt (validate_request req info) (\<lambda>_.
        Inr (sign_terms C P keypair (negotiated_terms req info anchor_block request_timeout)))))))))"

end
