(* ===== verification/Announcements.thy ===== *)
theory Announcements
  imports Provider_Coordinator Frames
begin

text \<open>
  Which changes of the chain its events announce. The node learns of its own registration,
  of bucket members and of replica agreements from the decoded events of each block alone:
  every call that changes what the node keeps of them deposits an event the decoder maps to
  that provider or that bucket. \<open>silent\<close> are the steps without such a change.
\<close>

section \<open>What is announced\<close>

definition provider_view :: "(account, ProviderInfo) fmap \<Rightarrow> account \<Rightarrow> (byte list \<times> byte list \<times> ProviderSettings \<times> nat option) option" where
  "provider_view ps p = map_option (\<lambda>i. (pi_multiaddr i, pi_public_key i, pi_settings i, pi_deregister_at i)) (fmlookup ps p)"

definition bucket_view :: "(BucketId, Bucket) fmap \<Rightarrow> BucketId \<Rightarrow> (Member list \<times> Visibility) option" where
  "bucket_view bs b = map_option (\<lambda>B. (b_members B, b_visibility B)) (fmlookup bs b)"

definition is_replica :: "(BucketId \<times> account, StorageAgreement) fmap \<Rightarrow> BucketId \<Rightarrow> account \<Rightarrow> bool" where
  "is_replica ags b p \<longleftrightarrow> (\<exists>a. fmlookup ags (b, p) = Some a \<and> ag_role a \<noteq> Primary)"

definition announces :: "Event list \<Rightarrow> 'c pstate \<Rightarrow> 'c pstate \<Rightarrow> bool" where
  "announces new s s' \<longleftrightarrow>
     (\<forall>p. provider_view (Providers s') p \<noteq> provider_view (Providers s) p \<longrightarrow> Some p \<in> lifecycle_account ` set new) \<and>
     (\<forall>b. bucket_view (Buckets s') b \<noteq> bucket_view (Buckets s) b \<longrightarrow>
        Some (EvBucketMembershipChanged b) \<in> block_event ` set new) \<and>
     (\<forall>b p. is_replica (StorageAgreements s') b p \<and> \<not> is_replica (StorageAgreements s) b p \<longrightarrow>
        Some (EvReplicaAgreementEstablished b p) \<in> block_event ` set new)"

definition told :: "'c pstate \<Rightarrow> 'c pstate \<Rightarrow> bool" where
  "told s s' \<longleftrightarrow> (\<exists>new. events s' = events s @ new \<and> announces new s s')"

definition silent :: "'c pstate \<Rightarrow> 'c pstate \<Rightarrow> bool" where
  "silent s s' \<longleftrightarrow> (\<exists>new. events s' = events s @ new) \<and> provider_view (Providers s') = provider_view (Providers s) \<and>
     bucket_view (Buckets s') = bucket_view (Buckets s) \<and>
     (\<forall>b p. is_replica (StorageAgreements s') b p \<longrightarrow> is_replica (StorageAgreements s) b p)"

lemma silent_told: "silent s s' \<Longrightarrow> told s s'"
  by (auto simp: silent_def told_def announces_def)

lemma silent_trans: "silent s t \<Longrightarrow> silent t u \<Longrightarrow> silent s u"
  by (auto simp: silent_def)

lemma announces_trans: "announces new s t \<Longrightarrow> announces later t u \<Longrightarrow> announces (new @ later) s u"
  unfolding announces_def set_append image_Un by (metis UnCI)

lemma told_trans: "told s t \<Longrightarrow> told t u \<Longrightarrow> told s u"
  unfolding told_def using announces_trans by (metis append_assoc)

lemma told_refl [simp]: "told s s"
  by (rule silent_told) (simp add: silent_def)

lemma provider_view_upd [simp]:
  "provider_view (fmupd p i ps) = (provider_view ps)(p := Some (pi_multiaddr i, pi_public_key i, pi_settings i, pi_deregister_at i))"
  "provider_view (fmdrop p ps) = (provider_view ps)(p := None)"
  by (auto simp: provider_view_def fun_eq_iff)

lemma bucket_view_upd [simp]:
  "bucket_view (fmupd b B bs) = (bucket_view bs)(b := Some (b_members B, b_visibility B))"
  "bucket_view (fmdrop b bs) = (bucket_view bs)(b := None)"
  by (auto simp: bucket_view_def fun_eq_iff)

lemma is_replica_upd [simp]:
  "is_replica (fmupd (b, p) a ags) b' p' \<longleftrightarrow> (if b' = b \<and> p' = p then ag_role a \<noteq> Primary else is_replica ags b' p')"
  "is_replica (fmdrop (b, p) ags) b' p' \<longleftrightarrow> (b' = b \<and> p' = p \<longrightarrow> False) \<and> is_replica ags b' p'"
  by (auto simp: is_replica_def)

lemma viewI:
  "fmlookup ps p = Some i \<Longrightarrow> provider_view ps p = Some (pi_multiaddr i, pi_public_key i, pi_settings i, pi_deregister_at i)"
  "fmlookup bs b = Some B \<Longrightarrow> bucket_view bs b = Some (b_members B, b_visibility B)"
  "fmlookup ags (b, p) = Some a \<Longrightarrow> is_replica ags b p \<longleftrightarrow> ag_role a \<noteq> Primary"
  by (auto simp: provider_view_def bucket_view_def is_replica_def)

lemma provider_view_mutate:
  assumes "\<And>i. pi_multiaddr (f i) = pi_multiaddr i \<and> pi_public_key (f i) = pi_public_key i \<and> pi_settings (f i) = pi_settings i \<and>
    pi_deregister_at (f i) = pi_deregister_at i"
  shows "provider_view (Providers (mutate_provider p f s)) = provider_view (Providers s)"
  using assms by (auto simp: mutate_provider_def provider_view_def fun_eq_iff split: option.splits)

lemmas view_defs = silent_def told_def announces_def

section \<open>The calls\<close>

lemma provider_calls_told:
  "register_provider E o' ma pk st s = Inr s' \<Longrightarrow> told s s'"
  "add_stake E o' n s = Inr s' \<Longrightarrow> told s s'"
  "deregister_provider E o' s = Inr s' \<Longrightarrow> told s s'"
  "complete_deregister E o' s = Inr s' \<Longrightarrow> told s s'"
  "cancel_deregister E o' s = Inr s' \<Longrightarrow> told s s'"
  "update_provider_settings E o' sett s = Inr s' \<Longrightarrow> told s s'"
  "update_provider_multiaddr E o' ma s = Inr s' \<Longrightarrow> told s s'"
  "set_extensions_blocked E o' b v s = Inr s' \<Longrightarrow> told s s'"
  by (auto simp: view_defs provider_call_defs result_simps Let_def viewI)

lemma bucket_calls_told:
  "set_min_providers E o' b n s = Inr s' \<Longrightarrow> told s s'"
  "freeze_bucket E o' b s = Inr s' \<Longrightarrow> told s s'"
  "set_bucket_visibility E o' b v s = Inr s' \<Longrightarrow> told s s'"
  "checkpoint E o' b c sigs s = Inr s' \<Longrightarrow> told s s'"
  "extend_checkpoint E o' b sigs s = Inr s' \<Longrightarrow> told s s'"
  by (auto simp: view_defs set_min_providers_def freeze_bucket_def set_bucket_visibility_def checkpoint_def 
    extend_checkpoint_def result_simps Let_def viewI)

lemma set_member_told:
  assumes "set_member E o' b w r s = Inr s'" shows "told s s'"
proof -
  from assms obtain who B where B: "o' = Signed who" "fmlookup (Buckets s) b = Some B" "ensure_admin who B = Inr ()"
    by (auto simp: set_member_def set_member_internal_def result_simps)
  obtain t a n where loc: "locate_member B w = (t, a, n)" by (cases "locate_member B w")
  show ?thesis using assms B loc
    by (cases t) (auto simp: view_defs set_member_def set_member_internal_def result_simps)
qed

lemma remove_member_told:
  assumes "remove_member E o' b w s = Inr s'" shows "told s s'"
proof -
  from assms obtain who B where B: "o' = Signed who" "fmlookup (Buckets s) b = Some B" "ensure_admin who B = Inr ()"
    by (auto simp: remove_member_def remove_member_internal_def result_simps)
  obtain t a n where loc: "locate_member B w = (t, a, n)" by (cases "locate_member B w")
  show ?thesis using assms B loc
    by (auto simp: view_defs remove_member_def remove_member_internal_def result_simps Let_def)
qed

lemma remove_primary_views [simp]:
  "bucket_view (Buckets (remove_primary_from_bucket b p s)) = bucket_view (Buckets s)"
  "events (remove_primary_from_bucket b p s) = events s"
  by (auto simp: remove_primary_from_bucket_def viewI split: option.splits)

lemma remove_agreement_silent: "remove_agreement E b p a s = Inr s' \<Longrightarrow> silent s s'"
  by (auto simp: remove_agreement_def silent_def result_simps)

lemma finalize_agreement_told:
  assumes "finalize_agreement E b p a act early s = Inr s'" shows "told s s'"
  using assms
  by (auto simp: finalize_agreement_def remove_agreement_def view_defs result_simps Let_def provider_view_mutate split: prod.splits if_splits)

lemma settlement_calls_told:
  "end_agreement E o' b p act s = Inr s' \<Longrightarrow> told s s'"
  "claim_expired_agreement E o' b s = Inr s' \<Longrightarrow> told s s'"
  by (auto simp: end_agreement_def claim_expired_agreement_def result_simps Let_def intro: finalize_agreement_told)

lemma remove_slashed_told: "remove_slashed E o' b p s = Inr s' \<Longrightarrow> told s s'"
  by (auto simp: remove_slashed_def remove_agreement_def view_defs result_simps Let_def provider_view_mutate split: if_splits)

lemma accept_quote_silent: "accept_quote E w p t sig target k s = Inr (q, s') \<Longrightarrow> silent s s'"
  by (drule accept_quote_Inr) (auto simp: silent_def)

lemma insert_agreement_silent:
  "insert_agreement E b w p t q s = Inr (e, s') \<Longrightarrow> aq_role q = Primary \<Longrightarrow> silent s s'"
  by (auto simp: insert_agreement_def silent_def result_simps Let_def provider_view_mutate split: if_splits)

lemma insert_replica_told:
  "insert_agreement E b w p t q s = Inr (e, s') \<Longrightarrow> told s (deposit_event (ReplicaAgreementEstablished b p w t e) s')"
  by (auto simp: insert_agreement_def view_defs result_simps Let_def provider_view_mutate)

lemma add_replica_provider_told:
  assumes "add_replica_provider E o' b p t sig s = Inr s'" shows "told s s'"
proof -
  from assms obtain who q s1 e s2 where *: "accept_quote E who p t sig (Existing b) Quote_Replica s = Inr (q, s1)"
    "insert_agreement E b who p t q s1 = Inr (e, s2)" "s' = deposit_event (ReplicaAgreementEstablished b p who t e) s2"
    by (auto simp: add_replica_provider_def add_replica_provider_internal_def result_simps)
  show ?thesis unfolding *(3)
    by (rule told_trans [OF silent_told [OF accept_quote_silent [OF *(1)]] insert_replica_told [OF *(2)]])
qed

lemma accept_quote_primary: "accept_quote E w p t sig target Quote_Primary s = Inr (q, s') \<Longrightarrow> aq_role q = Primary"
  by (auto simp: accept_quote_def quote_role_def result_simps Let_def split: BucketTarget.splits)

lemma deposit_silent: "silent s (deposit_event e s)"
  by (simp add: silent_def)

lemma add_primary_provider_told:
  assumes "add_primary_provider E o' b p t sig s = Inr s'" shows "told s s'"
proof -
  from assms obtain who q s1 e s2 B where *: "accept_quote E who p t sig (Existing b) Quote_Primary s = Inr (q, s1)"
    "insert_agreement E b who p t q (s1\<lparr>Buckets := fmupd b (with_primary p B) (Buckets s1)\<rparr>) = Inr (e, s2)" "fmlookup (Buckets s) b = Some B"
    "s' = deposit_event (StorageAgreementEstablished b p who t e) (deposit_event (ProviderAddedToBucket b p) s2)"
    by (auto simp: add_primary_provider_def add_primary_provider_internal_def insert_primary_agreement_def result_simps with_primary_def)
  have "Buckets s1 = Buckets s" using accept_quote_Inr [OF *(1)] by auto
  then have "silent s1 (s1\<lparr>Buckets := fmupd b (with_primary p B) (Buckets s1)\<rparr>)"
    using *(3) by (auto simp: silent_def with_primary_def viewI)
  with insert_agreement_silent [OF *(2) accept_quote_primary [OF *(1)]] accept_quote_silent [OF *(1)] have "silent s s2"
    by (blast intro: silent_trans)
  then show ?thesis unfolding *(4) by (intro silent_told) (blast intro: silent_trans deposit_silent)
qed

lemma create_bucket_internal_told:
  assumes "create_bucket_internal E w n prim v s = Inr (b, s')" shows "told s s'"
  using assms by (auto simp: create_bucket_internal_def view_defs result_simps Let_def)

lemma create_bucket_told: "create_bucket E o' n v s = Inr s' \<Longrightarrow> told s s'"
  by (auto simp: create_bucket_def result_simps dest: create_bucket_internal_told)

lemma create_bucket_with_primary_told:
  assumes "create_bucket_with_primary E o' p t sig v s = Inr s'" shows "told s s'"
proof -
  from assms obtain who q s1 e s2 b s3 where *: "accept_quote E who p t sig New Quote_Primary s = Inr (q, s1)"
    "create_bucket_internal E who 1 (Some p) v s1 = Inr (b, s2)"
    "insert_agreement E b who p t q s2 = Inr (e, s3)" 
    "s' = deposit_event (StorageAgreementEstablished b p who t e) (deposit_event (ProviderAddedToBucket b p) s3)"
    by (auto simp: create_bucket_with_primary_def create_bucket_with_primary_internal_def insert_primary_agreement_def result_simps)
  have "silent s2 s'" unfolding *(4)
    using insert_agreement_silent [OF *(3) accept_quote_primary [OF *(1)]] by (blast intro: silent_trans deposit_silent)
  with accept_quote_silent [OF *(1)] create_bucket_internal_told [OF *(2)] show ?thesis
    by (blast intro: told_trans silent_told)
qed

lemma agreement_changes_told:
  "top_up_agreement E o' b p n m s = Inr s' \<Longrightarrow> told s s'"
  "transfer_agreement_ownership E o' b p w s = Inr s' \<Longrightarrow> told s s'"
  by (auto simp: top_up_agreement_def transfer_agreement_ownership_def result_simps Let_def view_defs provider_view_mutate viewI)

lemma extended_role_primary [simp]: "extended_role st Primary = Inr r \<longleftrightarrow> r = Primary"
  by (auto simp: extended_role_def)

lemma extend_agreement_told: "extend_agreement E o' b p d m s = Inr s' \<Longrightarrow> told s s'"
  by (drule extend_agreement_Inr) (auto simp: view_defs provider_view_mutate viewI)

lemma confirm_replica_sync_told: "confirm_replica_sync E o' b rs sig s = Inr s' \<Longrightarrow> told s s'"
  by (drule confirm_replica_sync_Inr) (auto simp: view_defs provider_view_mutate viewI)

lemma top_up_replica_told:
  assumes "top_up_replica_sync_balance E o' b p n s = Inr s'" shows "told s s'"
proof -
  from assms obtain a where a: "fmlookup (StorageAgreements s) (b, p) = Some a"
    by (auto simp: top_up_replica_sync_balance_def result_simps)
  show ?thesis using assms a
    by (cases "ag_role a") (auto simp: top_up_replica_sync_balance_def result_simps view_defs viewI)
qed

lemma drop_members_silent: "drop_members E b ms s = Inr s' \<Longrightarrow> silent s s'"
proof (induction ms arbitrary: s)
  case (Cons m ms)
  then obtain c1 where "drop_members E b ms (s\<lparr>MemberBuckets := remove_from_member_index (m_account m) b (MemberBuckets s),
      balances := c1\<rparr>) = Inr s'" by (auto simp: result_simps)
  from Cons.IH [OF this] show ?case by (simp add: silent_def)
qed (simp add: silent_def)

lemma delete_bucket_told: "delete_bucket E o' b s = Inr s' \<Longrightarrow> told s s'"
  by (auto simp: delete_bucket_def remove_bucket_internal_def result_simps view_defs dest!: drop_members_silent)

lemma create_challenge_told: "create_challenge E w b B p r cm tg s = Inr (cid, s') \<Longrightarrow> told s s'"
  by (drule create_challenge_Inr) (auto simp: view_defs)

lemma challenge_calls_told:
  "challenge_checkpoint E o' b p t s = Inr s' \<Longrightarrow> told s s'"
  "challenge_offchain E o' b p cm t sig s = Inr s' \<Longrightarrow> told s s'"
  "challenge_replica E o' b p t s = Inr s' \<Longrightarrow> told s s'"
  by (auto simp: challenge_checkpoint_def do_challenge_checkpoint_def challenge_offchain_def challenge_replica_def
      result_simps dest!: create_challenge_told)

lemma respond_to_challenge_told: "respond_to_challenge E o' cid resp s = Inr s' \<Longrightarrow> told s s'"
  by (drule respond_to_challenge_Inr) (auto simp: view_defs decrement_pending_def provider_view_mutate)

lemma resolve_expired_challenge_told: "resolve_expired_challenge E o' cid s = Inr s' \<Longrightarrow> told s s'"
  by (auto simp: resolve_expired_challenge_def slash_provider_for_failed_challenge_def decrement_pending_def
      view_defs result_simps Let_def case_prod_beta viewI split: option.splits)

lemmas told_calls = provider_calls_told bucket_calls_told set_member_told remove_member_told settlement_calls_told
  remove_slashed_told add_replica_provider_told add_primary_provider_told create_bucket_told create_bucket_with_primary_told
  agreement_changes_told extend_agreement_told confirm_replica_sync_told top_up_replica_told delete_bucket_told
  challenge_calls_told respond_to_challenge_told resolve_expired_challenge_told

lemma dispatch_told: "dispatch E o' c s = Inr s' \<Longrightarrow> told s s'"
  by (cases c) (auto dest!: told_calls)

lemma step_told: "step E s s' \<Longrightarrow> told s s'"
proof (induction rule: step.induct)
  case (call origin c s s')
  then show ?case by (blast intro: dispatch_told)
qed (auto intro!: silent_told simp: silent_def on_killed_account_def)

lemma steps_told: "(step E)\<^sup>*\<^sup>* s s' \<Longrightarrow> told s s'"
  by (induction rule: rtranclp_induct) (auto intro: told_trans step_told)

end
