(* ===== verification/Auth_Safety.thy ===== *)
theory Auth_Safety
  imports Provider_Auth Access_Control
begin

text \<open>
  What authorization guarantees: the header a client builds is accepted, access to a bucket
  beyond what is public needs a signature of an account with that role on chain, and however
  concurrent requests, membership changes, evictions and lost events interleave, the cache
  does not keep a member set that a processed change has replaced. A change that one request
  has taken from the channel, but not applied yet, is invisible to the others.
\<close>

section \<open>Text\<close>

lemma digit_char_value: "d < 10 \<Longrightarrow> digit_value (digit_char d) = Some d"
  by (simp add: digit_char_def digit_value_def)

lemma digit_char_separators:
  assumes "d < 10" shows "digit_char d \<noteq> CHR '':''" "digit_char d \<noteq> CHR ''+''"
proof -
  have d: "(of_char (digit_char d) :: nat) = 48 + d" using assms by (simp add: digit_char_def)
  then have "digit_char d \<noteq> c" if "(of_char c :: nat) \<noteq> 48 + d" for c using that by auto
  moreover have "(of_char CHR '':'' :: nat) = 58" "(of_char CHR ''+'' :: nat) = 43" by simp_all
  ultimately show "digit_char d \<noteq> CHR '':''" "digit_char d \<noteq> CHR ''+''" using assms by auto
qed

lemma decimal_digits: "decimal n \<noteq> [] \<and> (\<forall>c\<in>set (decimal n). c \<noteq> CHR '':'' \<and> c \<noteq> CHR ''+'')"
proof (induction n rule: decimal.induct)
  case (1 n)
  show ?case
  proof (cases "n < 10")
    case True
    then show ?thesis using digit_char_separators [of n] by (simp add: decimal.simps [of n])
  next
    case False
    then show ?thesis using 1 digit_char_separators [of "n mod 10"] by (auto simp: decimal.simps [of n])
  qed
qed

lemma parse_digits_append:
  "parse_digits acc (xs @ ys) = (case parse_digits acc xs of None \<Rightarrow> None | Some v \<Rightarrow> parse_digits v ys)"
  by (induction xs arbitrary: acc) (auto split: option.split)

lemma parse_decimal: "n < 2 ^ 64 \<Longrightarrow> parse_digits 0 (decimal n) = Some n"
proof (induction n rule: decimal.induct)
  case (1 n)
  show ?case
  proof (cases "n < 10")
    case True
    then show ?thesis using "1.prems" by (simp add: decimal.simps [of n] digit_char_value)
  next
    case False
    then have "parse_digits 0 (decimal (n div 10)) = Some (n div 10)" using "1.prems" by (intro "1.IH") auto
    moreover have "n div 10 * 10 + n mod 10 = n" by simp
    ultimately show ?thesis using False "1.prems"
      by (simp add: decimal.simps [of n] parse_digits_append digit_char_value)
  qed
qed

lemma parse_u64_decimal: "n < 2 ^ 64 \<Longrightarrow> parse_u64 (decimal n) = Some n"
  using parse_decimal [of n] decimal_digits [of n] by (cases "decimal n") (auto simp: parse_u64_def)

lemma split_once_append: "c \<notin> set a \<Longrightarrow> split_once c (a @ c # b) = Some (a, b)"
proof -
  assume a: "c \<notin> set a"
  have "takeWhile (\<lambda>x. x \<noteq> c) (a @ c # b) = a" using a by (induction a) auto
  moreover have "dropWhile (\<lambda>x. x \<noteq> c) (a @ c # b) = c # b" using a by (induction a) auto
  ultimately show ?thesis by (simp add: split_once_def)
qed

lemma split_three_append:
  "CHR '':'' \<notin> set a \<Longrightarrow> CHR '':'' \<notin> set b \<Longrightarrow> split_three (a @ CHR '':'' # b @ CHR '':'' # c) = Some (a, b, c)"
  by (simp add: split_three_def split_once_append)

section \<open>The header\<close>

text \<open>
  What the code relies on from the hex coding: an array decodes from its own encoding, which
  contains no colon.
\<close>

definition hex_law :: "auth_lib \<Rightarrow> bool" where
  "hex_law L \<longleftrightarrow> (\<forall>bs. hex2array L (length bs) (bytes2hex L ''0x'' bs) = Some bs \<and> CHR '':'' \<notin> set (bytes2hex L ''0x'' bs))"

lemma built_header_verifies:
  assumes hex: "hex_law L" and key: "length pubkey = 32" "\<And>m. length (sign m) = 64"
    and sig: "\<And>m. sr25519_verify L (sign m) m pubkey" and ts: "timestamp < 2 ^ 64"
  shows "verify_auth_signature L (build_auth_header L pubkey method b timestamp sign) method b max_skew now =
    (if abs_diff now timestamp \<le> max_skew then Inr (account_new L pubkey) else Inl TimestampExpired)"
proof -
  let ?m = "bytes_of (auth_message method b (decimal timestamp))"
  have "strip_prefix ''Web3Storage '' (build_auth_header L pubkey method b timestamp sign) =
      Some (bytes2hex L ''0x'' pubkey @ CHR '':'' # bytes2hex L ''0x'' (sign ?m) @ CHR '':'' # decimal timestamp)"
    by (simp add: strip_prefix_def build_auth_header_def Let_def)
  moreover have "hex2array L 32 (bytes2hex L ''0x'' pubkey) = Some pubkey"
    "hex2array L 64 (bytes2hex L ''0x'' (sign ?m)) = Some (sign ?m)"
    "CHR '':'' \<notin> set (bytes2hex L ''0x'' bs)" for bs
    using hex key(1) key(2) [of ?m] unfolding hex_law_def by metis+
  ultimately show ?thesis
    using parse_u64_decimal [OF ts] sig [of ?m]
    by (simp add: verify_auth_signature_def split_three_append ensure_def Let_def)
qed

text \<open>
  The header a client builds for a request is accepted for that request, and only the
  clock decides: within the allowed skew it yields the account of the client's key, outside
  it is rejected as expired.
\<close>

theorem auth_header_roundtrip:
  assumes hex: "hex_law L" and key: "length pubkey = 32" "\<And>m. length (sign m) = 64"
    and sig: "\<And>m. sr25519_verify L (sign m) m pubkey" and ts: "timestamp < 2 ^ 64"
  shows "verify_auth_signature L (build_auth_header L pubkey method b timestamp sign) method b max_skew now =
    (if abs_diff now timestamp \<le> max_skew then Inr (account_new L pubkey) else Inl TimestampExpired)"
  using assms by (rule built_header_verifies)

fun demo_unhex :: "string \<Rightarrow> byte list" where
  "demo_unhex (c # d # cs) = word_of_nat ((of_char c - 65) * 16 + (of_char d - 65)) # demo_unhex cs"
| "demo_unhex _ = []"

definition demo_hex :: "byte list \<Rightarrow> string" where
  "demo_hex bs = concat (map (\<lambda>b. [char_of (65 + unat b div 16), char_of (65 + unat b mod 16)]) bs)"

definition demo_auth_lib :: auth_lib where
  "demo_auth_lib = \<lparr>hex2array = (\<lambda>n s. if length (demo_unhex s) = n then Some (demo_unhex s) else None),
     bytes2hex = (\<lambda>_. demo_hex), sr25519_verify = (\<lambda>sig _ pk. sig = replicate 64 (pk ! 0)),
     account_new = (\<lambda>pk. unat (pk ! 0))\<rparr>"

lemma demo_hex_law: "hex_law demo_auth_lib"
proof -
  have byte: "unat (b :: byte) < 256" for b using unsigned_less [of b] by simp
  have hi: "unat b div 16 < 16" for b :: byte using byte [of b] by (simp add: less_mult_imp_div_less)
  have ch: "(of_char (char_of (65 + d) :: char) :: nat) = 65 + d" if "d < 16" for d :: nat using that by simp
  have digits: "(of_char (char_of (65 + unat b div 16) :: char) :: nat) = 65 + unat b div 16"
    "(of_char (char_of (65 + unat b mod 16) :: char) :: nat) = 65 + unat b mod 16" for b :: byte
    using ch [OF hi] ch [of "unat b mod 16"] by simp_all
  have word: "(word_of_nat ((65 + unat b div 16 - 65) * 16 + (65 + unat b mod 16 - 65)) :: byte) = b" for b :: byte
    by (simp only: diff_add_inverse div_mult_mod_eq) simp
  have "demo_unhex (demo_hex (b # bs)) = b # demo_unhex (demo_hex bs)" for b bs
    unfolding demo_hex_def list.map concat.simps append.simps demo_unhex.simps digits word ..
  then have "demo_unhex (demo_hex bs) = bs" for bs
    by (induction bs) (simp_all add: demo_hex_def)
  moreover have colon: "CHR '':'' \<noteq> char_of (65 + d)" if "d < 16" for d :: nat
  proof
    assume "CHR '':'' = (char_of (65 + d) :: char)"
    then have "(of_char CHR '':'' :: nat) = of_char (char_of (65 + d) :: char)" by (rule arg_cong)
    then show False unfolding ch [OF that] by simp
  qed
  then have "CHR '':'' \<notin> set (demo_hex bs)" for bs
    unfolding demo_hex_def using colon [OF hi] colon [of "unat b mod 16" for b :: byte] by force
  ultimately show ?thesis by (simp add: hex_law_def demo_auth_lib_def)
qed

theorem auth_header_roundtrip_witness:
  "verify_auth_signature demo_auth_lib (build_auth_header demo_auth_lib (replicate 32 7) ''PUT'' 5 1000 (\<lambda>_. replicate 64 7)) ''PUT'' 5 300 1100 = Inr 7 \<and>
   verify_auth_signature demo_auth_lib (build_auth_header demo_auth_lib (replicate 32 7) ''PUT'' 5 1000 (\<lambda>_. replicate 64 7)) ''PUT'' 5 300 2000 = Inl TimestampExpired"
  using auth_header_roundtrip [OF demo_hex_law, of "replicate 32 7" "\<lambda>_. replicate 64 7" 1000 "''PUT''" 5 300]
  by (simp add: demo_auth_lib_def abs_diff_def)

section \<open>Access\<close>

lemma verify_auth_signature_Inr:
  assumes "verify_auth_signature L header method b max_skew now = Inr who"
  obtains pubkey sig timestamp_str timestamp where "parse_u64 timestamp_str = Some timestamp" "abs_diff now timestamp \<le> max_skew"
    "who = account_new L pubkey"
    "\<exists>m\<in>{bytes_of (auth_message method b timestamp_str), wrap_bytes (bytes_of (auth_message method b timestamp_str))}.
       sr25519_verify L sig m pubkey"
  using assms by (auto simp: verify_auth_signature_def result_simps Let_def)

lemma role_of_chain:
  "role_of \<lparr>cm_access = fetch_access b s, cm_serves_as_replica = r, cm_fetched_at = t\<rparr> who =
    (case fmlookup (Buckets s) b of None \<Rightarrow> None | Some B \<Rightarrow> bucket_roles B who)"
proof -
  have "map_option snd (find (\<lambda>(account, _). account = who) xs) = map_of xs who" for xs :: "(account \<times> Role) list"
    by (induction xs) auto
  then show ?thesis by (simp add: role_of_def fetch_access_def BucketAccess_private_def member_roles_def roles_of_def split: option.split)
qed

lemma require_role_chain:
  assumes ok: "require_role L max_skew prov (Inr \<lparr>cm_access = fetch_access b s, cm_serves_as_replica = fetch_serves_as_replica prov b s,
      cm_fetched_at = t\<rparr>) header method b required now = Inr ()"
  shows "required = NeedReader \<and> ((\<exists>B. fmlookup (Buckets s) b = Some B \<and> b_visibility B = Public) \<or>
      (\<exists>own a. prov = Some own \<and> fmlookup (StorageAgreements s) (b, own) = Some a \<and> ag_role a \<noteq> Primary)) \<or>
    (\<exists>pubkey sig timestamp_str timestamp m. parse_u64 timestamp_str = Some timestamp \<and> abs_diff now timestamp \<le> max_skew \<and>
      m \<in> {bytes_of (auth_message method b timestamp_str), wrap_bytes (bytes_of (auth_message method b timestamp_str))} \<and>
      sr25519_verify L sig m pubkey \<and>
      (required = NeedReader \<and> prov = Some (account_new L pubkey) \<or>
       (\<exists>B role. fmlookup (Buckets s) b = Some B \<and> bucket_roles B (account_new L pubkey) = Some role \<and> is_satisfied_by required role)))"
proof (cases "required = NeedReader \<and> (ba_visibility (fetch_access b s) = Public \<or> fetch_serves_as_replica prov b s)")
  case True
  then show ?thesis
    by (auto simp: fetch_access_def BucketAccess_private_def fetch_serves_as_replica_def split: option.splits ProviderRole.splits)
next
  case False
  with ok obtain hdr who where who: "verify_auth_signature L hdr method b max_skew now = Inr who"
    and role: "required = NeedReader \<and> prov = Some who \<or>
      (\<exists>B role. fmlookup (Buckets s) b = Some B \<and> bucket_roles B who = Some role \<and> is_satisfied_by required role)"
    by (auto simp: require_role_def role_of_chain result_simps split: if_splits option.splits)
  from who show ?thesis using role by (elim verify_auth_signature_Inr) blast
qed

text \<open>
  With membership as the chain has it, a request is let in without a signature only to
  read a public bucket or one this node replicates. Every other request carries a signature,
  not older than the allowed skew, on the method and the bucket, by an account that is a
  member of the bucket on chain with a role that suffices, or by the node's own account when
  it only reads.
\<close>

theorem access_needs_chain_role:
  assumes ok: "require_role L max_skew prov (Inr \<lparr>cm_access = fetch_access b s, cm_serves_as_replica = fetch_serves_as_replica prov b s,
      cm_fetched_at = t\<rparr>) header method b required now = Inr ()"
  shows "required = NeedReader \<and> ((\<exists>B. fmlookup (Buckets s) b = Some B \<and> b_visibility B = Public) \<or>
      (\<exists>own a. prov = Some own \<and> fmlookup (StorageAgreements s) (b, own) = Some a \<and> ag_role a \<noteq> Primary)) \<or>
    (\<exists>pubkey sig timestamp_str timestamp m. parse_u64 timestamp_str = Some timestamp \<and> abs_diff now timestamp \<le> max_skew \<and>
      m \<in> {bytes_of (auth_message method b timestamp_str), wrap_bytes (bytes_of (auth_message method b timestamp_str))} \<and>
      sr25519_verify L sig m pubkey \<and>
      (required = NeedReader \<and> prov = Some (account_new L pubkey) \<or>
       (\<exists>B role. fmlookup (Buckets s) b = Some B \<and> bucket_roles B (account_new L pubkey) = Some role \<and> is_satisfied_by required role)))"
  using ok by (rule require_role_chain)

theorem access_needs_chain_role_witness:
  "require_role demo_auth_lib 300 (Some 11) (Inr \<lparr>cm_access = fetch_access 0 stored,
     cm_serves_as_replica = fetch_serves_as_replica (Some 11) 0 stored, cm_fetched_at = 900\<rparr>)
     (Some (build_auth_header demo_auth_lib (replicate 32 12) ''PUT'' 0 1000 (\<lambda>_. replicate 64 12))) ''PUT'' 0 NeedWriter 1100 = Inr () \<and>
   (\<exists>pubkey B role. fmlookup (Buckets stored) 0 = Some B \<and> bucket_roles B (account_new demo_auth_lib pubkey) = Some role \<and> role \<noteq> Reader)"
proof -
  let ?hdr = "build_auth_header demo_auth_lib (replicate 32 12) ''PUT'' 0 1000 (\<lambda>_. replicate 64 12)"
  let ?e = "\<lparr>cm_access = fetch_access 0 stored, cm_serves_as_replica = fetch_serves_as_replica (Some 11) 0 stored, cm_fetched_at = 900\<rparr>"
  have sig: "verify_auth_signature demo_auth_lib ?hdr ''PUT'' 0 300 1100 = Inr 12"
    by (subst built_header_verifies [OF demo_hex_law]) (simp_all add: demo_auth_lib_def abs_diff_def)
  have ok: "require_role demo_auth_lib 300 (Some 11) (Inr ?e) (Some ?hdr) ''PUT'' 0 NeedWriter 1100 = Inr ()"
    using sig by (simp add: require_role_def role_of_chain stored_def launched_def bucket0_def roles_of_def)
  then show ?thesis using access_needs_chain_role [OF ok] by auto
qed

section \<open>Concurrent lookups\<close>

text \<open>
  The chain as the resolver sees it, the connection of the follower that feeds the channel,
  and the requests. The environment changes the members or the visibility of a bucket, gives
  or ends a replica agreement of this node, lets time pass, drops entries from the cache,
  adds other events, overflows the channel, and loses and regains the connection, after
  which the follower announces that it subscribed anew. The end of a replica agreement is
  not announced.
\<close>

record auth_state =
  au_shared :: shared
  au_chain :: "BucketId \<Rightarrow> BucketAccess \<times> bool"
  au_connected :: bool
  au_requests :: "nat \<Rightarrow> pc"

definition announce :: "BlockEvent \<Rightarrow> auth_state \<Rightarrow> auth_state" where
  "announce e st = (if au_connected st
     then st\<lparr>au_shared := (au_shared st)\<lparr>sh_events := sh_events (au_shared st) @ [Event e]\<rparr>\<rparr> else st)"

inductive auth_step :: "cache_config \<Rightarrow> auth_state \<Rightarrow> auth_state \<Rightarrow> bool" for cfg where
  call: "au_requests st t \<in> {Idle, Finished b' r} \<Longrightarrow>
    auth_step cfg st (st\<lparr>au_requests := (au_requests st)(t := Waiting b)\<rparr>)"
| run: "lookup_step cfg access replica (au_requests st t) (au_shared st) = (p, sh) \<Longrightarrow>
    (\<And>b a. access b = Inr a \<Longrightarrow> a = fst (au_chain st b)) \<Longrightarrow> (\<And>b r. replica b = Inr r \<Longrightarrow> r = snd (au_chain st b)) \<Longrightarrow>
    auth_step cfg st (st\<lparr>au_requests := (au_requests st)(t := p), au_shared := sh\<rparr>)"
| set_access: "auth_step cfg st (announce (EvBucketMembershipChanged b)
    (st\<lparr>au_chain := (au_chain st)(b := (a, snd (au_chain st b)))\<rparr>))"
| new_replica: "auth_step cfg st (announce (EvReplicaAgreementEstablished b own)
    (st\<lparr>au_chain := (au_chain st)(b := (fst (au_chain st b), True))\<rparr>))"
| end_replica: "auth_step cfg st (st\<lparr>au_chain := (au_chain st)(b := (fst (au_chain st b), False))\<rparr>)"
| other_event: "auth_step cfg st (announce e st)"
| overflow: "auth_step cfg st (st\<lparr>au_shared := (au_shared st)\<lparr>sh_events := Lagged n # drop n (sh_events (au_shared st))\<rparr>\<rparr>)"
| disconnect: "auth_step cfg st (st\<lparr>au_connected := False\<rparr>)"
| reconnect: "auth_step cfg st (announce (EvResubscribed blk) (st\<lparr>au_connected := True\<rparr>))"
| evict: "auth_step cfg st (st\<lparr>au_shared := (au_shared st)\<lparr>sh_cache := (sh_cache (au_shared st))(b := None)\<rparr>\<rparr>)"
| pass: "auth_step cfg st (st\<lparr>au_shared := (au_shared st)\<lparr>sh_now := sh_now (au_shared st) + n\<rparr>\<rparr>)"

inductive auth_reachable :: "cache_config \<Rightarrow> auth_state \<Rightarrow> bool" for cfg where
  init: "auth_reachable cfg \<lparr>au_shared = \<lparr>sh_cache = (\<lambda>_. None), sh_epoch = 0, sh_events = [], sh_now = n\<rparr>,
    au_chain = chain, au_connected = True, au_requests = (\<lambda>_. Idle)\<rparr>"
| step: "auth_reachable cfg st \<Longrightarrow> auth_step cfg st st' \<Longrightarrow> auth_reachable cfg st'"

text \<open>
  An answer is current when its members and visibility are those of the chain; it may still
  claim a replica agreement that has ended, but not miss one that exists.
\<close>

definition current_entry :: "BucketAccess \<times> bool \<Rightarrow> CachedMembership \<Rightarrow> bool" where
  "current_entry c e \<longleftrightarrow> cm_access e = fst c \<and> (snd c \<longrightarrow> cm_serves_as_replica e)"

fun mentions :: "BucketId \<Rightarrow> RecvEvent \<Rightarrow> bool" where
  "mentions b (Event (EvBucketMembershipChanged b')) \<longleftrightarrow> b' = b"
| "mentions b (Event (EvReplicaAgreementEstablished b' _)) \<longleftrightarrow> b' = b"
| "mentions b (Event (EvResubscribed _)) \<longleftrightarrow> True"
| "mentions b (Event (EvMembershipScopeUnknown _)) \<longleftrightarrow> True"
| "mentions b (Lagged _) \<longleftrightarrow> True"
| "mentions b _ \<longleftrightarrow> False"

text \<open>Changes a request has taken from the channel and still has to apply; removals it is about to make.\<close>

fun todo :: "BucketId \<Rightarrow> pc \<Rightarrow> bool" where
  "todo b (Invalidating _ _ i is) \<longleftrightarrow> b \<in> set (i # is)"
| "todo b (Removing _ _ _ is) \<longleftrightarrow> b \<in> set is"
| "todo b (DroppingAll _ _) \<longleftrightarrow> True"
| "todo b _ \<longleftrightarrow> False"

fun removes :: "nat \<Rightarrow> BucketId \<Rightarrow> pc \<Rightarrow> bool" where
  "removes ep b (Removing _ _ i _) \<longleftrightarrow> i = b"
| "removes ep b (Clearing _ _) \<longleftrightarrow> True"
| "removes ep b (Rechecking b' e0 _) \<longleftrightarrow> b' = b \<and> e0 < ep"
| "removes ep b (Undoing b' _) \<longleftrightarrow> b' = b"
| "removes ep b _ \<longleftrightarrow> False"

text \<open>What a request has fetched, and the epoch it sampled before.\<close>

fun sampled :: "pc \<Rightarrow> nat" where
  "sampled (FetchingAccess _ e0) = e0"
| "sampled (FetchingReplica _ e0 _) = e0"
| "sampled (Persisting _ e0 _) = e0"
| "sampled (Inserting _ e0 _) = e0"
| "sampled (Rechecking _ e0 _) = e0"
| "sampled _ = 0"

fun holds_current :: "(BucketId \<Rightarrow> BucketAccess \<times> bool) \<Rightarrow> (BucketId \<Rightarrow> bool) \<Rightarrow> pc \<Rightarrow> bool" where
  "holds_current chain known (FetchingReplica b _ a) \<longleftrightarrow> a = fst (chain b) \<or> known b"
| "holds_current chain known (Persisting b _ e) \<longleftrightarrow> current_entry (chain b) e \<or> known b"
| "holds_current chain known (Inserting b _ e) \<longleftrightarrow> current_entry (chain b) e \<or> known b"
| "holds_current chain known (Rechecking b _ e) \<longleftrightarrow> current_entry (chain b) e \<or> known b"
| "holds_current chain known _ \<longleftrightarrow> True"

definition announced :: "auth_state \<Rightarrow> BucketId \<Rightarrow> bool" where
  "announced st b \<longleftrightarrow> \<not> au_connected st \<or> (\<exists>e\<in>set (sh_events (au_shared st)). mentions b e) \<or>
     (\<exists>t. todo b (au_requests st t))"

definition auth_inv :: "auth_state \<Rightarrow> bool" where
  "auth_inv st \<longleftrightarrow> Closed \<notin> set (sh_events (au_shared st)) \<and>
     (\<forall>t. sampled (au_requests st t) \<le> sh_epoch (au_shared st)) \<and>
     (\<forall>t. sampled (au_requests st t) = sh_epoch (au_shared st) \<longrightarrow>
        holds_current (au_chain st) (announced st) (au_requests st t)) \<and>
     (\<forall>b e. sh_cache (au_shared st) b = Some e \<longrightarrow>
        current_entry (au_chain st b) e \<or> announced st b \<or> (\<exists>t. removes (sh_epoch (au_shared st)) b (au_requests st t)))"

lemma drain_from_spec:
  assumes "drain_from all bs es = (inv', rest)" "Closed \<notin> set es"
  shows "rest = [] \<and> (all \<or> b \<in> set bs \<or> (\<exists>e\<in>set es. mentions b e) \<longrightarrow> inv' = InvAll \<or> (\<exists>ids. inv' = InvBuckets ids \<and> b \<in> set ids))"
  using assms
proof (induction all bs es rule: drain_from.induct)
  case (1 all bs)
  then show ?case by (auto simp: invalidation_def split: if_splits)
next
  case (2 all bs e es)
  show ?case
  proof (cases e)
    case (Event ev)
    then show ?thesis using 2 by (cases ev) (auto split: if_splits)
  qed (use 2 in auto)
qed

lemma drain_todo:
  assumes "drain dp b0 sh = (p, sh')" "Closed \<notin> set (sh_events sh)"
  shows "sh' = sh\<lparr>sh_events := []\<rparr>" "\<exists>e\<in>set (sh_events sh). mentions b e \<Longrightarrow> todo b p"
    "sampled p = 0" "removes ep b p = False" "holds_current chain known p"
proof -
  obtain inv' rest where d: "drain_from False [] (sh_events sh) = (inv', rest)" by (cases "drain_from False [] (sh_events sh)")
  note spec = drain_from_spec [OF d assms(2)]
  have p: "p = start_drain dp b0 inv'" "sh' = sh\<lparr>sh_events := rest\<rparr>" using assms(1) d by (auto simp: drain_def)
  show "sh' = sh\<lparr>sh_events := []\<rparr>" using spec p by simp
  have "sampled (start_drain dp b0 i) = 0 \<and> \<not> removes ep b (start_drain dp b0 i) \<and> holds_current chain known (start_drain dp b0 i)" for i
    by (cases "(dp, b0, i)" rule: start_drain.cases) (auto simp: after_drain_def split: drain_point.split)
  then show "sampled p = 0" "removes ep b p = False" "holds_current chain known p" by (simp_all add: p)
  assume "\<exists>e\<in>set (sh_events sh). mentions b e"
  then have "inv' = InvAll \<or> (\<exists>ids. inv' = InvBuckets ids \<and> b \<in> set ids)" using spec [of b] by simp
  then show "todo b p"
  proof
    assume "\<exists>ids. inv' = InvBuckets ids \<and> b \<in> set ids"
    then obtain ids where "inv' = InvBuckets ids" "b \<in> set ids" by blast
    then show ?thesis by (cases ids) (auto simp: p)
  qed (simp add: p)
qed

lemma after_drain_neutral:
  "sampled (after_drain dp b) = 0" "removes ep b' (after_drain dp b) = False" "holds_current chain known (after_drain dp b)"
  "todo b' (after_drain dp b) = False"
  by (cases dp; simp add: after_drain_def)+

lemma next_invalidation_neutral:
  "sampled (next_invalidation dp b is) = 0" "removes ep b' (next_invalidation dp b is) = False"
  "holds_current chain known (next_invalidation dp b is)" "todo b' (next_invalidation dp b is) \<longleftrightarrow> b' \<in> set is"
  by (cases "is"; simp add: after_drain_neutral)+

lemmas neutral = after_drain_neutral next_invalidation_neutral

lemma holds_current_mono: "holds_current chain known p \<Longrightarrow> (\<And>b. known b \<Longrightarrow> known' b) \<Longrightarrow> holds_current chain known' p"
  by (cases p) auto

lemma removes_mono: "removes ep b p \<Longrightarrow> ep \<le> ep' \<Longrightarrow> removes ep' b p"
  by (cases p) auto

text \<open>An action that leaves the epoch alone and takes no announced change away.\<close>

lemma auth_inv_action:
  assumes I: "auth_inv st" and st': "st' = st\<lparr>au_requests := (au_requests st)(t := p), au_shared := sh\<rparr>"
    and ep: "sh_epoch sh = sh_epoch (au_shared st)" and closed: "Closed \<notin> set (sh_events sh)"
    and smp: "sampled p \<le> sh_epoch sh" and ann: "\<And>b. announced st b \<Longrightarrow> announced st' b"
    and cur: "sampled p = sh_epoch sh \<Longrightarrow> holds_current (au_chain st) (announced st) p"
    and cache: "\<And>b e. sh_cache sh b = Some e \<Longrightarrow>
      sh_cache (au_shared st) b = Some e \<and> (removes (sh_epoch sh) b (au_requests st t) \<longrightarrow> removes (sh_epoch sh) b p) \<or>
      current_entry (au_chain st b) e \<or> announced st b \<or> removes (sh_epoch sh) b p"
  shows "auth_inv st'"
proof -
  note J = I [unfolded auth_inv_def]
  have "holds_current (au_chain st) (announced st') (au_requests st' t')" if "sampled (au_requests st' t') = sh_epoch sh" for t'
    using that J cur ep ann by (cases "t' = t") (auto simp: st' intro: holds_current_mono)
  moreover have "current_entry (au_chain st b) e \<or> announced st' b \<or> (\<exists>t. removes (sh_epoch sh) b (au_requests st' t))"
    if "sh_cache sh b = Some e" for b e
  proof -
    have other: "\<exists>t'. removes (sh_epoch sh) b (au_requests st' t')" if "removes (sh_epoch sh) b (au_requests st t')"
      "removes (sh_epoch sh) b (au_requests st t) \<longrightarrow> removes (sh_epoch sh) b p" for t'
      using that by (cases "t' = t") (auto simp: st' intro: exI [of _ t'] exI [of _ t])
    from cache [OF that] show ?thesis
    proof (elim disjE conjE)
      assume "sh_cache (au_shared st) b = Some e" "removes (sh_epoch sh) b (au_requests st t) \<longrightarrow> removes (sh_epoch sh) b p"
      then show ?thesis using J other ann ep by metis
    qed (use ann in \<open>auto simp: st' intro: exI [of _ t]\<close>)
  qed
  ultimately show ?thesis using J smp closed ep by (auto simp: auth_inv_def st')
qed

text \<open>An action that raises the epoch and goes on to remove what it took from the channel.\<close>

lemma auth_inv_bump:
  assumes I: "auth_inv st" and st': "st' = st\<lparr>au_requests := (au_requests st)(t := p), au_shared := (au_shared st)\<lparr>sh_epoch := sh_epoch (au_shared st) + 1\<rparr>\<rparr>"
    and smp: "sampled p = 0" "\<And>ep b. \<not> removes ep b (au_requests st t)"
    and todo: "\<And>b ep. todo b (au_requests st t) \<Longrightarrow> todo b p \<or> removes ep b p"
  shows "auth_inv st'"
proof -
  note J = I [unfolded auth_inv_def]
  have ann: "announced st' b \<or> removes ep b p" if "announced st b" for b ep
  proof -
    have "announced st' b \<or> removes ep b p" if "todo b (au_requests st t')" for t'
      using that todo [of b] by (cases "t' = t") (auto simp: announced_def st' intro: exI [of _ t'] exI [of _ t])
    moreover have "announced st' b" if "\<nexists>t'. todo b (au_requests st t')"
      using that \<open>announced st b\<close> by (auto simp: announced_def st')
    ultimately show ?thesis by blast
  qed
  have "sampled (au_requests st' t') < sh_epoch (au_shared st')" for t'
    using J smp by (cases "t' = t") (auto simp: st' le_imp_less_Suc)
  then have less: "sampled (au_requests st' t') \<le> sh_epoch (au_shared st')" "sampled (au_requests st' t') \<noteq> sh_epoch (au_shared st')" for t'
    using less_imp_le less_imp_neq by blast+
  have "current_entry (au_chain st b) e \<or> announced st' b \<or>
      (\<exists>t. removes (sh_epoch (au_shared st) + 1) b (au_requests st' t))" if c: "sh_cache (au_shared st) b = Some e" for b e
  proof -
    have "\<exists>t. removes (sh_epoch (au_shared st) + 1) b (au_requests st' t)" if "removes (sh_epoch (au_shared st)) b (au_requests st t')" for t'
      using that smp(2) removes_mono [OF that, of "sh_epoch (au_shared st) + 1"] by (cases "t' = t") (auto simp: st' intro: exI [of _ t'])
    moreover have "\<exists>t. removes (sh_epoch (au_shared st) + 1) b (au_requests st' t)" if "removes (sh_epoch (au_shared st) + 1) b p"
      using that by (auto simp: st' intro: exI [of _ t])
    ultimately show ?thesis using J c ann [of b "sh_epoch (au_shared st) + 1"] by metis
  qed
  then have "current_entry (au_chain st' b) e \<or> announced st' b \<or> (\<exists>t. removes (sh_epoch (au_shared st')) b (au_requests st' t))"
    if "sh_cache (au_shared st') b = Some e" for b e using that by (simp add: st')
  moreover have "Closed \<notin> set (sh_events (au_shared st'))" using J by (simp add: st')
  ultimately show ?thesis unfolding auth_inv_def using less by blast
qed

lemma todo_kept: "\<exists>t'. todo b (rs t') \<Longrightarrow> (todo b (rs t) \<Longrightarrow> todo b p) \<Longrightarrow> \<exists>t'. todo b ((rs(t := p)) t')"
  by (metis fun_upd_apply)

lemma todo_new: "todo b p \<Longrightarrow> \<exists>t'. todo b ((rs(t := p)) t')"
  by (metis fun_upd_apply)

lemma lookup_step_inv:
  assumes I: "auth_inv st" and run: "lookup_step cfg access replica (au_requests st t) (au_shared st) = (p, sh)"
    and ac: "\<And>b a. access b = Inr a \<Longrightarrow> a = fst (au_chain st b)" and rp: "\<And>b r. replica b = Inr r \<Longrightarrow> r = snd (au_chain st b)"
  shows "auth_inv (st\<lparr>au_requests := (au_requests st)(t := p), au_shared := sh\<rparr>)" (is "auth_inv ?st'")
proof -
  note J = I [unfolded auth_inv_def]
  have same: "announced ?st' b" if "announced st b" "sh_events sh = sh_events (au_shared st)" "todo b (au_requests st t) \<Longrightarrow> todo b p" for b
    using that todo_kept [of b "au_requests st" t p] by (auto simp: announced_def simp del: fun_upd_apply)
  have drained: "announced ?st' b" if "announced st b" "sh_events sh = []" "\<And>b. todo b (au_requests st t) \<Longrightarrow> False"
    "\<exists>e\<in>set (sh_events (au_shared st)). mentions b e \<Longrightarrow> todo b p" for b
    using that todo_kept [of b "au_requests st" t p] todo_new [of b p "au_requests st" t]
    by (auto simp: announced_def simp del: fun_upd_apply)
  note act = auth_inv_action [OF I refl]
  have cur: "holds_current (au_chain st) (announced st) (au_requests st t)" if "sampled (au_requests st t) = sh_epoch (au_shared st)"
    using J that by blast
  let ?ep = "sh_epoch (au_shared st)"
  have quiet: ?thesis if "sh = au_shared st" "\<And>b. \<not> todo b (au_requests st t)" "sampled p \<le> ?ep"
    "sampled p = ?ep \<Longrightarrow> holds_current (au_chain st) (announced st) p"
    "\<And>b. removes ?ep b (au_requests st t) \<Longrightarrow> removes ?ep b p"
    using that J by (intro act same) auto
  have smp: "sampled (au_requests st t) \<le> ?ep" using J by blast
  show ?thesis
  proof (cases "au_requests st t")
    case (Waiting b)
    then have d: "drain BeforeLookup b (au_shared st) = (p, sh)" using run by simp
    show ?thesis using drain_todo [OF d] J Waiting by (intro act drained) auto
  next
    case (Failed b e)
    then have d: "drain (AfterError e) b (au_shared st) = (p, sh)" using run by simp
    show ?thesis using drain_todo [OF d] J Failed by (intro act drained) auto
  next
    case (Invalidating dp b i ids)
    then show ?thesis using run by (intro auth_inv_bump [OF I, of _ t p]) auto
  next
    case (DroppingAll dp b)
    then show ?thesis using run by (intro auth_inv_bump [OF I, of _ t p]) auto
  next
    case (Removing dp b i ids)
    then show ?thesis using run J by (intro act same) (auto simp: neutral split: if_splits)
  next
    case (Clearing dp b)
    then show ?thesis using run J by (intro act same) (auto simp: neutral)
  next
    case (Undoing b e)
    then show ?thesis using run J by (intro act same) (auto split: if_splits)
  next
    case (Inserting b e0 e)
    then have run': "p = Rechecking b e0 e" "sh = (au_shared st)\<lparr>sh_cache := (sh_cache (au_shared st))(b \<mapsto> e)\<rparr>"
      using run by auto
    have e: "current_entry (au_chain st b) e \<or> announced st b \<or> e0 < ?ep"
      using cur smp Inserting by (cases "e0 = ?ep") auto
    show ?thesis using run' J cur smp e Inserting by (intro act same) (auto split: if_splits)
  next
    case (FetchingReplica b e0 a)
    show ?thesis
    proof (cases "replica b")
      case (Inr r)
      have "r = snd (au_chain st b)" using rp Inr by simp
      then show ?thesis using run Inr FetchingReplica cur smp by (intro quiet) (auto simp: current_entry_def)
    next
      case (Inl err)
      then show ?thesis using run FetchingReplica by (intro quiet) auto
    qed
  next
    case (FetchingAccess b e0)
    show ?thesis
    proof (cases "access b")
      case (Inr a)
      then show ?thesis using run FetchingAccess smp ac [OF Inr] by (intro quiet) auto
    next
      case (Inl err)
      then show ?thesis using run FetchingAccess by (intro quiet) auto
    qed
  next
    case (Persisting b e0 e)
    show ?thesis
    proof (cases "e0 = ?ep")
      case True
      then have "p = Inserting b e0 e" "sh = au_shared st" using run Persisting by auto
      then show ?thesis using cur smp Persisting by (intro quiet) auto
    qed (use run Persisting in \<open>simp, intro quiet, auto\<close>)
  next
    case (Rechecking b e0 e)
    then show ?thesis using run smp by (intro quiet) (auto split: if_splits)
  next
    case (Reading b)
    then show ?thesis using run by (intro quiet) (auto split: if_splits option.splits)
  next
    case (ReadingStale b e)
    then show ?thesis using run by (intro quiet) (auto split: if_splits option.splits)
  next
    case Idle
    then show ?thesis using run by (intro quiet) auto
  next
    case (Sampling b)
    then show ?thesis using run by (intro quiet) auto
  next
    case (Finished b r)
    then have "p = Finished b r" "sh = au_shared st" using run by auto
    then show ?thesis using Finished by (intro quiet) simp_all
  qed
qed


text \<open>A change of the world that leaves the requests and the epoch alone: what is no longer current is announced.\<close>

lemma auth_inv_world:
  assumes I: "auth_inv st" and same: "au_requests st' = au_requests st" "sh_epoch (au_shared st') = sh_epoch (au_shared st)"
    and closed: "Closed \<notin> set (sh_events (au_shared st'))"
    and cache: "\<And>b e. sh_cache (au_shared st') b = Some e \<Longrightarrow> sh_cache (au_shared st) b = Some e"
    and ann: "\<And>b. announced st b \<Longrightarrow> announced st' b"
    and chain: "\<And>b. announced st' b \<or> fst (au_chain st' b) = fst (au_chain st b) \<and> (snd (au_chain st' b) \<longrightarrow> snd (au_chain st b))"
  shows "auth_inv st'"
proof -
  note J = I [unfolded auth_inv_def]
  have entry: "current_entry (au_chain st' b) e \<or> announced st' b" if "current_entry (au_chain st b) e \<or> announced st b" for b e
    using that chain [of b] ann by (auto simp: current_entry_def)
  have "holds_current (au_chain st') (announced st') q" if "holds_current (au_chain st) (announced st) q" for q
    using that entry ann chain by (cases q) (simp_all, metis+)
  with J show ?thesis unfolding auth_inv_def same using closed cache entry by blast
qed

lemma announced_chain: "announced (st\<lparr>au_chain := chain\<rparr>) b \<longleftrightarrow> announced st b"
  by (simp add: announced_def)

lemma announced_announce: "announced st b \<Longrightarrow> announced (announce e st) b"
  by (auto simp: announced_def announce_def)

lemma announced_mentioned: "mentions b (Event e) \<Longrightarrow> announced (announce e st) b"
  by (auto simp: announced_def announce_def)

lemma announce_simps [simp]:
  "au_requests (announce e st) = au_requests st" "sh_epoch (au_shared (announce e st)) = sh_epoch (au_shared st)"
  "sh_cache (au_shared (announce e st)) = sh_cache (au_shared st)" "au_chain (announce e st) = au_chain st"
  "Closed \<in> set (sh_events (au_shared (announce e st))) \<longleftrightarrow> Closed \<in> set (sh_events (au_shared st))"
  by (simp_all add: announce_def)

lemma auth_inv_call:
  assumes "auth_inv st" "au_requests st t \<in> {Idle, Finished b' r}"
  shows "auth_inv (st\<lparr>au_requests := (au_requests st)(t := Waiting b)\<rparr>)" (is "auth_inv ?st'")
proof -
  have "announced ?st' c" if "announced st c" for c
  proof -
    have "\<not> todo c (au_requests st t)" using assms(2) by auto
    then show ?thesis using that todo_kept [of c "au_requests st" t "Waiting b"] by (auto simp: announced_def simp del: fun_upd_apply)
  qed
  moreover have "?st' = st\<lparr>au_requests := (au_requests st)(t := Waiting b), au_shared := au_shared st\<rparr>" by simp
  ultimately show ?thesis using assms
    by (intro auth_inv_action [OF assms(1), where t = t and p = "Waiting b" and sh = "au_shared st"]) (auto simp: auth_inv_def)
qed

lemma auth_step_inv:
  assumes "auth_step cfg st st'" "auth_inv st" shows "auth_inv st'"
  using assms
proof (cases rule: auth_step.cases)
  case (call t b' r b)
  then show ?thesis using assms(2) auth_inv_call by blast
next
  case (run access replica t p sh)
  then show ?thesis using lookup_step_inv [OF assms(2)] by blast
next
  case (set_access b a)
  show ?thesis unfolding set_access using assms(2)
    by (intro auth_inv_world [OF assms(2)] announced_announce)
      (auto simp: auth_inv_def announced_chain intro: announced_mentioned split: if_splits)
next
  case (new_replica b own)
  show ?thesis unfolding new_replica using assms(2)
    by (intro auth_inv_world [OF assms(2)] announced_announce)
      (auto simp: auth_inv_def announced_chain intro: announced_mentioned split: if_splits)
next
  case (end_replica b)
  then show ?thesis using assms(2) by (intro auth_inv_world [OF assms(2)]) (auto simp: auth_inv_def announced_def)
next
  case (other_event e)
  show ?thesis unfolding other_event using assms(2)
    by (intro auth_inv_world [OF assms(2)] announced_announce) (auto simp: auth_inv_def)
next
  case (overflow n)
  then show ?thesis using assms(2)
    by (intro auth_inv_world [OF assms(2)]) (auto simp: auth_inv_def announced_def dest: in_set_dropD)
next
  case disconnect
  then show ?thesis using assms(2) by (intro auth_inv_world [OF assms(2)]) (auto simp: auth_inv_def announced_def)
next
  case (reconnect blk)
  then show ?thesis using assms(2)
    by (intro auth_inv_world [OF assms(2)]) (auto simp: auth_inv_def intro: announced_mentioned)
next
  case (evict b)
  then show ?thesis using assms(2) by (intro auth_inv_world [OF assms(2)]) (auto simp: auth_inv_def announced_def split: if_splits)
next
  case (pass n)
  then show ?thesis using assms(2) by (intro auth_inv_world [OF assms(2)]) (auto simp: auth_inv_def announced_def)
qed

lemma auth_reachable_inv: "auth_reachable cfg st \<Longrightarrow> auth_inv st"
  by (induction rule: auth_reachable.induct) (simp add: auth_inv_def, blast intro: auth_step_inv)

text \<open>
  C15. However lookups, membership changes, evictions, lost events and reconnections
  interleave, a cached member set that the chain has replaced does not outlive the news of
  it: while the follower is connected, once no waiting event concerns the bucket and no
  request is still applying one or taking back an insertion, the cached members and
  visibility are the chain's, and no replica agreement that exists is missed.
\<close>

theorem no_revoked_access_kept:
  assumes "auth_reachable cfg st" "au_connected st" "sh_cache (au_shared st) b = Some e"
    and "\<forall>ev\<in>set (sh_events (au_shared st)). \<not> mentions b ev"
    and "\<forall>t. \<not> todo b (au_requests st t) \<and> \<not> removes (sh_epoch (au_shared st)) b (au_requests st t)"
  shows "current_entry (au_chain st b) e"
  using auth_reachable_inv [OF assms(1)] assms(2-5) unfolding auth_inv_def announced_def by blast

text \<open>A run: request \<open>t\<close> asks for a bucket, and performs its next action with the chain's answers.\<close>

definition start :: "nat \<Rightarrow> BucketId \<Rightarrow> auth_state \<Rightarrow> auth_state" where
  "start t b st = st\<lparr>au_requests := (au_requests st)(t := Waiting b)\<rparr>"

definition perform :: "cache_config \<Rightarrow> nat \<Rightarrow> auth_state \<Rightarrow> auth_state" where
  "perform cfg t st =
     (let (p, sh) = lookup_step cfg (\<lambda>b. Inr (fst (au_chain st b))) (\<lambda>b. Inr (snd (au_chain st b))) (au_requests st t) (au_shared st)
      in st\<lparr>au_requests := (au_requests st)(t := p), au_shared := sh\<rparr>)"

lemma perform_step: "auth_step cfg st (perform cfg t st)"
  by (auto simp: perform_def split: prod.split intro!: auth_step.run)

lemma start_step: "au_requests st t = Idle \<Longrightarrow> auth_step cfg st (start t b st)"
  unfolding start_def by (rule auth_step.call) auto

lemma perform_reachable: "auth_reachable cfg st \<Longrightarrow> auth_reachable cfg ((perform cfg t ^^ n) st)"
  by (induction n) (auto intro: auth_reachable.step perform_step)

definition demo_cache :: cache_config where
  "demo_cache = \<lparr>mc_ttl = 60, mc_max_stale = 300\<rparr>"

definition auth_fresh :: auth_state where
  "auth_fresh = \<lparr>au_shared = \<lparr>sh_cache = (\<lambda>_. None), sh_epoch = 0, sh_events = [], sh_now = 100\<rparr>,
     au_chain = (\<lambda>_. (BucketAccess_private [(7, Admin)], False)), au_connected = True, au_requests = (\<lambda>_. Idle)\<rparr>"

definition auth_cached :: auth_state where
  "auth_cached = (perform demo_cache 0 ^^ 8) (start 0 1 auth_fresh)"

definition auth_revoked :: auth_state where
  "auth_revoked = announce (EvBucketMembershipChanged 1)
     (auth_cached\<lparr>au_chain := (au_chain auth_cached)(1 := (BucketAccess_private [], snd (au_chain auth_cached 1)))\<rparr>)"

definition auth_drained :: auth_state where
  "auth_drained = perform demo_cache 1 (start 1 1 auth_revoked)"

definition auth_answered :: auth_state where
  "auth_answered = (perform demo_cache 2 ^^ 2) (start 2 1 auth_drained)"

definition demo_entry :: CachedMembership where
  "demo_entry = \<lparr>cm_access = BucketAccess_private [(7, Admin)], cm_serves_as_replica = False, cm_fetched_at = 100\<rparr>"

lemmas perform_simps = perform_def start_def drain_def after_drain_def invalidation_def cache_get_def residency_def is_fresh_def
  demo_cache_def BucketAccess_private_def numeral_eq_Suc demo_entry_def

lemma auth_cached_eq:
  "auth_cached = auth_fresh\<lparr>au_requests := (\<lambda>_. Idle)(0 := Finished 1 (Inr demo_entry)),
     au_shared := (au_shared auth_fresh)\<lparr>sh_cache := [1 \<mapsto> demo_entry]\<rparr>\<rparr>"
  by (simp add: auth_cached_def auth_fresh_def perform_simps)

lemma auth_drained_eq:
  "auth_drained = auth_cached\<lparr>au_chain := (au_chain auth_fresh)(1 := (BucketAccess_private [], False)),
     au_requests := (au_requests auth_cached)(1 := Invalidating BeforeLookup 1 1 [])\<rparr>"
  by (simp add: auth_drained_def auth_revoked_def auth_cached_eq auth_fresh_def announce_def perform_simps)

lemma auth_answered_eq: "auth_answered = auth_drained\<lparr>au_requests := (au_requests auth_drained)(2 := Finished 1 (Inr demo_entry))\<rparr>"
  by (simp add: auth_answered_def auth_drained_eq auth_cached_eq auth_fresh_def perform_simps)

lemma auth_cached_reachable: "auth_reachable demo_cache auth_cached"
  unfolding auth_cached_def
proof (intro perform_reachable auth_reachable.step [OF _ start_step])
  show "auth_reachable demo_cache auth_fresh" unfolding auth_fresh_def by (rule auth_reachable.init)
qed (simp add: auth_fresh_def)

lemma auth_drained_reachable: "auth_reachable demo_cache auth_drained"
  unfolding auth_drained_def
proof (intro auth_reachable.step [OF _ perform_step] auth_reachable.step [OF _ start_step])
  show "auth_reachable demo_cache auth_revoked"
    unfolding auth_revoked_def by (rule auth_reachable.step [OF auth_cached_reachable auth_step.set_access])
qed (simp add: auth_revoked_def auth_cached_eq)

theorem no_revoked_access_kept_witness:
  "sh_cache (au_shared auth_cached) 1 = Some demo_entry \<and> current_entry (au_chain auth_cached 1) demo_entry"
proof -
  have "sh_cache (au_shared auth_cached) 1 = Some demo_entry" by (simp add: auth_cached_eq)
  moreover have "au_connected auth_cached" "sh_events (au_shared auth_cached) = []" by (simp_all add: auth_cached_eq auth_fresh_def)
  moreover have "\<not> todo 1 (au_requests auth_cached t) \<and> \<not> removes (sh_epoch (au_shared auth_cached)) 1 (au_requests auth_cached t)" for t
    by (simp add: auth_cached_eq)
  ultimately show ?thesis using no_revoked_access_kept [OF auth_cached_reachable] by simp
qed

text \<open>
  A change that was broadcast before a request arrived is not always honoured by that
  request: when another request has taken the change from the channel and has not removed
  the entry yet, a later request finds the channel empty and answers with the replaced
  members, here with the role of an account that is no longer a member.
\<close>

theorem drained_change_missed:
  "\<exists>before after e. auth_reachable demo_cache before \<and> au_connected before \<and> au_requests before 2 = Idle \<and>
     role_of \<lparr>cm_access = fst (au_chain before 1), cm_serves_as_replica = False, cm_fetched_at = 100\<rparr> 7 = None \<and>
     (auth_step demo_cache)\<^sup>*\<^sup>* before after \<and> au_chain after = au_chain before \<and>
     au_requests after 2 = Finished 1 (Inr e) \<and> role_of e 7 = Some Admin"
proof (intro exI conjI)
  show "auth_reachable demo_cache auth_drained" by (rule auth_drained_reachable)
  show idle: "au_requests auth_drained 2 = Idle" by (simp add: auth_drained_eq auth_cached_eq)
  show "au_connected auth_drained" by (simp add: auth_drained_eq auth_cached_eq auth_fresh_def)
  show "role_of \<lparr>cm_access = fst (au_chain auth_drained 1), cm_serves_as_replica = False, cm_fetched_at = 100\<rparr> 7 = None"
    by (simp add: auth_drained_eq role_of_def BucketAccess_private_def)
  have "auth_step demo_cache auth_drained (start 2 1 auth_drained)" using idle by (rule start_step)
  moreover have "(auth_step demo_cache)\<^sup>*\<^sup>* st ((perform demo_cache 2 ^^ n) st)" for n st
    by (induction n) (auto intro: rtranclp.rtrancl_into_rtrancl perform_step)
  ultimately show "(auth_step demo_cache)\<^sup>*\<^sup>* auth_drained auth_answered"
    unfolding auth_answered_def by (rule converse_rtranclp_into_rtranclp)
  show "au_requests auth_answered 2 = Finished 1 (Inr demo_entry)" "au_chain auth_answered = au_chain auth_drained"
    by (simp_all add: auth_answered_eq)
  show "role_of demo_entry 7 = Some Admin" by (simp add: role_of_def demo_entry_def BucketAccess_private_def)
qed

end
