(* ===== verification/Node_Safety.thy ===== *)
theory Node_Safety
  imports Negotiation Announcements Auth_Safety
begin

text \<open>
  What the node's view of the chain is worth: its registration follows the chain's, changes
  of bucket membership reach the cache, and a quote signed on an up-to-date view is refused
  by the chain only for reasons the view does not hold. Three runs show what the node does
  not check or follow.
\<close>

section \<open>Decoding\<close>

definition decoded_event :: "(Event \<Rightarrow> bool) \<Rightarrow> nat \<Rightarrow> Event \<Rightarrow> BlockEvent list" where
  "decoded_event dec n e =
     (if dec e then (case block_event e of None \<Rightarrow> [] | Some b \<Rightarrow> [b])
      else if is_membership_event e then [EvMembershipScopeUnknown n] else [])"

definition decoded_lifecycle :: "(Event \<Rightarrow> bool) \<Rightarrow> Event \<Rightarrow> account list" where
  "decoded_lifecycle dec e = (if dec e then (case lifecycle_account e of None \<Rightarrow> [] | Some p \<Rightarrow> [p]) else [])"

lemma irrelevant_event:
  "\<not> is_membership_event e \<Longrightarrow> \<not> is_other_relevant_event e \<Longrightarrow> block_event e = None \<and> lifecycle_account e = None"
  by (cases e) auto

lemma decode_events_append:
  "decode_events dec n es c = c\<lparr>bc_events := bc_events c @ concat (map (decoded_event dec n) es),
     bc_lifecycle := bc_lifecycle c @ concat (map (decoded_lifecycle dec) es)\<rparr>"
proof (induction es arbitrary: c)
  case (Cons e es)
  show ?case
    using irrelevant_event [of e] unfolding decode_events.simps(2) Cons.IH
    by (auto simp: decoded_event_def [of dec n e] decoded_lifecycle_def [of dec e] escalate_membership_decode_failure_def split: option.split)
qed simp

lemma decode_block_contents_events:
  "bc_events (decode_block_contents dec es n) = concat (map (decoded_event dec n) es)"
  "bc_lifecycle (decode_block_contents dec es n) = concat (map (decoded_lifecycle dec) es)"
  by (simp_all add: decode_block_contents_def decode_events_append)

lemma decoded_event_sent:
  "e \<in> set es \<Longrightarrow> x \<in> set (decoded_event dec n e) \<Longrightarrow> x \<in> set (bc_events (decode_block_contents dec es n))"
  by (auto simp: decode_block_contents_events)

lemma membership_event_block_event: "block_event e = Some (EvBucketMembershipChanged b) \<Longrightarrow> is_membership_event e"
  by (cases e) auto

lemma fetch_access_view: "bucket_view (Buckets s') b = bucket_view (Buckets s) b \<Longrightarrow> fetch_access b s' = fetch_access b s"
  by (auto simp: bucket_view_def fetch_access_def split: option.splits)

text \<open>
  C18. Every change of a bucket's members or visibility reaches the node's membership cache
  with the block that makes it: the decoded events of the block contain one that concerns the
  bucket, even when the bindings fail to decode it. The same holds for a new replica agreement
  of the node, as long as its event decodes.
\<close>

theorem membership_changes_announced:
  assumes run: "(step E)\<^sup>*\<^sup>* s s'" and new: "events s' = events s @ new"
    and change: "fetch_access b s' \<noteq> fetch_access b s \<or>
      fetch_serves_as_replica (Some own) b s' \<and> \<not> fetch_serves_as_replica (Some own) b s \<and> (\<forall>e. block_event e = Some (EvReplicaAgreementEstablished b own) \<longrightarrow> dec e)"
  shows "\<exists>e\<in>set (bc_events (decode_block_contents dec new n)). mentions b (Event e)"
proof -
  have ann: "announces new s s'" using steps_told [OF run] new by (auto simp: told_def)
  show ?thesis
  proof (cases "fetch_access b s' = fetch_access b s")
    case False
    then have "bucket_view (Buckets s') b \<noteq> bucket_view (Buckets s) b" using fetch_access_view by blast
    then obtain e where e: "e \<in> set new" "block_event e = Some (EvBucketMembershipChanged b)"
      using ann unfolding announces_def by force
    let ?x = "if dec e then EvBucketMembershipChanged b else EvMembershipScopeUnknown n"
    have "?x \<in> set (decoded_event dec n e)" using e(2) membership_event_block_event [OF e(2)] by (simp add: decoded_event_def)
    with e(1) have "?x \<in> set (bc_events (decode_block_contents dec new n))" by (rule decoded_event_sent)
    moreover have "mentions b (Event ?x)" by simp
    ultimately show ?thesis by blast
  next
    case True
    then have "is_replica (StorageAgreements s') b own \<and> \<not> is_replica (StorageAgreements s) b own"
      and dec: "\<And>e. block_event e = Some (EvReplicaAgreementEstablished b own) \<Longrightarrow> dec e"
      using change by (auto simp: fetch_serves_as_replica_def is_replica_def split: option.splits ProviderRole.splits)
    then obtain e where e: "e \<in> set new" "block_event e = Some (EvReplicaAgreementEstablished b own)"
      using ann unfolding announces_def by (metis imageE)
    have "EvReplicaAgreementEstablished b own \<in> set (decoded_event dec n e)" using e(2) dec [OF e(2)] by (simp add: decoded_event_def)
    with e(1) have "EvReplicaAgreementEstablished b own \<in> set (bc_events (decode_block_contents dec new n))" by (rule decoded_event_sent)
    moreover have "mentions b (Event (EvReplicaAgreementEstablished b own))" by simp
    ultimately show ?thesis by blast
  qed
qed

section \<open>The registration\<close>

definition view_of_node :: "NodeProviderInfo \<Rightarrow> byte list \<times> ProviderSettings \<times> nat option" where
  "view_of_node i = (ni_public_key i, ni_settings i, ni_deregister_at i)"

definition view_of_chain :: "account \<Rightarrow> 'c pstate \<Rightarrow> (byte list \<times> ProviderSettings \<times> nat option) option" where
  "view_of_chain own s = map_option (\<lambda>i. (pi_public_key i, pi_settings i, pi_deregister_at i)) (fmlookup (Providers s) own)"

lemma get_provider_info_view:
  "refresh_provider_state (get_provider_info lossy own s) cs =
     cs\<lparr>cs_provider_info := map_option (provider_info_from_runtime lossy) (fmlookup (Providers s) own)\<rparr>"
  "map_option view_of_node (map_option (provider_info_from_runtime lossy) (fmlookup (Providers s) own)) = view_of_chain own s"
  by (cases "fmlookup (Providers s) own";
      simp add: refresh_provider_state_def get_provider_info_def view_of_node_def view_of_chain_def provider_info_from_runtime_def)+

lemma follow_blocks_append:
  "fst (follow_blocks own (xs @ [x]) cs) = fst (follow_block own x (fst (follow_blocks own xs cs)))"
  by (induction xs arbitrary: cs) (auto simp: case_prod_beta Let_def)

lemma registration_unchanged:
  assumes "(step E)\<^sup>*\<^sup>* s s'" "events s' = events s @ new"
    and "\<And>e. e \<in> set new \<Longrightarrow> lifecycle_account e = Some own \<Longrightarrow> dec e"
    and "own \<notin> set (bc_lifecycle (decode_block_contents dec new n))"
  shows "view_of_chain own s' = view_of_chain own s"
proof -
  have "announces new s s'" using steps_told [OF assms(1)] assms(2) by (auto simp: told_def)
  moreover have "Some own \<notin> lifecycle_account ` set new"
    using assms(3,4) by (fastforce simp: decode_block_contents_events decoded_lifecycle_def)
  ultimately have "provider_view (Providers s') own = provider_view (Providers s) own" unfolding announces_def by metis
  then show ?thesis
    by (cases "fmlookup (Providers s') own"; cases "fmlookup (Providers s) own") (auto simp: provider_view_def view_of_chain_def)
qed

text \<open>
  \<open>chain i\<close> is the state after the i-th block the coordinator follows, \<open>new i\<close> the events of
  that block; the read made while it is processed sees the state of that block or of a later
  one, number \<open>seen i\<close>.
\<close>

definition followed :: "(byte list \<Rightarrow> string) \<Rightarrow> account \<Rightarrow> (nat \<Rightarrow> 'c pstate) \<Rightarrow> (nat \<Rightarrow> Event list) \<Rightarrow> (Event \<Rightarrow> bool) \<Rightarrow> (nat \<Rightarrow> nat) \<Rightarrow>
    nat \<Rightarrow> FinalizedBlock \<times> (ChainClientError + NodeProviderInfo option)" where
  "followed lossy own chain new dec seen i =
     (\<lparr>fb_number = i, fb_anchor_block = Some (anchor (chain i)), fb_contents = Some (decode_block_contents dec (new i) i)\<rparr>,
      get_provider_info lossy own (chain (seen i)))"

lemma follow_view:
  assumes run: "\<And>i. i < n \<Longrightarrow> (step E)\<^sup>*\<^sup>* (chain i) (chain (Suc i)) \<and> events (chain (Suc i)) = events (chain i) @ new (Suc i)"
    and dec: "\<And>i e. e \<in> set (new i) \<Longrightarrow> lifecycle_account e = Some own \<Longrightarrow> dec e"
    and seen: "\<And>i. i \<le> n \<Longrightarrow> i \<le> seen i \<and> seen i \<le> n" and k: "k \<le> n"
    and start: "cs_provider_info cs = map_option (provider_info_from_runtime lossy) (fmlookup (Providers (chain (seen 0))) own)"
  shows "\<exists>j\<le>n. cs_provider_info (fst (follow_blocks own (map (followed lossy own chain new dec seen) [1..<Suc k]) cs)) =
      map_option (provider_info_from_runtime lossy) (fmlookup (Providers (chain j)) own) \<and>
    (j \<le> k \<longrightarrow> view_of_chain own (chain j) = view_of_chain own (chain k))"
  using k
proof (induction k)
  case 0
  then show ?case using start seen [of 0] by (intro exI [of _ "seen 0"]) auto
next
  case (Suc k)
  let ?cs = "fst (follow_blocks own (map (followed lossy own chain new dec seen) [1..<Suc k]) cs)"
  from Suc obtain j where j: "j \<le> n" "cs_provider_info ?cs = map_option (provider_info_from_runtime lossy) (fmlookup (Providers (chain j)) own)"
    "j \<le> k \<Longrightarrow> view_of_chain own (chain j) = view_of_chain own (chain k)" by auto
  have next': "fst (follow_blocks own (map (followed lossy own chain new dec seen) [1..<Suc (Suc k)]) cs) =
      fst (follow_block own (followed lossy own chain new dec seen (Suc k)) ?cs)"
    by (simp add: follow_blocks_append del: upt_Suc add: upt_Suc_append)
  show ?case
  proof (cases "own \<in> set (bc_lifecycle (decode_block_contents dec (new (Suc k)) (Suc k)))")
    case True
    then show ?thesis using seen [of "Suc k"] Suc.prems unfolding next'
      by (intro exI [of _ "seen (Suc k)"]) (auto simp: follow_block_def followed_def refresh_if_relevant_event_def get_provider_info_view)
  next
    case False
    have "view_of_chain own (chain (Suc k)) = view_of_chain own (chain k)"
      using registration_unchanged [OF _ _ dec False] run [of k] Suc.prems by auto
    then show ?thesis using j False unfolding next'
      by (intro exI [of _ j]) (auto simp: follow_block_def followed_def refresh_if_relevant_event_def le_Suc_eq)
  qed
qed

text \<open>
  C17. The node's registration follows the chain's: after bootstrap and any number of blocks,
  if every read of the registration succeeds on the state of its block or a later one and the
  lifecycle events of this provider decode, the public key, the settings and the announced
  exit the node holds are those of the chain's latest block, and it holds none exactly when
  the provider is not registered.
\<close>

theorem registration_followed:
  assumes run: "\<And>i. i < n \<Longrightarrow> (step E)\<^sup>*\<^sup>* (chain i) (chain (Suc i)) \<and> events (chain (Suc i)) = events (chain i) @ new (Suc i)"
    and dec: "\<And>i e. e \<in> set (new i) \<Longrightarrow> lifecycle_account e = Some own \<Longrightarrow> dec e"
    and seen: "\<And>i. i \<le> n \<Longrightarrow> i \<le> seen i \<and> seen i \<le> n"
  shows "\<exists>cs' sent. follow own (Some timeout) (Some (get_provider_info lossy own (chain (seen 0))))
       (map (followed lossy own chain new dec seen) [1..<Suc n]) cs = (Inr (), cs', sent) \<and>
     map_option view_of_node (cs_provider_info cs') = view_of_chain own (chain n)"
proof -
  let ?cs = "refresh_provider_state (get_provider_info lossy own (chain (seen 0))) (sync_constants timeout cs)"
  obtain cs' sent where cs': "follow_blocks own (map (followed lossy own chain new dec seen) [1..<Suc n]) ?cs = (cs', sent)"
    by (cases "follow_blocks own (map (followed lossy own chain new dec seen) [1..<Suc n]) ?cs")
  have "\<exists>j\<le>n. cs_provider_info (fst (follow_blocks own (map (followed lossy own chain new dec seen) [1..<Suc n]) ?cs)) =
      map_option (provider_info_from_runtime lossy) (fmlookup (Providers (chain j)) own) \<and>
    (j \<le> n \<longrightarrow> view_of_chain own (chain j) = view_of_chain own (chain n))"
    by (rule follow_view [where E = E]) (use run dec seen in \<open>auto simp: get_provider_info_view\<close>)
  then obtain j where "cs_provider_info cs' = map_option (provider_info_from_runtime lossy) (fmlookup (Providers (chain j)) own)"
    "view_of_chain own (chain j) = view_of_chain own (chain n)" unfolding cs' by auto
  then show ?thesis using cs' by (auto simp: follow_def get_provider_info_view simp del: upt_Suc)
qed

definition demo_text :: "byte list \<Rightarrow> string" where
  "demo_text = map (\<lambda>b. char_of (unat b))"

definition demo_chain :: "nat \<Rightarrow> ledger pstate" where
  "demo_chain i = (if i = 0 then launched else leaving)"

theorem registration_followed_witness:
  "\<exists>cs' sent. follow 14 (Some (Inr (Some 20))) (Some (get_provider_info demo_text 14 launched))
       [followed demo_text 14 demo_chain (\<lambda>_. [Event.DeregisterAnnounced 14 25]) (\<lambda>_. True) (\<lambda>i. i) 1] ChainState_default = (Inr (), cs', sent) \<and>
     map_option view_of_node (cs_provider_info cs') = view_of_chain 14 leaving \<and> view_of_chain 14 leaving \<noteq> view_of_chain 14 launched"
proof -
  have "step demo_env launched leaving" by (rule step.call [OF run_leaving]) simp
  then have run: "(step demo_env)\<^sup>*\<^sup>* (demo_chain i) (demo_chain (Suc i)) \<and>
      events (demo_chain (Suc i)) = events (demo_chain i) @ [Event.DeregisterAnnounced 14 25]" if "i < 1" for i
    using that by (auto simp: demo_chain_def leaving_def)
  have "view_of_chain 14 leaving \<noteq> view_of_chain 14 launched"
    by (simp add: view_of_chain_def leaving_def launched_def provider14_def)
  then show ?thesis
    using registration_followed [where n = 1 and E = demo_env and chain = demo_chain and new = "\<lambda>_. [Event.DeregisterAnnounced 14 25]" and own = 14
        and dec = "\<lambda>_. True" and seen = "\<lambda>i. i" and timeout = "Inr (Some 20)" and lossy = demo_text and cs = ChainState_default, OF run]
    by (simp add: demo_chain_def)
qed

theorem membership_changes_announced_witness:
  "fetch_access 0 widened \<noteq> fetch_access 0 stored \<and>
   (\<exists>e\<in>set (bc_events (decode_block_contents (\<lambda>_. False) [MemberSet 0 13 Writer] 7)). mentions 0 (Event e))"
proof -
  have "(step demo_env)\<^sup>*\<^sup>* stored widened" by (rule r_into_rtranclp, rule step.call [OF run_widened]) simp
  moreover have "events widened = events stored @ [MemberSet 0 13 Writer]" by (simp add: widened_def)
  moreover have "fetch_access 0 widened \<noteq> fetch_access 0 stored"
    by (simp add: fetch_access_def widened_def stored_def bucket0_def member_roles_def)
  ultimately show ?thesis using membership_changes_announced [of demo_env stored widened "[MemberSet 0 13 Writer]" 0 0 "\<lambda>_. False" 7] by blast
qed

section \<open>Quotes\<close>

definition quote_kind :: "NegotiateRequest \<Rightarrow> QuoteKind" where
  "quote_kind req = (if nr_replica_params req = None then Quote_Primary else Quote_Replica)"

definition sync_deposit :: "NegotiateRequest \<Rightarrow> nat" where
  "sync_deposit req = (case nr_replica_params req of None \<Rightarrow> 0 | Some r \<Rightarrow> rt_sync_balance r)"

text \<open>What the node relies on from a key pair: what it signs verifies under its public key.\<close>

definition signs_for :: "('c, 'm) env \<Rightarrow> pair_lib \<Rightarrow> ProviderKeypair \<Rightarrow> bool" where
  "signs_for E P k \<longleftrightarrow> (\<forall>m. \<exists>acc. expected_signer_account E (public_key_bytes P k) (keypair_sign P k m) = Inr acc \<and>
     sig_verify (Crypto E) (keypair_sign P k m) m acc)"

lemma negotiate_terms_Inr:
  assumes "negotiate_terms C P node req = Inr q" "cs_request_timeout (nd_chain_state node) = Some timeout"
    "cs_provider_info (nd_chain_state node) = Some info" "nd_signing_public_key node = map_option (public_key_bytes P) (nd_keypair node)"
  obtains k where "nd_keypair node = Some k" "ni_public_key info = public_key_bytes P k" "ni_deregister_at info = None"
    "validate_request req info = Inr ()" "q = sign_terms C P k (negotiated_terms req info (cs_current_anchor_block (nd_chain_state node)) timeout)"
proof -
  from assms obtain k where k: "nd_keypair node = Some k" by (auto simp: negotiate_terms_def result_simps)
  from assms k show ?thesis
    by (intro that [of k])
      (auto simp: negotiate_terms_def ensure_signing_key_matches_def result_simps Let_def map_sum_def split: sum.splits if_splits)
qed

lemma validate_request_Inr:
  "validate_request req info = Inr () \<longleftrightarrow>
     (case nr_replica_params req of
        None \<Rightarrow> ps_accepting_primary (ni_settings info)
      | Some _ \<Rightarrow> ps_replica_sync_price (ni_settings info) \<noteq> None \<and> nr_bucket req \<noteq> None) \<and>
     ps_price_per_byte (ni_settings info) \<le> nr_price_per_byte req \<and>
     ps_min_duration (ni_settings info) \<le> nr_duration req \<and> nr_duration req \<le> ps_max_duration (ni_settings info) \<and>
     0 < nr_max_bytes req \<and> ps_min_agreement_bytes (ni_settings info) \<le> nr_max_bytes req \<and>
     (0 < ps_max_capacity (ni_settings info) \<longrightarrow>
        saturating_add 64 (ni_committed_bytes info) (nr_max_bytes req) \<le> ps_max_capacity (ni_settings info))"
  by (auto simp: validate_request_def validate_kind_def result_simps Let_def split: option.split)

lemma negotiated_select [simp]:
  "at_owner (negotiated_terms req info now timeout) = nr_owner req"
  "at_max_bytes (negotiated_terms req info now timeout) = nr_max_bytes req"
  "at_duration (negotiated_terms req info now timeout) = nr_duration req"
  "at_price_per_byte (negotiated_terms req info now timeout) = ps_price_per_byte (ni_settings info)"
  "at_valid_until (negotiated_terms req info now timeout) = saturating_add 32 now timeout"
  "at_nonce (negotiated_terms req info now timeout) = nr_nonce req"
  "at_bucket (negotiated_terms req info now timeout) = target_of (nr_bucket req)"
  "at_replica_params (negotiated_terms req info now timeout) = nr_replica_params req"
  by (simp_all add: negotiated_terms_def)

lemma from_runtime_select [simp]:
  "ni_public_key (provider_info_from_runtime lossy i) = pi_public_key i"
  "ni_committed_bytes (provider_info_from_runtime lossy i) = pi_committed_bytes i"
  "ni_settings (provider_info_from_runtime lossy i) = pi_settings i"
  "ni_deregister_at (provider_info_from_runtime lossy i) = pi_deregister_at i"
  by (simp_all add: provider_info_from_runtime_def)

lemma quote_signature_verifies:
  assumes "signs_for E P k" "pi_public_key i = public_key_bytes P k"
  shows "verify_terms_signature E i t (sg_signature (sign_terms (Crypto E) P k t)) (signing_context t) = Inr ()"
  using assms by (auto simp: verify_terms_signature_def sign_terms_def signing_payload_def signs_for_def result_simps Let_def)


section \<open>Runs\<close>

definition demo_pairs :: pair_lib where
  "demo_pairs = \<lparr>pair_from_string = (\<lambda>_ seed. Some (bytes_of seed)), pair_public = (\<lambda>_ k. replicate 32 (k ! 0)), pair_sign = (\<lambda>_ k _. k)\<rparr>"

definition demo_node :: "byte \<Rightarrow> ProviderInfo \<Rightarrow> NodeState" where
  "demo_node k i = (node_from_parts demo_pairs (Some (Pair_Sr25519 [k])))\<lparr>nd_chain_state :=
     \<lparr>cs_current_anchor_block = 5, cs_request_timeout = Some 20, cs_provider_info = Some (provider_info_from_runtime demo_text i)\<rparr>\<rparr>"

definition demo_request :: NegotiateRequest where
  "demo_request = \<lparr>nr_owner = 12, nr_max_bytes = 10, nr_duration = 30, nr_price_per_byte = 4, nr_nonce = 0, nr_bucket = None,
     nr_replica_params = None\<rparr>"

definition demo_quote :: "byte \<Rightarrow> ProviderInfo \<Rightarrow> NegotiateRequest \<Rightarrow> SignedTerms" where
  "demo_quote k i req = \<lparr>sg_terms = negotiated_terms req (provider_info_from_runtime demo_text i) 5 20, sg_signature = Sr25519 [k]\<rparr>"

lemmas node_defs = demo_node_def demo_quote_def demo_pairs_def node_from_parts_def negotiate_terms_def sign_terms_def
  ensure_signing_key_matches_def validate_request_def validate_kind_def

lemma demo_signs: "signs_for demo_env demo_pairs (Pair_Sr25519 [k])"
  by (simp add: signs_for_def expected_signer_account_def demo_pairs_def run_defs)



text \<open>
  The node signs quotes its stake does not back: the view is up to date and the chain
  refuses the quote all the same.
\<close>

theorem stake_not_checked:
  "\<exists>req q. fmlookup (Providers launched) 14 = Some provider14 \<and> reachable demo_env launched \<and>
     negotiate_terms (Crypto demo_env) demo_pairs (demo_node 14 provider14) req = Inr q \<and>
     accept_quote demo_env (nr_owner req) 14 (sg_terms q) (sg_signature q) New Quote_Primary launched = Inl InsufficientStakeForBytes"
proof -
  let ?req = "demo_request\<lparr>nr_max_bytes := 600\<rparr>"
  have "negotiate_terms (Crypto demo_env) demo_pairs (demo_node 14 provider14) ?req = Inr (demo_quote 14 provider14 ?req)"
    by (simp add: node_defs demo_request_def provider14_def run_defs)
  moreover have "accept_quote demo_env 12 14 (sg_terms (demo_quote 14 provider14 ?req)) (Sr25519 [14]) New Quote_Primary launched =
      Inl InsufficientStakeForBytes"
    by (simp add: demo_quote_def demo_request_def target_of_def launched_def run_defs)
  ultimately show ?thesis using reachable_launched
    by (intro exI [of _ ?req] exI [of _ "demo_quote 14 provider14 ?req"]) (auto simp: demo_quote_def demo_request_def launched_def)
qed


end
