(* ===== verification/Replica_Sync.thy ===== *)
theory Replica_Sync
  imports Negotiation
begin

text \<open>
  Replica synchronisation at the provider node: fetching a bucket's nodes from another
  provider (\<open>crates/providers/replica/src/sync.rs\<close>), the coordinator that finds duties,
  syncs and confirms on chain (\<open>coordinator.rs\<close>, \<open>sync_roots.rs\<close>), and the chain
  client behind it (\<open>provider-node/src/subxt_client.rs\<close>). Other providers answer requests
  as they like: \<open>net\<close> maps a request and the state \<open>'w\<close> of the world to a reply. Base64
  decoding is a parameter. A download that never ends is \<open>None\<close>.
\<close>

section \<open>Fetching nodes\<close>

datatype 'a HttpReply = NoConnection | BadStatus nat | BadBody | Body 'a

record 'w net =
  net_mmr_peaks :: "string \<Rightarrow> BucketId \<Rightarrow> 'w \<Rightarrow> (H256 \<times> H256 list) HttpReply \<times> 'w"
  net_node :: "string \<Rightarrow> BucketId \<Rightarrow> H256 \<Rightarrow> 'w \<Rightarrow> (string option \<times> H256 list option) HttpReply \<times> 'w"

datatype ReplicaError =
    ReplicaBackend StoreError
  | ReplicaDecode
  | NodeHashMismatch H256 H256
  | SourceRequest
  | SourceUnavailable nat
  | ReplicaChainClient ChainClientError

definition decode_node :: "(string \<Rightarrow> byte list option) \<Rightarrow> string option \<times> H256 list option \<Rightarrow> ReplicaError + ChunkTreeNode" where
  "decode_node base64 reply =
     (let (text, children) = reply in
      case text of
        None \<Rightarrow> map_sum (\<lambda>_. ReplicaDecode) id (from_wire None children)
      | Some t \<Rightarrow> ok_or (base64 t) ReplicaDecode (\<lambda>data. map_sum (\<lambda>_. ReplicaDecode) id (from_wire (Some data) children)))"

text \<open>The reply of a provider's own \<open>/node\<close> endpoint.\<close>

definition DownloadNodeResponse_new :: "(byte list \<Rightarrow> string) \<Rightarrow> ChunkTreeNode \<Rightarrow> string option \<times> H256 list option" where
  "DownloadNodeResponse_new encode node =
     (case node of Chunk data \<Rightarrow> (Some (encode data), None) | Internal left right \<Rightarrow> (None, Some [left, right]))"

partial_function (option) fetch_subtree ::
    "'w net \<Rightarrow> (string \<Rightarrow> byte list option) \<Rightarrow> (byte list \<Rightarrow> H256) \<Rightarrow> BucketId \<Rightarrow> string \<Rightarrow> H256 \<Rightarrow> DiskStorage \<times> 'w \<Rightarrow>
     ((ReplicaError + unit) \<times> DiskStorage \<times> 'w) option" where
  "fetch_subtree net base64 h bucket_id source_url root_hash dw =
     (if fmhas (cf_nodes (fst dw)) root_hash then Some (Inr (), dw)
      else let (reply, w) = net_node net source_url bucket_id root_hash (snd dw); d = fst dw in
      case reply of
        NoConnection \<Rightarrow> Some (Inl SourceRequest, d, w)
      | BadStatus status \<Rightarrow> Some (Inl (SourceUnavailable status), d, w)
      | BadBody \<Rightarrow> Some (Inl ReplicaDecode, d, w)
      | Body body \<Rightarrow>
          (case decode_node base64 body of
             Inl e \<Rightarrow> Some (Inl e, d, w)
           | Inr node \<Rightarrow>
               if hash_of_node h node \<noteq> root_hash then Some (Inl (NodeHashMismatch root_hash (hash_of_node h node)), d, w)
               else Option.bind
                 (case node of
                    Chunk _ \<Rightarrow> Some (Inr (), d, w)
                  | Internal left right \<Rightarrow>
                      Option.bind (fetch_subtree net base64 h bucket_id source_url left (d, w)) (\<lambda>(r, dw1).
                      case r of
                        Inl e \<Rightarrow> Some (Inl e, dw1)
                      | Inr _ \<Rightarrow> fetch_subtree net base64 h bucket_id source_url right dw1)) (\<lambda>(r, d2, w2).
                 case r of
                   Inl e \<Rightarrow> Some (Inl e, d2, w2)
                 | Inr _ \<Rightarrow>
                     (case store_node h bucket_id root_hash node d2 of
                        Inl e \<Rightarrow> Some (Inl (ReplicaBackend e), d2, w2)
                      | Inr d3 \<Rightarrow> Some (Inr (), d3, w2)))))"

fun fetch_peaks ::
    "'w net \<Rightarrow> (string \<Rightarrow> byte list option) \<Rightarrow> (byte list \<Rightarrow> H256) \<Rightarrow> BucketId \<Rightarrow> string \<Rightarrow> H256 list \<Rightarrow> DiskStorage \<times> 'w \<Rightarrow>
     ((ReplicaError + unit) \<times> DiskStorage \<times> 'w) option" where
  "fetch_peaks net base64 h bucket_id source_url [] dw = Some (Inr (), dw)"
| "fetch_peaks net base64 h bucket_id source_url (peak # peaks) dw =
     Option.bind (fetch_subtree net base64 h bucket_id source_url peak dw) (\<lambda>(r, dw1).
     case r of Inl e \<Rightarrow> Some (Inl e, dw1) | Inr _ \<Rightarrow> fetch_peaks net base64 h bucket_id source_url peaks dw1)"

definition sync_from_source ::
    "'w net \<Rightarrow> (string \<Rightarrow> byte list option) \<Rightarrow> (byte list \<Rightarrow> H256) \<Rightarrow> BucketId \<Rightarrow> string \<Rightarrow> DiskStorage \<times> 'w \<Rightarrow>
     ((ReplicaError + H256) \<times> DiskStorage \<times> 'w) option" where
  "sync_from_source net base64 h bucket_id source_url dw =
     (let (reply, w) = net_mmr_peaks net source_url bucket_id (snd dw); d = fst dw in
      case reply of
        NoConnection \<Rightarrow> Some (Inl SourceRequest, d, w)
      | BadStatus status \<Rightarrow> Some (Inl (SourceUnavailable status), d, w)
      | BadBody \<Rightarrow> Some (Inl ReplicaDecode, d, w)
      | Body (target_root, peaks) \<Rightarrow>
          let d1 = init_bucket bucket_id (2 ^ 64 - 1) d in
          if (case get_bucket bucket_id d1 of Some bucket \<Rightarrow> bi_mmr_root bucket = target_root | None \<Rightarrow> False)
          then Some (Inr target_root, d1, w)
          else Option.bind (fetch_peaks net base64 h bucket_id source_url peaks (d1, w)) (\<lambda>(r, dw2).
               Some (map_sum id (\<lambda>_. target_root) r, dw2)))"

section \<open>Attestations and duties\<close>

record SignedSyncRoots =
  sr_roots :: "H256 option list"
  sr_signature :: MultiSignature

definition SignedSyncRoots_sign :: "(H256 option list \<Rightarrow> SigningRefused + MultiSignature) \<Rightarrow> H256 \<Rightarrow> SigningRefused + SignedSyncRoots" where
  "SignedSyncRoots_sign signer target_mmr_root =
     (let roots = (replicate 7 None)[0 := Some target_mmr_root]
      in attempt (signer roots) (\<lambda>signature. Inr \<lparr>sr_roots = roots, sr_signature = signature\<rparr>))"

record SyncDuty =
  sd_bucket_id :: BucketId
  sd_target_mmr_root :: H256
  sd_target_leaf_count :: nat
  sd_source_endpoints :: "string list"
  sd_sync_balance :: nat
  sd_sync_price :: nat
  sd_min_sync_interval :: nat
  sd_last_sync :: "(H256 \<times> nat) option"

datatype SyncResult =
    SyncSuccess BucketId H256 nat nat
  | InsufficientBalance BucketId nat nat
  | SourcesUnavailable BucketId "string list"
  | VerificationFailed BucketId
  | SyncSubmissionFailed BucketId
  | AlreadySynced BucketId H256
  | NoDataToSync BucketId

record ReplicaAgreementInfo =
  ra_bucket_id :: BucketId
  ra_sync_balance :: nat
  ra_sync_price :: nat
  ra_min_sync_interval :: nat
  ra_last_sync :: "(H256 \<times> nat) option"

record SnapshotInfo =
  si_mmr_root :: H256
  si_leaf_count :: nat

record 's replica_client =
  get_current_block :: "'s \<Rightarrow> ChainClientError + nat"
  fetch_replica_agreements :: "BucketId list \<Rightarrow> 's \<Rightarrow> ChainClientError + ReplicaAgreementInfo list"
  fetch_bucket_snapshot :: "BucketId \<Rightarrow> 's \<Rightarrow> ChainClientError + SnapshotInfo"
  fetch_primary_endpoints :: "BucketId \<Rightarrow> 's \<Rightarrow> ChainClientError + string list"
  fetch_replica_endpoints :: "BucketId \<Rightarrow> 's \<Rightarrow> ChainClientError + string list"
  submit_sync_confirmation :: "BucketId \<Rightarrow> SignedSyncRoots \<Rightarrow> 's \<Rightarrow> (ChainClientError + nat \<times> nat) \<times> 's"

record SyncConfig =
  sc_poll_interval :: nat
  sc_sync_timeout :: nat
  sc_max_concurrent_syncs :: nat
  sc_auto_confirm :: bool

definition fetch_source_endpoints :: "'s replica_client \<Rightarrow> BucketId \<Rightarrow> 's \<Rightarrow> ChainClientError + string list" where
  "fetch_source_endpoints client bucket_id s =
     attempt (fetch_primary_endpoints client bucket_id s) (\<lambda>sources.
     Inr (case fetch_replica_endpoints client bucket_id s of
            Inr replicas \<Rightarrow> foldl (\<lambda>acc url. if url \<in> set acc then acc else acc @ [url]) sources replicas
          | Inl _ \<Rightarrow> sources))"

fun duties_from ::
    "'s replica_client \<Rightarrow> DiskStorage \<Rightarrow> nat \<Rightarrow> 's \<Rightarrow> ReplicaAgreementInfo list \<Rightarrow> SyncDuty list \<Rightarrow> ChainClientError + SyncDuty list" where
  "duties_from client d anchor_block s [] duties = Inr duties"
| "duties_from client d anchor_block s (a # agreements) duties =
     (if ra_sync_balance a < ra_sync_price a \<or>
         (case ra_last_sync a of Some (_, last_block) \<Rightarrow> anchor_block - last_block < ra_min_sync_interval a | None \<Rightarrow> False)
      then duties_from client d anchor_block s agreements duties
      else attempt (fetch_bucket_snapshot client (ra_bucket_id a) s) (\<lambda>snapshot.
           if si_mmr_root snapshot = H256_zero \<or>
              (case get_bucket (ra_bucket_id a) d of Some bucket \<Rightarrow> bi_mmr_root bucket = si_mmr_root snapshot | None \<Rightarrow> False)
           then duties_from client d anchor_block s agreements duties
           else attempt (fetch_source_endpoints client (ra_bucket_id a) s) (\<lambda>sources.
                duties_from client d anchor_block s agreements (duties @ [\<lparr>
                  sd_bucket_id = ra_bucket_id a, sd_target_mmr_root = si_mmr_root snapshot,
                  sd_target_leaf_count = si_leaf_count snapshot, sd_source_endpoints = sources,
                  sd_sync_balance = ra_sync_balance a, sd_sync_price = ra_sync_price a,
                  sd_min_sync_interval = ra_min_sync_interval a, sd_last_sync = ra_last_sync a\<rparr>]))))"

definition get_active_replica_duties :: "'s replica_client \<Rightarrow> DiskStorage \<Rightarrow> 's \<Rightarrow> ChainClientError + SyncDuty list" where
  "get_active_replica_duties client d s =
     attempt (get_current_block client s) (\<lambda>anchor_block.
     attempt (fetch_replica_agreements client (bucket_ids d) s) (\<lambda>agreements.
     duties_from client d anchor_block s agreements []))"

definition get_sync_duty :: "'s replica_client \<Rightarrow> BucketId \<Rightarrow> 's \<Rightarrow> ChainClientError + SyncDuty" where
  "get_sync_duty client bucket_id s =
     attempt (fetch_bucket_snapshot client bucket_id s) (\<lambda>snapshot.
     attempt (fetch_source_endpoints client bucket_id s) (\<lambda>sources.
     Inr \<lparr>sd_bucket_id = bucket_id, sd_target_mmr_root = si_mmr_root snapshot, sd_target_leaf_count = si_leaf_count snapshot,
          sd_source_endpoints = sources, sd_sync_balance = 2 ^ 128 - 1, sd_sync_price = 0, sd_min_sync_interval = 0, sd_last_sync = None\<rparr>))"

section \<open>Syncing and confirming\<close>

definition confirm_on_chain ::
    "(H256 option list \<Rightarrow> SigningRefused + MultiSignature) option \<Rightarrow> 's replica_client \<Rightarrow> SyncDuty \<Rightarrow> 's \<Rightarrow> SyncResult \<times> 's" where
  "confirm_on_chain signer client duty s =
     (case signer of
        None \<Rightarrow> (SyncSubmissionFailed (sd_bucket_id duty), s)
      | Some sign \<Rightarrow>
          (case SignedSyncRoots_sign sign (sd_target_mmr_root duty) of
             Inl _ \<Rightarrow> (SyncSubmissionFailed (sd_bucket_id duty), s)
           | Inr attestation \<Rightarrow>
               (case submit_sync_confirmation client (sd_bucket_id duty) attestation s of
                  (Inl _, s') \<Rightarrow> (SyncSubmissionFailed (sd_bucket_id duty), s')
                | (Inr (matched_at, payment), s') \<Rightarrow> (SyncSuccess (sd_bucket_id duty) (sd_target_mmr_root duty) matched_at payment, s'))))"

text \<open>The loop over the endpoints: whether one of them delivered the target, and the endpoints tried.\<close>

fun try_sources ::
    "'w net \<Rightarrow> (string \<Rightarrow> byte list option) \<Rightarrow> (byte list \<Rightarrow> H256) \<Rightarrow> SyncDuty \<Rightarrow> string list \<Rightarrow> string list \<Rightarrow> DiskStorage \<times> 'w \<Rightarrow>
     (bool \<times> string list \<times> DiskStorage \<times> 'w) option" where
  "try_sources net base64 h duty tried [] dw = Some (False, tried, dw)"
| "try_sources net base64 h duty tried (endpoint # rest) dw =
     Option.bind (sync_from_source net base64 h (sd_bucket_id duty) endpoint dw) (\<lambda>(r, dw1).
     if r = Inr (sd_target_mmr_root duty) then Some (True, tried @ [endpoint], dw1)
     else try_sources net base64 h duty (tried @ [endpoint]) rest dw1)"

definition sync_and_confirm ::
    "'w net \<Rightarrow> (string \<Rightarrow> byte list option) \<Rightarrow> (byte list \<Rightarrow> H256) \<Rightarrow> SyncConfig \<Rightarrow>
     (H256 option list \<Rightarrow> SigningRefused + MultiSignature) option \<Rightarrow> 's replica_client \<Rightarrow> SyncDuty \<Rightarrow> DiskStorage \<times> 'w \<Rightarrow> 's \<Rightarrow>
     (SyncResult \<times> (DiskStorage \<times> 'w) \<times> 's) option" where
  "sync_and_confirm net base64 h cfg signer client duty dw s =
     (let b = sd_bucket_id duty in
      if (case get_bucket b (fst dw) of Some bucket \<Rightarrow> bi_mmr_root bucket = sd_target_mmr_root duty | None \<Rightarrow> False)
      then Some (AlreadySynced b (sd_target_mmr_root duty), dw, s)
      else if sd_sync_balance duty < sd_sync_price duty
      then Some (InsufficientBalance b (sd_sync_price duty) (sd_sync_balance duty), dw, s)
      else if sd_target_mmr_root duty = H256_zero then Some (NoDataToSync b, dw, s)
      else Option.bind (try_sources net base64 h duty [] (sd_source_endpoints duty) dw) (\<lambda>(ok, tried, dw1).
        if \<not> ok then Some (SourcesUnavailable b tried, dw1, s)
        else case get_bucket b (fst dw1) of
               None \<Rightarrow> Some (VerificationFailed b, dw1, s)
             | Some local \<Rightarrow>
                 if bi_mmr_root local \<noteq> sd_target_mmr_root duty then Some (VerificationFailed b, dw1, s)
                 else if sc_auto_confirm cfg
                 then (case confirm_on_chain signer client duty s of (r, s') \<Rightarrow> Some (r, dw1, s'))
                 else Some (SyncSuccess b (sd_target_mmr_root duty) 0 0, dw1, s)))"

section \<open>The main loop\<close>

text \<open>
  \<open>active\<close> are the buckets of running background syncs, which nothing adds to. One round of
  the loop takes one of the inputs the \<open>select\<close> waits for; it returns the results passed to
  the callback.
\<close>

fun run_duties ::
    "'w net \<Rightarrow> (string \<Rightarrow> byte list option) \<Rightarrow> (byte list \<Rightarrow> H256) \<Rightarrow> SyncConfig \<Rightarrow>
     (H256 option list \<Rightarrow> SigningRefused + MultiSignature) option \<Rightarrow> 's replica_client \<Rightarrow> BucketId list \<Rightarrow> SyncDuty list \<Rightarrow>
     (DiskStorage \<times> 'w) \<times> 's \<Rightarrow> (SyncResult list \<times> (DiskStorage \<times> 'w) \<times> 's) option" where
  "run_duties net base64 h cfg signer client active [] (dw, s) = Some ([], dw, s)"
| "run_duties net base64 h cfg signer client active (duty # duties) (dw, s) =
     (if sd_bucket_id duty \<in> set active then run_duties net base64 h cfg signer client active duties (dw, s)
      else if sc_max_concurrent_syncs cfg \<le> length active then Some ([], dw, s)
      else Option.bind (sync_and_confirm net base64 h cfg signer client duty dw s) (\<lambda>(r, dw1, s1).
           Option.bind (run_duties net base64 h cfg signer client active duties (dw1, s1)) (\<lambda>(rs, dw2, s2).
           Some (r # rs, dw2, s2))))"

definition run_duty_pass ::
    "'w net \<Rightarrow> (string \<Rightarrow> byte list option) \<Rightarrow> (byte list \<Rightarrow> H256) \<Rightarrow> SyncConfig \<Rightarrow>
     (H256 option list \<Rightarrow> SigningRefused + MultiSignature) option \<Rightarrow> 's replica_client \<Rightarrow>
     (DiskStorage \<times> 'w) \<times> 's \<Rightarrow> (SyncResult list \<times> (DiskStorage \<times> 'w) \<times> 's) option" where
  "run_duty_pass net base64 h cfg signer client st =
     (case get_active_replica_duties client (fst (fst st)) (snd st) of
        Inl _ \<Rightarrow> Some ([], st)
      | Inr duties \<Rightarrow> run_duties net base64 h cfg signer client [] duties st)"

definition is_relevant_event :: "account option \<Rightarrow> DiskStorage \<Rightarrow> BlockEvent \<Rightarrow> bool" where
  "is_relevant_event our_account d event =
     (case event of
        EvReplicaAgreementEstablished _ provider \<Rightarrow> (case our_account of None \<Rightarrow> True | Some me \<Rightarrow> me = provider)
      | EvBucketCheckpointed bucket_id \<Rightarrow> get_bucket bucket_id d \<noteq> None
      | _ \<Rightarrow> False)"

datatype SyncCommand = SyncStop | SyncPause | SyncResume | ForceSync BucketId

datatype SyncInput = SyncCommandIn "SyncCommand option" | SyncEventIn RecvEvent | SyncTick

record sync_loop =
  sl_running :: bool
  sl_paused :: bool
  sl_events_open :: bool

definition sync_accepts :: "sync_loop \<Rightarrow> SyncInput \<Rightarrow> bool" where
  "sync_accepts st i = (sl_running st \<and> (case i of SyncEventIn _ \<Rightarrow> sl_events_open st \<and> \<not> sl_paused st | _ \<Rightarrow> True))"

definition sync_loop_round ::
    "'w net \<Rightarrow> (string \<Rightarrow> byte list option) \<Rightarrow> (byte list \<Rightarrow> H256) \<Rightarrow> SyncConfig \<Rightarrow>
     (H256 option list \<Rightarrow> SigningRefused + MultiSignature) option \<Rightarrow> 's replica_client \<Rightarrow> account option \<Rightarrow> SyncInput \<Rightarrow>
     sync_loop \<times> (DiskStorage \<times> 'w) \<times> 's \<Rightarrow> (SyncResult list \<times> sync_loop \<times> (DiskStorage \<times> 'w) \<times> 's) option" where
  "sync_loop_round net base64 h cfg signer client our_account i loop_state =
     (let (st, dw, s) = loop_state;
          duty_pass = map_option (\<lambda>(rs, dws). (rs, st, dws)) (run_duty_pass net base64 h cfg signer client (dw, s))
      in case i of
           SyncCommandIn cmd \<Rightarrow>
             (case cmd of
                None \<Rightarrow> Some ([], st\<lparr>sl_running := False\<rparr>, dw, s)
              | Some SyncStop \<Rightarrow> Some ([], st\<lparr>sl_running := False\<rparr>, dw, s)
              | Some SyncPause \<Rightarrow> Some ([], st\<lparr>sl_paused := True\<rparr>, dw, s)
              | Some SyncResume \<Rightarrow> Some ([], st\<lparr>sl_paused := False\<rparr>, dw, s)
              | Some (ForceSync bucket_id) \<Rightarrow>
                  (case get_sync_duty client bucket_id s of
                     Inl _ \<Rightarrow> Some ([], st, dw, s)
                   | Inr duty \<Rightarrow> map_option (\<lambda>(r, dws). ([r], st, dws)) (sync_and_confirm net base64 h cfg signer client duty dw s)))
         | SyncEventIn event \<Rightarrow>
             (if event = Closed then Some ([], st\<lparr>sl_events_open := False\<rparr>, dw, s)
              else if \<not> sc_auto_confirm cfg then Some ([], st, dw, s)
              else (case event of
                      Event (EvResubscribed _) \<Rightarrow> duty_pass
                    | Lagged _ \<Rightarrow> duty_pass
                    | Event e \<Rightarrow> if is_relevant_event our_account (fst dw) e then duty_pass else Some ([], st, dw, s)
                    | Closed \<Rightarrow> Some ([], st, dw, s)))
         | SyncTick \<Rightarrow>
             (if sl_paused st \<or> \<not> sc_auto_confirm cfg \<or> sc_poll_interval cfg = 0 then Some ([], st, dw, s) else duty_pass))"

section \<open>The chain client\<close>

text \<open>
  Dynamically decoded storage values. \<open>value_at\<close> selects a field by position, whether the
  fields are named or not. A struct decodes to its fields in the order of its declaration, a
  bounded vector to a wrapper around its items; the coders of parts the client never looks at
  are the record \<open>value_coding\<close>.
\<close>

datatype ScaleValue =
    NamedFields "(string \<times> ScaleValue) list"
  | UnnamedFields "ScaleValue list"
  | VariantValue string "ScaleValue list"
  | PrimU128 nat
  | PrimOther

fun value_at :: "nat \<Rightarrow> ScaleValue \<Rightarrow> ScaleValue option" where
  "value_at i (NamedFields fs) = (if i < length fs then Some (snd (fs ! i)) else None)"
| "value_at i (UnnamedFields vs) = (if i < length vs then Some (vs ! i) else None)"
| "value_at i (VariantValue _ vs) = (if i < length vs then Some (vs ! i) else None)"
| "value_at i _ = None"

record value_coding =
  vc_members :: "Member list \<Rightarrow> ScaleValue"
  vc_signers :: "bool list \<Rightarrow> ScaleValue"
  vc_history :: "(nat \<times> Commitment) list \<Rightarrow> ScaleValue"
  vc_ticket :: "ticket \<Rightarrow> ScaleValue"
  vc_account :: "account \<Rightarrow> ScaleValue"
  vc_stats :: "ProviderStats \<Rightarrow> ScaleValue"
  vc_settings :: "ProviderSettings \<Rightarrow> ScaleValue"

definition option_value :: "ScaleValue option \<Rightarrow> ScaleValue" where
  "option_value v = (case v of None \<Rightarrow> VariantValue ''None'' [] | Some x \<Rightarrow> VariantValue ''Some'' [x])"

definition bytes_value :: "byte list \<Rightarrow> ScaleValue" where
  "bytes_value bs = UnnamedFields (map (\<lambda>b. PrimU128 (unat b)) bs)"

definition commitment_value :: "Commitment \<Rightarrow> ScaleValue" where
  "commitment_value c = NamedFields [(''mmr_root'', UnnamedFields [bytes_value (as_bytes (mmr_root c))]),
     (''start_seq'', PrimU128 (start_seq c)), (''leaf_count'', PrimU128 (leaf_count c))]"

definition snapshot_value :: "value_coding \<Rightarrow> BucketSnapshot \<Rightarrow> ScaleValue" where
  "snapshot_value V sn = NamedFields [(''commitment'', commitment_value (bs_commitment sn)),
     (''checkpoint_block'', PrimU128 (checkpoint_block sn)), (''primary_signers'', vc_signers V (primary_signers sn))]"

definition bucket_value :: "value_coding \<Rightarrow> Bucket \<Rightarrow> ScaleValue" where
  "bucket_value V b = NamedFields [
     (''members'', vc_members V (b_members b)),
     (''visibility'', VariantValue (case b_visibility b of Private \<Rightarrow> ''Private'' | Public \<Rightarrow> ''Public'') []),
     (''frozen_start_seq'', option_value (map_option PrimU128 (b_frozen_start_seq b))),
     (''min_providers'', PrimU128 (b_min_providers b)),
     (''primary_providers'', UnnamedFields [UnnamedFields (map (vc_account V) (b_primary_providers b))]),
     (''snapshot'', option_value (map_option (snapshot_value V) (b_snapshot b))),
     (''historical_roots'', vc_history V (b_historical_roots b)),
     (''total_snapshots'', PrimU128 (b_total_snapshots b)),
     (''creator'', vc_account V (b_creator b)),
     (''deposit'', vc_ticket V (b_deposit b))]"

definition provider_value :: "value_coding \<Rightarrow> ProviderInfo \<Rightarrow> ScaleValue" where
  "provider_value V i = NamedFields [
     (''multiaddr'', UnnamedFields [bytes_value (pi_multiaddr i)]),
     (''public_key'', UnnamedFields [bytes_value (pi_public_key i)]),
     (''stake'', PrimU128 (pi_stake i)),
     (''committed_bytes'', PrimU128 (pi_committed_bytes i)),
     (''settings'', vc_settings V (pi_settings i)),
     (''stats'', vc_stats V (pi_stats i)),
     (''deregister_at'', option_value (map_option PrimU128 (pi_deregister_at i))),
     (''deposit'', vc_ticket V (pi_deposit i))]"

definition prim_bytes :: "ScaleValue list \<Rightarrow> byte list" where
  "prim_bytes vs = List.map_filter (\<lambda>v. case v of PrimU128 n \<Rightarrow> Some (word_of_nat n) | _ \<Rightarrow> None) vs"

definition parse_bucket_snapshot_value :: "ScaleValue \<Rightarrow> SnapshotInfo" where
  "parse_bucket_snapshot_value v = \<lparr>
     si_mmr_root = (case value_at 0 v of
         Some (UnnamedFields bytes_vec) \<Rightarrow>
           (let bytes = prim_bytes bytes_vec in if length bytes = 32 then H256_from bytes else H256_zero)
       | _ \<Rightarrow> H256_zero),
     si_leaf_count = (case value_at 2 v of Some (PrimU128 n) \<Rightarrow> n mod 2 ^ 64 | _ \<Rightarrow> 0)\<rparr>"

definition no_snapshot :: SnapshotInfo where
  "no_snapshot = \<lparr>si_mmr_root = H256_zero, si_leaf_count = 0\<rparr>"

definition bucket_snapshot_of :: "ScaleValue option \<Rightarrow> SnapshotInfo" where
  "bucket_snapshot_of v =
     (case v of
        None \<Rightarrow> no_snapshot
      | Some decoded \<Rightarrow>
          (case value_at 4 decoded of
             Some (VariantValue name (snapshot_val # _)) \<Rightarrow>
               if name = ''Some'' then parse_bucket_snapshot_value snapshot_val else no_snapshot
           | _ \<Rightarrow> no_snapshot))"

definition primary_accounts_of :: "ScaleValue \<Rightarrow> byte list list" where
  "primary_accounts_of decoded =
     (case value_at 3 decoded of
        Some (UnnamedFields providers_vec) \<Rightarrow>
          filter (\<lambda>bytes. length bytes = 32)
            (List.map_filter (\<lambda>v. case v of UnnamedFields account_bytes \<Rightarrow> Some (prim_bytes account_bytes) | _ \<Rightarrow> None) providers_vec)
      | _ \<Rightarrow> [])"

fun extract_byte_vec :: "ScaleValue \<Rightarrow> byte list" where
  "extract_byte_vec (UnnamedFields items) =
     (let bytes = prim_bytes items in
      if items \<noteq> [] \<and> length bytes = length items then bytes
      else (case items of [item] \<Rightarrow> extract_byte_vec item | _ \<Rightarrow> []))"
| "extract_byte_vec (PrimU128 n) = [word_of_nat n]"
| "extract_byte_vec _ = []"

fun split_slash :: "string \<Rightarrow> string list" where
  "split_slash [] = [[]]"
| "split_slash (c # cs) = (if c = CHR ''/'' then [] # split_slash cs else (c # hd (split_slash cs)) # tl (split_slash cs))"

fun endpoint_parts :: "string list \<Rightarrow> string \<Rightarrow> string \<Rightarrow> string \<times> string" where
  "endpoint_parts [] host port = (host, port)"
| "endpoint_parts [p] host port = (host, port)"
| "endpoint_parts (p # q # rest) host port =
     (if p \<in> {''ip4'', ''ip6'', ''dns4'', ''dns6'', ''dns''} then endpoint_parts rest q port
      else if p = ''tcp'' then endpoint_parts rest host q
      else endpoint_parts (q # rest) host port)"

definition multiaddr_to_http_endpoint :: "string \<Rightarrow> string" where
  "multiaddr_to_http_endpoint multiaddr =
     (let parts = filter (\<lambda>p. p \<noteq> []) (split_slash multiaddr);
          (host, port) = endpoint_parts parts ''127.0.0.1'' ''3333''
      in ''http://'' @ host @ '':'' @ port)"

definition endpoints_for_accounts ::
    "value_coding \<Rightarrow> (byte list \<Rightarrow> string) \<Rightarrow> (byte list \<Rightarrow> account) \<Rightarrow> byte list list \<Rightarrow> 'c pstate \<Rightarrow> string list" where
  "endpoints_for_accounts V lossy account_of provider_bytes_list s =
     List.map_filter (\<lambda>provider_bytes.
       case fmlookup (Providers s) (account_of provider_bytes) of
         None \<Rightarrow> None
       | Some info \<Rightarrow>
           (case value_at 0 (provider_value V info) of
              None \<Rightarrow> None
            | Some field0 \<Rightarrow>
                let bytes = extract_byte_vec field0
                in if bytes = [] then None else Some (multiaddr_to_http_endpoint (lossy bytes)))) provider_bytes_list"

definition replica_agreement_info :: "AgreementResponse \<Rightarrow> ReplicaAgreementInfo option" where
  "replica_agreement_info a =
     (case ar_role a of
        Primary \<Rightarrow> None
      | Replica sync_bal price min_interval synced \<Rightarrow>
          Some \<lparr>ra_bucket_id = ar_bucket_id a, ra_sync_balance = sync_bal, ra_sync_price = price,
                ra_min_sync_interval = min_interval,
                ra_last_sync = map_option (\<lambda>r. (mmr_root (rs_commitment r), rs_block r)) synced\<rparr>)"

definition SubxtReplicaClient ::
    "('c, 'm) env \<Rightarrow> storage_order \<Rightarrow> value_coding \<Rightarrow> (byte list \<Rightarrow> string) \<Rightarrow> account \<Rightarrow> ('c pstate \<Rightarrow> bool) \<Rightarrow> 'c pstate replica_client" where
  "SubxtReplicaClient E ord V lossy own online = \<lparr>
     get_current_block = (\<lambda>s. if online s then Inr (anchor s) else Inl QueryFailed),
     fetch_replica_agreements = (\<lambda>local_buckets s.
       if online s then Inr (List.map_filter replica_agreement_info
           (filter (\<lambda>a. ar_bucket_id a \<in> set local_buckets) (query_provider_agreements E ord own s)))
       else Inl QueryFailed),
     fetch_bucket_snapshot = (\<lambda>bucket_id s.
       if online s then Inr (bucket_snapshot_of (map_option (bucket_value V) (fmlookup (Buckets s) bucket_id))) else Inl QueryFailed),
     fetch_primary_endpoints = (\<lambda>bucket_id s.
       if online s then
         Inr (case fmlookup (Buckets s) bucket_id of
                None \<Rightarrow> []
              | Some b \<Rightarrow> endpoints_for_accounts V lossy (account_id32_new (Crypto E)) (primary_accounts_of (bucket_value V b)) s)
       else Inl QueryFailed),
     fetch_replica_endpoints = (\<lambda>bucket_id s.
       if online s then
         Inr (endpoints_for_accounts V lossy (account_id32_new (Crypto E))
           (filter (\<lambda>p. p \<noteq> encode_account (Crypto E) own)
             (map ar_provider (filter (\<lambda>a. ar_role a \<noteq> Primary) (query_bucket_agreements E ord bucket_id s)))) s)
       else Inl QueryFailed),
     submit_sync_confirmation = (\<lambda>bucket_id attestation s.
       if online s then
         (case dispatch E (Signed own) (ConfirmReplicaSync bucket_id (sr_roots attestation) (sr_signature attestation)) s of
            Inl _ \<Rightarrow> (Inl TxRejected, s)
          | Inr s' \<Rightarrow> (Inr (0, 0), s'))
       else (Inl TxSubmitFailed, s))\<rparr>"

end
