(* ===== verification/Replica_Safety.thy ===== *)
theory Replica_Safety
  imports Replica_Sync Store_Safety Scenario
begin

text \<open>
  What replica synchronisation guarantees and what it does not: whatever a source answers,
  only verified nodes with their children are stored, and a subtree an honest source holds is
  fetched completely; but a sync never changes the replica's root, and the chain client reads
  the bucket record at the wrong positions, so that the node confirms no sync.
\<close>

section \<open>Fetching\<close>

text \<open>Adding verified nodes: steps of the store that keep the nodes and the roots of all buckets.\<close>

definition adds :: "'m mmr_lib \<Rightarrow> (byte list \<Rightarrow> H256) \<Rightarrow> DiskStorage \<Rightarrow> DiskStorage \<Rightarrow> bool" where
  "adds lib h d d' \<longleftrightarrow> (store_step lib h)\<^sup>*\<^sup>* d d' \<and> (\<forall>x. fmhas (cf_nodes d) x \<longrightarrow> fmhas (cf_nodes d') x) \<and>
     (\<forall>b. map_option bk_mmr_root (fmlookup (cf_buckets d') b) = map_option bk_mmr_root (fmlookup (cf_buckets d) b)) \<and>
     (\<forall>b. map_option bk_max_bytes (fmlookup (cf_buckets d') b) = map_option bk_max_bytes (fmlookup (cf_buckets d) b))"

lemma adds_refl [simp]: "adds lib h d d"
  by (simp add: adds_def)

lemma adds_trans: "adds lib h d1 d2 \<Longrightarrow> adds lib h d2 d3 \<Longrightarrow> adds lib h d1 d3"
  by (auto simp: adds_def)

lemma adds_store_node:
  assumes s: "store_node h b x n d = Inr d'" shows "adds lib h d d' \<and> fmhas (cf_nodes d') x"
proof -
  have step: "(store_step lib h)\<^sup>*\<^sup>* d d'" using s by (blast intro: store_step.node)
  show ?thesis
  proof (cases "fmhas (cf_nodes d) x")
    case True
    with s have "d' = d" by (auto simp: store_node_def result_simps Let_def)
    with True show ?thesis by simp
  next
    case False
    with s obtain bk where "fmlookup (cf_buckets d) b = Some bk"
      "d' = d\<lparr>cf_nodes := fmupd x n (cf_nodes d), cf_buckets := fmupd b (bk\<lparr>
        bk_used_bytes := saturating_add 64 (bk_used_bytes bk) (node_size n),
        bk_node_count := saturating_add 64 (bk_node_count bk) 1\<rparr>) (cf_buckets d)\<rparr>"
      by (auto simp: store_node_def result_simps Let_def)
    then show ?thesis using step by (auto simp: adds_def fmhas_def)
  qed
qed

lemmas fetch_subtree_induct = fetch_subtree.raw_induct [rotated, consumes 1, case_names step]

lemma fetch_subtree_adds:
  assumes "fetch_subtree net base64 h b url x dw = Some y"
  shows "adds lib h (fst dw) (fst (snd y)) \<and> (fst y = Inr () \<longrightarrow> fmhas (cf_nodes (fst (snd y))) x)"
  using assms
proof (induction rule: fetch_subtree_induct)
  case (step fetch net base64 h b url x dw y)
  obtain reply w where reply: "net_node net url b x (snd dw) = (reply, w)" by (cases "net_node net url b x (snd dw)")
  show ?case
  proof (cases "fmhas (cf_nodes (fst dw)) x \<or> (\<forall>body. reply \<noteq> Body body)")
    case True
    then show ?thesis using step.hyps reply by (cases reply) (auto split: if_splits)
  next
    case False
    then obtain body where body: "\<not> fmhas (cf_nodes (fst dw)) x" "reply = Body body" by auto
    show ?thesis
    proof (cases "decode_node base64 body")
      case (Inl e)
      then show ?thesis using step.hyps reply body by auto
    next
      case (Inr node)
      show ?thesis
      proof (cases "hash_of_node h node = x")
        case True
        let ?kids = "case node of Chunk _ \<Rightarrow> Some (Inr (), fst dw, w)
          | Internal left right \<Rightarrow> Option.bind (fetch net base64 h b url left (fst dw, w)) (\<lambda>(r, dw1).
              case r of Inl e \<Rightarrow> Some (Inl e, dw1) | Inr _ \<Rightarrow> fetch net base64 h b url right dw1)"
        let ?rest = "\<lambda>(r, d2, w2). case r of Inl e \<Rightarrow> Some (Inl e, d2, w2) | Inr _ \<Rightarrow>
            (case store_node h b x node d2 of Inl e \<Rightarrow> Some (Inl (ReplicaBackend e), d2, w2) | Inr d3 \<Rightarrow> Some (Inr (), d3, w2))"
        have "Option.bind ?kids ?rest = Some y" using step.hyps reply body Inr True by (simp add: Let_def)
        then obtain r d2 w2 where kids: "?kids = Some (r, d2, w2)" and y: "?rest (r, d2, w2) = Some y"
          unfolding bind_eq_Some_conv by auto
        have "adds lib h (fst dw) d2"
        proof (cases node)
          case (Chunk data)
          then show ?thesis using kids by simp
        next
          case (Internal left right)
          then obtain r1 dw1 where k1: "fetch net base64 h b url left (fst dw, w) = Some (r1, dw1)"
            and k2: "(case r1 of Inl e \<Rightarrow> Some (Inl e, dw1) | Inr _ \<Rightarrow> fetch net base64 h b url right dw1) = Some (r, d2, w2)"
            using kids by (auto simp: bind_eq_Some_conv)
          have "adds lib h (fst dw) (fst dw1)" using step.IH [OF k1] by simp
          moreover have "adds lib h (fst dw1) d2" using k2 step.IH by (cases r1) (auto dest: step.IH)
          ultimately show ?thesis by (rule adds_trans)
        qed
        then show ?thesis using adds_store_node [of h b x node d2, where lib = lib] y
          by (auto split: sum.splits intro: adds_trans)
      qed (use step.hyps reply body Inr in auto)
    qed
  qed
qed

lemma fetch_subtree_keeps:
  assumes "fetch_subtree net base64 h b url x (d, w) = Some (Inr (), d', w')"
  shows "fmhas (cf_nodes d') x" "fmhas (cf_nodes d) y \<Longrightarrow> fmhas (cf_nodes d') y"
    "map_option bk_max_bytes (fmlookup (cf_buckets d') b') = map_option bk_max_bytes (fmlookup (cf_buckets d) b')"
  using fetch_subtree_adds [OF assms, where lib = "undefined :: unit mmr_lib"] by (simp_all add: adds_def)

lemma fetch_peaks_adds:
  assumes "fetch_peaks net base64 h b url peaks dw = Some (r, dw')"
  shows "adds lib h (fst dw) (fst dw') \<and> (r = Inr () \<longrightarrow> (\<forall>x\<in>set peaks. fmhas (cf_nodes (fst dw')) x))"
  using assms
proof (induction peaks arbitrary: dw)
  case (Cons peak peaks)
  then obtain r1 dw1 where k1: "fetch_subtree net base64 h b url peak dw = Some (r1, dw1)"
    and k2: "(case r1 of Inl e \<Rightarrow> Some (Inl e, dw1) | Inr _ \<Rightarrow> fetch_peaks net base64 h b url peaks dw1) = Some (r, dw')"
    by (auto simp: bind_eq_Some_conv)
  note F = fetch_subtree_adds [OF k1, of lib]
  show ?case
  proof (cases r1)
    case (Inl e)
    then show ?thesis using k2 F by auto
  next
    case (Inr u)
    then have "fetch_peaks net base64 h b url peaks dw1 = Some (r, dw')" using k2 by simp
    from Cons.IH [OF this] F Inr show ?thesis by (auto intro: adds_trans) (auto simp: adds_def)
  qed
qed simp

text \<open>
  C23. Whatever another provider answers, a sync stores only nodes that hash to the key they
  are stored under and whose children are stored: the store stays one the node's own
  operations can produce. When the sync succeeds, every peak the source named is held.
\<close>

theorem sync_stores_verified_nodes:
  assumes res: "sync_from_source net base64 h b url (d, w) = Some (r, d', w')" and reach: "store_reachable lib h d"
  shows "store_reachable lib h d' \<and> nodes_ok h (cf_nodes d') \<and>
    (\<forall>target peaks w1. net_mmr_peaks net url b w = (Body (target, peaks), w1) \<and> r = Inr target \<longrightarrow>
       (\<exists>bk. fmlookup (cf_buckets d') b = Some bk \<and> (bk_mmr_root bk = target \<or> (\<forall>x\<in>set peaks. fmhas (cf_nodes d') x))))"
proof -
  obtain reply w1 where reply: "net_mmr_peaks net url b w = (reply, w1)" by (cases "net_mmr_peaks net url b w")
  show ?thesis
  proof (cases reply)
    case (Body body)
    obtain target peaks where tp: "body = (target, peaks)" by (cases body)
    let ?d1 = "init_bucket b (2 ^ 64 - 1) d"
    have d1: "store_reachable lib h ?d1" using reach by (rule store_reachable.step) (rule store_step.init)
    have "fmlookup (cf_buckets ?d1) b \<noteq> None" by (auto simp: init_bucket_def fmhas_def)
    then obtain bk where bk: "fmlookup (cf_buckets ?d1) b = Some bk" by blast
    show ?thesis
    proof (cases "bk_mmr_root bk = target")
      case True
      then have "d' = ?d1" "r = Inr target" using res reply Body tp bk by (simp_all add: sync_from_source_def get_bucket_def)
      then show ?thesis using d1 bk True reply Body tp store_okD(1) [OF store_reachable_ok [OF d1]] by auto
    next
      case False
      then obtain r2 where f: "fetch_peaks net base64 h b url peaks (?d1, w1) = Some (r2, d', w')" and r: "r = map_sum id (\<lambda>_. target) r2"
        using res reply Body tp bk by (auto simp: sync_from_source_def get_bucket_def bind_eq_Some_conv)
      note F = fetch_peaks_adds [OF f, of lib]
      then have steps: "(store_step lib h)\<^sup>*\<^sup>* ?d1 d'" by (simp add: adds_def)
      have reach': "store_reachable lib h d'" using steps d1 by (induction rule: rtranclp_induct) (auto intro: store_reachable.step)
      have "map_option bk_mmr_root (fmlookup (cf_buckets d') b) = Some (bk_mmr_root bk)" using F bk by (simp add: adds_def)
      then obtain bk' where bk': "fmlookup (cf_buckets d') b = Some bk'" by auto
      have "r2 = Inr ()" if "r = Inr target" using that r by (cases r2) auto
      then show ?thesis using reach' store_okD(1) [OF store_reachable_ok [OF reach']] bk' F reply Body tp by auto
    qed
  qed (use res reply reach store_okD(1) [OF store_reachable_ok [OF reach]] in \<open>auto simp: sync_from_source_def\<close>)
qed

text \<open>A tree held by a source: finite, with chunks of at most the chunk size.\<close>

inductive finite_tree :: "nodes \<Rightarrow> H256 \<Rightarrow> bool" for ns where
  chunk: "fmlookup ns x = Some (Chunk data) \<Longrightarrow> length data \<le> DEFAULT_CHUNK_SIZE \<Longrightarrow> finite_tree ns x"
| branch: "fmlookup ns x = Some (Internal l r) \<Longrightarrow> finite_tree ns l \<Longrightarrow> finite_tree ns r \<Longrightarrow> finite_tree ns x"

definition serves :: "'w net \<Rightarrow> (byte list \<Rightarrow> string) \<Rightarrow> nodes \<Rightarrow> string \<Rightarrow> BucketId \<Rightarrow> bool" where
  "serves net enc ns url b \<longleftrightarrow> (\<forall>x n w. fmlookup ns x = Some n \<longrightarrow> fst (net_node net url b x w) = Body (DownloadNodeResponse_new enc n))"

lemma store_node_succeeds:
  assumes "hash_of_node h n = x" "\<And>l r. n = Internal l r \<Longrightarrow> fmhas (cf_nodes d) l \<and> fmhas (cf_nodes d) r"
    and "fmlookup (cf_buckets d) b = Some bk" "bk_max_bytes bk = 2 ^ 64 - 1"
  shows "\<exists>d'. store_node h b x n d = Inr d'"
  using assms by (cases n) (auto simp: store_node_def result_simps ensure_def ok_or_def saturating_add_def Let_def)

lemma fetch_subtree_served:
  assumes "finite_tree ns x" and ns: "nodes_ok h ns" "serves net enc ns url b" and b64: "\<And>bs. base64 (enc bs) = Some bs"
    and "map_option bk_max_bytes (fmlookup (cf_buckets d) b) = Some (2 ^ 64 - 1)"
  shows "\<exists>d' w'. fetch_subtree net base64 h b url x (d, w) = Some (Inr (), d', w')"
  using assms(1,5)
proof (induction arbitrary: d w)
  case (chunk x data)
  have hash: "hash_of_node h (Chunk data) = x" using ns(1) chunk.hyps(1) by (auto simp: nodes_ok_def)
  obtain w1 where reply: "net_node net url b x w = (Body (DownloadNodeResponse_new enc (Chunk data)), w1)"
    using ns(2) chunk.hyps(1) unfolding serves_def by (metis prod.collapse)
  have dec: "decode_node base64 (DownloadNodeResponse_new enc (Chunk data)) = Inr (Chunk data)"
    using chunk.hyps(2) b64 by (simp add: decode_node_def DownloadNodeResponse_new_def from_wire_def ok_or_def)
  obtain d' where "store_node h b x (Chunk data) d = Inr d'"
    using store_node_succeeds [OF hash] chunk.prems by fastforce
  then show ?case using reply dec hash by (subst fetch_subtree.simps) (auto simp: Let_def)
next
  case (branch x l r)
  have hash: "hash_of_node h (Internal l r) = x" using ns(1) branch.hyps(1) by (auto simp: nodes_ok_def)
  obtain w1 where reply: "net_node net url b x w = (Body (DownloadNodeResponse_new enc (Internal l r)), w1)"
    using ns(2) branch.hyps(1) unfolding serves_def by (metis prod.collapse)
  have dec: "decode_node base64 (DownloadNodeResponse_new enc (Internal l r)) = Inr (Internal l r)"
    by (simp add: decode_node_def DownloadNodeResponse_new_def from_wire_def)
  obtain d1 w2 where left: "fetch_subtree net base64 h b url l (d, w1) = Some (Inr (), d1, w2)" using branch.IH(1) [OF branch.prems] by blast
  note L = fetch_subtree_keeps [OF left]
  have max1: "map_option bk_max_bytes (fmlookup (cf_buckets d1) b) = Some (2 ^ 64 - 1)" using L(3) [of b] branch.prems by metis
  obtain d2 w3 where right: "fetch_subtree net base64 h b url r (d1, w2) = Some (Inr (), d2, w3)" using branch.IH(2) [OF max1] by blast
  note R = fetch_subtree_keeps [OF right]
  have max2: "map_option bk_max_bytes (fmlookup (cf_buckets d2) b) = Some (2 ^ 64 - 1)" using R(3) [of b] max1 by metis
  have "fmhas (cf_nodes d2) l \<and> fmhas (cf_nodes d2) r" using L(1) R(1,2) by blast
  then obtain d' where "store_node h b x (Internal l r) d2 = Inr d'" using store_node_succeeds [OF hash] max2 by fastforce
  then show ?case using reply dec hash left right by (subst fetch_subtree.simps) (auto simp: Let_def)
qed


section \<open>Confirming\<close>

fun is_SyncSuccess :: "SyncResult \<Rightarrow> bool" where
  "is_SyncSuccess (SyncSuccess _ _ _ _) = True"
| "is_SyncSuccess _ = False"

definition root_differs :: "BucketId \<Rightarrow> H256 \<Rightarrow> DiskStorage \<Rightarrow> bool" where
  "root_differs b t d \<longleftrightarrow> (\<forall>bk. fmlookup (cf_buckets d) b = Some bk \<longrightarrow> bk_mmr_root bk \<noteq> t)"

lemma root_differs_adds: "adds lib h d d' \<Longrightarrow> root_differs b t d \<Longrightarrow> root_differs b t d'"
  unfolding adds_def root_differs_def by (metis (no_types, lifting) option.map_disc_iff option.map_sel option.sel option.discI option.collapse)

lemma root_differs_init: "t \<noteq> H256_zero \<Longrightarrow> root_differs b t d \<Longrightarrow> root_differs b t (init_bucket b' q d)"
  by (auto simp: root_differs_def init_bucket_def BucketState_new_def)

lemma sync_from_source_root:
  assumes "sync_from_source net base64 h b url dw = Some (r, dw')" "root_differs b t (fst dw)" "t \<noteq> H256_zero"
  shows "root_differs b t (fst dw')"
proof -
  obtain reply w where reply: "net_mmr_peaks net url b (snd dw) = (reply, w)" by (cases "net_mmr_peaks net url b (snd dw)")
  let ?d1 = "init_bucket b (2 ^ 64 - 1) (fst dw)"
  have d1: "root_differs b t ?d1" using root_differs_init assms by blast
  show ?thesis
  proof (cases reply)
    case (Body body)
    obtain target peaks where tp: "body = (target, peaks)" by (cases body)
    consider "fst dw' = ?d1" | r2 where "fetch_peaks net base64 h b url peaks (?d1, w) = Some (r2, dw')"
      using assms(1) reply Body tp by (auto simp: sync_from_source_def Let_def bind_eq_Some_conv split: if_splits option.splits)
    then show ?thesis
    proof cases
      case (2 r2)
      then show ?thesis using fetch_peaks_adds [OF 2] root_differs_adds d1 by fastforce
    qed (use d1 in simp)
  qed (use assms reply in \<open>auto simp: sync_from_source_def Let_def\<close>)
qed

lemma try_sources_root:
  "try_sources net base64 h duty tried urls dw = Some (ok, tried', dw') \<Longrightarrow> root_differs (sd_bucket_id duty) t (fst dw) \<Longrightarrow>
   t \<noteq> H256_zero \<Longrightarrow> root_differs (sd_bucket_id duty) t (fst dw')"
proof (induction urls arbitrary: tried dw)
  case (Cons url urls)
  then obtain r dw1 where s: "sync_from_source net base64 h (sd_bucket_id duty) url dw = Some (r, dw1)" by (auto simp: bind_eq_Some_conv)
  have "root_differs (sd_bucket_id duty) t (fst dw1)" using sync_from_source_root [OF s] Cons.prems by blast
  then show ?case using Cons.prems s by (auto split: if_splits intro: Cons.IH)
qed auto

lemma sync_and_confirm_silent:
  assumes "sync_and_confirm net base64 h cfg signer client duty dw s = Some (r, dw', s')"
  shows "s' = s \<and> \<not> is_SyncSuccess r"
proof -
  let ?b = "sd_bucket_id duty" and ?t = "sd_target_mmr_root duty"
  show ?thesis
  proof (cases "root_differs ?b ?t (fst dw) \<and> \<not> sd_sync_balance duty < sd_sync_price duty \<and> ?t \<noteq> H256_zero")
    case True
    then have "\<not> (case get_bucket ?b (fst dw) of None \<Rightarrow> False | Some bucket \<Rightarrow> bi_mmr_root bucket = ?t)"
      by (auto simp: root_differs_def get_bucket_def split: option.splits)
    then obtain ok tried dw1 where ts: "try_sources net base64 h duty [] (sd_source_endpoints duty) dw = Some (ok, tried, dw1)"
      and r: "(if \<not> ok then Some (SourcesUnavailable ?b tried, dw1, s)
        else case get_bucket ?b (fst dw1) of
               None \<Rightarrow> Some (VerificationFailed ?b, dw1, s)
             | Some local \<Rightarrow>
                 if bi_mmr_root local \<noteq> ?t then Some (VerificationFailed ?b, dw1, s)
                 else if sc_auto_confirm cfg
                 then (case confirm_on_chain signer client duty s of (r, s') \<Rightarrow> Some (r, dw1, s'))
                 else Some (SyncSuccess ?b ?t 0 0, dw1, s)) = Some (r, dw', s')"
      using assms True unfolding sync_and_confirm_def Let_def by (auto simp: bind_eq_Some_conv)
    have "root_differs ?b ?t (fst dw1)" using try_sources_root [OF ts] True by blast
    then show ?thesis using r by (auto simp: root_differs_def get_bucket_def split: if_splits option.splits)
  next
    case False
    then show ?thesis using assms
      by (auto simp: sync_and_confirm_def root_differs_def get_bucket_def Let_def split: if_splits option.splits)
  qed
qed

lemma run_duties_silent:
  "run_duties net base64 h cfg signer client active duties (dw, s) = Some (rs, dw', s') \<Longrightarrow> s' = s \<and> \<not> list_ex is_SyncSuccess rs"
proof (induction duties arbitrary: dw s rs)
  case (Cons duty duties)
  show ?case
  proof (cases "sd_bucket_id duty \<in> set active \<or> sc_max_concurrent_syncs cfg \<le> length active")
    case True
    then show ?thesis using Cons by (auto split: if_splits)
  next
    case False
    then have bind: "Option.bind (sync_and_confirm net base64 h cfg signer client duty dw s) (\<lambda>(r, dw1, s1).
        Option.bind (run_duties net base64 h cfg signer client active duties (dw1, s1)) (\<lambda>(rs, dw2, s2). Some (r # rs, dw2, s2))) = Some (rs, dw', s')"
      using Cons.prems by simp
    then obtain r dw1 s1 where one: "sync_and_confirm net base64 h cfg signer client duty dw s = Some (r, dw1, s1)"
      by (cases "sync_and_confirm net base64 h cfg signer client duty dw s") auto
    with bind obtain rs' where rest: "run_duties net base64 h cfg signer client active duties (dw1, s1) = Some (rs', dw', s')" "rs = r # rs'"
      by (cases "run_duties net base64 h cfg signer client active duties (dw1, s1)") auto
    show ?thesis using sync_and_confirm_silent [OF one] Cons.IH [OF rest(1)] rest(2) by simp
  qed
qed auto

lemma run_duty_pass_silent:
  "run_duty_pass net base64 h cfg signer client (dw, s) = Some (rs, dw', s') \<Longrightarrow> s' = s \<and> \<not> list_ex is_SyncSuccess rs"
  by (auto simp: run_duty_pass_def split: sum.splits dest: run_duties_silent)

text \<open>
  C36. The coordinator never confirms a sync: whatever it is asked to do, whatever the sources
  and the chain answer, no round reports a success and none submits anything to the chain. A
  sync stores nodes but never commits them, so a bucket whose root differs from the target
  before still differs after, and one that has the target already is not confirmed either.
\<close>

theorem replica_never_confirms:
  assumes "sync_loop_round net base64 h cfg signer client our i (st, dw, s) = Some (rs, st', dw', s')"
  shows "s' = s \<and> \<not> list_ex is_SyncSuccess rs"
proof -
  have pass: ?thesis if "map_option (\<lambda>(rs, dws). (rs, st, dws)) (run_duty_pass net base64 h cfg signer client (dw, s)) = Some (rs, st', dw', s')"
    using that run_duty_pass_silent [of net base64 h cfg signer client dw s rs dw' s'] by auto
  show ?thesis
  proof (cases i)
    case (SyncCommandIn cmd)
    then show ?thesis using assms
      by (auto simp: sync_loop_round_def Let_def split: option.splits SyncCommand.splits sum.splits dest!: sync_and_confirm_silent)
  next
    case (SyncEventIn event)
    then have "map_option (\<lambda>(rs, dws). (rs, st, dws)) (run_duty_pass net base64 h cfg signer client (dw, s)) = Some (rs, st', dw', s') \<or> rs = [] \<and> s' = s"
      using assms unfolding sync_loop_round_def Let_def
      by (cases event) (auto split: if_splits BlockEvent.splits simp del: map_option_eq_Some)
    then show ?thesis using pass by auto
  next
    case SyncTick
    then have "map_option (\<lambda>(rs, dws). (rs, st, dws)) (run_duty_pass net base64 h cfg signer client (dw, s)) = Some (rs, st', dw', s') \<or> rs = [] \<and> s' = s"
      using assms unfolding sync_loop_round_def Let_def by (auto split: if_splits simp del: map_option_eq_Some)
    then show ?thesis using pass by auto
  qed
qed

section \<open>The chain client\<close>

lemma bucket_snapshot_unseen: "bucket_snapshot_of (map_option (bucket_value V) b) = no_snapshot"
  by (cases b) (simp_all add: bucket_snapshot_of_def bucket_value_def)

lemma primaries_unseen: "primary_accounts_of (bucket_value V b) = []"
  by (simp add: primary_accounts_of_def bucket_value_def)

lemma no_duties:
  assumes "\<And>b. fetch_bucket_snapshot client b s = Inr no_snapshot"
  shows "duties_from client d now s as duties = Inr duties"
  using assms by (induction as) (simp_all add: no_snapshot_def)

text \<open>
  C37. The node finds no replica duty and no primary to sync from, whatever the chain holds:
  the client reads the snapshot and the primary providers of a bucket at the positions 4 and
  3 of its record, where the record has the primary providers and their required number.
\<close>

theorem replica_finds_no_duties:
  "get_active_replica_duties (SubxtReplicaClient E ord V lossy own online) d s = (if online s then Inr [] else Inl QueryFailed) \<and>
   fetch_primary_endpoints (SubxtReplicaClient E ord V lossy own online) b s = (if online s then Inr [] else Inl QueryFailed)"
proof -
  have "endpoints_for_accounts V lossy account_of [] s = []" for account_of by (simp add: endpoints_for_accounts_def List.map_filter_def)
  then show ?thesis
    by (auto simp: get_active_replica_duties_def SubxtReplicaClient_def bucket_snapshot_unseen primaries_unseen no_duties split: option.split)
qed

section \<open>Runs\<close>

definition length_hash :: "byte list \<Rightarrow> H256" where
  "length_hash bs = H256_repeat_byte (word_of_nat (length bs))"

definition demo_base64 :: "string \<Rightarrow> byte list option" where
  "demo_base64 s = Some (map (\<lambda>c. word_of_nat (of_char c)) s)"

definition chunk_net :: "H256 list \<Rightarrow> unit net" where
  "chunk_net peaks = \<lparr>net_mmr_peaks = (\<lambda>_ _ w. (Body (H256_repeat_byte 9, peaks), w)),
     net_node = (\<lambda>_ _ _ w. (Body (Some ''abc'', None), w))\<rparr>"

definition empty_store :: DiskStorage where
  "empty_store = \<lparr>cf_nodes = fmempty, cf_buckets = fmempty\<rparr>"

lemma chunk_net_fetch:
  "\<exists>d'. fetch_subtree (chunk_net peaks) demo_base64 length_hash 1 url (H256_repeat_byte 4) (init_bucket 1 (2 ^ 64 - 1) empty_store, ()) =
     Some (Inr (), d', ())"
  by (subst fetch_subtree.simps)
    (simp add: chunk_net_def empty_store_def init_bucket_def fmhas_def decode_node_def from_wire_def demo_base64_def ok_or_def DEFAULT_CHUNK_SIZE_def
      hash_of_node_def hash_leaf_def length_hash_def store_node_def ensure_def node_size_def BucketState_new_def saturating_add_def Let_def)

theorem sync_stores_verified_nodes_witness:
  "\<exists>d'. sync_from_source (chunk_net [H256_repeat_byte 4]) demo_base64 length_hash 1 ''u'' (empty_store, ()) =
      Some (Inr (H256_repeat_byte 9), d', ()) \<and> nodes_ok length_hash (cf_nodes d') \<and> fmhas (cf_nodes d') (H256_repeat_byte 4)"
proof -
  obtain d' where f: "fetch_subtree (chunk_net [H256_repeat_byte 4]) demo_base64 length_hash 1 ''u'' (H256_repeat_byte 4)
      (init_bucket 1 (2 ^ 64 - 1) empty_store, ()) = Some (Inr (), d', ())" using chunk_net_fetch by blast
  have root: "H256_repeat_byte 9 \<noteq> H256_zero" by (simp add: H256_zero_def)
  have peaks: "net_mmr_peaks (chunk_net [H256_repeat_byte 4]) ''u'' 1 () = (Body (H256_repeat_byte 9, [H256_repeat_byte 4]), ())"
    by (simp add: chunk_net_def)
  have s: "sync_from_source (chunk_net [H256_repeat_byte 4]) demo_base64 length_hash 1 ''u'' (empty_store, ()) =
      Some (Inr (H256_repeat_byte 9), d', ())"
    using f root peaks by (simp add: sync_from_source_def get_bucket_def init_bucket_def empty_store_def BucketState_new_def fmhas_def Let_def)
  have "store_reachable demo_mmr length_hash empty_store" unfolding empty_store_def by (rule store_reachable.empty)
  from sync_stores_verified_nodes [OF s this] fetch_subtree_keeps(1) [OF f] s show ?thesis by blast
qed


definition demo_sync_client :: "unit replica_client" where
  "demo_sync_client = \<lparr>get_current_block = (\<lambda>_. Inr 5), fetch_replica_agreements = (\<lambda>_ _. Inr []),
     fetch_bucket_snapshot = (\<lambda>_ _. Inr \<lparr>si_mmr_root = H256_repeat_byte 9, si_leaf_count = 1\<rparr>),
     fetch_primary_endpoints = (\<lambda>_ _. Inr [''u'']), fetch_replica_endpoints = (\<lambda>_ _. Inr []),
     submit_sync_confirmation = (\<lambda>_ _ s. (Inr (0, 0), s))\<rparr>"

theorem replica_never_confirms_witness:
  "\<exists>dw'. sync_loop_round (chunk_net []) demo_base64 length_hash
      \<lparr>sc_poll_interval = 600, sc_sync_timeout = 300, sc_max_concurrent_syncs = 3, sc_auto_confirm = True\<rparr>
      (Some (\<lambda>_. Inr (Sr25519 [14]))) demo_sync_client (Some 14) (SyncCommandIn (Some (ForceSync 1)))
      (\<lparr>sl_running = True, sl_paused = False, sl_events_open = True\<rparr>, (empty_store, ()), ()) =
      Some ([VerificationFailed 1], \<lparr>sl_running = True, sl_paused = False, sl_events_open = True\<rparr>, dw', ()) \<and>
    \<not> list_ex is_SyncSuccess [VerificationFailed 1]"
proof -
  let ?round = "sync_loop_round (chunk_net []) demo_base64 length_hash
      \<lparr>sc_poll_interval = 600, sc_sync_timeout = 300, sc_max_concurrent_syncs = 3, sc_auto_confirm = True\<rparr>
      (Some (\<lambda>_. Inr (Sr25519 [14]))) demo_sync_client (Some 14) (SyncCommandIn (Some (ForceSync 1)))
      (\<lparr>sl_running = True, sl_paused = False, sl_events_open = True\<rparr>, (empty_store, ()), ())"
  have "\<exists>dw'. ?round = Some ([VerificationFailed 1], \<lparr>sl_running = True, sl_paused = False, sl_events_open = True\<rparr>, dw', ())"
    by (simp add: sync_loop_round_def get_sync_duty_def fetch_source_endpoints_def demo_sync_client_def sync_and_confirm_def sync_from_source_def
        chunk_net_def empty_store_def get_bucket_def init_bucket_def BucketState_new_def fmhas_def H256_zero_def Let_def)
  then obtain dw' where r: "?round = Some ([VerificationFailed 1], \<lparr>sl_running = True, sl_paused = False, sl_events_open = True\<rparr>, dw', ())" by blast
  from replica_never_confirms [OF r] r show ?thesis by blast
qed

end
