(* ===== verification/Provider_Api.thy ===== *)
theory Provider_Api
  imports Replica_Sync
begin

text \<open>
  The HTTP interface of the provider node (\<open>provider-node/src/api.rs\<close>, with the request and
  response types of \<open>types.rs\<close> and the status codes of \<open>error.rs\<close>). A handler takes what the
  connection supplies and the parsed request and returns the response with the store after
  the request; the record \<open>api_lib\<close> holds the text codings, \<open>cx_access\<close> is the answer of the
  membership cache to this request and \<open>cx_limiter\<close> the decision of the rate limiter
  (\<open>None\<close> when it fails). Routing, body limits and CORS are left to the web framework.
\<close>

record api_lib =
  parse_h256 :: "string \<Rightarrow> H256 option"
  base64_decode :: "string \<Rightarrow> byte list option"
  base64_encode :: "byte list \<Rightarrow> string"
  signature_hex :: "MultiSignature \<Rightarrow> string"

record Authenticator =
  au_lib :: auth_lib
  au_max_skew :: nat
  au_provider_account :: "account option"

record 'm provider_state =
  ax_lib :: api_lib
  ax_auth :: Authenticator
  ax_crypto :: crypto
  ax_pairs :: pair_lib
  ax_mmr :: "'m mmr_lib"
  ax_provider_id :: string
  ax_version :: string

abbreviation ax_hash :: "'m provider_state \<Rightarrow> byte list \<Rightarrow> H256" where
  "ax_hash A \<equiv> blake2_256 (ax_crypto A)"

record connection =
  cx_headers :: "(string \<times> string option) list"
  cx_access :: "BucketId \<Rightarrow> MembershipError + CachedMembership"
  cx_now :: nat
  cx_limiter :: "bool option"

section \<open>Requests and responses\<close>

record UploadNodeRequest =
  un_bucket_id :: BucketId
  un_hash :: string
  un_data :: "string option"
  un_children :: "string list option"

datatype ApiRequest =
    GetHealth
  | GetInfo
  | GetStats
  | GetNode BucketId string
  | PutNode UploadNodeRequest
  | PostExists BucketId "string list"
  | PostCommit BucketId "string list"
  | GetRead BucketId string nat nat
  | GetCommitment BucketId
  | GetCheckpointSignature BucketId
  | GetMmrProof BucketId nat
  | GetChunkProof BucketId string nat
  | PostDelete BucketId nat
  | GetMmrPeaks BucketId
  | PostFetchNodes BucketId "string list"
  | PostNegotiate NegotiateRequest
  | GetHistoricalRoots BucketId
  | GetSyncStatus BucketId

record ChunkWithProof =
  cp_hash :: H256
  cp_data :: string
  cp_proof :: "H256 list"

record ProviderReadiness =
  signing_configured :: bool
  provider_info_loaded :: bool
  deregistering :: bool

datatype ApiResponse =
    HealthResponse string string
  | InfoResponse string "NodeProviderInfo option" ProviderReadiness
  | StatsResponse string nat nat nat
  | DownloadNodeResponse H256 "string option" "H256 list option"
  | UploadNodeResponse bool
  | ExistsResponse "H256 list" "H256 list"
  | CommitResponse Commitment "nat list" string
  | ReadResponse "ChunkWithProof list"
  | CommitmentResponse BucketId Commitment string
  | CheckpointSignatureResponse BucketId Commitment string
  | MmrProofResponse MmrProof
  | ChunkProofResponse H256 "string option" "H256 list"
  | DeleteResponse Commitment string
  | MmrPeaksResponse BucketId H256 "H256 list"
  | FetchNodesResponse "(H256 \<times> string option \<times> H256 list option) list"
  | NegotiateResponse SignedTerms
  | HistoricalRootsResponse BucketId H256 "string list" nat
  | BucketSyncStatusResponse BucketId H256 nat "nat option" bool

section \<open>Checks and decoding\<close>

definition auth_header :: "(string \<times> string option) list \<Rightarrow> string option" where
  "auth_header headers = Option.bind (map_of headers ''authorization'') id"

definition check_role :: "'m provider_state \<Rightarrow> connection \<Rightarrow> string \<Rightarrow> BucketId \<Rightarrow> RequiredRole \<Rightarrow> NodeError + unit" where
  "check_role A cx method bucket_id required =
     map_sum NodeAuth id (require_role (au_lib (ax_auth A)) (au_max_skew (ax_auth A)) (au_provider_account (ax_auth A))
       (cx_access cx bucket_id) (auth_header (cx_headers cx)) method bucket_id required (cx_now cx))"

definition decode_hash :: "'m provider_state \<Rightarrow> string \<Rightarrow> NodeError + H256" where
  "decode_hash A text = ok_or (parse_h256 (ax_lib A) text) (NodeInvalidHash text) Inr"

fun decode_hashes :: "'m provider_state \<Rightarrow> string list \<Rightarrow> NodeError + H256 list" where
  "decode_hashes A [] = Inr []"
| "decode_hashes A (t # ts) = attempt (decode_hash A t) (\<lambda>hash. attempt (decode_hashes A ts) (\<lambda>hashes. Inr (hash # hashes)))"

definition from_store :: "StoreError + 'a \<Rightarrow> NodeError + 'a" where
  "from_store r = map_sum NodeBackend id r"

definition require_bucket :: "BucketId \<Rightarrow> DiskStorage \<Rightarrow> NodeError + BucketInfo" where
  "require_bucket bucket_id d = ok_or (get_bucket bucket_id d) (NodeBackend (StoreBucketNotFound bucket_id)) Inr"

definition decode_upload :: "'m provider_state \<Rightarrow> UploadNodeRequest \<Rightarrow> NodeError + H256 \<times> ChunkTreeNode" where
  "decode_upload A request =
     attempt (decode_hash A (un_hash request)) (\<lambda>hash.
     attempt (case un_data request of
                None \<Rightarrow> Inr None
              | Some text \<Rightarrow> ok_or (base64_decode (ax_lib A) text) NodeDecode (\<lambda>data. Inr (Some data))) (\<lambda>data.
     attempt (case un_children request of
                None \<Rightarrow> Inr None
              | Some hs \<Rightarrow> attempt (decode_hashes A hs) (\<lambda>children. Inr (Some children))) (\<lambda>children.
     attempt (from_store (from_wire data children)) (\<lambda>node. Inr (hash, node)))))"

section \<open>Handlers that read\<close>

definition info :: "'m provider_state \<Rightarrow> NodeState \<Rightarrow> ApiResponse" where
  "info A node =
     (let registration = cs_provider_info (nd_chain_state node) in
      InfoResponse (ax_provider_id A) registration
        \<lparr>signing_configured = (nd_keypair node \<noteq> None),
         provider_info_loaded = (registration \<noteq> None),
         deregistering = (case registration of Some i \<Rightarrow> ni_deregister_at i \<noteq> None | None \<Rightarrow> False)\<rparr>)"

definition node_stats :: "'m provider_state \<Rightarrow> DiskStorage \<Rightarrow> ApiResponse" where
  "node_stats A d = (let st = stats d in StatsResponse (ax_provider_id A) (ss_buckets st) (ss_nodes st) (ss_bytes st))"

definition download :: "'m provider_state \<Rightarrow> H256 \<Rightarrow> ChunkTreeNode \<Rightarrow> H256 \<times> string option \<times> H256 list option" where
  "download A hash node = (hash, DownloadNodeResponse_new (base64_encode (ax_lib A)) node)"

definition get_node :: "'m provider_state \<Rightarrow> BucketId \<Rightarrow> string \<Rightarrow> DiskStorage \<Rightarrow> NodeError + ApiResponse" where
  "get_node A bucket_id text d =
     attempt (decode_hash A text) (\<lambda>hash.
     attempt (require_bucket bucket_id d) (\<lambda>_.
     ok_or (fmlookup (cf_nodes d) hash) (NodeBackend (NodeNotFound hash)) (\<lambda>node.
     Inr (case download A hash node of (i, data, children) \<Rightarrow> DownloadNodeResponse i data children))))"

definition api_check_exists :: "'m provider_state \<Rightarrow> connection \<Rightarrow> BucketId \<Rightarrow> string list \<Rightarrow> DiskStorage \<Rightarrow> NodeError + ApiResponse" where
  "api_check_exists A cx bucket_id texts d =
     attempt (check_role A cx ''POST'' bucket_id NeedReader) (\<lambda>_.
     attempt (decode_hashes A texts) (\<lambda>hashes.
     Inr (case check_exists hashes d of (exists, missing) \<Rightarrow> ExistsResponse exists missing)))"

definition read_chunks :: "'m provider_state \<Rightarrow> BucketId \<Rightarrow> string \<Rightarrow> nat \<Rightarrow> nat \<Rightarrow> DiskStorage \<Rightarrow> NodeError + ApiResponse" where
  "read_chunks A bucket_id text offset len d =
     attempt (decode_hash A text) (\<lambda>tree.
     attempt (require_bucket bucket_id d) (\<lambda>_.
     let start_chunk = offset div DEFAULT_CHUNK_SIZE;
         end_chunk = div_ceil (saturating_add 64 offset len) DEFAULT_CHUNK_SIZE in
     attempt (from_store (get_chunks_in_range (cf_nodes d) tree start_chunk end_chunk)) (\<lambda>chunks.
     Inr (ReadResponse (map (\<lambda>(hash, data, siblings).
       \<lparr>cp_hash = hash, cp_data = base64_encode (ax_lib A) data, cp_proof = siblings\<rparr>) chunks)))))"

definition get_mmr_proof_handler :: "'m provider_state \<Rightarrow> connection \<Rightarrow> BucketId \<Rightarrow> nat \<Rightarrow> DiskStorage \<Rightarrow> NodeError + ApiResponse" where
  "get_mmr_proof_handler A cx bucket_id idx d =
     attempt (check_role A cx ''GET'' bucket_id NeedReader) (\<lambda>_.
     attempt (from_store (get_mmr_proof (ax_mmr A) (ax_hash A) bucket_id idx d)) (\<lambda>mmr_proof.
     Inr (MmrProofResponse mmr_proof)))"

definition get_chunk_proof :: "'m provider_state \<Rightarrow> BucketId \<Rightarrow> string \<Rightarrow> nat \<Rightarrow> DiskStorage \<Rightarrow> NodeError + ApiResponse" where
  "get_chunk_proof A bucket_id text idx d =
     attempt (decode_hash A text) (\<lambda>tree.
     attempt (require_bucket bucket_id d) (\<lambda>_.
     attempt (from_store (get_chunk_at_index (cf_nodes d) tree idx)) (\<lambda>(chunk_data, siblings).
     Inr (ChunkProofResponse (hash_leaf (ax_hash A) chunk_data) (Some (base64_encode (ax_lib A) chunk_data)) siblings))))"

definition get_mmr_peaks_handler :: "'m provider_state \<Rightarrow> connection \<Rightarrow> BucketId \<Rightarrow> DiskStorage \<Rightarrow> NodeError + ApiResponse" where
  "get_mmr_peaks_handler A cx bucket_id d =
     attempt (check_role A cx ''GET'' bucket_id NeedReader) (\<lambda>_.
     attempt (from_store (get_mmr_peaks (ax_mmr A) (ax_hash A) bucket_id d)) (\<lambda>(root_hash, peaks).
     Inr (MmrPeaksResponse bucket_id root_hash peaks)))"

definition fetch_nodes :: "'m provider_state \<Rightarrow> BucketId \<Rightarrow> string list \<Rightarrow> DiskStorage \<Rightarrow> NodeError + ApiResponse" where
  "fetch_nodes A bucket_id texts d =
     attempt (require_bucket bucket_id d) (\<lambda>_.
     attempt (decode_hashes A texts) (\<lambda>hashes.
     Inr (FetchNodesResponse (List.map_filter (\<lambda>hash. map_option (download A hash) (fmlookup (cf_nodes d) hash)) hashes))))"

definition get_historical_roots :: "'m provider_state \<Rightarrow> connection \<Rightarrow> BucketId \<Rightarrow> DiskStorage \<Rightarrow> NodeError + ApiResponse" where
  "get_historical_roots A cx bucket_id d =
     attempt (check_role A cx ''GET'' bucket_id NeedReader) (\<lambda>_.
     attempt (require_bucket bucket_id d) (\<lambda>bucket.
     Inr (HistoricalRootsResponse bucket_id (bi_mmr_root bucket) (replicate 6 []) 0)))"

definition get_replica_sync_status :: "'m provider_state \<Rightarrow> connection \<Rightarrow> BucketId \<Rightarrow> DiskStorage \<Rightarrow> NodeError + ApiResponse" where
  "get_replica_sync_status A cx bucket_id d =
     attempt (check_role A cx ''GET'' bucket_id NeedReader) (\<lambda>_.
     attempt (require_bucket bucket_id d) (\<lambda>bucket.
     Inr (BucketSyncStatusResponse bucket_id (bi_mmr_root bucket) (bi_leaf_count bucket) None False)))"

section \<open>Handlers that sign\<close>

definition sign_commitment :: "'m provider_state \<Rightarrow> NodeState \<Rightarrow> BucketId \<Rightarrow> Commitment \<Rightarrow> NodeError + string" where
  "sign_commitment A node bucket_id commitment =
     node_sign (signature_hex (ax_lib A)) (ax_pairs A) node (encode_payload (CommitmentPayload_new bucket_id commitment))"

definition bucket_commitment :: "BucketInfo \<Rightarrow> Commitment" where
  "bucket_commitment bucket = \<lparr>mmr_root = bi_mmr_root bucket, start_seq = bi_start_seq bucket, leaf_count = bi_leaf_count bucket\<rparr>"

definition get_commitment :: "'m provider_state \<Rightarrow> NodeState \<Rightarrow> connection \<Rightarrow> BucketId \<Rightarrow> DiskStorage \<Rightarrow> NodeError + ApiResponse" where
  "get_commitment A node cx bucket_id d =
     attempt (check_role A cx ''GET'' bucket_id NeedReader) (\<lambda>_.
     attempt (require_bucket bucket_id d) (\<lambda>bucket.
     attempt (sign_commitment A node bucket_id (bucket_commitment bucket)) (\<lambda>signature.
     Inr (CommitmentResponse bucket_id (bucket_commitment bucket) signature))))"

definition get_checkpoint_signature :: "'m provider_state \<Rightarrow> NodeState \<Rightarrow> connection \<Rightarrow> BucketId \<Rightarrow> DiskStorage \<Rightarrow> NodeError + ApiResponse" where
  "get_checkpoint_signature A node cx bucket_id d =
     attempt (check_role A cx ''GET'' bucket_id NeedReader) (\<lambda>_.
     attempt (require_bucket bucket_id d) (\<lambda>bucket.
     attempt (sign_commitment A node bucket_id (bucket_commitment bucket)) (\<lambda>signature.
     Inr (CheckpointSignatureResponse bucket_id (bucket_commitment bucket) signature))))"

definition rate_limit_by_ip_middleware :: "connection \<Rightarrow> NodeError + 'a \<Rightarrow> NodeError + 'a" where
  "rate_limit_by_ip_middleware cx next =
     (case cx_limiter cx of None \<Rightarrow> Inl RateLimiterFailed | Some permitted \<Rightarrow> if permitted then next else Inl RateLimited)"

section \<open>Handlers that write\<close>

definition upload_node ::
    "'m provider_state \<Rightarrow> connection \<Rightarrow> UploadNodeRequest \<Rightarrow> DiskStorage \<Rightarrow> (NodeError + ApiResponse) \<times> DiskStorage" where
  "upload_node A cx request d =
     (case attempt (check_role A cx ''PUT'' (un_bucket_id request) NeedWriter) (\<lambda>_. decode_upload A request) of
        Inl e \<Rightarrow> (Inl e, d)
      | Inr (hash, node) \<Rightarrow>
          let d1 = init_bucket (un_bucket_id request) (2 ^ 64 - 1) d in
          (case store_node (ax_hash A) (un_bucket_id request) hash node d1 of
             Inl e \<Rightarrow> (Inl (NodeBackend e), d1)
           | Inr d2 \<Rightarrow> (Inr (UploadNodeResponse True), d2)))"

definition commit_data ::
    "'m provider_state \<Rightarrow> NodeState \<Rightarrow> connection \<Rightarrow> BucketId \<Rightarrow> string list \<Rightarrow> DiskStorage \<Rightarrow> (NodeError + ApiResponse) \<times> DiskStorage" where
  "commit_data A node cx bucket_id texts d =
     (case attempt (check_role A cx ''POST'' bucket_id NeedWriter) (\<lambda>_. decode_hashes A texts) of
        Inl e \<Rightarrow> (Inl e, d)
      | Inr data_roots \<Rightarrow>
          (case commit (ax_mmr A) (ax_hash A) bucket_id data_roots d of
             Inl e \<Rightarrow> (Inl (NodeBackend e), d)
           | Inr (outcome, d1) \<Rightarrow>
               let commitment = \<lparr>mmr_root = co_mmr_root outcome, start_seq = co_start_seq outcome, leaf_count = co_leaf_count outcome\<rparr> in
               (attempt (sign_commitment A node bucket_id commitment) (\<lambda>signature.
                  Inr (CommitResponse commitment (co_leaf_indices outcome) signature)), d1)))"

definition delete_data ::
    "'m provider_state \<Rightarrow> NodeState \<Rightarrow> connection \<Rightarrow> BucketId \<Rightarrow> nat \<Rightarrow> DiskStorage \<Rightarrow> (NodeError + ApiResponse) \<times> DiskStorage" where
  "delete_data A node cx bucket_id new_start_seq d =
     (case check_role A cx ''POST'' bucket_id NeedAdmin of
        Inl e \<Rightarrow> (Inl e, d)
      | Inr _ \<Rightarrow>
          (case delete_before (ax_mmr A) (ax_hash A) bucket_id new_start_seq d of
             Inl e \<Rightarrow> (Inl (NodeBackend e), d)
           | Inr (commitment, d1) \<Rightarrow>
               (attempt (sign_commitment A node bucket_id commitment) (\<lambda>signature. Inr (DeleteResponse commitment signature)), d1)))"

section \<open>The routes\<close>

fun create_router ::
    "'m provider_state \<Rightarrow> NodeState \<Rightarrow> connection \<Rightarrow> ApiRequest \<Rightarrow> DiskStorage \<Rightarrow> (NodeError + ApiResponse) \<times> DiskStorage" where
  "create_router A node cx GetHealth d = (Inr (HealthResponse ''healthy'' (ax_version A)), d)"
| "create_router A node cx GetInfo d = (Inr (info A node), d)"
| "create_router A node cx GetStats d = (Inr (node_stats A d), d)"
| "create_router A node cx (GetNode b hash) d = (get_node A b hash d, d)"
| "create_router A node cx (PutNode request) d = upload_node A cx request d"
| "create_router A node cx (PostExists b hashes) d = (api_check_exists A cx b hashes d, d)"
| "create_router A node cx (PostCommit b roots) d = commit_data A node cx b roots d"
| "create_router A node cx (GetRead b text offset len) d = (read_chunks A b text offset len d, d)"
| "create_router A node cx (GetCommitment b) d = (get_commitment A node cx b d, d)"
| "create_router A node cx (GetCheckpointSignature b) d = (get_checkpoint_signature A node cx b d, d)"
| "create_router A node cx (GetMmrProof b i) d = (get_mmr_proof_handler A cx b i d, d)"
| "create_router A node cx (GetChunkProof b text i) d = (get_chunk_proof A b text i d, d)"
| "create_router A node cx (PostDelete b seq) d = delete_data A node cx b seq d"
| "create_router A node cx (GetMmrPeaks b) d = (get_mmr_peaks_handler A cx b d, d)"
| "create_router A node cx (PostFetchNodes b hashes) d = (fetch_nodes A b hashes d, d)"
| "create_router A node cx (PostNegotiate req) d =
     (rate_limit_by_ip_middleware cx
        (map_sum id NegotiateResponse (negotiate_terms (ax_crypto A) (ax_pairs A) node req)), d)"
| "create_router A node cx (GetHistoricalRoots b) d = (get_historical_roots A cx b d, d)"
| "create_router A node cx (GetSyncStatus b) d = (get_replica_sync_status A cx b d, d)"

section \<open>Status codes\<close>

text \<open>The status and the \<open>error\<close> field of the reply to a failed request.\<close>

fun store_response :: "StoreError \<Rightarrow> nat \<times> string" where
  "store_response (NodeNotFound _) = (404, ''not_found'')"
| "store_response (LeafNotFound _ _) = (404, ''not_found'')"
| "store_response (ChildrenMissing _) = (400, ''children_missing'')"
| "store_response (InvalidChildCount _) = (400, ''invalid_child_count'')"
| "store_response (ChunkTooLarge _) = (400, ''chunk_too_large'')"
| "store_response (ChunkIndexOutOfRange _ _) = (400, ''chunk_index_out_of_range'')"
| "store_response InvalidNode = (400, ''invalid_node'')"
| "store_response (QuotaExceeded _ _) = (507, ''quota_exceeded'')"
| "store_response (InvalidStartSeq _ _ _) = (400, ''invalid_start_seq'')"
| "store_response (StoreBucketNotFound _) = (404, ''bucket_not_found'')"
| "store_response (RootNotFound _) = (404, ''root_not_found'')"
| "store_response (TreeTooLarge _) = (400, ''tree_too_large'')"
| "store_response CommitmentNotReproducible = (404, ''commitment_not_reproducible'')"
| "store_response (LeavesNotHeld _ _ _ _) = (404, ''leaves_not_held'')"
| "store_response (InvalidHash _ _) = (400, ''invalid_hash'')"
| "store_response (NonCanonicalTree _) = (400, ''non_canonical_tree'')"
| "store_response (StoreMmr _) = (500, ''internal_error'')"

fun into_response :: "NodeError \<Rightarrow> nat \<times> string" where
  "into_response (NodeBackend e) = store_response e"
| "into_response (NodeInvalidHash _) = (400, ''invalid_hash'')"
| "into_response NodeInvalidSignature = (400, ''invalid_signature'')"
| "into_response NodeNotAuthorized = (403, ''not_authorized'')"
| "into_response (NodeChainClient _) = (500, ''internal_error'')"
| "into_response RateLimiterFailed = (500, ''internal_error'')"
| "into_response StorageTaskFailed = (500, ''internal_error'')"
| "into_response NodeDecode = (400, ''serialization_error'')"
| "into_response (NodeAuth AuthRequired) = (401, ''auth_required'')"
| "into_response (NodeAuth TimestampExpired) = (401, ''auth_required'')"
| "into_response (NodeAuth InsufficientRole) = (403, ''insufficient_role'')"
| "into_response (NodeAuth (MembershipLookup Unavailable)) = (503, ''membership_unavailable'')"
| "into_response (NodeAuth (MembershipLookup (Undecodable _))) = (500, ''internal_error'')"
| "into_response (Refused NoKey) = (503, ''signing_unavailable'')"
| "into_response (Refused Unregistered) = (503, ''provider_info_unavailable'')"
| "into_response (Refused KeyMismatch) = (503, ''provider_key_mismatch'')"
| "into_response NotAcceptingPrimary = (422, ''not_accepting_primary'')"
| "into_response NotAcceptingReplicas = (422, ''not_accepting_replicas'')"
| "into_response ReplicaRequiresBucket = (422, ''replica_requires_bucket'')"
| "into_response (PriceBelowListed _ _) = (422, ''price_below_listed'')"
| "into_response (DurationOutOfBounds _ _ _) = (422, ''duration_out_of_bounds'')"
| "into_response (RequestExceedsCapacity _ _ _) = (422, ''capacity_exceeded'')"
| "into_response (RequestBelowMinimum _ _) = (422, ''max_bytes_below_minimum'')"
| "into_response RequestedMaxBytesZero = (422, ''invalid_max_bytes_request'')"
| "into_response ChainStateNotReady = (503, ''chain_state_not_ready'')"
| "into_response ChainNotConnected = (503, ''chain_unavailable'')"
| "into_response ProviderDeregistering = (503, ''provider_deregistering'')"
| "into_response RateLimited = (429, ''rate_limited'')"

end
