(* ===== verification/Api_Safety.thy ===== *)
theory Api_Safety
  imports Provider_Api Node_Safety Responder_Safety
begin

text \<open>
  What the node's HTTP interface guarantees: who can change the store and how, that the
  commitments it signs stay reproducible and verify on chain, and that reading a byte range
  returns the bytes that were committed.
\<close>

section \<open>The requests that write\<close>

fun write_target :: "ApiRequest \<Rightarrow> (string \<times> BucketId \<times> RequiredRole) option" where
  "write_target (PutNode request) = Some (''PUT'', un_bucket_id request, NeedWriter)"
| "write_target (PostCommit b _) = Some (''POST'', b, NeedWriter)"
| "write_target (PostDelete b _) = Some (''POST'', b, NeedAdmin)"
| "write_target _ = None"

text \<open>The store keeps every node and every other bucket.\<close>

definition touches_only :: "BucketId \<Rightarrow> DiskStorage \<Rightarrow> DiskStorage \<Rightarrow> bool" where
  "touches_only b d d' \<longleftrightarrow>
     (\<forall>b'. b' \<noteq> b \<longrightarrow> fmlookup (cf_buckets d') b' = fmlookup (cf_buckets d) b') \<and>
     (\<forall>x n. fmlookup (cf_nodes d) x = Some n \<longrightarrow> fmlookup (cf_nodes d') x = Some n)"

lemma touches_only_refl [simp]: "touches_only b d d"
  by (simp add: touches_only_def)

lemma touches_only_trans: "touches_only b d d1 \<Longrightarrow> touches_only b d1 d2 \<Longrightarrow> touches_only b d d2"
  by (simp add: touches_only_def)

lemma init_bucket_touches: "touches_only b d (init_bucket b q d)"
  by (simp add: touches_only_def init_bucket_def)

lemma store_node_touches: "store_node h b x n d = Inr d' \<Longrightarrow> touches_only b d d'"
  by (auto simp: touches_only_def store_node_def fmhas_def result_simps Let_def split: if_splits)

lemma commit_touches: "commit lib h b roots d = Inr (out, d') \<Longrightarrow> touches_only b d d'"
  by (erule commit_Inr) (auto simp: touches_only_def)

lemma delete_before_touches: "delete_before lib h b n d = Inr (c, d') \<Longrightarrow> touches_only b d d'"
  by (erule delete_before_Inr) (auto simp: touches_only_def)

lemmas touches = init_bucket_touches store_node_touches commit_touches delete_before_touches

text \<open>What a request that passes the role check and then works on the store can do.\<close>

lemma upload_node_cases:
  assumes "upload_node A cx request d = (r, d')" "d' \<noteq> d"
  obtains "check_role A cx ''PUT'' (un_bucket_id request) NeedWriter = Inr ()" "touches_only (un_bucket_id request) d d'"
    "(store_step (ax_mmr A) (ax_hash A))\<^sup>*\<^sup>* d d'"
proof -
  let ?d1 = "init_bucket (un_bucket_id request) (2 ^ 64 - 1) d"
  have role: "check_role A cx ''PUT'' (un_bucket_id request) NeedWriter = Inr ()"
    using assms by (auto simp: upload_node_def result_simps split: sum.splits)
  have "d' = ?d1 \<or> (\<exists>x n. store_node (ax_hash A) (un_bucket_id request) x n ?d1 = Inr d')"
    using assms by (auto simp: upload_node_def Let_def split: sum.splits prod.splits)
  then have "touches_only (un_bucket_id request) d d' \<and> (store_step (ax_mmr A) (ax_hash A))\<^sup>*\<^sup>* d d'"
    by (meson init_bucket_touches store_node_touches touches_only_trans r_into_rtranclp rtranclp.rtrancl_into_rtrancl store_step.init store_step.node)
  with role that show thesis by blast
qed

lemma commit_data_cases:
  assumes "commit_data A node cx b texts d = (r, d')" "d' \<noteq> d"
  obtains out roots where "check_role A cx ''POST'' b NeedWriter = Inr ()" "commit (ax_mmr A) (ax_hash A) b roots d = Inr (out, d')"
  using assms by (auto simp: commit_data_def Let_def result_simps split: sum.splits prod.splits)

lemma delete_data_cases:
  assumes "delete_data A node cx b n d = (r, d')" "d' \<noteq> d"
  obtains c where "check_role A cx ''POST'' b NeedAdmin = Inr ()" "delete_before (ax_mmr A) (ax_hash A) b n d = Inr (c, d')"
  using assms by (auto simp: delete_data_def Let_def result_simps split: sum.splits prod.splits)

lemma router_change:
  assumes "create_router A node cx req d = (r, d')" "d' \<noteq> d"
  obtains verb b required where "write_target req = Some (verb, b, required)" "check_role A cx verb b required = Inr ()"
    "touches_only b d d'" "(store_step (ax_mmr A) (ax_hash A))\<^sup>*\<^sup>* d d'"
proof (cases req)
  case (PutNode request)
  with assms have "upload_node A cx request d = (r, d')" by simp
  then show thesis using assms(2) by (rule upload_node_cases) (rule that, simp_all add: PutNode)
next
  case (PostCommit b texts)
  with assms have "commit_data A node cx b texts d = (r, d')" by simp
  then show thesis using assms(2)
    by (rule commit_data_cases) (rule that, auto simp: PostCommit intro: commit_touches store_step.commit)
next
  case (PostDelete b n)
  with assms have "delete_data A node cx b n d = (r, d')" by simp
  then show thesis using assms(2)
    by (rule delete_data_cases) (rule that, auto simp: PostDelete intro: delete_before_touches store_step.delete)
qed (use assms in auto)


lemma router_steps: "create_router A node cx req d = (r, d') \<Longrightarrow> (store_step (ax_mmr A) (ax_hash A))\<^sup>*\<^sup>* d d'"
  by (cases "d' = d") (auto elim: router_change)

text \<open>Membership as the resolver reads it from the chain in state \<open>s\<close>.\<close>

definition chain_access :: "account option \<Rightarrow> 'c pstate \<Rightarrow> nat \<Rightarrow> BucketId \<Rightarrow> MembershipError + CachedMembership" where
  "chain_access own s t b =
     Inr \<lparr>cm_access = fetch_access b s, cm_serves_as_replica = fetch_serves_as_replica own b s, cm_fetched_at = t\<rparr>"

text \<open>
  C7. A request changes the store of a node that sees the chain's membership only when it is
  an upload, a commit or a deletion that carries a signature, not older than the allowed
  skew, on its verb and its bucket, by an account that is a writer or an admin of the
  bucket on chain, for a deletion an admin. The change stays within that bucket and
  forgets no stored node.
\<close>

theorem store_change_authorized:
  assumes run: "create_router A node cx req d = (r, d')" "d' \<noteq> d"
    and view: "cx_access cx = chain_access (au_provider_account (ax_auth A)) s t"
  shows "\<exists>verb b required. write_target req = Some (verb, b, required) \<and> touches_only b d d' \<and>
    (\<exists>pubkey sig timestamp_str timestamp m B role.
      parse_u64 timestamp_str = Some timestamp \<and> abs_diff (cx_now cx) timestamp \<le> au_max_skew (ax_auth A) \<and>
      m \<in> {bytes_of (auth_message verb b timestamp_str), wrap_bytes (bytes_of (auth_message verb b timestamp_str))} \<and>
      sr25519_verify (au_lib (ax_auth A)) sig m pubkey \<and>
      fmlookup (Buckets s) b = Some B \<and> bucket_roles B (account_new (au_lib (ax_auth A)) pubkey) = Some role \<and>
      role \<noteq> Reader \<and> (required = NeedAdmin \<longrightarrow> role = Admin))"
proof -
  from run obtain verb b required where w: "write_target req = Some (verb, b, required)"
    and role: "check_role A cx verb b required = Inr ()" and t: "touches_only b d d'" by (rule router_change)
  have req: "required \<noteq> NeedReader" using w by (cases req) auto
  have suff: "role' \<noteq> Reader \<and> (required = NeedAdmin \<longrightarrow> role' = Admin)" if "is_satisfied_by required role'" for role'
    using that req by (cases required; cases role') auto
  have "require_role (au_lib (ax_auth A)) (au_max_skew (ax_auth A)) (au_provider_account (ax_auth A))
      (Inr \<lparr>cm_access = fetch_access b s, cm_serves_as_replica = fetch_serves_as_replica (au_provider_account (ax_auth A)) b s,
        cm_fetched_at = t\<rparr>) (auth_header (cx_headers cx)) verb b required (cx_now cx) = Inr ()"
    using role by (simp add: check_role_def view chain_access_def map_sum_def split: sum.splits)
  from require_role_chain [OF this] req suff w t show ?thesis by blast
qed

section \<open>Signed commitments\<close>

definition signed_commitment :: "ApiRequest \<Rightarrow> ApiResponse \<Rightarrow> (BucketId \<times> Commitment \<times> string) option" where
  "signed_commitment req resp =
     (case resp of
        CommitResponse c _ sig \<Rightarrow> (case req of PostCommit b _ \<Rightarrow> Some (b, c, sig) | _ \<Rightarrow> None)
      | CommitmentResponse b c sig \<Rightarrow> Some (b, c, sig)
      | CheckpointSignatureResponse b c sig \<Rightarrow> Some (b, c, sig)
      | DeleteResponse c sig \<Rightarrow> (case req of PostDelete b _ \<Rightarrow> Some (b, c, sig) | _ \<Rightarrow> None)
      | _ \<Rightarrow> None)"

definition api_step :: "'m provider_state \<Rightarrow> DiskStorage \<Rightarrow> DiskStorage \<Rightarrow> bool" where
  "api_step A d d' \<longleftrightarrow> (\<exists>node cx req r. create_router A node cx req d = (r, d'))"

lemma api_step_store: "api_step A d d' \<Longrightarrow> (store_step (ax_mmr A) (ax_hash A))\<^sup>*\<^sup>* d d'"
  by (auto simp: api_step_def dest: router_steps)

lemma sign_commitment_Inr:
  assumes "sign_commitment A node b c = Inr sig"
  obtains k info where "nd_keypair node = Some k" "cs_provider_info (nd_chain_state node) = Some info"
    "\<forall>key. nd_signing_public_key node = Some key \<longrightarrow> ni_public_key info = key"
    "sig = signature_hex (ax_lib A) (keypair_sign (ax_pairs A) k (encode_payload (CommitmentPayload_new b c)))"
  using assms
  by (auto simp: sign_commitment_def node_sign_def signing_keypair_def ensure_signing_key_registered_def
      ensure_signing_key_matches_def result_simps map_sum_def split: sum.splits option.splits)

text \<open>A reply with a signature is signed, and the commitment is the bucket's after the request.\<close>

lemma router_signs:
  assumes run: "create_router A node cx req d = (Inr resp, d')" and sgn: "signed_commitment req resp = Some (b, c, sig)"
  shows "sign_commitment A node b c = Inr sig" "\<exists>bk. fmlookup (cf_buckets d') b = Some bk \<and> commitment_of bk = c"
proof -
  have *: "sign_commitment A node b c = Inr sig \<and> (\<exists>bk. fmlookup (cf_buckets d') b = Some bk \<and> commitment_of bk = c)"
  proof (cases req)
    case (PostCommit b' texts)
    with run sgn obtain roots out where r: "b' = b" "commit (ax_mmr A) (ax_hash A) b roots d = Inr (out, d')"
      "c = \<lparr>mmr_root = co_mmr_root out, start_seq = co_start_seq out, leaf_count = co_leaf_count out\<rparr>"
      "sign_commitment A node b c = Inr sig"
      by (auto simp: signed_commitment_def commit_data_def Let_def result_simps split: sum.splits prod.splits)
    from r(2) obtain bk where "fmlookup (cf_buckets d') b = Some bk" "commitment_of bk = c"
      by (rule commit_Inr) (auto simp: r(3) commitment_of_def)
    with r show ?thesis by blast
  next
    case (PostDelete b' n)
    with run sgn have r: "b' = b" "delete_before (ax_mmr A) (ax_hash A) b n d = Inr (c, d')" "sign_commitment A node b c = Inr sig"
      by (auto simp: signed_commitment_def delete_data_def result_simps split: sum.splits prod.splits)
    from r(2) have "\<exists>bk. fmlookup (cf_buckets d') b = Some bk \<and> commitment_of bk = c"
      by (rule delete_before_Inr) (auto simp: commitment_of_def)
    with r show ?thesis by blast
  next
    case (GetCommitment b')
    with run sgn show ?thesis
      by (auto simp: signed_commitment_def get_commitment_def require_bucket_def get_bucket_def bucket_commitment_def commitment_of_def result_simps)
  next
    case (GetCheckpointSignature b')
    with run sgn show ?thesis
      by (auto simp: signed_commitment_def get_checkpoint_signature_def require_bucket_def get_bucket_def bucket_commitment_def commitment_of_def result_simps)
  qed (use run sgn in \<open>auto simp: signed_commitment_def get_node_def download_def api_check_exists_def read_chunks_def get_mmr_proof_handler_def get_chunk_proof_def
        get_mmr_peaks_handler_def fetch_nodes_def get_historical_roots_def get_replica_sync_status_def info_def node_stats_def
        upload_node_def rate_limit_by_ip_middleware_def result_simps Let_def map_sum_def case_prod_beta
        split: sum.splits option.splits if_splits\<close>)
  show "sign_commitment A node b c = Inr sig" "\<exists>bk. fmlookup (cf_buckets d') b = Some bk \<and> commitment_of bk = c"
    using * by blast+
qed


text \<open>
  C6. A commitment the node hands out with its signature, on a commit, a deletion or on
  request, is signed with its registered key, and whatever requests follow, until the bucket
  is pruned past the commitment's first sequence number, the store can prove every leaf
  the commitment covers, and every chunk of the data the leaf stands for is stored.
\<close>

theorem signed_commitment_stays_provable:
  assumes "store_reachable (ax_mmr A) (ax_hash A) d" "create_router A node cx req d = (Inr resp, d')"
    and "signed_commitment req resp = Some (b, c, sig)" "(api_step A)\<^sup>*\<^sup>* d' d''"
  shows "\<exists>bk. fmlookup (cf_buckets d'') b = Some bk \<and> (start_seq c < bk_start_seq bk \<or>
    (\<forall>i < leaf_count c. range_law (ax_mmr A) (ax_hash A) (window bk c) \<and> length (bk_leaves bk) \<le> (2 ^ 64 - 1) div 2 \<longrightarrow>
      (\<exists>pf. get_mmr_proof_for_commitment (ax_mmr A) (ax_hash A) b c i d'' = Inr pf \<and>
        verify_mmr_proof (ax_mmr A) (ax_hash A) pf i c \<and> leaf_held (ax_hash A) (cf_nodes d'') (mp_leaf pf))))"
proof -
  obtain bk where bk: "fmlookup (cf_buckets d') b = Some bk" "commitment_of bk = c" using router_signs(2) [OF assms(2,3)] by blast
  have d': "store_reachable (ax_mmr A) (ax_hash A) d'" using router_steps [OF assms(2)] assms(1) by (rule store.steps_ok)
  note steps = store.client_steps [OF api_step_store assms(4)]
  have "keeps_commitment (ax_mmr A) (ax_hash A) d' (b, c)"
    using held_commitment_of [OF store_okD(2) [OF store_reachable_ok [OF d'] bk(1)]] bk by (simp add: keeps_commitment_def)
  from store.steps_keep [OF steps this] obtain bk' where
    bk': "fmlookup (cf_buckets d'') b = Some bk'" "held_or_pruned (ax_mmr A) (ax_hash A) bk' c"
    by (auto simp: keeps_commitment_def)
  have held: "leaf_held (ax_hash A) (cf_nodes d'') l" if "l \<in> set (bk_leaves bk')" for l
    using store_okD(2) [OF store_reachable_ok [OF store.steps_ok [OF steps d']] bk'(1)] that by (simp add: bucket_held_def)
  show ?thesis using bk' commitment_proof [OF _ bk'(1)] held by blast
qed

text \<open>
  C19. When the node's view of its registration is up to date, the chain accepts the
  signature of every commitment the node hands out as the provider's signature on that
  commitment, so it counts for a checkpoint, and makes the provider liable in a challenge.
\<close>

theorem signed_commitment_verifies:
  assumes "create_router A node cx req d = (Inr resp, d')" "signed_commitment req resp = Some (b, c, text)"
    and own: "nd_signing_public_key node = map_option (public_key_bytes (ax_pairs A)) (nd_keypair node)"
    and view: "fmlookup (Providers s) p = Some i" "map_option ni_public_key (cs_provider_info (nd_chain_state node)) = Some (pi_public_key i)"
    and keys: "\<And>k. nd_keypair node = Some k \<Longrightarrow> signs_for E (ax_pairs A) k"
  shows "\<exists>sig. text = signature_hex (ax_lib A) sig \<and>
    verify_signature E sig (encode_payload (CommitmentPayload_new b c)) p s = Inr ()"
proof -
  obtain k info where k: "nd_keypair node = Some k" "cs_provider_info (nd_chain_state node) = Some info"
    "\<forall>key. nd_signing_public_key node = Some key \<longrightarrow> ni_public_key info = key"
    "text = signature_hex (ax_lib A) (keypair_sign (ax_pairs A) k (encode_payload (CommitmentPayload_new b c)))"
    by (rule sign_commitment_Inr [OF router_signs(1) [OF assms(1,2)]])
  have "pi_public_key i = public_key_bytes (ax_pairs A) k" using k(1-3) own view(2) by auto
  then have "verify_signature E (keypair_sign (ax_pairs A) k m) m p s = Inr ()" for m
    using keys [OF k(1)] view(1) by (auto simp: verify_signature_def signs_for_def result_simps)
  with k(4) show ?thesis by blast
qed


section \<open>Reading\<close>

lemma concat_drop_fixed:
  "list_all (\<lambda>c. length c = n) (butlast cs) \<Longrightarrow> \<forall>c\<in>set cs. length c \<le> n \<Longrightarrow> concat (drop k cs) = drop (k * n) (concat cs)"
proof (induction cs arbitrary: k)
  case (Cons c cs)
  show ?case
  proof (cases k)
    case (Suc m)
    have IH: "concat (drop m cs) = drop (m * n) (concat cs)" using Cons by (cases cs) (auto simp: list_all_iff)
    show ?thesis
    proof (cases "cs = []")
      case True
      then show ?thesis using Cons.prems(2) Suc by (simp add: trans_le_add1)
    next
      case False
      then show ?thesis using Cons.prems(1) IH Suc by simp
    qed
  qed simp
qed simp

lemma concat_take_fixed:
  "list_all (\<lambda>c. length c = n) (butlast cs) \<Longrightarrow> \<forall>c\<in>set cs. length c \<le> n \<Longrightarrow> concat (take k cs) = take (k * n) (concat cs)"
proof (induction cs arbitrary: k)
  case (Cons c cs)
  show ?case
  proof (cases k)
    case (Suc m)
    have IH: "concat (take m cs) = take (m * n) (concat cs)" using Cons by (cases cs) (auto simp: list_all_iff)
    show ?thesis
    proof (cases "cs = []")
      case True
      then show ?thesis using Cons.prems(2) Suc by (simp add: trans_le_add1)
    next
      case False
      then show ?thesis using Cons.prems(1) IH Suc by simp
    qed
  qed simp
qed simp

lemma length_concat_fixed: "\<forall>c\<in>set cs. length c \<le> n \<Longrightarrow> length (concat cs) \<le> length cs * n"
  by (induction cs) (auto simp: add_mono)

lemma div_ceil_ge: "0 < n \<Longrightarrow> a \<le> div_ceil a n * n"
  using div_ceil_le_iff [of n a "div_ceil a n"] by simp

text \<open>The chunks that cover a byte range contain the bytes of the range.\<close>

lemma covering_concat:
  assumes full: "list_all (\<lambda>c. length c = n) (butlast cs)" "\<forall>c\<in>set cs. length c \<le> n"
  shows "concat (map ((!) cs) [first..<min stop (length cs)]) = drop (first * n) (take (stop * n) (concat cs))"
proof -
  have "map ((!) cs) [first..<min stop (length cs)] = drop first (take stop cs)"
    by (auto intro!: nth_equalityI simp: less_diff_conv add.commute)
  moreover have "butlast (take stop cs) = take (min (length cs) stop - 1) cs" by (auto simp: butlast_conv_take min_def)
  then have "list_all (\<lambda>c. length c = n) (butlast (take stop cs))"
    using full(1) set_take_subset_set_take [of "min (length cs) stop - 1" "length cs - 1" cs, OF diff_le_mono [OF min.cobounded1]]
    by (auto simp: list_all_iff butlast_conv_take)
  moreover have "\<forall>c\<in>set (take stop cs). length c \<le> n" using full(2) by (meson in_set_takeD)
  ultimately show ?thesis
    using concat_drop_fixed [of n "take stop cs" first] concat_take_fixed [OF full] by simp
qed

lemma covering_chunks:
  assumes full: "list_all (\<lambda>c. length c = n) (butlast cs)" "\<forall>c\<in>set cs. length c \<le> n"
    and stop: "offset + len \<le> stop * n \<or> length (concat cs) \<le> stop * n"
  shows "take len (drop (offset mod n) (concat (map ((!) cs) [offset div n..<min stop (length cs)]))) = take len (drop offset (concat cs))"
proof -
  have "drop (offset mod n) (concat (map ((!) cs) [offset div n..<min stop (length cs)])) = drop offset (take (stop * n) (concat cs))"
    unfolding covering_concat [OF full] by (simp add: add.commute)
  then show ?thesis using stop by (auto simp: drop_take min_def)
qed

lemma covering_length:
  assumes full: "list_all (\<lambda>c. length c = n) (butlast cs)" "\<forall>c\<in>set cs. length c \<le> n"
    and stop: "offset \<le> stop * n \<or> length (concat cs) \<le> stop * n"
  shows "offset mod n \<le> length (concat (map ((!) cs) [offset div n..<min stop (length cs)])) \<longleftrightarrow>
    offset \<le> length (concat cs) \<or> offset mod n = 0"
proof -
  have "length (concat (map ((!) cs) [offset div n..<min stop (length cs)])) = min (stop * n) (length (concat cs)) - offset div n * n"
    unfolding covering_concat [OF full] by (simp add: min.commute)
  moreover have "offset div n * n + offset mod n = offset" by simp
  ultimately show ?thesis using stop by linarith
qed

text \<open>The data a listed leaf stands for, and how the store reads its chunks.\<close>

lemma held_data:
  assumes ok: "nodes_ok h ns" and l: "leaf_held h ns l" and free: "\<not> collision_among h (store_strings h ns {l})"
  obtains cs where "merkle_root (hash_children h) (map (hash_leaf h) cs) = data_root l" "data_size l = length (concat cs)"
    "list_all (\<lambda>c. length c = DEFAULT_CHUNK_SIZE) (butlast cs)" "\<forall>c\<in>set cs. length c \<le> DEFAULT_CHUNK_SIZE"
    "length cs \<le> MAX_TREE_WALK_VISITS" "tree_chunk_count ns (data_root l) = Inr (length cs)"
    "\<And>i. i < length cs \<Longrightarrow> \<exists>pf. chunk_with_proof ns (data_root l) (length cs) i = Inr (hash_leaf h (cs ! i), cs ! i, pf) \<and>
       verify_merkle_proof (hash_children h) (hash_leaf h (cs ! i)) i (length cs) pf (data_root l)"
    "map (fmlookup ns) (leaf_hashes ns l) = map (Some \<circ> Chunk) cs"
proof -
  from l obtain leaves where leaves: "collect_leaves ns (data_root l) = Inr leaves"
    "stored_tree h ns (map fst leaves) (data_root l)" "length leaves \<le> MAX_TREE_WALK_VISITS"
    "\<forall>(x, n)\<in>set leaves. n \<le> DEFAULT_CHUNK_SIZE"
    "list_all (\<lambda>n. n = DEFAULT_CHUNK_SIZE) (butlast (map snd leaves))" "data_size l = sum_list (map snd leaves)"
    by (auto simp: leaf_held_def)
  define cs where "cs = map (\<lambda>(x, n). case fmlookup ns x of Some (Chunk c) \<Rightarrow> c | _ \<Rightarrow> []) leaves"
  have elem: "fmlookup ns x = Some (Chunk c) \<and> length c = n \<and> hash_leaf h c = x"
    if "(x, n) \<in> set leaves" "c = (case fmlookup ns x of Some (Chunk c) \<Rightarrow> c | _ \<Rightarrow> [])" for x n c
    using collect_leaves_sound(1) [OF leaves(1)] that nodes_ok_hash(1) [OF ok] by fastforce
  have lens: "map length cs = map snd leaves" and hashes: "map (hash_leaf h) cs = map fst leaves"
    using elem by (auto simp: cs_def intro!: map_cong)
  have len: "length (map fst leaves) \<le> 2 ^ MAX_TREE_DEPTH" using leaves(3) by (simp add: MAX_TREE_WALK_VISITS_def MAX_TREE_DEPTH_def)
  have cov: "covered (store_strings h ns {l}) h ns (map fst leaves) (data_root l)"
    using leaves(1,2) by (simp add: store_strings_def leaf_hashes_def)
  have sub: "stored_strings ns \<subseteq> store_strings h ns {l}" by (simp add: store_strings_def)
  note G = get_chunk_stored [OF ok free sub cov len]
  have count: "tree_chunk_count ns (data_root l) = Inr (length cs)" using G(1) by (simp add: cs_def)
  have chunk: "\<exists>pf. chunk_with_proof ns (data_root l) (length cs) i = Inr (hash_leaf h (cs ! i), cs ! i, pf) \<and>
       verify_merkle_proof (hash_children h) (hash_leaf h (cs ! i)) i (length cs) pf (data_root l)" if i: "i < length cs" for i
  proof -
    have i': "i < length leaves" using i by (simp add: cs_def)
    from G(2) [of i] i' obtain d pf where g: "get_chunk_at_index ns (data_root l) i = Inr (d, pf)"
      "fmlookup ns (fst (leaves ! i)) = Some (Chunk d)"
      "verify_merkle_proof (hash_children h) (hash_leaf h d) i (length cs) pf (data_root l)" by (auto simp: cs_def)
    have d: "cs ! i = d" using g(2) i' by (simp add: cs_def case_prod_beta)
    from g(1) count i obtain x where x: "chunk_with_proof ns (data_root l) (length cs) i = Inr (x, d, pf)"
      by (auto simp: get_chunk_at_index_def result_simps split: if_splits)
    have "chunk_with_proof ns (data_root l) (length cs) i = Inr (fst (leaves ! i), d, pf)"
      using chunk_proof_loop_stored [OF ok free sub cov, of i "data_root l" "[]"] i' x by (auto simp: chunk_with_proof_def cs_def)
    moreover have "fst (leaves ! i) = hash_leaf h (cs ! i)" using arg_cong [OF hashes, of "\<lambda>xs. xs ! i"] i i' by simp
    ultimately show ?thesis using g(3) d by auto
  qed
  have "list_all (\<lambda>c. length c = DEFAULT_CHUNK_SIZE) (butlast cs)"
    using leaves(5) unfolding lens [symmetric] by (simp add: list_all_iff map_butlast [symmetric])
  moreover have "\<forall>c\<in>set cs. length c \<le> DEFAULT_CHUNK_SIZE"
    using leaves(4) elem by (fastforce simp: cs_def)
  moreover have "merkle_root (hash_children h) (map (hash_leaf h) cs) = data_root l"
    using leaves(2) unfolding hashes by (simp add: stored_tree_def root_is_reference)
  moreover have "data_size l = length (concat cs)" using leaves(6) by (simp add: lens length_concat)
  moreover have "length cs \<le> MAX_TREE_WALK_VISITS" using leaves(3) by (simp add: cs_def)
  moreover have "map (fmlookup ns) (leaf_hashes ns l) = map (Some \<circ> Chunk) cs"
    using leaves(1) elem by (auto simp: leaf_hashes_def cs_def)
  ultimately show thesis using that count chunk by blast
qed


lemma chunks_from_all:
  "(\<And>i. i \<in> set is \<Longrightarrow> chunk_with_proof ns tree n i = Inr (f i)) \<Longrightarrow> chunks_from ns tree n is = Inr (map f is)"
  by (induction "is") auto

text \<open>What the node answers to a read of data a bucket lists.\<close>

lemma read_listed:
  assumes reach: "store_reachable (ax_mmr A) (ax_hash A) d" and bk: "fmlookup (cf_buckets d) b = Some bk"
    and l: "l \<in> set (bk_leaves bk)" and free: "\<not> collision_among (ax_hash A) (store_strings (ax_hash A) (cf_nodes d) {l})"
    and hex: "parse_h256 (ax_lib A) text = Some (data_root l)"
  obtains cs pf where "merkle_root (hash_children (ax_hash A)) (map (hash_leaf (ax_hash A)) cs) = data_root l" "data_size l = length (concat cs)"
    "list_all (\<lambda>c. length c = DEFAULT_CHUNK_SIZE) (butlast cs)" "\<forall>c\<in>set cs. length c \<le> DEFAULT_CHUNK_SIZE" "length cs \<le> MAX_TREE_WALK_VISITS"
    "map (fmlookup (cf_nodes d)) (leaf_hashes (cf_nodes d) l) = map (Some \<circ> Chunk) cs"
    "\<And>i. i < length cs \<Longrightarrow> verify_merkle_proof (hash_children (ax_hash A)) (hash_leaf (ax_hash A) (cs ! i)) i (length cs) (pf i) (data_root l)"
    "\<And>node cx offset len. create_router A node cx (GetRead b text offset len) d =
       (Inr (ReadResponse (map (\<lambda>i. \<lparr>cp_hash = hash_leaf (ax_hash A) (cs ! i), cp_data = base64_encode (ax_lib A) (cs ! i), cp_proof = pf i\<rparr>)
         [offset div DEFAULT_CHUNK_SIZE..<min (div_ceil (saturating_add 64 offset len) DEFAULT_CHUNK_SIZE) (length cs)])), d)"
proof -
  let ?C = "DEFAULT_CHUNK_SIZE" and ?h = "ax_hash A"
  have ok: "store_ok (ax_mmr A) ?h d" using reach by (rule store_reachable_ok)
  have held: "leaf_held ?h (cf_nodes d) l" using store_okD(2) [OF ok bk] l by (simp add: bucket_held_def)
  obtain cs where cs: "merkle_root (hash_children ?h) (map (hash_leaf ?h) cs) = data_root l" "data_size l = length (concat cs)"
    "list_all (\<lambda>c. length c = ?C) (butlast cs)" "\<forall>c\<in>set cs. length c \<le> ?C" "length cs \<le> MAX_TREE_WALK_VISITS"
    "tree_chunk_count (cf_nodes d) (data_root l) = Inr (length cs)"
    "\<And>i. i < length cs \<Longrightarrow> \<exists>pf. chunk_with_proof (cf_nodes d) (data_root l) (length cs) i = Inr (hash_leaf ?h (cs ! i), cs ! i, pf) \<and>
       verify_merkle_proof (hash_children ?h) (hash_leaf ?h (cs ! i)) i (length cs) pf (data_root l)"
    "map (fmlookup (cf_nodes d)) (leaf_hashes (cf_nodes d) l) = map (Some \<circ> Chunk) cs"
    by (rule held_data [OF store_okD(1) [OF ok] held free]) blast
  from cs(7) obtain pf where pf: "\<And>i. i < length cs \<Longrightarrow>
      chunk_with_proof (cf_nodes d) (data_root l) (length cs) i = Inr (hash_leaf ?h (cs ! i), cs ! i, pf i)"
    "\<And>i. i < length cs \<Longrightarrow> verify_merkle_proof (hash_children ?h) (hash_leaf ?h (cs ! i)) i (length cs) (pf i) (data_root l)"
    by metis
  have "chunks_from (cf_nodes d) (data_root l) (length cs) [m..<min n (length cs)] =
      Inr (map (\<lambda>i. (hash_leaf ?h (cs ! i), cs ! i, pf i)) [m..<min n (length cs)])" for m n
    using pf(1) by (intro chunks_from_all) auto
  then have "create_router A node cx (GetRead b text offset len) d =
      (Inr (ReadResponse (map (\<lambda>i. \<lparr>cp_hash = hash_leaf ?h (cs ! i), cp_data = base64_encode (ax_lib A) (cs ! i), cp_proof = pf i\<rparr>)
         [offset div ?C..<min (div_ceil (saturating_add 64 offset len) ?C) (length cs)])), d)" for node cx offset len
    using bk hex cs(6) by (simp add: read_chunks_def decode_hash_def require_bucket_def get_bucket_def from_store_def get_chunks_in_range_def
        Let_def comp_def)
  with cs(1-5,8) pf(2) that show thesis by blast
qed

lemma covering_stop:
  assumes cs: "\<forall>c\<in>set cs. length c \<le> DEFAULT_CHUNK_SIZE" "length cs \<le> MAX_TREE_WALK_VISITS"
  shows "offset + len \<le> div_ceil (saturating_add 64 offset len) DEFAULT_CHUNK_SIZE * DEFAULT_CHUNK_SIZE \<or>
    length (concat cs) \<le> div_ceil (saturating_add 64 offset len) DEFAULT_CHUNK_SIZE * DEFAULT_CHUNK_SIZE"
proof -
  let ?C = "DEFAULT_CHUNK_SIZE"
  have C: "0 < ?C" by (simp add: DEFAULT_CHUNK_SIZE_def)
  have "length (concat cs) \<le> length cs * ?C" using cs(1) by (rule length_concat_fixed)
  also have "\<dots> \<le> MAX_TREE_WALK_VISITS * ?C" using cs(2) by (rule mult_le_mono1)
  also have "\<dots> \<le> 2 ^ 64 - 1" by (simp add: MAX_TREE_WALK_VISITS_def DEFAULT_CHUNK_SIZE_def)
  finally show ?thesis
    using div_ceil_ge [OF C, of "saturating_add 64 offset len"] by (auto simp: saturating_add_def min_def split: if_splits)
qed

text \<open>
  C8. Reading a byte range of data a bucket lists returns, with proofs that verify against
  the data root, chunks whose contents contain exactly the bytes the committed data has in
  that range, for every offset and length, past the end included, unless two of the strings
  hashed for the stored nodes and the data's tree collide.
\<close>

theorem read_returns_committed_bytes:
  assumes reach: "store_reachable (ax_mmr A) (ax_hash A) d" and bk: "fmlookup (cf_buckets d) b = Some bk"
    and l: "l \<in> set (bk_leaves bk)" and free: "\<not> collision_among (ax_hash A) (store_strings (ax_hash A) (cf_nodes d) {l})"
    and hex: "parse_h256 (ax_lib A) text = Some (data_root l)"
    and base64: "\<And>bs. base64_decode (ax_lib A) (base64_encode (ax_lib A) bs) = Some bs"
  shows "\<exists>cs chunks parts. merkle_root (hash_children (ax_hash A)) (map (hash_leaf (ax_hash A)) cs) = data_root l \<and>
    data_size l = length (concat cs) \<and>
    create_router A node cx (GetRead b text offset len) d = (Inr (ReadResponse chunks), d) \<and>
    map (base64_decode (ax_lib A) \<circ> cp_data) chunks = map Some parts \<and>
    take len (drop (offset mod DEFAULT_CHUNK_SIZE) (concat parts)) = take len (drop offset (concat cs)) \<and>
    (\<forall>k < length chunks. cp_hash (chunks ! k) = hash_leaf (ax_hash A) (parts ! k) \<and>
      verify_merkle_proof (hash_children (ax_hash A)) (cp_hash (chunks ! k)) (offset div DEFAULT_CHUNK_SIZE + k) (length cs)
        (cp_proof (chunks ! k)) (data_root l))"
proof -
  let ?C = "DEFAULT_CHUNK_SIZE" and ?h = "ax_hash A"
  obtain cs pf where cs: "merkle_root (hash_children ?h) (map (hash_leaf ?h) cs) = data_root l" "data_size l = length (concat cs)"
    "list_all (\<lambda>c. length c = ?C) (butlast cs)" "\<forall>c\<in>set cs. length c \<le> ?C" "length cs \<le> MAX_TREE_WALK_VISITS"
    and pf: "\<And>i. i < length cs \<Longrightarrow> verify_merkle_proof (hash_children ?h) (hash_leaf ?h (cs ! i)) i (length cs) (pf i) (data_root l)"
    and run: "\<And>node cx offset len. create_router A node cx (GetRead b text offset len) d =
       (Inr (ReadResponse (map (\<lambda>i. \<lparr>cp_hash = hash_leaf ?h (cs ! i), cp_data = base64_encode (ax_lib A) (cs ! i), cp_proof = pf i\<rparr>)
         [offset div ?C..<min (div_ceil (saturating_add 64 offset len) ?C) (length cs)])), d)"
    by (rule read_listed [OF reach bk l free hex]) blast
  define rng where "rng = [offset div ?C..<min (div_ceil (saturating_add 64 offset len) ?C) (length cs)]"
  define chunks where "chunks = map (\<lambda>i. \<lparr>cp_hash = hash_leaf ?h (cs ! i), cp_data = base64_encode (ax_lib A) (cs ! i), cp_proof = pf i\<rparr>) rng"
  note bytes = covering_chunks [OF cs(3,4) covering_stop [OF cs(4,5)]]
  have "map (base64_decode (ax_lib A) \<circ> cp_data) chunks = map Some (map ((!) cs) rng)"
    using base64 by (simp add: chunks_def comp_def)
  moreover have "cp_hash (chunks ! k) = hash_leaf ?h (map ((!) cs) rng ! k) \<and>
      verify_merkle_proof (hash_children ?h) (cp_hash (chunks ! k)) (offset div ?C + k) (length cs) (cp_proof (chunks ! k)) (data_root l)"
    if k: "k < length chunks" for k
  proof -
    have "rng ! k = offset div ?C + k" "offset div ?C + k < length cs" "k < length rng"
      using k by (auto simp: chunks_def rng_def less_diff_conv add.commute)
    then show ?thesis using pf by (simp add: chunks_def)
  qed
  moreover have "create_router A node cx (GetRead b text offset len) d = (Inr (ReadResponse chunks), d)"
    unfolding run chunks_def rng_def ..
  ultimately show ?thesis
    using cs(1,2) bytes [of len offset, folded rng_def]
    by - (rule exI [of _ cs], rule exI [of _ chunks], rule exI [of _ "map ((!) cs) rng"], blast)
qed

section \<open>Runs\<close>

definition demo_api :: "H256 provider_state" where
  "demo_api = \<lparr>ax_lib = \<lparr>parse_h256 = (\<lambda>t. if t = ''chunk'' then Some (H256_repeat_byte 4) else None),
       base64_decode = (\<lambda>t. Some (map (\<lambda>c. word_of_nat (of_char c)) t)), base64_encode = map (\<lambda>b. char_of (unat b)), signature_hex = (\<lambda>_. ''signed'')\<rparr>,
     ax_auth = \<lparr>au_lib = demo_auth_lib, au_max_skew = 300, au_provider_account = Some 11\<rparr>,
     ax_crypto = Crypto demo_env, ax_pairs = demo_pairs, ax_mmr = demo_mmr, ax_provider_id = ''p'', ax_version = ''1''\<rparr>"

text \<open>A request signed by account 12, the admin of bucket 0 of the scenario.\<close>

definition demo_connection :: "string \<Rightarrow> connection" where
  "demo_connection verb = \<lparr>cx_headers = [(''authorization'', Some (build_auth_header demo_auth_lib (replicate 32 12) verb 0 1000 (\<lambda>_. replicate 64 12)))],
     cx_access = chain_access (Some 11) stored 900, cx_now = 1100, cx_limiter = Some True\<rparr>"

lemma demo_role: "check_role demo_api (demo_connection verb) verb 0 required = Inr ()"
proof -
  have "verify_auth_signature demo_auth_lib (build_auth_header demo_auth_lib (replicate 32 12) verb 0 1000 (\<lambda>_. replicate 64 12)) verb 0 300 1100 = Inr 12"
    by (subst built_header_verifies [OF demo_hex_law]) (simp_all add: demo_auth_lib_def abs_diff_def)
  then show ?thesis
    by (cases required) (simp_all add: check_role_def auth_header_def demo_connection_def demo_api_def require_role_def chain_access_def role_of_chain
        stored_def launched_def bucket0_def roles_of_def)
qed

theorem store_change_authorized_witness:
  "\<exists>r. create_router demo_api (demo_node 11 provider11) (demo_connection ''POST'') (PostCommit 0 [''chunk'']) demo_uploaded = (r, demo_store) \<and>
     (\<exists>B role pubkey. fmlookup (Buckets stored) 0 = Some B \<and> bucket_roles B (account_new demo_auth_lib pubkey) = Some role \<and> role \<noteq> Reader)"
proof -
  have "\<exists>r. create_router demo_api (demo_node 11 provider11) (demo_connection ''POST'') (PostCommit 0 [''chunk'']) demo_uploaded = (r, demo_store)"
    using demo_commit demo_role [of "''POST''" NeedWriter]
    by (auto simp: commit_data_def decode_hash_def demo_api_def Let_def)
  then obtain r where r: "create_router demo_api (demo_node 11 provider11) (demo_connection ''POST'') (PostCommit 0 [''chunk'']) demo_uploaded = (r, demo_store)" ..
  have "fmlookup (cf_buckets demo_store) 0 \<noteq> fmlookup (cf_buckets demo_uploaded) 0"
    by (simp add: demo_store_def demo_bucket_def demo_uploaded_def BucketState_new_def)
  then have "demo_store \<noteq> demo_uploaded" by metis
  moreover have "cx_access (demo_connection ''POST'') = chain_access (au_provider_account (ax_auth demo_api)) stored 900"
    by (simp add: demo_connection_def demo_api_def)
  ultimately show ?thesis using store_change_authorized [OF r] r by (fastforce simp: demo_api_def)
qed

lemma demo_signed_reply:
  "create_router demo_api (demo_node 11 provider11) (demo_connection ''GET'') (GetCommitment 0) demo_store =
     (Inr (CommitmentResponse 0 (commitment_of demo_bucket) ''signed''), demo_store)"
  using demo_role [of "''GET''" NeedReader]
  by (simp add: get_commitment_def require_bucket_def get_bucket_def demo_store_def bucket_commitment_def commitment_of_def sign_commitment_def
      node_sign_def signing_keypair_def ensure_signing_key_registered_def ensure_signing_key_matches_def demo_node_def node_from_parts_def
      provider_info_from_runtime_def provider11_def demo_pairs_def)
    (simp add: demo_api_def)


theorem signed_commitment_stays_provable_witness:
  "\<exists>pf. get_mmr_proof_for_commitment demo_mmr demo_hash 0 (commitment_of demo_bucket) 0 demo_store = Inr pf \<and>
     verify_mmr_proof demo_mmr demo_hash pf 0 (commitment_of demo_bucket)"
proof -
  have lib: "ax_mmr demo_api = demo_mmr" "ax_hash demo_api = demo_hash" by (simp_all add: demo_api_def)
  have "signed_commitment (GetCommitment 0) (CommitmentResponse 0 (commitment_of demo_bucket) ''signed'') =
      Some (0, commitment_of demo_bucket, ''signed'')" by (simp add: signed_commitment_def)
  from signed_commitment_stays_provable [OF _ demo_signed_reply this rtranclp.rtrancl_refl, unfolded lib] demo_store_reachable
  obtain bk where bk: "fmlookup (cf_buckets demo_store) 0 = Some bk" and
    pf: "start_seq (commitment_of demo_bucket) < bk_start_seq bk \<or>
      (\<forall>i < leaf_count (commitment_of demo_bucket). range_law demo_mmr demo_hash (window bk (commitment_of demo_bucket)) \<and>
          length (bk_leaves bk) \<le> (2 ^ 64 - 1) div 2 \<longrightarrow>
        (\<exists>pf. get_mmr_proof_for_commitment demo_mmr demo_hash 0 (commitment_of demo_bucket) i demo_store = Inr pf \<and>
          verify_mmr_proof demo_mmr demo_hash pf i (commitment_of demo_bucket) \<and> leaf_held demo_hash (cf_nodes demo_store) (mp_leaf pf)))"
    by blast
  have bkd: "bk = demo_bucket" using bk by (simp add: demo_store_def)
  have c: "leaf_count (commitment_of demo_bucket) = 1" "start_seq (commitment_of demo_bucket) = 0" "bk_start_seq demo_bucket = 0"
    "window demo_bucket (commitment_of demo_bucket) = [demo_leaf]" "length (bk_leaves demo_bucket) = 1"
    by (simp_all add: commitment_of_def demo_bucket_def window_def)
  from pf [unfolded bkd c] demo_range_law show ?thesis by auto
qed

theorem signed_commitment_verifies_witness:
  "\<exists>sig. verify_signature demo_env sig (encode_payload (CommitmentPayload_new 0 (commitment_of demo_bucket))) 11 stored = Inr ()"
proof -
  have s: "signed_commitment (GetCommitment 0) (CommitmentResponse 0 (commitment_of demo_bucket) ''signed'') =
      Some (0, commitment_of demo_bucket, ''signed'')" by (simp add: signed_commitment_def)
  have p: "fmlookup (Providers stored) 11 = Some provider11_storing" by (simp add: stored_def)
  have own: "nd_signing_public_key (demo_node 11 provider11) = map_option (public_key_bytes (ax_pairs demo_api)) (nd_keypair (demo_node 11 provider11))"
    by (simp add: demo_node_def node_from_parts_def demo_api_def)
  have view: "map_option ni_public_key (cs_provider_info (nd_chain_state (demo_node 11 provider11))) = Some (pi_public_key provider11_storing)"
    by (simp add: demo_node_def provider_info_from_runtime_def provider11_storing_def)
  have keys: "signs_for demo_env (ax_pairs demo_api) k" if "nd_keypair (demo_node 11 provider11) = Some k" for k
    using that demo_signs by (auto simp: demo_node_def node_from_parts_def demo_api_def)
  from signed_commitment_verifies [OF demo_signed_reply s own p view keys] show ?thesis by blast
qed

theorem read_returns_committed_bytes_witness:
  "\<exists>cs chunks parts. length (concat cs) = 3 \<and>
     create_router demo_api (demo_node 11 provider11) (demo_connection ''GET'') (GetRead 0 ''chunk'' 1 2) demo_store = (Inr (ReadResponse chunks), demo_store) \<and>
     map (base64_decode (ax_lib demo_api) \<circ> cp_data) chunks = map Some parts \<and>
     take 2 (drop 1 (concat parts)) = take 2 (drop 1 (concat cs))"
proof -
  have lib: "ax_mmr demo_api = demo_mmr" "ax_hash demo_api = demo_hash" by (simp_all add: demo_api_def)
  have bk: "fmlookup (cf_buckets demo_store) 0 = Some demo_bucket" "demo_leaf \<in> set (bk_leaves demo_bucket)"
    by (simp_all add: demo_store_def demo_bucket_def)
  have free: "\<not> collision_among (ax_hash demo_api) (store_strings (ax_hash demo_api) (cf_nodes demo_store) {demo_leaf})"
    unfolding lib demo_store_strings by (simp add: collision_among_def)
  have reach: "store_reachable (ax_mmr demo_api) (ax_hash demo_api) demo_store" unfolding lib by (rule demo_store_reachable)
  have hex: "parse_h256 (ax_lib demo_api) ''chunk'' = Some (data_root demo_leaf)" by (simp add: demo_api_def demo_leaf_def)
  have byte: "unat b mod 256 = unat b" for b :: byte using unsigned_less [of b, where 'a = nat] by simp
  have codec: "base64_decode (ax_lib demo_api) (base64_encode (ax_lib demo_api) bs) = Some bs" for bs
    by (simp add: demo_api_def comp_def byte)
  have off: "1 mod DEFAULT_CHUNK_SIZE = 1" "data_size demo_leaf = 3" by (simp_all add: DEFAULT_CHUNK_SIZE_def demo_leaf_def)
  from read_returns_committed_bytes [OF reach bk free hex codec, of "demo_node 11 provider11" "demo_connection ''GET''" 1 2, unfolded off]
  show ?thesis by (metis (no_types))
qed

end
