(* ===== verification/Storage_Client.thy ===== *)
theory Storage_Client
  imports Provider_Api
begin

text \<open>
  The client of a storage user (\<open>clients/storage/src/storage_user.rs\<close>, with \<open>base.rs\<close> and
  \<open>signer.rs\<close>): chunking and uploading, committing, downloading and spot checks over the
  provider's HTTP interface. The network is the argument \<open>http_send\<close>, which may answer
  anything; \<open>w\<close> is its state. Hex coding of hashes and signatures, base64 and the cipher are
  parameters, and the request statistics of the verifier are not kept.
\<close>

section \<open>Requests and replies on the wire\<close>

record WireChunk =
  wc_hash :: string
  wc_data :: string
  wc_proof :: "string list"

datatype WireResponse =
    WireHealth string string
  | WireRead "WireChunk list"
  | WireNode string "string option" "string list option"
  | WireStored bool
  | WireExists "string list" "string list"
  | WireCommit string nat nat "nat list" string
  | WireCommitment BucketId string nat nat string
  | WireMmrProof MmrProof
  | WireOther

record 'w http =
  http_send :: "(string \<times> string option) list \<Rightarrow> ApiRequest \<Rightarrow> 'w \<Rightarrow> WireResponse HttpReply \<times> 'w"

datatype ClientError =
    Http
  | HttpStatus string nat
  | Serialization
  | ClientVerificationFailed
  | ProviderUnavailable
  | ChainError
  | NegotiateRejected nat "string option"
  | ConfigError
  | StorageError
  | EncryptionError

text \<open>A call fails with an error, or the client panics.\<close>

datatype ClientFailure = Failure ClientError | Panic

record client_lib =
  cl_api :: api_lib
  cl_auth :: auth_lib
  h256_to_hex :: "H256 \<Rightarrow> string"
  decode_multi_signature :: "string \<Rightarrow> MultiSignature option"

record Cipher =
  encrypt :: "byte list \<Rightarrow> byte list option"
  decrypt :: "byte list \<Rightarrow> byte list option"

record Signer =
  sn_public_key :: "byte list"
  sn_sign :: "byte list \<Rightarrow> byte list"

record 'w StorageUserClient =
  su_lib :: client_lib
  su_hash :: "byte list \<Rightarrow> H256"
  su_http :: "'w http"
  su_provider_urls :: "string list"
  su_cipher :: "Cipher option"
  su_auth_signer :: Signer
  su_now :: nat

definition get_provider_url :: "'w StorageUserClient \<Rightarrow> ClientFailure + string" where
  "get_provider_url c = (case su_provider_urls c of [] \<Rightarrow> Inl (Failure ConfigError) | url # _ \<Rightarrow> Inr url)"

definition client_auth_header :: "'w StorageUserClient \<Rightarrow> string \<Rightarrow> BucketId \<Rightarrow> string" where
  "client_auth_header c verb bucket_id =
     build_auth_header (cl_auth (su_lib c)) (sn_public_key (su_auth_signer c)) verb bucket_id (su_now c) (sn_sign (su_auth_signer c))"

definition send_signed :: "'w StorageUserClient \<Rightarrow> string \<Rightarrow> BucketId \<Rightarrow> ApiRequest \<Rightarrow> 'w \<Rightarrow> WireResponse HttpReply \<times> 'w" where
  "send_signed c verb bucket_id req w =
     http_send (su_http c) [(''authorization'', Some (client_auth_header c verb bucket_id))] req w"

definition send_plain :: "'w StorageUserClient \<Rightarrow> ApiRequest \<Rightarrow> 'w \<Rightarrow> WireResponse HttpReply \<times> 'w" where
  "send_plain c req w = http_send (su_http c) [] req w"

text \<open>The body of a successful reply, or the error of the call; \<open>malformed\<close> is the error for a body that
  does not deserialize.\<close>

definition body_of :: "string \<Rightarrow> ClientError \<Rightarrow> WireResponse HttpReply \<Rightarrow> ClientFailure + WireResponse" where
  "body_of request malformed reply =
     (case reply of
        NoConnection \<Rightarrow> Inl (Failure Http)
      | BadStatus status \<Rightarrow> Inl (Failure (HttpStatus request status))
      | BadBody \<Rightarrow> Inl (Failure malformed)
      | Body r \<Rightarrow> Inr r)"

definition client_parse_h256 :: "'w StorageUserClient \<Rightarrow> string \<Rightarrow> ClientFailure + H256" where
  "client_parse_h256 c text = ok_or (parse_h256 (cl_api (su_lib c)) text) (Failure Serialization) Inr"

section \<open>Uploading\<close>

datatype ChunkingStrategy = Fixed nat | ContentDefined

function chunks_of :: "nat \<Rightarrow> byte list \<Rightarrow> byte list list" where
  "chunks_of n data = (if n = 0 \<or> data = [] then [] else take n data # chunks_of n (drop n data))"
  by pat_completeness auto
termination
  by (relation "measure (\<lambda>(n, data). length data)") auto

declare chunks_of.simps [simp del]

definition chunk_data :: "byte list \<Rightarrow> ChunkingStrategy \<Rightarrow> byte list list" where
  "chunk_data data strategy =
     (case strategy of Fixed n \<Rightarrow> chunks_of n data | ContentDefined \<Rightarrow> chunks_of DEFAULT_CHUNK_SIZE data)"

definition client_upload_node :: "'w StorageUserClient \<Rightarrow> BucketId \<Rightarrow> ChunkTreeNode \<Rightarrow> 'w \<Rightarrow> (ClientFailure + H256) \<times> 'w" where
  "client_upload_node c bucket_id node w =
     (let hash = hash_of_node (su_hash c) node;
          hex = h256_to_hex (su_lib c);
          request = \<lparr>un_bucket_id = bucket_id, un_hash = hex hash,
            un_data = (case node of Chunk data \<Rightarrow> Some (base64_encode (cl_api (su_lib c)) data) | Internal _ _ \<Rightarrow> None),
            un_children = (case node of Chunk _ \<Rightarrow> None | Internal left right \<Rightarrow> Some [hex left, hex right])\<rparr>;
          (reply, w1) = send_signed c ''PUT'' bucket_id (PutNode request) w
      in (case reply of
            NoConnection \<Rightarrow> Inl (Failure Http)
          | BadStatus status \<Rightarrow> Inl (Failure (HttpStatus ''PUT /node'' status))
          | _ \<Rightarrow> Inr hash, w1))"

fun upload_nodes :: "'w StorageUserClient \<Rightarrow> BucketId \<Rightarrow> ChunkTreeNode list \<Rightarrow> 'w \<Rightarrow> (ClientFailure + H256 list) \<times> 'w" where
  "upload_nodes c bucket_id [] w = (Inr [], w)"
| "upload_nodes c bucket_id (node # nodes) w =
     (case client_upload_node c bucket_id node w of
        (Inl e, w1) \<Rightarrow> (Inl e, w1)
      | (Inr hash, w1) \<Rightarrow>
          (case upload_nodes c bucket_id nodes w1 of
             (Inl e, w2) \<Rightarrow> (Inl e, w2)
           | (Inr hashes, w2) \<Rightarrow> (Inr (hash # hashes), w2)))"

definition build_merkle_tree :: "'w StorageUserClient \<Rightarrow> BucketId \<Rightarrow> H256 list \<Rightarrow> 'w \<Rightarrow> (ClientFailure + H256) \<times> 'w" where
  "build_merkle_tree c bucket_id leaf_hashes w =
     (let (top, tree_nodes) = merkle_tree (hash_children (su_hash c)) leaf_hashes in
      case upload_nodes c bucket_id (map (\<lambda>n. Internal (node_left n) (node_right n)) tree_nodes) w of
        (Inl e, w1) \<Rightarrow> (Inl e, w1)
      | (Inr _, w1) \<Rightarrow> (Inr top, w1))"

definition upload :: "'w StorageUserClient \<Rightarrow> BucketId \<Rightarrow> byte list \<Rightarrow> ChunkingStrategy \<Rightarrow> 'w \<Rightarrow> (ClientFailure + H256) \<times> 'w" where
  "upload c bucket_id data strategy w =
     (if (case strategy of Fixed n \<Rightarrow> n = 0 \<or> DEFAULT_CHUNK_SIZE < n | ContentDefined \<Rightarrow> False)
      then (Inl (Failure ConfigError), w)
      else case attempt (get_provider_url c) (\<lambda>_.
             case su_cipher c of
               None \<Rightarrow> Inr data
             | Some cipher \<Rightarrow> ok_or (encrypt cipher data) (Failure EncryptionError) Inr) of
             Inl e \<Rightarrow> (Inl e, w)
           | Inr upload_data \<Rightarrow>
               if upload_data = [] then (Inl (Failure ConfigError), w)
               else (case upload_nodes c bucket_id (map Chunk (chunk_data upload_data strategy)) w of
                       (Inl e, w1) \<Rightarrow> (Inl e, w1)
                     | (Inr chunk_hashes, w1) \<Rightarrow> build_merkle_tree c bucket_id chunk_hashes w1))"

section \<open>Downloading\<close>

fun verified_data :: "'w StorageUserClient \<Rightarrow> WireChunk list \<Rightarrow> ClientFailure + byte list" where
  "verified_data c [] = Inr []"
| "verified_data c (chunk # chunks) =
     ok_or (base64_decode (cl_api (su_lib c)) (wc_data chunk)) (Failure Serialization) (\<lambda>data.
     attempt (client_parse_h256 c (wc_hash chunk)) (\<lambda>expected_hash.
     ensure (hash_leaf (su_hash c) data = expected_hash) (Failure ClientVerificationFailed)
     (attempt (verified_data c chunks) (\<lambda>rest. Inr (data @ rest)))))"

text \<open>
  The slices of \<open>trimmed\<close>: slicing past the end of the data panics. The sum of the start and
  the length wraps around at the width of a machine word.
\<close>

definition trim_range :: "nat \<Rightarrow> nat \<Rightarrow> byte list \<Rightarrow> ClientFailure + byte list" where
  "trim_range offset len data =
     (let start = offset mod DEFAULT_CHUNK_SIZE; stop = (start + len) mod 2 ^ 64 in
      if stop \<le> length data
      then (if start \<le> stop then Inr (take (stop - start) (drop start data)) else Inl Panic)
      else if start \<le> length data then Inr (drop start data) else Inl Panic)"

definition client_download :: "'w StorageUserClient \<Rightarrow> BucketId \<Rightarrow> H256 \<Rightarrow> nat \<Rightarrow> nat \<Rightarrow> 'w \<Rightarrow> (ClientFailure + byte list) \<times> 'w" where
  "client_download c bucket_id tree offset len w =
     (case get_provider_url c of
        Inl e \<Rightarrow> (Inl e, w)
      | Inr _ \<Rightarrow>
          let (reply, w1) = send_plain c (GetRead bucket_id (h256_to_hex (su_lib c) tree) offset len) w in
          (attempt (body_of ''GET /read'' Http reply) (\<lambda>body.
           case body of
             WireRead chunks \<Rightarrow>
               attempt (verified_data c chunks) (\<lambda>data.
               attempt (trim_range offset len data) (\<lambda>trimmed.
               case su_cipher c of
                 None \<Rightarrow> Inr trimmed
               | Some cipher \<Rightarrow> ok_or (decrypt cipher trimmed) (Failure EncryptionError) Inr))
           | _ \<Rightarrow> Inl (Failure Http)), w1))"

definition download_full :: "'w StorageUserClient \<Rightarrow> BucketId \<Rightarrow> H256 \<Rightarrow> nat \<Rightarrow> 'w \<Rightarrow> (ClientFailure + byte list) \<times> 'w" where
  "download_full c bucket_id tree len w = client_download c bucket_id tree 0 len w"

definition client_from_wire :: "byte list option \<Rightarrow> H256 list option \<Rightarrow> ClientFailure + ChunkTreeNode" where
  "client_from_wire data children =
     (case (data, children) of
        (Some bytes, None) \<Rightarrow> Inr (Chunk bytes)
      | (None, Some [left, right]) \<Rightarrow> Inr (Internal left right)
      | _ \<Rightarrow> Inl (Failure ClientVerificationFailed))"

fun parse_hashes :: "'w StorageUserClient \<Rightarrow> string list \<Rightarrow> ClientFailure + H256 list" where
  "parse_hashes c [] = Inr []"
| "parse_hashes c (t # ts) = attempt (client_parse_h256 c t) (\<lambda>x. attempt (parse_hashes c ts) (\<lambda>xs. Inr (x # xs)))"

definition read_node :: "'w StorageUserClient \<Rightarrow> BucketId \<Rightarrow> H256 \<Rightarrow> 'w \<Rightarrow> (ClientFailure + ChunkTreeNode) \<times> 'w" where
  "read_node c bucket_id hash w =
     (case get_provider_url c of
        Inl e \<Rightarrow> (Inl e, w)
      | Inr _ \<Rightarrow>
          let (reply, w1) = send_plain c (GetNode bucket_id (h256_to_hex (su_lib c) hash)) w in
          (attempt (body_of ''GET /node'' Serialization reply) (\<lambda>body.
           case body of
             WireNode _ text hexes \<Rightarrow>
               attempt (case text of
                          None \<Rightarrow> Inr None
                        | Some t \<Rightarrow> ok_or (base64_decode (cl_api (su_lib c)) t) (Failure Serialization) (\<lambda>b. Inr (Some b))) (\<lambda>data.
               attempt (case hexes of
                          None \<Rightarrow> Inr None
                        | Some hs \<Rightarrow> attempt (parse_hashes c hs) (\<lambda>xs. Inr (Some xs))) (\<lambda>children.
               client_from_wire data children))
           | _ \<Rightarrow> Inl (Failure Serialization)), w1))"

definition read_node_verified :: "'w StorageUserClient \<Rightarrow> BucketId \<Rightarrow> H256 \<Rightarrow> 'w \<Rightarrow> (ClientFailure + ChunkTreeNode) \<times> 'w" where
  "read_node_verified c bucket_id hash w =
     (case read_node c bucket_id hash w of
        (Inl e, w1) \<Rightarrow> (Inl e, w1)
      | (Inr node, w1) \<Rightarrow>
          (ensure (hash_of_node (su_hash c) node = hash) (Failure ClientVerificationFailed) (Inr node), w1))"

section \<open>Commitments\<close>

record SignedCommitment =
  sc_commitment :: Commitment
  sc_provider_signature :: MultiSignature

definition signed_commitment_of :: "'w StorageUserClient \<Rightarrow> string \<Rightarrow> nat \<Rightarrow> nat \<Rightarrow> string \<Rightarrow> ClientFailure + SignedCommitment" where
  "signed_commitment_of c hex start count sig_hex =
     attempt (client_parse_h256 c hex) (\<lambda>top.
     ok_or (decode_multi_signature (su_lib c) sig_hex) (Failure Serialization) (\<lambda>sig.
     Inr \<lparr>sc_commitment = \<lparr>mmr_root = top, start_seq = start, leaf_count = count\<rparr>, sc_provider_signature = sig\<rparr>))"

definition client_commit :: "'w StorageUserClient \<Rightarrow> BucketId \<Rightarrow> H256 list \<Rightarrow> 'w \<Rightarrow> (ClientFailure + SignedCommitment \<times> nat list) \<times> 'w" where
  "client_commit c bucket_id data_roots w =
     (case get_provider_url c of
        Inl e \<Rightarrow> (Inl e, w)
      | Inr _ \<Rightarrow>
          let (reply, w1) = send_signed c ''POST'' bucket_id (PostCommit bucket_id (map (h256_to_hex (su_lib c)) data_roots)) w in
          (attempt (body_of ''POST /commit'' Serialization reply) (\<lambda>body.
           case body of
             WireCommit hex start count indices sig_hex \<Rightarrow>
               attempt (signed_commitment_of c hex start count sig_hex) (\<lambda>sc. Inr (sc, indices))
           | _ \<Rightarrow> Inl (Failure Serialization)), w1))"

definition client_checkpoint_signature :: "'w StorageUserClient \<Rightarrow> BucketId \<Rightarrow> 'w \<Rightarrow> (ClientFailure + BucketId \<times> SignedCommitment) \<times> 'w" where
  "client_checkpoint_signature c bucket_id w =
     (case get_provider_url c of
        Inl e \<Rightarrow> (Inl e, w)
      | Inr _ \<Rightarrow>
          let (reply, w1) = send_signed c ''GET'' bucket_id (GetCheckpointSignature bucket_id) w in
          (attempt (body_of ''GET /checkpoint-signature'' Serialization reply) (\<lambda>body.
           case body of
             WireCommitment b hex start count sig_hex \<Rightarrow>
               attempt (signed_commitment_of c hex start count sig_hex) (\<lambda>sc. Inr (b, sc))
           | _ \<Rightarrow> Inl (Failure Serialization)), w1))"

definition get_commitment_if_exists :: "'w StorageUserClient \<Rightarrow> BucketId \<Rightarrow> 'w \<Rightarrow> (ClientFailure + (BucketId \<times> SignedCommitment) option) \<times> 'w" where
  "get_commitment_if_exists c bucket_id w =
     (case get_provider_url c of
        Inl e \<Rightarrow> (Inl e, w)
      | Inr _ \<Rightarrow>
          let (reply, w1) = send_signed c ''GET'' bucket_id (GetCommitment bucket_id) w in
          (if reply = BadStatus 404 then Inr None
           else attempt (body_of ''GET /commitment'' Serialization reply) (\<lambda>body.
             case body of
               WireCommitment b hex start count sig_hex \<Rightarrow>
                 attempt (signed_commitment_of c hex start count sig_hex) (\<lambda>sc. Inr (Some (b, sc)))
             | _ \<Rightarrow> Inl (Failure Serialization)), w1))"

definition client_get_commitment :: "'w StorageUserClient \<Rightarrow> BucketId \<Rightarrow> 'w \<Rightarrow> (ClientFailure + BucketId \<times> SignedCommitment) \<times> 'w" where
  "client_get_commitment c bucket_id w =
     (case get_commitment_if_exists c bucket_id w of
        (r, w1) \<Rightarrow> (attempt r (\<lambda>x. ok_or x (Failure (HttpStatus ''GET /commitment'' 404)) Inr), w1))"

definition client_get_mmr_proof :: "'w StorageUserClient \<Rightarrow> BucketId \<Rightarrow> nat \<Rightarrow> 'w \<Rightarrow> (ClientFailure + MmrProof) \<times> 'w" where
  "client_get_mmr_proof c bucket_id idx w =
     (case get_provider_url c of
        Inl e \<Rightarrow> (Inl e, w)
      | Inr _ \<Rightarrow>
          let (reply, w1) = send_signed c ''GET'' bucket_id (GetMmrProof bucket_id idx) w in
          (attempt (body_of ''GET /mmr_proof'' Serialization reply) (\<lambda>body.
           case body of WireMmrProof pf \<Rightarrow> Inr pf | _ \<Rightarrow> Inl (Failure Serialization)), w1))"

definition client_check_exists :: "'w StorageUserClient \<Rightarrow> BucketId \<Rightarrow> H256 list \<Rightarrow> 'w \<Rightarrow> (ClientFailure + string list \<times> string list) \<times> 'w" where
  "client_check_exists c bucket_id hashes w =
     (case get_provider_url c of
        Inl e \<Rightarrow> (Inl e, w)
      | Inr _ \<Rightarrow>
          let (reply, w1) = send_signed c ''POST'' bucket_id (PostExists bucket_id (map (h256_to_hex (su_lib c)) hashes)) w in
          (attempt (body_of ''POST /exists'' Serialization reply) (\<lambda>body.
           case body of WireExists exists missing \<Rightarrow> Inr (exists, missing) | _ \<Rightarrow> Inl (Failure Serialization)), w1))"

definition client_health :: "'w StorageUserClient \<Rightarrow> 'w \<Rightarrow> (ClientFailure + string \<times> string) \<times> 'w" where
  "client_health c w =
     (case get_provider_url c of
        Inl e \<Rightarrow> (Inl e, w)
      | Inr _ \<Rightarrow>
          let (reply, w1) = send_plain c GetHealth w in
          (case reply of
             NoConnection \<Rightarrow> Inl (Failure Http)
           | Body (WireHealth status version) \<Rightarrow> Inr (status, version)
           | _ \<Rightarrow> Inl (Failure Serialization), w1))"

section \<open>Spot checks\<close>

definition spot_check :: "'w StorageUserClient \<Rightarrow> BucketId \<Rightarrow> H256 \<Rightarrow> nat \<Rightarrow> 'w \<Rightarrow> (ClientFailure + bool) \<times> 'w" where
  "spot_check c bucket_id tree idx w =
     (let offset = (idx * DEFAULT_CHUNK_SIZE) mod 2 ^ 64 in
      case get_provider_url c of
        Inl e \<Rightarrow> (Inl e, w)
      | Inr _ \<Rightarrow>
          (case client_download c bucket_id tree offset DEFAULT_CHUNK_SIZE w of
             (Inl Panic, w1) \<Rightarrow> (Inl Panic, w1)
           | (Inl (Failure _), w1) \<Rightarrow> (Inr False, w1)
           | (Inr data, w1) \<Rightarrow> (Inr (data \<noteq> []), w1)))"

text \<open>\<open>picks\<close> are the random chunk indices of the batch.\<close>

fun spot_check_batch :: "'w StorageUserClient \<Rightarrow> BucketId \<Rightarrow> H256 \<Rightarrow> nat list \<Rightarrow> nat \<times> nat \<Rightarrow> 'w \<Rightarrow> (ClientFailure + nat \<times> nat) \<times> 'w" where
  "spot_check_batch c bucket_id tree [] (passed, failed) w = (Inr (passed, failed), w)"
| "spot_check_batch c bucket_id tree (idx # picks) (passed, failed) w =
     (case spot_check c bucket_id tree idx w of
        (Inl e, w1) \<Rightarrow> (Inl e, w1)
      | (Inr ok, w1) \<Rightarrow> spot_check_batch c bucket_id tree picks (if ok then (passed + 1, failed) else (passed, failed + 1)) w1)"

section \<open>A provider on the other end\<close>

text \<open>How a node writes its responses: hashes are hex text, a failed request is a status.\<close>

fun serialize :: "(H256 \<Rightarrow> string) \<Rightarrow> ApiResponse \<Rightarrow> WireResponse" where
  "serialize hex (HealthResponse status version) = WireHealth status version"
| "serialize hex (ReadResponse chunks) =
     WireRead (map (\<lambda>ch. \<lparr>wc_hash = hex (cp_hash ch), wc_data = cp_data ch, wc_proof = map hex (cp_proof ch)\<rparr>) chunks)"
| "serialize hex (DownloadNodeResponse hash data children) = WireNode (hex hash) data (map_option (map hex) children)"
| "serialize hex (UploadNodeResponse stored) = WireStored stored"
| "serialize hex (ExistsResponse exists missing) = WireExists (map hex exists) (map hex missing)"
| "serialize hex (CommitResponse c indices sig) = WireCommit (hex (mmr_root c)) (start_seq c) (leaf_count c) indices sig"
| "serialize hex (CommitmentResponse b c sig) = WireCommitment b (hex (mmr_root c)) (start_seq c) (leaf_count c) sig"
| "serialize hex (CheckpointSignatureResponse b c sig) = WireCommitment b (hex (mmr_root c)) (start_seq c) (leaf_count c) sig"
| "serialize hex (MmrProofResponse pf) = WireMmrProof pf"
| "serialize hex _ = WireOther"

definition provider_http ::
    "'m provider_state \<Rightarrow> NodeState \<Rightarrow> (H256 \<Rightarrow> string) \<Rightarrow> (BucketId \<Rightarrow> MembershipError + CachedMembership) \<Rightarrow> nat \<Rightarrow> DiskStorage http" where
  "provider_http A node hex access now = \<lparr>http_send = (\<lambda>headers req d.
     case create_router A node \<lparr>cx_headers = headers, cx_access = access, cx_now = now, cx_limiter = Some True\<rparr> req d of
       (Inl e, d') \<Rightarrow> (BadStatus (fst (into_response e)), d')
     | (Inr resp, d') \<Rightarrow> (Body (serialize hex resp), d'))\<rparr>"

end
