(* ===== verification/Fs_Format.thy ===== *)
theory Fs_Format
  imports Storage_Client "HOL-Library.List_Lexorder"
begin

text \<open>
  The blob format of the file system (\<open>clients/storage-formats/src/format.rs\<close>): directory nodes
  and file manifests, their SCALE encoding behind a header, the operations on a directory and
  the rules a reader checks. Text is its UTF-8 bytes, a bounded vector is a list whose bound is
  checked where the code checks it. The hash is the argument \<open>h\<close>.
\<close>

section \<open>Names and content identifiers\<close>

type_synonym Cid = H256

definition chunk_hashes :: "(byte list \<Rightarrow> H256) \<Rightarrow> byte list \<Rightarrow> Cid list" where
  "chunk_hashes h data = map (hash_leaf h) (chunks_of DEFAULT_CHUNK_SIZE data)"

definition compute_cid :: "(byte list \<Rightarrow> H256) \<Rightarrow> byte list \<Rightarrow> Cid" where
  "compute_cid h data = merkle_root (hash_children h) (chunk_hashes h data)"

text \<open>The check of \<open>core::str::from_utf8\<close>: shortest encodings of code points that are not surrogates.\<close>

definition cont :: "byte \<Rightarrow> bool" where
  "cont b \<longleftrightarrow> 128 \<le> b \<and> b < 192"

fun utf8 :: "byte list \<Rightarrow> bool" where
  "utf8 [] = True"
| "utf8 (a # bs) =
     (if a < 128 then utf8 bs
      else if 194 \<le> a \<and> a < 224 then (case bs of b # rest \<Rightarrow> cont b \<and> utf8 rest | [] \<Rightarrow> False)
      else if 224 \<le> a \<and> a < 240 then
        (case bs of b # c # rest \<Rightarrow> cont b \<and> (a = 224 \<longrightarrow> 160 \<le> b) \<and> (a = 237 \<longrightarrow> b < 160) \<and> cont c \<and> utf8 rest | _ \<Rightarrow> False)
      else if 240 \<le> a \<and> a < 245 then
        (case bs of b # c # d # rest \<Rightarrow> cont b \<and> (a = 240 \<longrightarrow> 144 \<le> b) \<and> (a = 244 \<longrightarrow> b < 144) \<and> cont c \<and> cont d \<and> utf8 rest
         | _ \<Rightarrow> False)
      else False)"

definition slash :: byte where
  "slash = 47"

definition dot :: byte where
  "dot = 46"

datatype FileSystemError =
    InvalidEntryName
  | InvalidDirectory
  | InvalidManifest
  | DirectoryFull
  | ContentTooLarge
  | MetadataTooLarge
  | DuplicateMetadataKey
  | NotAFormatBlob
  | UnsupportedVersion byte

definition MaxEntryNameLength :: nat where
  "MaxEntryNameLength = 256"

definition MaxDirectoryChildren :: nat where
  "MaxDirectoryChildren = 1024"

definition MaxMetadataEntries :: nat where
  "MaxMetadataEntries = 64"

definition MaxMetadataKeyLength :: nat where
  "MaxMetadataKeyLength = 64"

definition MaxMetadataValueLength :: nat where
  "MaxMetadataValueLength = 256"

definition MaxFileChunks :: nat where
  "MaxFileChunks = 65536"

definition MaxMimeTypeLength :: nat where
  "MaxMimeTypeLength = 128"

definition MaxEncryptionParamsLength :: nat where
  "MaxEncryptionParamsLength = 512"

lemmas format_bounds = MaxEntryNameLength_def MaxDirectoryChildren_def MaxMetadataEntries_def MaxMetadataKeyLength_def
  MaxMetadataValueLength_def MaxFileChunks_def MaxMimeTypeLength_def MaxEncryptionParamsLength_def

definition validate_entry_name :: "byte list \<Rightarrow> FileSystemError + unit" where
  "validate_entry_name name =
     ensure (name \<noteq> [] \<and> length name \<le> MaxEntryNameLength \<and> utf8 name \<and> slash \<notin> set name \<and> name \<noteq> [dot] \<and> name \<noteq> [dot, dot])
       InvalidEntryName (Inr ())"

section \<open>Entries, directories and manifests\<close>

datatype EntryType = File | Directory

record DirectoryEntry =
  de_name :: "byte list"
  de_type :: EntryType
  de_cid :: Cid
  de_size :: nat
  de_mtime :: nat

definition DirectoryEntry_try_new :: "byte list \<Rightarrow> EntryType \<Rightarrow> Cid \<Rightarrow> nat \<Rightarrow> nat \<Rightarrow> FileSystemError + DirectoryEntry" where
  "DirectoryEntry_try_new name entry_type cid bytes mtime =
     attempt (validate_entry_name name) (\<lambda>_.
     ensure (length name \<le> MaxEntryNameLength) InvalidEntryName
     (Inr \<lparr>de_name = name, de_type = entry_type, de_cid = cid, de_size = bytes, de_mtime = mtime\<rparr>))"

definition is_directory :: "DirectoryEntry \<Rightarrow> bool" where
  "is_directory e \<longleftrightarrow> de_type e = Directory"

definition is_file :: "DirectoryEntry \<Rightarrow> bool" where
  "is_file e \<longleftrightarrow> de_type e = File"

record MetadataEntry =
  me_key :: "byte list"
  me_value :: "byte list"

definition MetadataEntry_try_new :: "byte list \<Rightarrow> byte list \<Rightarrow> FileSystemError + MetadataEntry" where
  "MetadataEntry_try_new k v =
     ensure (length k \<le> MaxMetadataKeyLength) MetadataTooLarge
     (ensure (length v \<le> MaxMetadataValueLength) MetadataTooLarge (Inr \<lparr>me_key = k, me_value = v\<rparr>))"

record DirectoryNode =
  dn_bucket_id :: BucketId
  dn_children :: "DirectoryEntry list"
  dn_metadata :: "MetadataEntry list"

definition DirectoryNode_new_empty :: "BucketId \<Rightarrow> DirectoryNode" where
  "DirectoryNode_new_empty b = \<lparr>dn_bucket_id = b, dn_children = [], dn_metadata = []\<rparr>"

text \<open>
  \<open>slice::binary_search_by\<close> of the standard library: \<open>Inr i\<close> is a match at \<open>i\<close>, \<open>Inl i\<close> the
  place to insert at. \<open>search_loop\<close> narrows the part that can hold the name.
\<close>

function search_loop :: "(nat \<Rightarrow> 'a :: linorder) \<Rightarrow> 'a \<Rightarrow> nat \<Rightarrow> nat \<Rightarrow> nat" where
  "search_loop item key base n =
     (if 1 < n then search_loop item key (if key < item (base + n div 2) then base else base + n div 2) (n - n div 2) else base)"
  by pat_completeness auto
termination
  by (relation "measure (\<lambda>(item, key, base, n). n)") auto

declare search_loop.simps [simp del]

definition binary_search :: "(nat \<Rightarrow> 'a :: linorder) \<Rightarrow> nat \<Rightarrow> 'a \<Rightarrow> nat + nat" where
  "binary_search item n key =
     (if n = 0 then Inl 0
      else let base = search_loop item key 0 n in
           if item base = key then Inr base else Inl (base + (if item base < key then 1 else 0)))"

definition dir_position :: "DirectoryNode \<Rightarrow> byte list \<Rightarrow> nat + nat" where
  "dir_position d name = binary_search (\<lambda>i. de_name (dn_children d ! i)) (length (dn_children d)) name"

definition upsert_child :: "DirectoryEntry \<Rightarrow> DirectoryNode \<Rightarrow> FileSystemError + DirectoryNode" where
  "upsert_child entry d =
     (case dir_position d (de_name entry) of
        Inr pos \<Rightarrow> Inr (d\<lparr>dn_children := (dn_children d)[pos := entry]\<rparr>)
      | Inl pos \<Rightarrow>
          ensure (length (dn_children d) < MaxDirectoryChildren) DirectoryFull
            (Inr (d\<lparr>dn_children := take pos (dn_children d) @ entry # drop pos (dn_children d)\<rparr>)))"

definition find_child :: "byte list \<Rightarrow> DirectoryNode \<Rightarrow> DirectoryEntry option" where
  "find_child name d = (case dir_position d name of Inr pos \<Rightarrow> Some (dn_children d ! pos) | Inl _ \<Rightarrow> None)"

definition remove_child :: "byte list \<Rightarrow> DirectoryNode \<Rightarrow> DirectoryEntry option \<times> DirectoryNode" where
  "remove_child name d =
     (case dir_position d name of
        Inr pos \<Rightarrow> (Some (dn_children d ! pos), d\<lparr>dn_children := take pos (dn_children d) @ drop (Suc pos) (dn_children d)\<rparr>)
      | Inl _ \<Rightarrow> (None, d))"

fun validate_entries :: "DirectoryEntry list \<Rightarrow> FileSystemError + unit" where
  "validate_entries [] = Inr ()"
| "validate_entries (entry # entries) =
     attempt (validate_entry_name (de_name entry)) (\<lambda>_.
     ensure (\<not> (is_directory entry \<and> de_size entry \<noteq> 0)) InvalidDirectory (validate_entries entries))"

definition dir_validate :: "DirectoryNode \<Rightarrow> FileSystemError + unit" where
  "dir_validate d =
     ensure (dn_metadata d = []) InvalidDirectory
     (attempt (validate_entries (dn_children d)) (\<lambda>_.
      ensure (\<not> (\<exists>i < length (dn_children d) - 1. de_name (dn_children d ! i) \<ge> de_name (dn_children d ! Suc i))) InvalidDirectory (Inr ())))"

record FileChunk =
  fc_cid :: Cid
  fc_sequence :: nat

record FileManifest =
  fm_bucket_id :: BucketId
  fm_mime_type :: "byte list"
  fm_total_size :: nat
  fm_chunks :: "FileChunk list"
  fm_encryption_params :: "byte list"
  fm_user_metadata :: "MetadataEntry list"

definition DEFAULT_MIME_TYPE :: "byte list" where
  "DEFAULT_MIME_TYPE = bytes_of ''application/octet-stream''"

definition for_content :: "(byte list \<Rightarrow> H256) \<Rightarrow> BucketId \<Rightarrow> byte list \<Rightarrow> byte list \<Rightarrow> MetadataEntry list \<Rightarrow> FileSystemError + FileManifest" where
  "for_content h bucket_id content mime_type metadata =
     (let user_metadata = sort_key me_key metadata in
      ensure (\<not> (\<exists>i < length user_metadata - 1. me_key (user_metadata ! i) = me_key (user_metadata ! Suc i))) DuplicateMetadataKey
      (let chunks = map (\<lambda>(i, cid). \<lparr>fc_cid = cid, fc_sequence = i mod 2 ^ 32\<rparr>) (enumerate 0 (chunk_hashes h content));
           mime = (if mime_type = [] then DEFAULT_MIME_TYPE else mime_type) in
       ensure (length mime \<le> MaxMimeTypeLength) MetadataTooLarge
       (ensure (length chunks \<le> MaxFileChunks) ContentTooLarge
       (ensure (length user_metadata \<le> MaxMetadataEntries) MetadataTooLarge
       (Inr \<lparr>fm_bucket_id = bucket_id, fm_mime_type = mime, fm_total_size = length content, fm_chunks = chunks,
          fm_encryption_params = [], fm_user_metadata = user_metadata\<rparr>)))))"

definition content_root :: "(byte list \<Rightarrow> H256) \<Rightarrow> FileManifest \<Rightarrow> Cid" where
  "content_root h mf = merkle_root (hash_children h) (map fc_cid (fm_chunks mf))"

definition manifest_validate :: "FileManifest \<Rightarrow> FileSystemError + unit" where
  "manifest_validate mf =
     ensure (\<not> (\<exists>i < length (fm_user_metadata mf) - 1. me_key (fm_user_metadata mf ! i) \<ge> me_key (fm_user_metadata mf ! Suc i))) InvalidManifest
     (ensure (length (fm_chunks mf) = div_ceil (fm_total_size mf) DEFAULT_CHUNK_SIZE) InvalidManifest
     (ensure (\<not> (\<exists>i < length (fm_chunks mf). fc_sequence (fm_chunks mf ! i) \<noteq> i)) InvalidManifest (Inr ())))"

section \<open>SCALE\<close>

text \<open>
  The derived encodings. A vector is its length in compact form and its elements; the two low
  bits of a compact number say how many bytes it has.
\<close>

definition scale_compact :: "nat \<Rightarrow> byte list" where
  "scale_compact n =
     (if n < 2 ^ 6 then le_bytes 1 (n * 4)
      else if n < 2 ^ 14 then le_bytes 2 (n * 4 + 1)
      else if n < 2 ^ 30 then le_bytes 4 (n * 4 + 2)
      else 3 # le_bytes 4 n)"

definition encode_bytes :: "byte list \<Rightarrow> byte list" where
  "encode_bytes bs = scale_compact (length bs) @ bs"

definition encode_vec :: "('a \<Rightarrow> byte list) \<Rightarrow> 'a list \<Rightarrow> byte list" where
  "encode_vec enc xs = scale_compact (length xs) @ concat (map enc xs)"

definition encode_entry :: "DirectoryEntry \<Rightarrow> byte list" where
  "encode_entry e = encode_bytes (de_name e) @ [case de_type e of File \<Rightarrow> 0 | Directory \<Rightarrow> 1] @ as_bytes (de_cid e) @
     le_bytes 8 (de_size e) @ le_bytes 8 (de_mtime e)"

definition encode_meta :: "MetadataEntry \<Rightarrow> byte list" where
  "encode_meta m = encode_bytes (me_key m) @ encode_bytes (me_value m)"

definition encode_dir :: "DirectoryNode \<Rightarrow> byte list" where
  "encode_dir d = le_bytes 8 (dn_bucket_id d) @ encode_vec encode_entry (dn_children d) @ encode_vec encode_meta (dn_metadata d)"

definition encode_chunk :: "FileChunk \<Rightarrow> byte list" where
  "encode_chunk c = as_bytes (fc_cid c) @ le_bytes 4 (fc_sequence c)"

definition encode_manifest :: "FileManifest \<Rightarrow> byte list" where
  "encode_manifest mf = le_bytes 8 (fm_bucket_id mf) @ encode_bytes (fm_mime_type mf) @ le_bytes 8 (fm_total_size mf) @
     encode_vec encode_chunk (fm_chunks mf) @ encode_bytes (fm_encryption_params mf) @ encode_vec encode_meta (fm_user_metadata mf)"

type_synonym 'a decoder = "byte list \<Rightarrow> ('a \<times> byte list) option"

definition decode_int :: "nat \<Rightarrow> nat decoder" where
  "decode_int n bs = (if length bs < n then None else Some (le_value (take n bs), drop n bs))"

definition decode_h256 :: "H256 decoder" where
  "decode_h256 bs = (if length bs < 32 then None else Some (H256_from (take 32 bs), drop 32 bs))"

text \<open>A number is only accepted in its shortest form.\<close>

definition decode_compact :: "nat decoder" where
  "decode_compact bs =
     (case bs of
        [] \<Rightarrow> None
      | b # rest \<Rightarrow>
          let mode = unat b mod 4 in
          if mode = 0 then Some (unat b div 4, rest)
          else if mode = 1 then Option.bind (decode_int 2 bs) (\<lambda>(x, rest). if x div 4 < 2 ^ 6 then None else Some (x div 4, rest))
          else if mode = 2 then Option.bind (decode_int 4 bs) (\<lambda>(x, rest). if x div 4 < 2 ^ 14 then None else Some (x div 4, rest))
          else if b = 3 then Option.bind (decode_int 4 rest) (\<lambda>(x, rest). if x < 2 ^ 30 then None else Some (x, rest))
          else None)"

definition decode_bytes :: "nat \<Rightarrow> byte list decoder" where
  "decode_bytes bound bs =
     Option.bind (decode_compact bs) (\<lambda>(n, bs).
       if bound < n \<or> length bs < n then None else Some (take n bs, drop n bs))"

fun decode_items :: "'a decoder \<Rightarrow> nat \<Rightarrow> 'a list decoder" where
  "decode_items dec 0 bs = Some ([], bs)"
| "decode_items dec (Suc n) bs =
     Option.bind (dec bs) (\<lambda>(x, bs). Option.bind (decode_items dec n bs) (\<lambda>(xs, bs). Some (x # xs, bs)))"

definition decode_vec :: "nat \<Rightarrow> 'a decoder \<Rightarrow> 'a list decoder" where
  "decode_vec bound dec bs = Option.bind (decode_compact bs) (\<lambda>(n, bs). if bound < n then None else decode_items dec n bs)"

definition decode_type :: "EntryType decoder" where
  "decode_type bs = (case bs of [] \<Rightarrow> None | b # rest \<Rightarrow> if b = 0 then Some (File, rest) else if b = 1 then Some (Directory, rest) else None)"

definition decode_entry :: "DirectoryEntry decoder" where
  "decode_entry bs =
     Option.bind (decode_bytes MaxEntryNameLength bs) (\<lambda>(name, bs).
     Option.bind (decode_type bs) (\<lambda>(entry_type, bs).
     Option.bind (decode_h256 bs) (\<lambda>(cid, bs).
     Option.bind (decode_int 8 bs) (\<lambda>(bytes, bs).
     Option.bind (decode_int 8 bs) (\<lambda>(mtime, bs).
     Some (\<lparr>de_name = name, de_type = entry_type, de_cid = cid, de_size = bytes, de_mtime = mtime\<rparr>, bs))))))"

definition decode_meta :: "MetadataEntry decoder" where
  "decode_meta bs =
     Option.bind (decode_bytes MaxMetadataKeyLength bs) (\<lambda>(k, bs).
     Option.bind (decode_bytes MaxMetadataValueLength bs) (\<lambda>(v, bs).
     Some (\<lparr>me_key = k, me_value = v\<rparr>, bs)))"

definition decode_dir :: "DirectoryNode decoder" where
  "decode_dir bs =
     Option.bind (decode_int 8 bs) (\<lambda>(b, bs).
     Option.bind (decode_vec MaxDirectoryChildren decode_entry bs) (\<lambda>(children, bs).
     Option.bind (decode_vec MaxMetadataEntries decode_meta bs) (\<lambda>(metadata, bs).
     Some (\<lparr>dn_bucket_id = b, dn_children = children, dn_metadata = metadata\<rparr>, bs))))"

definition decode_chunk :: "FileChunk decoder" where
  "decode_chunk bs =
     Option.bind (decode_h256 bs) (\<lambda>(cid, bs).
     Option.bind (decode_int 4 bs) (\<lambda>(i, bs). Some (\<lparr>fc_cid = cid, fc_sequence = i\<rparr>, bs)))"

definition decode_manifest :: "FileManifest decoder" where
  "decode_manifest bs =
     Option.bind (decode_int 8 bs) (\<lambda>(b, bs).
     Option.bind (decode_bytes MaxMimeTypeLength bs) (\<lambda>(mime, bs).
     Option.bind (decode_int 8 bs) (\<lambda>(total, bs).
     Option.bind (decode_vec MaxFileChunks decode_chunk bs) (\<lambda>(chunks, bs).
     Option.bind (decode_bytes MaxEncryptionParamsLength bs) (\<lambda>(params, bs).
     Option.bind (decode_vec MaxMetadataEntries decode_meta bs) (\<lambda>(metadata, bs).
     Some (\<lparr>fm_bucket_id = b, fm_mime_type = mime, fm_total_size = total, fm_chunks = chunks,
       fm_encryption_params = params, fm_user_metadata = metadata\<rparr>, bs)))))))"

section \<open>Blobs\<close>

definition FORMAT_MAGIC :: "byte list" where
  "FORMAT_MAGIC = bytes_of ''W3FS''"

definition FORMAT_VERSION :: byte where
  "FORMAT_VERSION = 1"

definition HEADER_LEN :: nat where
  "HEADER_LEN = 5"

definition to_blob :: "byte list \<Rightarrow> byte list" where
  "to_blob body = FORMAT_MAGIC @ [FORMAT_VERSION] @ body"

definition from_blob :: "'a decoder \<Rightarrow> byte list \<Rightarrow> FileSystemError + 'a" where
  "from_blob dec bytes =
     ensure (HEADER_LEN \<le> length bytes) NotAFormatBlob
     (ensure (take 4 bytes = FORMAT_MAGIC) NotAFormatBlob
     (ensure (bytes ! 4 = FORMAT_VERSION) (UnsupportedVersion (bytes ! 4))
     (case dec (drop HEADER_LEN bytes) of Some (x, []) \<Rightarrow> Inr x | _ \<Rightarrow> Inl NotAFormatBlob)))"

definition dir_to_blob :: "DirectoryNode \<Rightarrow> byte list" where
  "dir_to_blob d = to_blob (encode_dir d)"

definition dir_from_blob :: "byte list \<Rightarrow> FileSystemError + DirectoryNode" where
  "dir_from_blob bytes = from_blob decode_dir bytes"

definition manifest_to_blob :: "FileManifest \<Rightarrow> byte list" where
  "manifest_to_blob mf = to_blob (encode_manifest mf)"

definition manifest_from_blob :: "byte list \<Rightarrow> FileSystemError + FileManifest" where
  "manifest_from_blob bytes = from_blob decode_manifest bytes"

text \<open>\<open>MaxEncodedLen\<close>: a bounded vector has at most its bound of elements, each of the largest size.\<close>

definition bounded_len :: "nat \<Rightarrow> nat \<Rightarrow> nat" where
  "bounded_len bound each = length (scale_compact bound) + bound * each"

definition meta_max_len :: nat where
  "meta_max_len = bounded_len MaxMetadataKeyLength 1 + bounded_len MaxMetadataValueLength 1"

definition dir_max_blob_len :: nat where
  "dir_max_blob_len = HEADER_LEN + (8 + bounded_len MaxDirectoryChildren (bounded_len MaxEntryNameLength 1 + 1 + 32 + 8 + 8) +
     bounded_len MaxMetadataEntries meta_max_len)"

definition manifest_max_blob_len :: nat where
  "manifest_max_blob_len = HEADER_LEN + (8 + bounded_len MaxMimeTypeLength 1 + 8 + bounded_len MaxFileChunks (32 + 4) +
     bounded_len MaxEncryptionParamsLength 1 + bounded_len MaxMetadataEntries meta_max_len)"

lemma max_blob_lens: "dir_max_blob_len = 335121" "manifest_max_blob_len = 2380703"
  by (simp_all add: dir_max_blob_len_def manifest_max_blob_len_def meta_max_len_def bounded_len_def scale_compact_def HEADER_LEN_def format_bounds)

end
