(* ===== verification/Client_Safety.thy ===== *)
theory Client_Safety
  imports Storage_Client Api_Safety
begin

text \<open>
  What the download of the client gives a storage user: with an honest provider any range of
  committed data is read exactly, or the client panics when it starts past the end inside a
  chunk. The last part is what the client does not check: a provider that answers with other
  data than was committed is believed.
\<close>

section \<open>An honest provider\<close>

text \<open>
  The client talks to a node, both use the same hash and text codings, and the codings
  invert.
\<close>

definition connected :: "'m provider_state \<Rightarrow> NodeState \<Rightarrow> (BucketId \<Rightarrow> MembershipError + CachedMembership) \<Rightarrow> nat \<Rightarrow>
    DiskStorage StorageUserClient \<Rightarrow> bool" where
  "connected A node access now c \<longleftrightarrow>
     su_http c = provider_http A node (h256_to_hex (su_lib c)) access now \<and> su_provider_urls c \<noteq> [] \<and>
     su_hash c = ax_hash A \<and> cl_api (su_lib c) = ax_lib A \<and>
     (\<forall>x. parse_h256 (ax_lib A) (h256_to_hex (su_lib c) x) = Some x) \<and>
     (\<forall>bs. base64_decode (ax_lib A) (base64_encode (ax_lib A) bs) = Some bs)"

lemma connectedD:
  assumes "connected A node access now c"
  shows "su_http c = provider_http A node (h256_to_hex (su_lib c)) access now" "get_provider_url c = Inr (hd (su_provider_urls c))"
    "su_hash c = ax_hash A" "cl_api (su_lib c) = ax_lib A" "parse_h256 (ax_lib A) (h256_to_hex (su_lib c) x) = Some x"
    "base64_decode (ax_lib A) (base64_encode (ax_lib A) bs) = Some bs" "client_parse_h256 c (h256_to_hex (su_lib c) x) = Inr x"
  using assms by (auto simp: connected_def get_provider_url_def client_parse_h256_def split: list.split)

section \<open>Downloading from an honest provider\<close>

lemma verified_data_honest:
  assumes "connected A node access now c"
  shows "verified_data c (map (\<lambda>ch. \<lparr>wc_hash = h256_to_hex (su_lib c) (cp_hash ch), wc_data = cp_data ch, wc_proof = pr ch\<rparr>)
      (map (\<lambda>i. \<lparr>cp_hash = hash_leaf (ax_hash A) (f i), cp_data = base64_encode (ax_lib A) (f i), cp_proof = pf i\<rparr>) rng)) =
    Inr (concat (map f rng))"
  using connectedD [OF assms] by (induction rng) (simp_all add: ensure_def)

lemma trim_range_spec:
  assumes "offset mod DEFAULT_CHUNK_SIZE + len < 2 ^ 64"
  shows "trim_range offset len data =
    (if offset mod DEFAULT_CHUNK_SIZE \<le> length data then Inr (take len (drop (offset mod DEFAULT_CHUNK_SIZE) data)) else Inl Panic)"
  using assms by (auto simp: trim_range_def Let_def)

lemma download_listed:
  assumes c: "connected A node access now c"
    and reach: "store_reachable (ax_mmr A) (ax_hash A) d" and bk: "fmlookup (cf_buckets d) b = Some bk"
    and l: "l \<in> set (bk_leaves bk)" and free: "\<not> collision_among (ax_hash A) (store_strings (ax_hash A) (cf_nodes d) {l})"
  obtains cs where "merkle_root (hash_children (ax_hash A)) (map (hash_leaf (ax_hash A)) cs) = data_root l" "data_size l = length (concat cs)"
    "map (fmlookup (cf_nodes d)) (leaf_hashes (cf_nodes d) l) = map (Some \<circ> Chunk) cs"
    "\<And>offset len. offset < 2 ^ 64 \<Longrightarrow> offset mod DEFAULT_CHUNK_SIZE + len < 2 ^ 64 \<Longrightarrow> client_download c b (data_root l) offset len d =
      (if offset \<le> length (concat cs) \<or> offset mod DEFAULT_CHUNK_SIZE = 0
       then case su_cipher c of
              None \<Rightarrow> Inr (take len (drop offset (concat cs)))
            | Some k \<Rightarrow> ok_or (decrypt k (take len (drop offset (concat cs)))) (Failure EncryptionError) Inr
       else Inl Panic, d)"
proof -
  let ?C = "DEFAULT_CHUNK_SIZE" and ?h = "ax_hash A"
  obtain cs pf where cs: "merkle_root (hash_children ?h) (map (hash_leaf ?h) cs) = data_root l" "data_size l = length (concat cs)"
    "list_all (\<lambda>c. length c = ?C) (butlast cs)" "\<forall>c\<in>set cs. length c \<le> ?C" "length cs \<le> MAX_TREE_WALK_VISITS"
    "map (fmlookup (cf_nodes d)) (leaf_hashes (cf_nodes d) l) = map (Some \<circ> Chunk) cs"
    and run: "\<And>cx offset len. create_router A node cx (GetRead b (h256_to_hex (su_lib c) (data_root l)) offset len) d =
       (Inr (ReadResponse (map (\<lambda>i. \<lparr>cp_hash = hash_leaf ?h (cs ! i), cp_data = base64_encode (ax_lib A) (cs ! i), cp_proof = pf i\<rparr>)
         [offset div ?C..<min (div_ceil (saturating_add 64 offset len) ?C) (length cs)])), d)"
    by (rule read_listed [OF reach bk l free connectedD(5) [OF c]]) blast
  show thesis
  proof (rule that [OF cs(1,2,6)])
    fix offset len :: nat
    assume w: "offset < 2 ^ 64" "offset mod ?C + len < 2 ^ 64"
    let ?stop = "div_ceil (saturating_add 64 offset len) ?C"
    let ?got = "concat (map ((!) cs) [offset div ?C..<min ?stop (length cs)])"
    have "offset \<le> ?stop * ?C \<or> length (concat cs) \<le> ?stop * ?C"
      using covering_stop [OF cs(4,5), of offset len] by linarith
    note got = covering_length [OF cs(3,4) this] covering_chunks [OF cs(3,4) covering_stop [OF cs(4,5)], of len offset]
    have "client_download c b (data_root l) offset len d =
        (attempt (trim_range offset len ?got) (\<lambda>trimmed. case su_cipher c of
           None \<Rightarrow> Inr trimmed | Some k \<Rightarrow> ok_or (decrypt k trimmed) (Failure EncryptionError) Inr), d)"
      using run connectedD(2) [OF c]
      by (simp add: client_download_def send_plain_def connectedD(1) [OF c] provider_http_def body_of_def
          verified_data_honest [OF c] del: map_map create_router.simps)
    also have "\<dots> = (if offset \<le> length (concat cs) \<or> offset mod ?C = 0
       then case su_cipher c of
              None \<Rightarrow> Inr (take len (drop offset (concat cs)))
            | Some k \<Rightarrow> ok_or (decrypt k (take len (drop offset (concat cs)))) (Failure EncryptionError) Inr
       else Inl Panic, d)"
      unfolding trim_range_spec [OF w(2)] got by simp
    finally show "client_download c b (data_root l) offset len d = \<dots>" .
  qed
qed

lemma download_listed_full:
  assumes c: "connected A node access now c"
    and reach: "store_reachable (ax_mmr A) (ax_hash A) d" and bk: "fmlookup (cf_buckets d) b = Some bk"
    and l: "l \<in> set (bk_leaves bk)" and free: "\<not> collision_among (ax_hash A) (store_strings (ax_hash A) (cf_nodes d) {l})"
  obtains cs where "map (fmlookup (cf_nodes d)) (leaf_hashes (cf_nodes d) l) = map (Some \<circ> Chunk) cs"
    "\<And>len. len < 2 ^ 64 \<Longrightarrow> download_full c b (data_root l) len d = (case su_cipher c of
       None \<Rightarrow> Inr (take len (concat cs)) | Some k \<Rightarrow> ok_or (decrypt k (take len (concat cs))) (Failure EncryptionError) Inr, d)"
proof (rule download_listed [OF assms])
  fix cs
  assume cs: "map (fmlookup (cf_nodes d)) (leaf_hashes (cf_nodes d) l) = map (Some \<circ> Chunk) cs"
    "\<And>offset len. offset < 2 ^ 64 \<Longrightarrow> offset mod DEFAULT_CHUNK_SIZE + len < 2 ^ 64 \<Longrightarrow> client_download c b (data_root l) offset len d =
      (if offset \<le> length (concat cs) \<or> offset mod DEFAULT_CHUNK_SIZE = 0
       then case su_cipher c of
              None \<Rightarrow> Inr (take len (drop offset (concat cs)))
            | Some k \<Rightarrow> ok_or (decrypt k (take len (drop offset (concat cs)))) (Failure EncryptionError) Inr
       else Inl Panic, d)"
  show thesis by (rule that [OF cs(1)]) (simp add: download_full_def cs(2) cong: option.case_cong)
qed

text \<open>
  C10. Downloading a range of committed data from an honest provider returns exactly the bytes
  the data has there, a range past the end is cut short, and the client panics exactly when
  the range starts past the end of the data and not on a chunk boundary.
\<close>

theorem download_exact_or_panic:
  assumes c: "connected A node access now c" "su_cipher c = None"
    and reach: "store_reachable (ax_mmr A) (ax_hash A) d" and bk: "fmlookup (cf_buckets d) b = Some bk"
    and l: "l \<in> set (bk_leaves bk)" and free: "\<not> collision_among (ax_hash A) (store_strings (ax_hash A) (cf_nodes d) {l})"
    and w: "offset < 2 ^ 64" "offset mod DEFAULT_CHUNK_SIZE + len < 2 ^ 64"
  shows "\<exists>cs. merkle_root (hash_children (ax_hash A)) (map (hash_leaf (ax_hash A)) cs) = data_root l \<and> data_size l = length (concat cs) \<and>
    client_download c b (data_root l) offset len d =
      (if offset \<le> length (concat cs) \<or> offset mod DEFAULT_CHUNK_SIZE = 0 then Inr (take len (drop offset (concat cs))) else Inl Panic, d)"
proof (rule download_listed [OF c(1) reach bk l free])
  fix cs
  assume cs: "merkle_root (hash_children (ax_hash A)) (map (hash_leaf (ax_hash A)) cs) = data_root l" "data_size l = length (concat cs)"
    "\<And>offset len. offset < 2 ^ 64 \<Longrightarrow> offset mod DEFAULT_CHUNK_SIZE + len < 2 ^ 64 \<Longrightarrow> client_download c b (data_root l) offset len d =
      (if offset \<le> length (concat cs) \<or> offset mod DEFAULT_CHUNK_SIZE = 0
       then case su_cipher c of
              None \<Rightarrow> Inr (take len (drop offset (concat cs)))
            | Some k \<Rightarrow> ok_or (decrypt k (take len (drop offset (concat cs)))) (Failure EncryptionError) Inr
       else Inl Panic, d)"
  show ?thesis using cs(1,2) cs(3) [OF w] c(2) by (intro exI [of _ cs]) simp
qed

section \<open>A dishonest provider\<close>

text \<open>
  C38. The client does not check what it downloads against the data root: a provider that
  answers every read with one chunk of its own making and that chunk's hash is believed,
  whatever the data root, by the download and by the spot check of any chunk.
\<close>

theorem forged_data_accepted:
  assumes c: "su_provider_urls c \<noteq> []" "su_cipher c = None" and bs: "bs \<noteq> []" "length bs \<le> DEFAULT_CHUNK_SIZE"
    and reply: "\<And>req w. http_send (su_http c) [] req w =
      (Body (WireRead [\<lparr>wc_hash = h256_to_hex (su_lib c) (hash_leaf (su_hash c) bs), wc_data = base64_encode (cl_api (su_lib c)) bs, wc_proof = []\<rparr>]), w)"
    and coding: "\<And>x. parse_h256 (cl_api (su_lib c)) (h256_to_hex (su_lib c) x) = Some x"
      "\<And>bs. base64_decode (cl_api (su_lib c)) (base64_encode (cl_api (su_lib c)) bs) = Some bs"
  shows "client_download c b tree 0 (length bs) w = (Inr bs, w) \<and> spot_check c b tree idx w = (Inr True, w)"
proof -
  have url: "get_provider_url c = Inr (hd (su_provider_urls c))" using c(1) by (cases "su_provider_urls c") (auto simp: get_provider_url_def)
  have "verified_data c [\<lparr>wc_hash = h256_to_hex (su_lib c) (hash_leaf (su_hash c) bs), wc_data = base64_encode (cl_api (su_lib c)) bs, wc_proof = []\<rparr>] = Inr bs"
    by (simp add: coding client_parse_h256_def ensure_def)
  moreover have "attempt r Inr = r" for r :: "ClientFailure + byte list" by (cases r) simp_all
  ultimately have get: "client_download c b tree offset len w = (trim_range offset len bs, w)" for offset len
    using c(2) by (simp add: client_download_def url send_plain_def reply body_of_def split: sum.split)
  have "length bs < 2 ^ 64" using bs(2) by (simp add: DEFAULT_CHUNK_SIZE_def)
  then have "client_download c b tree 0 (length bs) w = (Inr bs, w)" by (simp add: get trim_range_spec)
  moreover have "idx * DEFAULT_CHUNK_SIZE mod 2 ^ 64 mod DEFAULT_CHUNK_SIZE = 0"
    by (simp add: DEFAULT_CHUNK_SIZE_def mod_mod_cancel)
  then have "spot_check c b tree idx w = (Inr True, w)"
    using bs by (simp add: spot_check_def Let_def url get trim_range_spec DEFAULT_CHUNK_SIZE_def)
  ultimately show ?thesis by blast
qed

section \<open>Runs\<close>

definition demo_coding :: api_lib where
  "demo_coding = \<lparr>parse_h256 = (\<lambda>t. Some (H256_from (map (\<lambda>c. word_of_nat (of_char c)) t))),
     base64_decode = (\<lambda>t. Some (map (\<lambda>c. word_of_nat (of_char c)) t)), base64_encode = map (\<lambda>b. char_of (unat b)),
     signature_hex = (\<lambda>s. case s of Ed25519 bs \<Rightarrow> CHR ''d'' # map (\<lambda>b. char_of (unat b)) bs
       | Sr25519 bs \<Rightarrow> CHR ''r'' # map (\<lambda>b. char_of (unat b)) bs | Ecdsa bs \<Rightarrow> CHR ''e'' # map (\<lambda>b. char_of (unat b)) bs
       | Eth bs \<Rightarrow> CHR ''t'' # map (\<lambda>b. char_of (unat b)) bs)\<rparr>"

definition demo_client_lib :: client_lib where
  "demo_client_lib = \<lparr>cl_api = demo_coding, cl_auth = demo_auth_lib, h256_to_hex = (\<lambda>x. map (\<lambda>b. char_of (unat b)) (as_bytes x)),
     decode_multi_signature = (\<lambda>t. let bs = map (\<lambda>c. word_of_nat (of_char c)) (tl t) in
       if hd t = CHR ''d'' then Some (Ed25519 bs) else if hd t = CHR ''r'' then Some (Sr25519 bs)
       else if hd t = CHR ''e'' then Some (Ecdsa bs) else Some (Eth bs))\<rparr>"

definition demo_client :: "'w http \<Rightarrow> 'w StorageUserClient" where
  "demo_client net = \<lparr>su_lib = demo_client_lib, su_hash = demo_hash, su_http = net, su_provider_urls = [''http://provider''],
     su_cipher = None, su_auth_signer = \<lparr>sn_public_key = replicate 32 12, sn_sign = (\<lambda>_. replicate 64 12)\<rparr>, su_now = 1000\<rparr>"

abbreviation coding_api :: "H256 provider_state" where
  "coding_api \<equiv> demo_api\<lparr>ax_lib := demo_coding\<rparr>"

abbreviation demo_access :: "BucketId \<Rightarrow> MembershipError + CachedMembership" where
  "demo_access \<equiv> chain_access (Some 11) stored 900"

abbreviation honest_client :: "DiskStorage StorageUserClient" where
  "honest_client \<equiv> demo_client (provider_http coding_api (demo_node 11 provider11) (h256_to_hex demo_client_lib) demo_access 1100)"

lemma byte_char [simp]: "map (\<lambda>c. word_of_nat (of_char c)) (map (\<lambda>b. char_of (unat b)) (bs :: byte list)) = bs"
proof -
  have "unat b mod 256 = unat b" for b :: byte using unsigned_less [of b, where 'a = nat] by simp
  then show ?thesis by (simp add: comp_def)
qed

lemma demo_codings:
  "parse_h256 demo_coding (h256_to_hex demo_client_lib x) = Some x"
  "base64_decode demo_coding (base64_encode demo_coding bs) = Some bs"
  "decode_multi_signature demo_client_lib (signature_hex demo_coding sig) = Some sig"
  by (simp_all add: demo_coding_def demo_client_lib_def as_bytes_inverse del: map_map, cases sig)
    (simp_all add: Let_def del: map_map)

lemma demo_connected: "connected coding_api (demo_node 11 provider11) demo_access 1100 honest_client"
  using demo_codings by (simp add: connected_def demo_client_def demo_client_lib_def demo_api_def)

text \<open>Reading one byte at offset 1 of three committed bytes, and past them.\<close>

theorem download_exact_or_panic_witness:
  "\<exists>cs. length (concat cs) = 3 \<and>
     client_download honest_client 0 (data_root demo_leaf) 1 1 demo_store = (Inr (take 1 (drop 1 (concat cs))), demo_store) \<and>
     client_download honest_client 0 (data_root demo_leaf) 5 1 demo_store = (Inl Panic, demo_store)"
proof -
  have lib: "ax_mmr coding_api = demo_mmr" "ax_hash coding_api = demo_hash" by (simp_all add: demo_api_def)
  have bk: "fmlookup (cf_buckets demo_store) 0 = Some demo_bucket" "demo_leaf \<in> set (bk_leaves demo_bucket)"
    by (simp_all add: demo_store_def demo_bucket_def)
  have free: "\<not> collision_among (ax_hash coding_api) (store_strings (ax_hash coding_api) (cf_nodes demo_store) {demo_leaf})"
    unfolding lib demo_store_strings by (simp add: collision_among_def)
  have reach: "store_reachable (ax_mmr coding_api) (ax_hash coding_api) demo_store" unfolding lib by (rule demo_store_reachable)
  have plain: "su_cipher honest_client = None" by (simp add: demo_client_def)
  note run = download_exact_or_panic [OF demo_connected plain reach bk free]
  have C: "1 mod DEFAULT_CHUNK_SIZE = 1" "5 mod DEFAULT_CHUNK_SIZE = 5" "data_size demo_leaf = 3"
    by (simp_all add: DEFAULT_CHUNK_SIZE_def demo_leaf_def)
  from run [of 1 1] obtain cs where "length (concat cs) = 3"
    "client_download honest_client 0 (data_root demo_leaf) 1 1 demo_store = (Inr (take 1 (drop 1 (concat cs))), demo_store)"
    unfolding C by auto
  moreover from run [of 5 1] have "client_download honest_client 0 (data_root demo_leaf) 5 1 demo_store = (Inl Panic, demo_store)"
    unfolding C by auto
  ultimately show ?thesis by blast
qed

theorem forged_data_accepted_witness:
  "client_download (demo_client \<lparr>http_send = (\<lambda>_ _ w. (Body (WireRead [\<lparr>wc_hash = h256_to_hex demo_client_lib (hash_leaf demo_hash [9]),
       wc_data = base64_encode demo_coding [9], wc_proof = []\<rparr>]), w))\<rparr>) 0 (data_root demo_leaf) 0 1 () = (Inr [9], ())"
  using forged_data_accepted [of "demo_client \<lparr>http_send = (\<lambda>_ _ w. (Body (WireRead [\<lparr>wc_hash = h256_to_hex demo_client_lib (hash_leaf demo_hash [9]),
       wc_data = base64_encode demo_coding [9], wc_proof = []\<rparr>]), w))\<rparr>" "[9]" 0 "data_root demo_leaf" "()"] demo_codings
  by (simp add: demo_client_def demo_client_lib_def DEFAULT_CHUNK_SIZE_def)

end
