(* ===== verification/Upload_Safety.thy ===== *)
theory Upload_Safety
  imports Client_Safety
begin

text \<open>
  The way of a storage user's data to the provider and back: the client's upload and commit
  run against the handlers of the node (\<open>Provider_Api\<close>) and its store (\<open>Provider_Store\<close>). The
  main result composes them with the download of \<open>Client_Safety\<close>.
\<close>

section \<open>Uploading to an honest provider\<close>

text \<open>
  The provider lets the client write to the bucket: its clock and the client's agree, the
  signatures of the client verify, and the chain lists its account as a writer or an admin.
\<close>

definition may_write :: "'m provider_state \<Rightarrow> (BucketId \<Rightarrow> MembershipError + CachedMembership) \<Rightarrow> nat \<Rightarrow>
    DiskStorage StorageUserClient \<Rightarrow> BucketId \<Rightarrow> bool" where
  "may_write A access now c b \<longleftrightarrow>
     (let L = au_lib (ax_auth A); key = sn_public_key (su_auth_signer c); sign = sn_sign (su_auth_signer c) in
      hex_law L \<and> cl_auth (su_lib c) = L \<and> length key = 32 \<and> (\<forall>m. length (sign m) = 64 \<and> sr25519_verify L (sign m) m key) \<and>
      su_now c < 2 ^ 64 \<and> abs_diff now (su_now c) \<le> au_max_skew (ax_auth A) \<and>
      (\<exists>entry role. access b = Inr entry \<and> role_of entry (account_new L key) = Some role \<and> role \<noteq> Reader))"

lemma may_write_role:
  assumes "may_write A access now c b"
  shows "check_role A \<lparr>cx_headers = [(''authorization'', Some (client_auth_header c verb b))], cx_access = access, cx_now = now, cx_limiter = limiter\<rparr>
    verb b NeedWriter = Inr ()"
  using assms built_header_verifies [of "au_lib (ax_auth A)" "sn_public_key (su_auth_signer c)" "sn_sign (su_auth_signer c)" "su_now c"]
  by (auto simp: may_write_def Let_def check_role_def require_role_def auth_header_def client_auth_header_def ensure_def)

definition open_bucket :: "BucketId \<Rightarrow> DiskStorage \<Rightarrow> bool" where
  "open_bucket b d \<longleftrightarrow> (case fmlookup (cf_buckets d) b of None \<Rightarrow> True | Some bk \<Rightarrow> 2 ^ 64 - 1 \<le> bk_max_bytes bk)"

definition leaves_of :: "BucketId \<Rightarrow> DiskStorage \<Rightarrow> MmrLeaf list" where
  "leaves_of b d = (case fmlookup (cf_buckets d) b of None \<Rightarrow> [] | Some bk \<Rightarrow> bk_leaves bk)"

text \<open>The store took the nodes \<open>ms\<close> on behalf of the bucket and nothing else changed for its data.\<close>

definition absorbed :: "'m provider_state \<Rightarrow> BucketId \<Rightarrow> ChunkTreeNode set \<Rightarrow> DiskStorage \<Rightarrow> DiskStorage \<Rightarrow> bool" where
  "absorbed A b ms d d' \<longleftrightarrow> (store_step (ax_mmr A) (ax_hash A))\<^sup>*\<^sup>* d d' \<and> open_bucket b d' \<and> leaves_of b d' = leaves_of b d \<and>
     (fmlookup (cf_buckets d') b = None \<longrightarrow> ms = {} \<and> fmlookup (cf_buckets d) b = None) \<and>
     fmdom' (cf_nodes d') = fmdom' (cf_nodes d) \<union> hash_of_node (ax_hash A) ` ms \<and>
     stored_strings (cf_nodes d') \<subseteq> stored_strings (cf_nodes d) \<union> preimage ` ms"

lemma absorbed_refl: "open_bucket b d \<Longrightarrow> absorbed A b {} d d"
  by (simp add: absorbed_def)

lemma absorbed_trans:
  assumes "absorbed A b ms d d1" "absorbed A b ns d1 d2" shows "absorbed A b (ms \<union> ns) d d2"
  using assms unfolding absorbed_def by (auto simp: image_Un intro: rtranclp_trans)

lemma stored_strings_upd: "stored_strings (fmupd x n ns) \<subseteq> insert (preimage n) (stored_strings ns)"
  by (auto simp: stored_strings_def split: if_splits elim!: fmran'E) (metis fmran'I imageI)

definition uploadable :: "DiskStorage \<Rightarrow> ChunkTreeNode \<Rightarrow> bool" where
  "uploadable d n \<longleftrightarrow> (case n of Chunk bs \<Rightarrow> length bs \<le> DEFAULT_CHUNK_SIZE | Internal l r \<Rightarrow> {l, r} \<subseteq> fmdom' (cf_nodes d))"

lemma upload_node_honest:
  assumes c: "connected A node access now c" and auth: "may_write A access now c b"
    and op: "open_bucket b d" and n: "uploadable d n"
  obtains d' where "client_upload_node c b n d = (Inr (hash_of_node (ax_hash A) n), d')" "absorbed A b {n} d d'"
proof -
  let ?h = "ax_hash A" and ?hex = "h256_to_hex (su_lib c)"
  let ?req = "\<lparr>un_bucket_id = b, un_hash = ?hex (hash_of_node ?h n),
      un_data = (case n of Chunk bs \<Rightarrow> Some (base64_encode (ax_lib A) bs) | Internal _ _ \<Rightarrow> None),
      un_children = (case n of Chunk _ \<Rightarrow> None | Internal l r \<Rightarrow> Some [?hex l, ?hex r])\<rparr>"
  define d1 where "d1 = init_bucket b (2 ^ 64 - 1) d"
  from op obtain bk where bk: "fmlookup (cf_buckets d1) b = Some bk" "2 ^ 64 - 1 \<le> bk_max_bytes bk" "bk_leaves bk = leaves_of b d"
    and d1: "cf_nodes d1 = cf_nodes d"
    by (cases "fmlookup (cf_buckets d) b") (auto simp: d1_def init_bucket_def fmhas_def open_bucket_def leaves_of_def BucketState_new_def)
  have req: "decode_upload A ?req = Inr (hash_of_node ?h n, n)"
    using n by (cases n) (simp_all add: decode_upload_def decode_hash_def connectedD [OF c] from_wire_def from_store_def uploadable_def)
  have quota: "saturating_add 64 u v \<le> bk_max_bytes bk" for u v
    using bk(2) by (simp add: saturating_add_def min_le_iff_disj)
  define d' where "d' = (if fmhas (cf_nodes d) (hash_of_node ?h n) then d1
     else d1\<lparr>cf_nodes := fmupd (hash_of_node ?h n) n (cf_nodes d), cf_buckets := fmupd b (bk\<lparr>
        bk_used_bytes := saturating_add 64 (bk_used_bytes bk) (node_size n), bk_node_count := saturating_add 64 (bk_node_count bk) 1\<rparr>) (cf_buckets d1)\<rparr>)"
  have stored: "store_node ?h b (hash_of_node ?h n) n d1 = Inr d'"
    using n bk(1) quota by (cases n) (auto simp: store_node_def d1 uploadable_def ensure_def Let_def d'_def fmhas_def fmlookup_dom'_iff)
  have "create_router A node \<lparr>cx_headers = [(''authorization'', Some (client_auth_header c ''PUT'' b))], cx_access = access, cx_now = now,
      cx_limiter = Some True\<rparr> (PutNode ?req) d = (Inr (UploadNodeResponse True), d')"
    using may_write_role [OF auth] req stored by (simp add: upload_node_def d1_def)
  then have "client_upload_node c b n d = (Inr (hash_of_node ?h n), d')"
    unfolding client_upload_node_def send_signed_def connectedD(1,3,4) [OF c] provider_http_def Let_def
    by (simp del: create_router.simps)
  moreover have "store_step (ax_mmr A) ?h d d1" "store_step (ax_mmr A) ?h d1 d'"
    using store_step.init store_step.node [OF stored] by (auto simp: d1_def)
  then have "(store_step (ax_mmr A) ?h)\<^sup>*\<^sup>* d d'" by simp
  then have "absorbed A b {n} d d'"
    using bk d1 stored_strings_upd [of "hash_of_node ?h n" n "cf_nodes d"]
    by (auto simp: absorbed_def d'_def fmhas_def open_bucket_def leaves_of_def fmlookup_dom'_iff split: if_splits)
  ultimately show thesis by (rule that)
qed


lemma absorbed_uploadable: "absorbed A b ms d d' \<Longrightarrow> uploadable d n \<Longrightarrow> uploadable d' n"
  by (auto simp: absorbed_def uploadable_def split: ChunkTreeNode.splits)

lemma upload_nodes_honest:
  assumes c: "connected A node access now c" and auth: "may_write A access now c b"
  shows "open_bucket b d \<Longrightarrow> \<forall>n\<in>set ms. uploadable d n \<Longrightarrow>
    \<exists>d'. upload_nodes c b ms d = (Inr (map (hash_of_node (ax_hash A)) ms), d') \<and> absorbed A b (set ms) d d'"
proof (induction ms arbitrary: d)
  case Nil
  then show ?case using absorbed_refl by auto
next
  case (Cons n ms)
  obtain d1 where d1: "client_upload_node c b n d = (Inr (hash_of_node (ax_hash A) n), d1)" "absorbed A b {n} d d1"
    using upload_node_honest [OF c auth Cons.prems(1), of n] Cons.prems(2) by auto
  have "open_bucket b d1" "\<forall>m\<in>set ms. uploadable d1 m"
    using Cons.prems(2) absorbed_uploadable [OF d1(2)] d1(2) by (auto simp: absorbed_def)
  from Cons.IH [OF this] obtain d2 where
    "upload_nodes c b ms d1 = (Inr (map (hash_of_node (ax_hash A)) ms), d2)" "absorbed A b (set ms) d1 d2" by blast
  then show ?case using d1(1) absorbed_trans [OF d1(2), of "set ms" d2] by simp
qed

lemma upload_nodes_append:
  "upload_nodes c b (ms @ ns) w = (case upload_nodes c b ms w of
     (Inl e, w1) \<Rightarrow> (Inl e, w1)
   | (Inr xs, w1) \<Rightarrow> (case upload_nodes c b ns w1 of (Inl e, w2) \<Rightarrow> (Inl e, w2) | (Inr ys, w2) \<Rightarrow> (Inr (xs @ ys), w2)))"
  by (induction ms arbitrary: w) (auto split: prod.splits sum.splits)

abbreviation child_pair :: "MerkleNode \<Rightarrow> H256 \<times> H256" where
  "child_pair n \<equiv> (node_left n, node_right n)"

lemma tree_pairs_append:
  assumes "1 < length level"
  shows "tree_pairs hc level = map child_pair (chunk_nodes level (next_level hc level)) @ tree_pairs hc (next_level hc level)"
proof -
  obtain rest where "levels_from hc (next_level hc level) = next_level hc level # rest" using levels_from_Cons by blast
  then show ?thesis by (simp add: tree_pairs_def levels_from_step [OF assms])
qed

lemma chunk_nodes_children:
  "n \<in> set (chunk_nodes xs (next_level hc xs)) \<Longrightarrow> {node_left n, node_right n} \<subseteq> set xs"
  by (induction hc xs rule: next_level.induct) auto

lemma next_level_origin:
  "x \<in> set (next_level hc xs) \<Longrightarrow> x \<in> set xs \<or> (\<exists>n\<in>set (chunk_nodes xs (next_level hc xs)). x = hc (node_left n) (node_right n))"
  by (induction hc xs rule: next_level.induct) auto

lemma next_level_neq_Nil [simp]: "next_level hc xs = [] \<longleftrightarrow> xs = []"
  by (induction hc xs rule: next_level.induct) auto

lemma upload_levels_honest:
  assumes c: "connected A node access now c" and auth: "may_write A access now c b"
  shows "hc = hash_children (ax_hash A) \<Longrightarrow> open_bucket b d \<Longrightarrow> level \<noteq> [] \<Longrightarrow> set level \<subseteq> fmdom' (cf_nodes d) \<Longrightarrow>
    \<exists>hs d'. upload_nodes c b (map (case_prod Internal) (tree_pairs hc level)) d = (Inr hs, d') \<and>
      absorbed A b (case_prod Internal ` set (tree_pairs hc level)) d d' \<and> root_of_level hc level \<in> fmdom' (cf_nodes d')"
proof (induction hc level arbitrary: d rule: levels_from.induct)
  case (1 hc level)
  show ?case
  proof (cases "1 < length level")
    case False
    with "1.prems"(3) have one: "length level = 1" by (cases level) auto
    then have "tree_pairs hc level = []" by (simp add: tree_pairs_def levels_from_single)
    then show ?thesis using absorbed_refl [OF "1.prems"(2)] "1.prems"(4) one
      by (auto simp: root_of_level_single)
  next
    case True
    let ?ps = "map child_pair (chunk_nodes level (next_level hc level))"
    have "\<forall>n\<in>set (map (case_prod Internal) ?ps). uploadable d n"
      using chunk_nodes_children "1.prems"(4) by (fastforce simp: uploadable_def)
    from upload_nodes_honest [OF c auth "1.prems"(2) this] obtain hs d1 where
      d1: "upload_nodes c b (map (case_prod Internal) ?ps) d = (Inr hs, d1)" "absorbed A b (case_prod Internal ` set ?ps) d d1"
      unfolding set_map by blast
    have dom: "fmdom' (cf_nodes d1) = fmdom' (cf_nodes d) \<union> (\<lambda>n. hc (node_left n) (node_right n)) ` set (chunk_nodes level (next_level hc level))"
      using d1(2) by (simp add: absorbed_def hash_of_node_def image_image "1.prems"(1))
    have "set (next_level hc level) \<subseteq> fmdom' (cf_nodes d1)"
      unfolding dom using "1.prems"(4) next_level_origin [of _ hc level] by blast
    moreover have "open_bucket b d1" using d1(2) by (simp add: absorbed_def)
    ultimately obtain ks d2 where d2: "upload_nodes c b (map (case_prod Internal) (tree_pairs hc (next_level hc level))) d1 = (Inr ks, d2)"
      "absorbed A b (case_prod Internal ` set (tree_pairs hc (next_level hc level))) d1 d2"
      "root_of_level hc (next_level hc level) \<in> fmdom' (cf_nodes d2)"
      using "1.IH" [OF True "1.prems"(1), of d1] "1.prems"(3) by auto
    from absorbed_trans [OF d1(2) d2(2)] show ?thesis using d1(1) d2(1,3)
      by (simp add: tree_pairs_append [OF True] upload_nodes_append root_of_level_step [OF True] image_Un del: map_map)
  qed
qed

section \<open>The pairs of a tree\<close>

abbreviation level_pairs :: "(H256 \<Rightarrow> H256 \<Rightarrow> H256) \<Rightarrow> H256 list \<Rightarrow> (H256 \<times> H256) set" where
  "level_pairs hc xs \<equiv> (\<lambda>n. (node_left n, node_right n)) ` set (chunk_nodes xs (next_level hc xs))"

lemma tree_pairs_next: "set (tree_pairs hc xs) = level_pairs hc xs \<union> set (tree_pairs hc (next_level hc xs))"
proof (cases "1 < length xs")
  case True
  then show ?thesis by (rule tree_pairs_step)
next
  case False
  then have "next_level hc xs = xs" "chunk_nodes xs xs = []"
    by (cases xs; simp add: next_level_short)+
  then show ?thesis by simp
qed

lemma level_pairs_append: "even (length xs) \<Longrightarrow> level_pairs hc (xs @ ys) = level_pairs hc xs \<union> level_pairs hc ys"
  by (induction hc xs rule: next_level.induct) auto

lemma tree_pairs_split:
  assumes "1 < length hs" "2 ^ e < length hs" "length hs \<le> 2 * 2 ^ e"
  shows "set (tree_pairs hc hs) = insert (reference_root hc (take (2 ^ e) hs), reference_root hc (drop (2 ^ e) hs))
    (set (tree_pairs hc (take (2 ^ e) hs)) \<union> set (tree_pairs hc (drop (2 ^ e) hs)))"
  using assms
proof (induction e arbitrary: hs)
  case 0
  then have "length hs = 2" by simp
  then obtain x y where hs: "hs = [x, y]" by (auto simp: numeral_2_eq_2 length_Suc_conv)
  then show ?case by (simp add: tree_pairs_def levels_from_step levels_from_single reference_root_single)
next
  case (Suc e)
  let ?k = "2 ^ Suc e :: nat" and ?up = "next_level hc hs"
  have k: "even ?k" "?k \<le> length hs" "?k div 2 = 2 ^ e" using Suc.prems by auto
  have len: "length ?up = (length hs + 1) div 2" by (simp add: length_next_level div_ceil_2)
  have "1 \<le> (2::nat) ^ e" by simp
  with Suc.prems(2) have "2 < length hs" unfolding power_Suc by linarith
  with Suc.prems have "1 < length ?up" "2 ^ e < length ?up" "length ?up \<le> 2 * 2 ^ e" unfolding len by auto
  from Suc.IH [OF this] have "set (tree_pairs hc ?up) = insert (reference_root hc (take ?k hs), reference_root hc (drop ?k hs))
      (set (tree_pairs hc (next_level hc (take ?k hs))) \<union> set (tree_pairs hc (next_level hc (drop ?k hs))))"
    using next_level_halves [OF k(1,2), of hc, unfolded k(3)] by (simp add: reference_root_next_level)
  moreover have "level_pairs hc hs = level_pairs hc (take ?k hs) \<union> level_pairs hc (drop ?k hs)"
    using level_pairs_append [where xs = "take ?k hs" and ys = "drop ?k hs" and hc = hc] k(1,2) by simp
  ultimately show ?case
    unfolding tree_pairs_next [of hc hs] tree_pairs_next [of hc "take ?k hs"] tree_pairs_next [of hc "drop ?k hs"] by blast
qed

lemma reference_pairs_tree: "set (reference_pairs hc hs) = set (tree_pairs hc hs)"
proof (induction "length hs" arbitrary: hs rule: less_induct)
  case less
  show ?case
  proof (cases "1 < length hs")
    case False
    then show ?thesis by (simp add: reference_pairs.simps tree_pairs_def levels_from_single)
  next
    case True
    from split_point_exponent [OF True] obtain e where e: "split_point (length hs) = 2 ^ e" "2 ^ e < length hs" "length hs \<le> 2 * 2 ^ e" by metis
    have "0 < (2::nat) ^ e" by simp
    then have "length (take (2 ^ e) hs) < length hs" "length (drop (2 ^ e) hs) < length hs"
      unfolding length_take length_drop using e(2) by linarith+
    from less [OF this(1)] less [OF this(2)] show ?thesis
      using True e(1) by (subst reference_pairs.simps) (simp add: Let_def tree_pairs_split [OF True e(2,3)])
  qed
qed

section \<open>The store holds what was uploaded\<close>

lemma walk_from_complete:
  assumes ok: "nodes_ok h ns" "\<not> collision_among h S" "stored_strings ns \<subseteq> S"
  shows "covered S h ns hs x \<Longrightarrow> v + (2 * length hs - 1) \<le> max_nodes \<Longrightarrow>
    \<exists>vs. List.map_filter (\<lambda>(y, n). case n of Chunk d \<Rightarrow> Some (y, d) | Internal _ _ \<Rightarrow> None) vs =
        map (\<lambda>y. (y, case fmlookup ns y of Some (Chunk d) \<Rightarrow> d | _ \<Rightarrow> [])) hs \<and>
      walk_from ns max_nodes v (x # stack) =
        (case walk_from ns max_nodes (v + (2 * length hs - 1)) stack of Inl e \<Rightarrow> Inl e | Inr rest \<Rightarrow> Inr (vs @ rest))"
proof (induction "length hs" arbitrary: hs x v stack rule: less_induct)
  case less
  have ne: "hs \<noteq> []" using less.prems(1) by (simp add: stored_tree_def)
  show ?case
  proof (cases "length hs = 1")
    case True
    from stored_tree_leaf [of h ns hs x] less.prems(1) True obtain d where
      d: "fmlookup ns x = Some (Chunk d)" "x = hs ! 0" by auto
    from True have "hs = [x]" using d(2) by (cases hs) auto
    then show ?thesis using d(1) less.prems(2) True
      by (intro exI [of _ "[(x, Chunk d)]"]) (auto simp: List.map_filter_def split: sum.split)
  next
    case False
    with ne have n: "1 < length hs" by (cases hs) auto
    from split_point_exponent [OF n] obtain e where e: "2 ^ e < length hs" "length hs \<le> 2 * 2 ^ e" by metis
    from stored_tree_split [OF ok less.prems(1) n e] obtain l r where
      lr: "fmlookup ns x = Some (Internal l r)" "covered S h ns (take (2 ^ e) hs) l" "covered S h ns (drop (2 ^ e) hs) r" by metis
    let ?k = "2 ^ e :: nat"
    have k: "0 < ?k" by simp
    have len: "length (take ?k hs) = ?k" "length (drop ?k hs) = length hs - ?k" using e by auto
    have v: "v + 1 + (2 * ?k - 1) + (2 * (length hs - ?k) - 1) = v + (2 * length hs - 1)" using e k by linarith
    have sub: "length (take ?k hs) < length hs" "length (drop ?k hs) < length hs" using e(1) k unfolding len by linarith+
    have fit: "v + 1 + (2 * length (take ?k hs) - 1) \<le> max_nodes" "v + 1 + (2 * ?k - 1) + (2 * length (drop ?k hs) - 1) \<le> max_nodes"
      using less.prems(2) v unfolding len by linarith+
    obtain us where us: "List.map_filter (\<lambda>(y, n). case n of Chunk d \<Rightarrow> Some (y, d) | Internal _ _ \<Rightarrow> None) us =
        map (\<lambda>y. (y, case fmlookup ns y of Some (Chunk d) \<Rightarrow> d | _ \<Rightarrow> [])) (take ?k hs)"
      "walk_from ns max_nodes (v + 1) (l # r # stack) =
        (case walk_from ns max_nodes (v + 1 + (2 * ?k - 1)) (r # stack) of Inl e \<Rightarrow> Inl e | Inr rest \<Rightarrow> Inr (us @ rest))"
      using less.hyps [OF sub(1) lr(2) fit(1), unfolded len] by blast
    obtain ws where ws: "List.map_filter (\<lambda>(y, n). case n of Chunk d \<Rightarrow> Some (y, d) | Internal _ _ \<Rightarrow> None) ws =
        map (\<lambda>y. (y, case fmlookup ns y of Some (Chunk d) \<Rightarrow> d | _ \<Rightarrow> [])) (drop ?k hs)"
      "walk_from ns max_nodes (v + 1 + (2 * ?k - 1)) (r # stack) =
        (case walk_from ns max_nodes (v + (2 * length hs - 1)) stack of Inl e \<Rightarrow> Inl e | Inr rest \<Rightarrow> Inr (ws @ rest))"
      using less.hyps [OF sub(2) lr(3) fit(2), unfolded len v] by blast
    have "map f (take ?k hs) @ map f (drop ?k hs) = map f hs" for f :: "H256 \<Rightarrow> H256 \<times> byte list"
      unfolding map_append [symmetric] append_take_drop_id ..
    moreover have "v < max_nodes" using less.prems(2) n by linarith
    ultimately show ?thesis using us ws lr(1)
      by (intro exI [of _ "(x, Internal l r) # us @ ws"]) (auto simp: List.map_filter_def split: sum.split)
  qed
qed

lemma collect_leaves_complete:
  assumes "nodes_ok h ns" "\<not> collision_among h S" "stored_strings ns \<subseteq> S" "covered S h ns (map (hash_leaf h) cs) x"
    and n: "2 * length cs - 1 \<le> MAX_TREE_WALK_VISITS"
    and stored: "\<forall>c\<in>set cs. fmlookup ns (hash_leaf h c) = Some (Chunk c)"
  shows "collect_leaves ns x = Inr (map (\<lambda>c. (hash_leaf h c, length c)) cs)"
proof -
  let ?f = "\<lambda>(y :: H256, n). case n of Chunk d \<Rightarrow> Some (y, d) | Internal _ _ \<Rightarrow> None"
  let ?g = "\<lambda>(y :: H256, n). case n of Chunk d \<Rightarrow> Some (y, length d) | Internal _ _ \<Rightarrow> None"
  from walk_from_complete [OF assms(1-4), of 0 MAX_TREE_WALK_VISITS "[]"] n obtain vs where
    vs: "List.map_filter ?f vs = map (\<lambda>y. (y, case fmlookup ns y of Some (Chunk d) \<Rightarrow> d | _ \<Rightarrow> [])) (map (hash_leaf h) cs)"
      "walk_from ns MAX_TREE_WALK_VISITS 0 [x] = Inr vs" by auto
  have "List.map_filter ?g us = map (\<lambda>(y, d). (y, length d)) (List.map_filter ?f us)" for us
    by (induction us) (auto simp: List.map_filter_def split: ChunkTreeNode.splits)
  with vs stored show ?thesis by (simp add: collect_leaves_def walk_tree_def comp_def cong: map_cong)
qed

lemma chunks_of_concat: "0 < n \<Longrightarrow> concat (chunks_of n data) = data"
  by (induction n data rule: chunks_of.induct) (subst chunks_of.simps, auto)

lemma chunks_of_Nil [simp]: "0 < n \<Longrightarrow> chunks_of n data = [] \<longleftrightarrow> data = []"
  by (subst chunks_of.simps) auto

lemma chunks_of_sizes:
  assumes "0 < n"
  shows "list_all (\<lambda>c. length c = n) (butlast (chunks_of n data))" "\<forall>c\<in>set (chunks_of n data). 1 \<le> length c \<and> length c \<le> n"
  using assms
  by (induction n data rule: chunks_of.induct; subst chunks_of.simps; auto simp: Suc_le_eq)+


text \<open>The strings hashed for the stored nodes and for the tree over the chunks.\<close>

definition upload_strings :: "(byte list \<Rightarrow> H256) \<Rightarrow> nodes \<Rightarrow> byte list list \<Rightarrow> byte list set" where
  "upload_strings h ns cs = stored_strings ns \<union> leaf_string ` set cs \<union>
     node_string ` set (tree_pairs (hash_children h) (map (hash_leaf h) cs))"

definition prepared :: "DiskStorage StorageUserClient \<Rightarrow> byte list \<Rightarrow> byte list \<Rightarrow> bool" where
  "prepared c data payload \<longleftrightarrow>
     (case su_cipher c of None \<Rightarrow> payload = data | Some k \<Rightarrow> encrypt k data = Some payload \<and> decrypt k payload = Some data)"

lemma upload_honest:
  assumes c: "connected A node access now c" and auth: "may_write A access now c b" and op: "open_bucket b d"
    and data: "prepared c data payload" "payload \<noteq> []"
  defines "cs \<equiv> chunks_of DEFAULT_CHUNK_SIZE payload"
  defines "pairs \<equiv> tree_pairs (hash_children (ax_hash A)) (map (hash_leaf (ax_hash A)) cs)"
  obtains d' where "upload c b data (Fixed DEFAULT_CHUNK_SIZE) d =
      (Inr (merkle_root (hash_children (ax_hash A)) (map (hash_leaf (ax_hash A)) cs)), d')"
    "absorbed A b (Chunk ` set cs \<union> case_prod Internal ` set pairs) d d'"
    "merkle_root (hash_children (ax_hash A)) (map (hash_leaf (ax_hash A)) cs) \<in> fmdom' (cf_nodes d')"
proof -
  let ?h = "ax_hash A" and ?C = "DEFAULT_CHUNK_SIZE"
  let ?hc = "hash_children ?h" and ?hs = "map (hash_leaf ?h) cs"
  have C: "0 < ?C" by (simp add: DEFAULT_CHUNK_SIZE_def)
  have ne: "?hs \<noteq> []" using data(2) C by (simp add: cs_def)
  have "\<forall>n\<in>set (map Chunk cs). uploadable d n"
    using chunks_of_sizes(2) [OF C, of payload] by (auto simp: uploadable_def cs_def)
  from upload_nodes_honest [OF c auth op this] obtain d1 where
    d1: "upload_nodes c b (map Chunk cs) d = (Inr ?hs, d1)" "absorbed A b (Chunk ` set cs) d d1"
    by (auto simp: comp_def hash_of_node_def)
  have "open_bucket b d1" "set ?hs \<subseteq> fmdom' (cf_nodes d1)"
    using d1(2) by (auto simp: absorbed_def hash_of_node_def image_image)
  from upload_levels_honest [OF c auth refl this(1) ne this(2)] obtain ks d2 where
    d2: "upload_nodes c b (map (case_prod Internal) pairs) d1 = (Inr ks, d2)" "absorbed A b (case_prod Internal ` set pairs) d1 d2"
      "merkle_root ?hc ?hs \<in> fmdom' (cf_nodes d2)"
    unfolding pairs_def merkle_root_eq [OF ne] by blast
  have "map (\<lambda>n. Internal (node_left n) (node_right n)) (nodes_of_levels (levels ?hc ?hs)) = map (case_prod Internal) pairs"
    using ne by (simp add: pairs_def tree_pairs_def levels_def comp_def)
  then have "build_merkle_tree c b ?hs d1 = (Inr (merkle_root ?hc ?hs), d2)"
    using d2(1) by (simp add: build_merkle_tree_def merkle_tree_def connectedD(3) [OF c] merkle_root_def Let_def)
  then have "upload c b data (Fixed ?C) d = (Inr (merkle_root ?hc ?hs), d2)"
    using data d1(1) C connectedD(2) [OF c]
    by (auto simp: upload_def prepared_def chunk_data_def cs_def split: option.splits)
  then show thesis using absorbed_trans [OF d1(2) d2(2)] d2(3) by (rule that)
qed


lemma chunks_of_count: "length (chunks_of DEFAULT_CHUNK_SIZE payload) = div_ceil (length payload) DEFAULT_CHUNK_SIZE"
proof (cases "payload = []")
  case False
  let ?cs = "chunks_of DEFAULT_CHUNK_SIZE payload"
  have C: "0 < DEFAULT_CHUNK_SIZE" by (simp add: DEFAULT_CHUNK_SIZE_def)
  note sizes = chunks_of_sizes [OF C, of payload]
  have ne: "?cs \<noteq> []" using False C by simp
  then have "last (map length ?cs) = length (last ?cs)" "last ?cs \<in> set ?cs" by (simp_all add: last_map)
  then have "div_ceil (sum_list (map length ?cs)) DEFAULT_CHUNK_SIZE = length (map length ?cs)"
    using ne sizes by (intro sum_fixed_sizes(1)) (auto simp: list_all_iff map_butlast [symmetric])
  moreover have "sum_list (map length ?cs) = length payload"
    using arg_cong [OF chunks_of_concat [OF C, of payload], of length] by (simp add: length_concat)
  ultimately show ?thesis by simp
qed (simp add: chunks_of.simps div_ceil_def)

lemma chunks_of_length: "length payload \<le> m * DEFAULT_CHUNK_SIZE \<Longrightarrow> length (chunks_of DEFAULT_CHUNK_SIZE payload) \<le> m"
  unfolding chunks_of_count by (subst div_ceil_le_iff) (simp_all add: DEFAULT_CHUNK_SIZE_def)

text \<open>What the store holds after an upload.\<close>

text \<open>
  What the store can tell from the chunks and the root of a tree it holds, when no two hashed
  strings among \<open>S\<close> collide.
\<close>

lemma present_tree:
  assumes ok: "store_ok lib h d"
    and cs: "cs \<noteq> []" "list_all (\<lambda>c. length c = DEFAULT_CHUNK_SIZE) (butlast cs)" "\<forall>c\<in>set cs. 1 \<le> length c \<and> length c \<le> DEFAULT_CHUNK_SIZE"
      "2 * length cs - 1 \<le> MAX_TREE_WALK_VISITS"
  defines "hs \<equiv> map (hash_leaf h) cs" and "hc \<equiv> hash_children h"
  assumes free: "\<not> collision_among h S" and sub: "stored_strings (cf_nodes d) \<subseteq> S"
    and strings: "leaf_string ` set cs \<union> node_string ` set (tree_pairs hc hs) \<subseteq> S"
    and dom: "set hs \<subseteq> fmdom' (cf_nodes d)" "merkle_root hc hs \<in> fmdom' (cf_nodes d)"
  shows "\<forall>c\<in>set cs. fmlookup (cf_nodes d) (hash_leaf h c) = Some (Chunk c)"
    "collect_leaves (cf_nodes d) (merkle_root hc hs) = Inr (map (\<lambda>c. (hash_leaf h c, length c)) cs)"
    "canonical_data_size h (cf_nodes d) (merkle_root hc hs) = Inr (length (concat cs))"
    "data_root l = merkle_root hc hs \<Longrightarrow> store_strings h (cf_nodes d) {l} \<subseteq> S"
proof -
  note N = store_okD(1) [OF ok]
  show stored: "\<forall>c\<in>set cs. fmlookup (cf_nodes d) (hash_leaf h c) = Some (Chunk c)"
  proof
    fix c assume c: "c \<in> set cs"
    then have "hash_leaf h c \<in> fmdom' (cf_nodes d)" using dom(1) by (auto simp: hs_def)
    then obtain n where n: "fmlookup (cf_nodes d) (hash_leaf h c) = Some n" by (auto simp: fmlookup_dom'_iff)
    have "h (preimage n) = h (preimage (Chunk c))"
      using N n by (auto simp: nodes_ok_def hash_of_preimage hash_leaf_string)
    moreover have "preimage n \<in> S" "preimage (Chunk c) \<in> S" using sub stored_stringsI [OF n] strings c by auto
    ultimately have "preimage n = preimage (Chunk c)" using collision_amongI free by metis
    then show "fmlookup (cf_nodes d) (hash_leaf h c) = Some (Chunk c)" using n by (simp only: preimage_eq)
  qed
  have "stored_tree h (cf_nodes d) hs (merkle_root hc hs)"
    using cs(1) dom(2) stored by (auto simp: stored_tree_def hs_def hc_def root_is_reference fmlookup_dom'_iff)
  then have cov: "covered S h (cf_nodes d) hs (merkle_root hc hs)"
    using strings by (auto simp: reference_pairs_tree hs_def hc_def)
  show leaves: "collect_leaves (cf_nodes d) (merkle_root hc hs) = Inr (map (\<lambda>c. (hash_leaf h c, length c)) cs)"
    using collect_leaves_complete [OF N free sub cov [unfolded hs_def] cs(4) stored] by (simp add: hs_def)
  have "list_all (\<lambda>n. n = DEFAULT_CHUNK_SIZE) (butlast (map length cs))" using cs(2) by (simp add: list_all_iff map_butlast [symmetric])
  moreover have "last (map length cs) = length (last cs)" "last cs \<in> set cs" using cs(1) by (simp_all add: last_map)
  ultimately show "canonical_data_size h (cf_nodes d) (merkle_root hc hs) = Inr (length (concat cs))"
    using cs(1,3) unfolding canonical_data_size_def leaves by (auto simp: comp_def hs_def hc_def length_concat Let_def)
  show "store_strings h (cf_nodes d) {l} \<subseteq> S" if "data_root l = merkle_root hc hs"
  proof -
    have "leaf_hashes (cf_nodes d) l = hs" using that leaves by (simp add: leaf_hashes_def hs_def comp_def)
    then show ?thesis using sub strings by (auto simp: store_strings_def reference_pairs_tree hs_def hc_def)
  qed
qed

lemma absorbed_present:
  assumes "absorbed A b (Chunk ` set cs \<union> case_prod Internal ` P) d d'"
  shows "stored_strings (cf_nodes d') \<subseteq> stored_strings (cf_nodes d) \<union> leaf_string ` set cs \<union> node_string ` P"
    "set (map (hash_leaf (ax_hash A)) cs) \<subseteq> fmdom' (cf_nodes d')"
proof -
  have "preimage ` (Chunk ` set cs \<union> case_prod Internal ` P) = leaf_string ` set cs \<union> node_string ` P"
    by (simp add: image_Un image_image case_prod_beta)
  then show "stored_strings (cf_nodes d') \<subseteq> stored_strings (cf_nodes d) \<union> leaf_string ` set cs \<union> node_string ` P"
    using assms unfolding absorbed_def by (simp add: Un_assoc)
  show "set (map (hash_leaf (ax_hash A)) cs) \<subseteq> fmdom' (cf_nodes d')"
    using assms by (auto simp: absorbed_def hash_of_node_def image_image image_Un)
qed


text \<open>The leaf a commit of one data root appends to the leaves of a bucket.\<close>

definition next_leaf :: "MmrLeaf list \<Rightarrow> H256 \<Rightarrow> nat \<Rightarrow> MmrLeaf" where
  "next_leaf leaves tree n = \<lparr>leaf_version = LEAF_VERSION, data_root = tree, data_size = n,
     total_size = saturating_add 64 (if leaves = [] then 0 else total_size (last leaves)) n\<rparr>"

lemma decode_hashes_hex:
  assumes "connected A node access now c" shows "decode_hashes A (map (h256_to_hex (su_lib c)) xs) = Inr xs"
  by (induction xs) (simp_all add: decode_hash_def connectedD(5) [OF assms])

lemma commit_honest:
  assumes c: "connected A node access now c" and auth: "may_write A access now c b"
    and bk: "fmlookup (cf_buckets d) b = Some bk" and trees: "set trees \<subseteq> fmdom' (cf_nodes d)"
      "canonical_sizes (ax_hash A) (cf_nodes d) trees = Inr ns"
  defines "leaves \<equiv> push_leaves (bk_leaves bk) (zip trees ns)"
  assumes mmr: "mmr_root_of (ax_mmr A) (ax_hash A) leaves = Inr rt" and key: "signing_keypair node = Inr keypair"
    and sig: "\<And>s. decode_multi_signature (su_lib c) (signature_hex (ax_lib A) s) = Some s"
  defines "commitment \<equiv> \<lparr>mmr_root = rt, start_seq = bk_start_seq bk, leaf_count = length leaves\<rparr>"
    and "indices \<equiv> map (\<lambda>i. length (bk_leaves bk) + i) [0..<length trees]"
  obtains d' where "commit (ax_mmr A) (ax_hash A) b trees d = Inr (\<lparr>co_mmr_root = rt, co_start_seq = bk_start_seq bk,
      co_leaf_count = length leaves, co_leaf_indices = indices\<rparr>, d')"
    "client_commit c b trees d = (Inr (\<lparr>sc_commitment = commitment, sc_provider_signature =
       keypair_sign (ax_pairs A) keypair (encode_payload (CommitmentPayload_new b commitment))\<rparr>, indices), d')"
    "cf_nodes d' = cf_nodes d"
    "fmlookup (cf_buckets d') b = Some (bk\<lparr>bk_leaves := leaves, bk_mmr_root := rt\<rparr>)"
proof -
  define d' where "d' = d\<lparr>cf_buckets := fmupd b (bk\<lparr>bk_leaves := leaves, bk_mmr_root := rt\<rparr>) (cf_buckets d)\<rparr>"
  have "find (\<lambda>r. \<not> fmhas (cf_nodes d) r) trees = None"
    using trees(1) by (auto simp: find_None_iff fmhas_def fmlookup_dom'_iff)
  then have run: "commit (ax_mmr A) (ax_hash A) b trees d = Inr (\<lparr>co_mmr_root = rt, co_start_seq = bk_start_seq bk,
      co_leaf_count = length leaves, co_leaf_indices = indices\<rparr>, d')"
    using bk trees(2) mmr by (simp add: commit_def d'_def leaves_def indices_def mmr_result_def Let_def)
  then have "create_router A node \<lparr>cx_headers = [(''authorization'', Some (client_auth_header c ''POST'' b))], cx_access = access, cx_now = now,
      cx_limiter = Some True\<rparr> (PostCommit b (map (h256_to_hex (su_lib c)) trees)) d =
      (Inr (CommitResponse commitment indices (signature_hex (ax_lib A)
        (keypair_sign (ax_pairs A) keypair (encode_payload (CommitmentPayload_new b commitment))))), d')"
    using may_write_role [OF auth] decode_hashes_hex [OF c] key
    by (simp add: commit_data_def sign_commitment_def node_sign_def commitment_def Let_def)
  then have "client_commit c b trees d = (Inr (\<lparr>sc_commitment = commitment, sc_provider_signature =
       keypair_sign (ax_pairs A) keypair (encode_payload (CommitmentPayload_new b commitment))\<rparr>, indices), d')"
    using connectedD(2,7) [OF c] sig
    unfolding client_commit_def send_signed_def connectedD(1) [OF c] provider_http_def Let_def
    by (simp add: body_of_def signed_commitment_of_def commitment_def del: create_router.simps)
  with run show thesis by (rule that) (simp_all add: d'_def)
qed

text \<open>
  C9. What a storage user uploads and commits comes back byte for byte: for every non-empty
  payload of up to 512 GiB the upload to an honest provider returns the Merkle root of its
  chunks, the commit of that root succeeds, is signed by the provider's key over the new
  leaf count and lists exactly the uploaded data, and the full download then returns the
  user's data, decrypted if the client encrypts. The provider's store may hold anything it
  can hold, and no two of the strings hashed for it and for the payload collide.
\<close>

theorem upload_commit_download:
  assumes c: "connected A node access now c" and auth: "may_write A access now c b"
    and reach: "store_reachable (ax_mmr A) (ax_hash A) d" and op: "open_bucket b d"
    and data: "prepared c data payload" "payload \<noteq> []" "length payload \<le> 2 ^ 21 * DEFAULT_CHUNK_SIZE"
  defines "tree \<equiv> merkle_root (hash_children (ax_hash A)) (map (hash_leaf (ax_hash A)) (chunks_of DEFAULT_CHUNK_SIZE payload))"
  defines "leaves \<equiv> leaves_of b d @ [next_leaf (leaves_of b d) tree (length payload)]"
  assumes free: "\<not> collision_among (ax_hash A) (upload_strings (ax_hash A) (cf_nodes d) (chunks_of DEFAULT_CHUNK_SIZE payload))"
    and mmr: "mmr_root_of (ax_mmr A) (ax_hash A) leaves = Inr rt"
    and key: "signing_keypair node = Inr keypair"
    and sig: "\<And>s. decode_multi_signature (su_lib c) (signature_hex (ax_lib A) s) = Some s"
  shows "\<exists>d1 sc d2. upload c b data (Fixed DEFAULT_CHUNK_SIZE) d = (Inr tree, d1) \<and>
    client_commit c b [tree] d1 = (Inr (sc, [length (leaves_of b d)]), d2) \<and> leaves_of b d2 = leaves \<and>
    mmr_root (sc_commitment sc) = rt \<and> leaf_count (sc_commitment sc) = length leaves \<and>
    sc_provider_signature sc = keypair_sign (ax_pairs A) keypair (encode_payload (CommitmentPayload_new b (sc_commitment sc))) \<and>
    download_full c b tree (length payload) d2 = (Inr data, d2)"
proof -
  let ?h = "ax_hash A" and ?C = "DEFAULT_CHUNK_SIZE" and ?cs = "chunks_of DEFAULT_CHUNK_SIZE payload"
  let ?l = "next_leaf (leaves_of b d) tree (length payload)"
  have C: "0 < ?C" by (simp add: DEFAULT_CHUNK_SIZE_def)
  have cs: "?cs \<noteq> []" "2 * length ?cs - 1 \<le> MAX_TREE_WALK_VISITS" "concat ?cs = payload"
    using data(2) C chunks_of_length [OF data(3)] chunks_of_concat [OF C] by (simp_all add: MAX_TREE_WALK_VISITS_def)
  obtain d1 where d1: "upload c b data (Fixed ?C) d = (Inr tree, d1)"
    "absorbed A b (Chunk ` set ?cs \<union> case_prod Internal ` set (tree_pairs (hash_children ?h) (map (hash_leaf ?h) ?cs))) d d1"
    "tree \<in> fmdom' (cf_nodes d1)"
    unfolding tree_def by (rule upload_honest [OF c auth op data(1,2)])
  have reach1: "store_reachable (ax_mmr A) ?h d1" using d1(2) reach unfolding absorbed_def by (blast intro: store.steps_ok)
  note in_store = absorbed_present [OF d1(2)]
  have strings: "leaf_string ` set ?cs \<union> node_string ` set (tree_pairs (hash_children ?h) (map (hash_leaf ?h) ?cs)) \<subseteq> upload_strings ?h (cf_nodes d) ?cs"
    by (auto simp: upload_strings_def)
  note up = present_tree [OF store_reachable_ok [OF reach1] cs(1) chunks_of_sizes [OF C] cs(2) free in_store(1) [folded upload_strings_def] strings
      in_store(2) d1(3) [unfolded tree_def], folded tree_def, unfolded cs(3)]
  obtain bk where bk: "fmlookup (cf_buckets d1) b = Some bk" "bk_leaves bk = leaves_of b d"
    using d1(2) cs(1) by (cases "fmlookup (cf_buckets d1) b") (auto simp: absorbed_def leaves_of_def)
  let ?cm = "\<lparr>mmr_root = rt, start_seq = bk_start_seq bk, leaf_count = Suc (length (leaves_of b d))\<rparr>"
  let ?sc = "\<lparr>sc_commitment = ?cm, sc_provider_signature = keypair_sign (ax_pairs A) keypair (encode_payload (CommitmentPayload_new b ?cm))\<rparr>"
  have trees: "set [tree] \<subseteq> fmdom' (cf_nodes d1)" "canonical_sizes ?h (cf_nodes d1) [tree] = Inr [length payload]"
    using d1(3) up(3) by simp_all
  have pushed: "push_leaves (bk_leaves bk) (zip [tree] [length payload]) = leaves" by (simp add: leaves_def bk(2) next_leaf_def)
  have len: "length leaves = Suc (length (leaves_of b d))" by (simp add: leaves_def)
  obtain d2 where run: "\<exists>out. commit (ax_mmr A) ?h b [tree] d1 = Inr (out, d2)"
    and d2: "client_commit c b [tree] d1 = (Inr (?sc, [length (leaves_of b d)]), d2)" "cf_nodes d2 = cf_nodes d1"
      "fmlookup (cf_buckets d2) b = Some (bk\<lparr>bk_leaves := leaves, bk_mmr_root := rt\<rparr>)"
    by (rule commit_honest [OF c auth bk(1) trees _ key sig, unfolded pushed, OF mmr]) (simp_all add: bk(2) len)
  have reach2: "store_reachable (ax_mmr A) ?h d2" using store_reachable.step [OF reach1] store_step.commit run by metis
  have listed: "?l \<in> set (bk_leaves (bk\<lparr>bk_leaves := leaves, bk_mmr_root := rt\<rparr>))" by (simp add: leaves_def)
  have root: "data_root ?l = tree" by (simp add: next_leaf_def)
  have "\<not> collision_among ?h (store_strings ?h (cf_nodes d2) {?l})"
    using free up(4) [OF root] collision_among_mono unfolding d2(2) by blast
  then obtain ds where ds: "map (fmlookup (cf_nodes d2)) (leaf_hashes (cf_nodes d2) ?l) = map (Some \<circ> Chunk) ds"
    and get: "\<And>len. len < 2 ^ 64 \<Longrightarrow> download_full c b (data_root ?l) len d2 = (case su_cipher c of
       None \<Rightarrow> Inr (take len (concat ds)) | Some k \<Rightarrow> ok_or (decrypt k (take len (concat ds))) (Failure EncryptionError) Inr, d2)"
    by (rule download_listed_full [OF c reach2 d2(3) listed]) blast
  have "map (Some \<circ> Chunk) ds = map (Some \<circ> Chunk) ?cs"
    unfolding ds [symmetric] using up(1,2) by (simp add: leaf_hashes_def root d2(2) comp_def)
  then have "ds = ?cs" by (simp add: inj_map_eq_map inj_def)
  moreover have "length payload < 2 ^ 64" using data(3) by (simp add: DEFAULT_CHUNK_SIZE_def)
  ultimately have "download_full c b tree (length payload) d2 = (Inr data, d2)"
    using get [of "length payload"] data(1) cs(3) by (auto simp: root prepared_def split: option.splits)
  with d1(1) d2(1,3) show ?thesis by (intro exI [of _ d1] exI [of _ ?sc] exI [of _ d2]) (simp add: leaves_of_def leaves_def)
qed

lemma demo_may_write: "may_write coding_api demo_access 1100 honest_client 0"
  using demo_hex_law
  by (simp add: may_write_def demo_client_def demo_client_lib_def Let_def demo_api_def)
    (simp add: demo_auth_lib_def abs_diff_def chain_access_def role_of_chain stored_def launched_def bucket0_def roles_of_def)

text \<open>Three bytes through a provider that stores nothing yet.\<close>

theorem upload_commit_download_witness:
  "\<exists>d1 sc d2 tree. upload honest_client 0 [1, 2, 3] (Fixed DEFAULT_CHUNK_SIZE) \<lparr>cf_nodes = fmempty, cf_buckets = fmempty\<rparr> = (Inr tree, d1) \<and>
     client_commit honest_client 0 [tree] d1 = (Inr (sc, [0]), d2) \<and> leaf_count (sc_commitment sc) = 1 \<and>
     download_full honest_client 0 tree 3 d2 = (Inr [1, 2, 3], d2)"
proof -
  let ?d = "\<lparr>cf_nodes = fmempty, cf_buckets = fmempty\<rparr>" and ?p = "[1, 2, 3] :: byte list"
  have lib: "ax_mmr coding_api = demo_mmr" "ax_hash coding_api = demo_hash" "su_lib honest_client = demo_client_lib" "ax_lib coding_api = demo_coding"
    by (simp_all add: demo_api_def demo_client_def)
  have reach: "store_reachable (ax_mmr coding_api) (ax_hash coding_api) ?d" by (rule store_reachable.empty)
  have op: "open_bucket 0 ?d" and none: "leaves_of 0 ?d = []" by (simp_all add: open_bucket_def leaves_of_def)
  have p: "prepared honest_client ?p ?p" "?p \<noteq> []" "length ?p \<le> 2 ^ 21 * DEFAULT_CHUNK_SIZE"
    by (simp_all add: prepared_def demo_client_def DEFAULT_CHUNK_SIZE_def)
  have cs: "chunks_of DEFAULT_CHUNK_SIZE ?p = [?p]" by (simp add: chunks_of.simps DEFAULT_CHUNK_SIZE_def)
  have free: "\<not> collision_among (ax_hash coding_api) (upload_strings (ax_hash coding_api) (cf_nodes ?d) (chunks_of DEFAULT_CHUNK_SIZE ?p))"
    unfolding cs by (auto simp: upload_strings_def stored_strings_def tree_pairs_def levels_from_single collision_among_def elim!: fmran'E)
  obtain rt where mmr: "mmr_root_of (ax_mmr coding_api) (ax_hash coding_api) (leaves_of 0 ?d @ [next_leaf (leaves_of 0 ?d)
      (merkle_root (hash_children (ax_hash coding_api)) (map (hash_leaf (ax_hash coding_api)) (chunks_of DEFAULT_CHUNK_SIZE ?p))) (length ?p)]) = Inr rt"
    unfolding lib none by (simp add: mmr_root_of_def mmr_peaks_def mmr_build_def demo_mmr_def)
  obtain kp where key: "signing_keypair (demo_node 11 provider11) = Inr kp"
    by (simp add: signing_keypair_def ensure_signing_key_registered_def ensure_signing_key_matches_def demo_node_def node_from_parts_def
        provider_info_from_runtime_def provider11_def demo_pairs_def)
  have sig: "decode_multi_signature (su_lib honest_client) (signature_hex (ax_lib coding_api) s) = Some s" for s
    unfolding lib by (rule demo_codings)
  from upload_commit_download [OF demo_connected demo_may_write reach op p free mmr key sig]
  show ?thesis by (auto simp: none numeral_3_eq_3)
qed

end
