(* ===== verification/Format_Safety.thy ===== *)
theory Format_Safety
  imports Fs_Format Upload_Safety
begin

text \<open>
  The blob format: what is written is read back, no blob exceeds the size a reader asks for,
  content identifiers bind content, and a directory node is a finite map from names to
  entries.
\<close>

section \<open>Reading back what was written\<close>

text \<open>
  What the format relies on from the encoding of a type: a decoder reads a value back and
  leaves what follows, and an encoding has at most \<open>max_len\<close> bytes.
\<close>

locale scale_codec =
  fixes enc :: "'a \<Rightarrow> byte list" and dec :: "'a decoder" and wf :: "'a \<Rightarrow> bool" and max_len :: nat
  assumes decode: "wf x \<Longrightarrow> dec (enc x @ rest) = Some (x, rest)"
    and max_len: "wf x \<Longrightarrow> length (enc x) \<le> max_len"

lemma decode_int_bytes [simp]: "x < 256 ^ n \<Longrightarrow> decode_int n (le_bytes n x @ rest) = Some (x, rest)"
  by (simp add: decode_int_def le_value_le_bytes)

lemma decode_h256_bytes [simp]: "decode_h256 (as_bytes x @ rest) = Some (x, rest)"
  by (simp add: decode_h256_def as_bytes_inverse)

lemma unat_word_byte: "n < 256 \<Longrightarrow> unat (word_of_nat n :: byte) = n"
  by (simp add: unat_of_nat)

lemma decode_compact_bytes [simp]:
  assumes "n < 2 ^ 32" shows "decode_compact (scale_compact n @ rest) = Some (n, rest)"
proof -
  have hd: "\<exists>tl. le_bytes (k + 1) x @ rest = word_of_nat x # tl" for k x by simp
  have byte: "unat (word_of_nat x :: byte) = x mod 256" for x by (simp add: unat_of_nat)
  have m: "(n * 4 + r) mod 256 mod 4 = r" "(n * 4 + r) div 4 = n" if "r < 4" for r using that by (simp_all add: mod_mod_cancel)
  consider "n < 2 ^ 6" | "2 ^ 6 \<le> n" "n < 2 ^ 14" | "2 ^ 14 \<le> n" "n < 2 ^ 30" | "2 ^ 30 \<le> n" by linarith
  then show ?thesis
  proof cases
    case 1
    then show ?thesis using byte [of "n * 4"] m(1) [of 0] by (simp add: scale_compact_def decode_compact_def)
  next
    case 2
    define x where "x = n * 4 + 1"
    have x: "x mod 256 mod 4 = 1" "x div 4 = n" "x < 256 ^ 2" using m [of 1] 2 by (simp_all add: x_def)
    obtain tl where tl: "le_bytes 2 x @ rest = word_of_nat x # tl" using hd [of 1 x] unfolding one_add_one by blast
    have "decode_compact (le_bytes 2 x @ rest) = Some (n, rest)"
      using decode_int_bytes [OF x(3), of rest] 2(1) x unfolding tl by (simp add: decode_compact_def Let_def byte)
    then show ?thesis using 2 by (simp add: scale_compact_def x_def)
  next
    case 3
    define x where "x = n * 4 + 2"
    have x: "x mod 256 mod 4 = 2" "x div 4 = n" "x < 256 ^ 4" using m [of 2] 3 by (simp_all add: x_def)
    obtain tl where tl: "le_bytes 4 x @ rest = word_of_nat x # tl" using hd [of 3 x] by auto
    have "decode_compact (le_bytes 4 x @ rest) = Some (n, rest)"
      using decode_int_bytes [OF x(3), of rest] 3(1) x unfolding tl by (simp add: decode_compact_def Let_def byte)
    then show ?thesis using 3 by (simp add: scale_compact_def x_def)
  next
    case 4
    then have c: "scale_compact n @ rest = 3 # le_bytes 4 n @ rest" by (simp add: scale_compact_def)
    have "decode_int 4 (le_bytes 4 n @ rest) = Some (n, rest)" using assms by (intro decode_int_bytes) simp
    then show ?thesis using 4 unfolding c by (simp add: decode_compact_def Let_def)
  qed
qed

lemma compact_mono: "m \<le> n \<Longrightarrow> length (scale_compact m) \<le> length (scale_compact n)"
  by (simp add: scale_compact_def)

lemma decode_bytes_enc [simp]: "length bs \<le> bound \<Longrightarrow> bound < 2 ^ 32 \<Longrightarrow> decode_bytes bound (encode_bytes bs @ rest) = Some (bs, rest)"
  by (simp add: decode_bytes_def encode_bytes_def)

lemma encode_bytes_len: "length bs \<le> bound \<Longrightarrow> length (encode_bytes bs) \<le> bounded_len bound 1"
  by (simp add: encode_bytes_def bounded_len_def add_mono compact_mono)

context scale_codec
begin

lemma decode_items: "\<forall>x\<in>set xs. wf x \<Longrightarrow> decode_items dec (length xs) (concat (map enc xs) @ rest) = Some (xs, rest)"
  by (induction xs) (simp_all add: decode)

lemma decode_vec:
  "\<forall>x\<in>set xs. wf x \<Longrightarrow> length xs \<le> bound \<Longrightarrow> bound < 2 ^ 32 \<Longrightarrow> decode_vec bound dec (encode_vec enc xs @ rest) = Some (xs, rest)"
  by (simp add: decode_vec_def encode_vec_def decode_items)

lemma concat_len: "\<forall>x\<in>set xs. wf x \<Longrightarrow> length (concat (map enc xs)) \<le> length xs * max_len"
  by (induction xs) (simp_all add: add_mono max_len)

lemma vec_len: "\<forall>x\<in>set xs. wf x \<Longrightarrow> length xs \<le> bound \<Longrightarrow> length (encode_vec enc xs) \<le> bounded_len bound max_len"
  using le_trans [OF concat_len mult_le_mono1] compact_mono [of "length xs" bound]
  by (simp add: encode_vec_def bounded_len_def add_mono)

lemma decode_blob: "wf x \<Longrightarrow> from_blob dec (to_blob (enc x)) = Inr x"
  using decode [of x "[]"] by (simp add: from_blob_def to_blob_def HEADER_LEN_def FORMAT_MAGIC_def bytes_of_def ensure_def)

lemma blob_len: "wf x \<Longrightarrow> length (to_blob (enc x)) \<le> HEADER_LEN + max_len"
  using max_len [of x] by (simp add: to_blob_def HEADER_LEN_def FORMAT_MAGIC_def bytes_of_def)

end

definition wf_entry :: "DirectoryEntry \<Rightarrow> bool" where
  "wf_entry e \<longleftrightarrow> length (de_name e) \<le> MaxEntryNameLength \<and> de_size e < 2 ^ 64 \<and> de_mtime e < 2 ^ 64"

definition wf_meta :: "MetadataEntry \<Rightarrow> bool" where
  "wf_meta m \<longleftrightarrow> length (me_key m) \<le> MaxMetadataKeyLength \<and> length (me_value m) \<le> MaxMetadataValueLength"

definition wf_dir :: "DirectoryNode \<Rightarrow> bool" where
  "wf_dir d \<longleftrightarrow> dn_bucket_id d < 2 ^ 64 \<and> length (dn_children d) \<le> MaxDirectoryChildren \<and> (\<forall>e\<in>set (dn_children d). wf_entry e) \<and>
     length (dn_metadata d) \<le> MaxMetadataEntries \<and> (\<forall>m\<in>set (dn_metadata d). wf_meta m)"

definition wf_manifest :: "FileManifest \<Rightarrow> bool" where
  "wf_manifest mf \<longleftrightarrow> fm_bucket_id mf < 2 ^ 64 \<and> length (fm_mime_type mf) \<le> MaxMimeTypeLength \<and> fm_total_size mf < 2 ^ 64 \<and>
     length (fm_chunks mf) \<le> MaxFileChunks \<and> (\<forall>c\<in>set (fm_chunks mf). fc_sequence c < 2 ^ 32) \<and>
     length (fm_encryption_params mf) \<le> MaxEncryptionParamsLength \<and>
     length (fm_user_metadata mf) \<le> MaxMetadataEntries \<and> (\<forall>m\<in>set (fm_user_metadata mf). wf_meta m)"

interpretation entry: scale_codec encode_entry decode_entry wf_entry "bounded_len MaxEntryNameLength 1 + 1 + 32 + 8 + 8"
proof
  fix e :: DirectoryEntry and rest assume e: "wf_entry e"
  then have "decode_bytes MaxEntryNameLength (encode_bytes (de_name e) @ tl) = Some (de_name e, tl)" for tl
    by (intro decode_bytes_enc) (simp_all add: wf_entry_def MaxEntryNameLength_def)
  then show "decode_entry (encode_entry e @ rest) = Some (e, rest)"
    using e by (cases "de_type e") (simp_all add: decode_entry_def encode_entry_def decode_type_def wf_entry_def)
  show "length (encode_entry e) \<le> bounded_len MaxEntryNameLength 1 + 1 + 32 + 8 + 8"
    using e encode_bytes_len [of "de_name e" MaxEntryNameLength] by (simp add: encode_entry_def wf_entry_def)
qed

interpretation meta: scale_codec encode_meta decode_meta wf_meta meta_max_len
proof
  fix m :: MetadataEntry and rest assume m: "wf_meta m"
  then have "decode_bytes MaxMetadataKeyLength (encode_bytes (me_key m) @ tl) = Some (me_key m, tl)"
    "decode_bytes MaxMetadataValueLength (encode_bytes (me_value m) @ tl) = Some (me_value m, tl)" for tl
    by (intro decode_bytes_enc; simp add: wf_meta_def MaxMetadataKeyLength_def MaxMetadataValueLength_def)+
  then show "decode_meta (encode_meta m @ rest) = Some (m, rest)" by (simp add: decode_meta_def encode_meta_def)
  show "length (encode_meta m) \<le> meta_max_len"
    using m encode_bytes_len [of "me_key m" MaxMetadataKeyLength] encode_bytes_len [of "me_value m" MaxMetadataValueLength]
    by (simp add: encode_meta_def wf_meta_def meta_max_len_def)
qed

interpretation chunk: scale_codec encode_chunk decode_chunk "\<lambda>c. fc_sequence c < 2 ^ 32" "32 + 4"
  by unfold_locales (simp_all add: decode_chunk_def encode_chunk_def)

interpretation dir: scale_codec encode_dir decode_dir wf_dir "8 + bounded_len MaxDirectoryChildren (bounded_len MaxEntryNameLength 1 + 1 + 32 + 8 + 8) +
     bounded_len MaxMetadataEntries meta_max_len"
proof
  fix d :: DirectoryNode and rest assume d: "wf_dir d"
  then have "decode_vec MaxDirectoryChildren decode_entry (encode_vec encode_entry (dn_children d) @ tl) = Some (dn_children d, tl)"
    "decode_vec MaxMetadataEntries decode_meta (encode_vec encode_meta (dn_metadata d) @ tl) = Some (dn_metadata d, tl)" for tl
    by (intro entry.decode_vec meta.decode_vec; simp add: wf_dir_def MaxDirectoryChildren_def MaxMetadataEntries_def)+
  then show "decode_dir (encode_dir d @ rest) = Some (d, rest)"
    using d by (simp add: decode_dir_def encode_dir_def wf_dir_def)
  show "length (encode_dir d) \<le> 8 + bounded_len MaxDirectoryChildren (bounded_len MaxEntryNameLength 1 + 1 + 32 + 8 + 8) +
     bounded_len MaxMetadataEntries meta_max_len"
    using d entry.vec_len [of "dn_children d" MaxDirectoryChildren] meta.vec_len [of "dn_metadata d" MaxMetadataEntries]
    by (simp add: encode_dir_def wf_dir_def)
qed

interpretation manifest: scale_codec encode_manifest decode_manifest wf_manifest
  "8 + bounded_len MaxMimeTypeLength 1 + 8 + bounded_len MaxFileChunks (32 + 4) + bounded_len MaxEncryptionParamsLength 1 +
     bounded_len MaxMetadataEntries meta_max_len"
proof
  fix mf :: FileManifest and rest assume mf: "wf_manifest mf"
  then have "decode_bytes MaxMimeTypeLength (encode_bytes (fm_mime_type mf) @ tl) = Some (fm_mime_type mf, tl)"
    "decode_bytes MaxEncryptionParamsLength (encode_bytes (fm_encryption_params mf) @ tl) = Some (fm_encryption_params mf, tl)"
    "decode_vec MaxFileChunks decode_chunk (encode_vec encode_chunk (fm_chunks mf) @ tl) = Some (fm_chunks mf, tl)"
    "decode_vec MaxMetadataEntries decode_meta (encode_vec encode_meta (fm_user_metadata mf) @ tl) = Some (fm_user_metadata mf, tl)" for tl
    by (intro decode_bytes_enc chunk.decode_vec meta.decode_vec; simp add: wf_manifest_def format_bounds)+
  then show "decode_manifest (encode_manifest mf @ rest) = Some (mf, rest)"
    using mf by (simp add: decode_manifest_def encode_manifest_def wf_manifest_def)
  show "length (encode_manifest mf) \<le> 8 + bounded_len MaxMimeTypeLength 1 + 8 + bounded_len MaxFileChunks (32 + 4) +
      bounded_len MaxEncryptionParamsLength 1 + bounded_len MaxMetadataEntries meta_max_len"
    using mf encode_bytes_len [of "fm_mime_type mf" MaxMimeTypeLength] encode_bytes_len [of "fm_encryption_params mf" MaxEncryptionParamsLength]
      chunk.vec_len [of "fm_chunks mf" MaxFileChunks] meta.vec_len [of "fm_user_metadata mf" MaxMetadataEntries]
    by (simp add: encode_manifest_def wf_manifest_def)
qed

lemma dir_blob:
  "wf_dir d \<Longrightarrow> dir_from_blob (dir_to_blob d) = Inr d" "wf_dir d \<Longrightarrow> length (dir_to_blob d) \<le> dir_max_blob_len"
  using dir.decode_blob [of d] dir.blob_len [of d] by (simp_all add: dir_from_blob_def dir_to_blob_def dir_max_blob_len_def)

lemma manifest_blob:
  "wf_manifest mf \<Longrightarrow> manifest_from_blob (manifest_to_blob mf) = Inr mf"
  "wf_manifest mf \<Longrightarrow> length (manifest_to_blob mf) \<le> manifest_max_blob_len"
  using manifest.decode_blob [of mf] manifest.blob_len [of mf]
  by (simp_all add: manifest_from_blob_def manifest_to_blob_def manifest_max_blob_len_def)

section \<open>Content identifiers bind content\<close>

text \<open>The strings hashed for the tree over the chunks of some content.\<close>

definition chunk_strings :: "(byte list \<Rightarrow> H256) \<Rightarrow> byte list list \<Rightarrow> byte list set" where
  "chunk_strings h cs = leaf_string ` set cs \<union> node_string ` set (reference_pairs (hash_children h) (map (hash_leaf h) cs))"

definition cid_strings :: "(byte list \<Rightarrow> H256) \<Rightarrow> byte list \<Rightarrow> byte list set" where
  "cid_strings h data = chunk_strings h (chunks_of DEFAULT_CHUNK_SIZE data)"

definition chunk_root :: "(byte list \<Rightarrow> H256) \<Rightarrow> byte list list \<Rightarrow> H256" where
  "chunk_root h cs = reference_root (hash_children h) (map (hash_leaf h) cs)"

lemma chunk_root_single: "chunk_root h [c] = h (leaf_string c)"
  by (simp add: chunk_root_def reference_root_single hash_leaf_string)

lemma chunk_root_split:
  assumes "1 < length cs" "chunk_strings h cs \<subseteq> S"
  obtains k where "0 < k" "k < length cs" "chunk_root h cs = h (node_string (chunk_root h (take k cs), chunk_root h (drop k cs)))"
    "node_string (chunk_root h (take k cs), chunk_root h (drop k cs)) \<in> S" "chunk_strings h (take k cs) \<subseteq> S" "chunk_strings h (drop k cs) \<subseteq> S"
proof -
  let ?hs = "map (hash_leaf h)" and ?hc = "hash_children h"
  define k where "k = split_point (length cs)"
  have k: "0 < k" "k < length cs" using split_point_bounds [OF assms(1)] by (simp_all add: k_def)
  have pairs: "reference_pairs ?hc (?hs cs) = (chunk_root h (take k cs), chunk_root h (drop k cs)) #
      reference_pairs ?hc (?hs (take k cs)) @ reference_pairs ?hc (?hs (drop k cs))"
    using assms(1) by (subst reference_pairs.simps) (simp add: Let_def k_def chunk_root_def take_map drop_map)
  have root: "chunk_root h cs = h (node_string (chunk_root h (take k cs), chunk_root h (drop k cs)))"
    using assms(1) reference_root.simps [of ?hc "?hs cs"] by (simp add: chunk_root_def k_def hash_children_string take_map drop_map)
  have "chunk_strings h (take k cs) \<subseteq> chunk_strings h cs" "chunk_strings h (drop k cs) \<subseteq> chunk_strings h cs"
    unfolding chunk_strings_def pairs using set_take_subset [of k cs] set_drop_subset [of k cs] by auto
  moreover have "node_string (chunk_root h (take k cs), chunk_root h (drop k cs)) \<in> chunk_strings h cs"
    by (simp add: chunk_strings_def pairs)
  ultimately show thesis using that [OF k root] assms(2) by blast
qed

lemma chunk_root_binds:
  assumes "\<not> collision_among h S" "chunk_strings h cs \<subseteq> S" "chunk_strings h ds \<subseteq> S" "cs \<noteq> []" "ds \<noteq> []" "chunk_root h cs = chunk_root h ds"
  shows "cs = ds"
  using assms(2-)
proof (induction "length cs" arbitrary: cs ds rule: less_induct)
  case less
  have inj: "x = y" if "h x = h y" "x \<in> S" "y \<in> S" for x y using that assms(1) by (auto simp: collision_among_def)
  have leaf: "leaf_string c \<in> S" if "c \<in> set cs \<or> c \<in> set ds" for c using that less.prems(1,2) by (auto simp: chunk_strings_def)
  consider c d where "cs = [c]" "ds = [d]" | c where "cs = [c]" "1 < length ds" | d where "1 < length cs" "ds = [d]" | "1 < length cs" "1 < length ds"
    using less.prems(3,4) by (cases cs; cases ds; cases "tl cs"; cases "tl ds") auto
  then show ?case
  proof cases
    case 1
    then have "h (leaf_string c) = h (leaf_string d)" using less.prems(5) by (simp add: chunk_root_single)
    then have "leaf_string c = leaf_string d" using 1 by (intro inj leaf) simp_all
    then show ?thesis using 1 by simp
  next
    case (2 c)
    obtain p where "chunk_root h ds = h (node_string p)" "node_string p \<in> S" by (rule chunk_root_split [OF 2(2) less.prems(2)])
    with less.prems(5) inj [OF _ leaf, of c "node_string p"] 2(1) show ?thesis by (simp add: chunk_root_single)
  next
    case (3 d)
    obtain p where "chunk_root h cs = h (node_string p)" "node_string p \<in> S" by (rule chunk_root_split [OF 3(1) less.prems(1)])
    with less.prems(5) inj [OF _ leaf, of d "node_string p"] 3(2) show ?thesis by (simp add: chunk_root_single)
  next
    case 4
    obtain k where k: "0 < k" "k < length cs" "chunk_root h cs = h (node_string (chunk_root h (take k cs), chunk_root h (drop k cs)))"
      "node_string (chunk_root h (take k cs), chunk_root h (drop k cs)) \<in> S" "chunk_strings h (take k cs) \<subseteq> S" "chunk_strings h (drop k cs) \<subseteq> S"
      by (rule chunk_root_split [OF 4(1) less.prems(1)])
    obtain j where j: "0 < j" "j < length ds" "chunk_root h ds = h (node_string (chunk_root h (take j ds), chunk_root h (drop j ds)))"
      "node_string (chunk_root h (take j ds), chunk_root h (drop j ds)) \<in> S" "chunk_strings h (take j ds) \<subseteq> S" "chunk_strings h (drop j ds) \<subseteq> S"
      by (rule chunk_root_split [OF 4(2) less.prems(2)])
    have eq: "chunk_root h (take k cs) = chunk_root h (take j ds)" "chunk_root h (drop k cs) = chunk_root h (drop j ds)"
      using inj [OF less.prems(5) [unfolded k(3) j(3)] k(4) j(4)] by simp_all
    have "take k cs = take j ds" using k(1,2) j(1,2) by (intro less.hyps k(5) j(5) eq) auto
    moreover have "drop k cs = drop j ds" using k(1,2) j(1,2) by (intro less.hyps k(6) j(6) eq) auto
    ultimately show ?thesis by (metis append_take_drop_id)
  qed
qed

lemma cid_binds:
  assumes "\<not> collision_among h S" "cid_strings h x \<subseteq> S" "cid_strings h y \<subseteq> S" "x \<noteq> []" "y \<noteq> []" "compute_cid h x = compute_cid h y"
  shows "x = y"
proof -
  have C: "0 < DEFAULT_CHUNK_SIZE" by (simp add: DEFAULT_CHUNK_SIZE_def)
  have "chunks_of DEFAULT_CHUNK_SIZE x = chunks_of DEFAULT_CHUNK_SIZE y"
    using assms(4-) C unfolding compute_cid_def chunk_hashes_def root_is_reference chunk_root_def [symmetric]
    by (intro chunk_root_binds [OF assms(1-3) [unfolded cid_strings_def]]) simp_all
  then show ?thesis by (metis chunks_of_concat [OF C])
qed

section \<open>Directories are maps\<close>

lemma search_loop_spec:
  assumes "\<forall>i j. i < j \<and> j < N \<longrightarrow> item i < item j"
    and "\<forall>j. base + n \<le> j \<and> j < N \<longrightarrow> key < item j" "base = 0 \<or> item base \<le> key" "0 < n" "base + n \<le> N"
  shows "search_loop item key base n < N \<and> (search_loop item key base n = 0 \<or> item (search_loop item key base n) \<le> key) \<and>
    (\<forall>j. search_loop item key base n < j \<and> j < N \<longrightarrow> key < item j)"
  using assms
proof (induction item key base n rule: search_loop.induct)
  case (1 item key base n)
  show ?case
  proof (cases "1 < n")
    case False
    with "1.prems"(4) have "n = 1" by simp
    then show ?thesis using "1.prems" by (simp add: search_loop.simps Suc_le_eq)
  next
    case True
    define mid where "mid = base + n div 2"
    have half: "0 < n div 2" "n div 2 < n" "base \<le> mid" "mid < base + n" using True by (simp_all add: mid_def)
    have sum: "mid + (n - n div 2) = base + n" using half by (simp add: mid_def)
    have step: "search_loop item key base n = search_loop item key (if key < item mid then base else mid) (n - n div 2)"
      using True by (subst search_loop.simps) (simp add: mid_def)
    have above: "key < item j" if "key < item mid" "mid \<le> j" "j < N" for j
      using that "1.prems"(1) by (cases "j = mid") (auto intro: less_trans)
    have "mid \<le> base + (n - n div 2)" by (simp add: mid_def)
    then have "\<forall>j. (if key < item mid then base else mid) + (n - n div 2) \<le> j \<and> j < N \<longrightarrow> key < item j"
      using above "1.prems"(2) unfolding if_distrib [of "\<lambda>b. b + _"] sum by (auto dest: le_trans)
    moreover have "(if key < item mid then base else mid) = 0 \<or> item (if key < item mid then base else mid) \<le> key"
      using "1.prems"(3) by auto
    moreover have "0 < n - n div 2" "(if key < item mid then base else mid) + (n - n div 2) \<le> N"
      using half "1.prems"(5) sum by auto
    ultimately show ?thesis unfolding step by (rule "1.IH" [OF True "1.prems"(1), folded mid_def])
  qed
qed

text \<open>The search finds the name, or the place where it belongs.\<close>

lemma binary_search_spec:
  assumes inc: "\<forall>i j. i < j \<and> j < n \<longrightarrow> item i < item j"
  shows "(\<exists>i < n. binary_search item n key = Inr i \<and> item i = key) \<or>
    (\<exists>i \<le> n. binary_search item n key = Inl i \<and> (\<forall>j < i. item j < key) \<and> (\<forall>j. i \<le> j \<and> j < n \<longrightarrow> key < item j))"
proof (cases "n = 0")
  case True
  then show ?thesis by (simp add: binary_search_def)
next
  case False
  define r where "r = search_loop item key 0 n"
  have "\<forall>j. 0 + n \<le> j \<and> j < n \<longrightarrow> key < item j" by auto
  then have r: "r < n" "r = 0 \<or> item r \<le> key" "\<And>j. r < j \<Longrightarrow> j < n \<Longrightarrow> key < item j"
    using search_loop_spec [OF inc, of 0 n key] False by (auto simp: r_def)
  have bs: "binary_search item n key = (if item r = key then Inr r else Inl (r + (if item r < key then 1 else 0)))"
    using False by (simp add: binary_search_def r_def Let_def)
  consider "item r = key" | "item r < key" | "key < item r" by (rule linorder_cases)
  then show ?thesis
  proof cases
    case 1
    then show ?thesis using r(1) by (auto simp: bs)
  next
    case 2
    then have "item j < key" if "j < Suc r" for j using that inc r(1) by (metis less_SucE less_trans)
    then show ?thesis using 2 r(1,3) by (intro disjI2 exI [of _ "Suc r"]) (auto simp: bs)
  next
    case 3
    then have "r = 0" using r(2) by auto
    then have "key < item j" if "j < n" for j using that 3 r(3) by (cases j) auto
    then show ?thesis using 3 \<open>r = 0\<close> by (intro disjI2 exI [of _ 0]) (auto simp: bs)
  qed
qed

definition sorted_dir :: "DirectoryNode \<Rightarrow> bool" where
  "sorted_dir d \<longleftrightarrow> sorted_wrt (<) (map de_name (dn_children d))"

definition entries :: "DirectoryEntry list \<Rightarrow> byte list \<Rightarrow> DirectoryEntry option" where
  "entries es = map_of (map (\<lambda>e. (de_name e, e)) es)"

abbreviation dir_map :: "DirectoryNode \<Rightarrow> byte list \<Rightarrow> DirectoryEntry option" where
  "dir_map d \<equiv> entries (dn_children d)"

lemma entries_simps [simp]:
  "entries [] = Map.empty" "entries (e # es) = (entries es)(de_name e \<mapsto> e)"
  by (simp_all add: entries_def)

lemma entries_mid:
  "name \<notin> de_name ` set es \<Longrightarrow> entries es name = None"
  "de_name e \<notin> de_name ` set es1 \<Longrightarrow> entries (es1 @ e # es2) = (entries (es1 @ es2))(de_name e \<mapsto> e)"
  by (induction es) (auto, induction es1, auto)

text \<open>A sorted directory around a name: with the entry of that name, or with the gap where it belongs.\<close>

lemma dir_position_cases:
  assumes "sorted_dir d"
  obtains (found) es1 e es2 where "dn_children d = es1 @ e # es2" "de_name e = name" "dir_position d name = Inr (length es1)"
      "\<forall>x\<in>set es1. de_name x < name" "\<forall>x\<in>set es2. name < de_name x"
  | (gap) es1 es2 where "dn_children d = es1 @ es2" "dir_position d name = Inl (length es1)"
      "\<forall>x\<in>set es1. de_name x < name" "\<forall>x\<in>set es2. name < de_name x"
proof -
  let ?cs = "dn_children d"
  have inc: "\<forall>i j. i < j \<and> j < length ?cs \<longrightarrow> de_name (?cs ! i) < de_name (?cs ! j)"
    using assms by (auto simp: sorted_dir_def sorted_wrt_iff_nth_less)
  from binary_search_spec [OF inc, of name, folded dir_position_def] show thesis
  proof (elim disjE exE conjE)
    fix i assume i: "i < length ?cs" "dir_position d name = Inr i" "de_name (?cs ! i) = name"
    show thesis
    proof (rule found [of "take i ?cs" "?cs ! i" "drop (Suc i) ?cs"])
      show "?cs = take i ?cs @ ?cs ! i # drop (Suc i) ?cs" using i(1) by (rule id_take_nth_drop)
      show "\<forall>x\<in>set (take i ?cs). de_name x < name" "\<forall>x\<in>set (drop (Suc i) ?cs). name < de_name x"
        using i inc by (auto simp: in_set_conv_nth)
    qed (use i in auto)
  next
    fix i assume i: "i \<le> length ?cs" "dir_position d name = Inl i" "\<forall>j<i. de_name (?cs ! j) < name"
      "\<forall>j. i \<le> j \<and> j < length ?cs \<longrightarrow> name < de_name (?cs ! j)"
    show thesis
      by (rule gap [of "take i ?cs" "drop i ?cs"]) (use i in \<open>auto simp: in_set_conv_nth\<close>)
  qed
qed

lemma sorted_dir_append:
  "dn_children d = es1 @ es2 \<Longrightarrow> sorted_dir d \<longleftrightarrow> sorted_wrt (<) (map de_name es1) \<and> sorted_wrt (<) (map de_name es2) \<and>
     (\<forall>x\<in>set es1. \<forall>y\<in>set es2. de_name x < de_name y)"
  by (simp add: sorted_dir_def sorted_wrt_append)

lemma find_child_map:
  assumes "sorted_dir d" shows "find_child name d = dir_map d name"
proof (rule dir_position_cases [OF assms, of name], goal_cases found gap)
  case (found es1 e es2)
  then have "de_name e \<notin> de_name ` set es1" by auto
  from entries_mid(2) [OF this] found show ?thesis by (simp add: find_child_def)
next
  case (gap es1 es2)
  then show ?thesis by (subst entries_mid(1)) (auto simp: find_child_def)
qed

text \<open>Insertion and removal by scanning, the reference for the binary search.\<close>

fun insert_entry :: "DirectoryEntry \<Rightarrow> DirectoryEntry list \<Rightarrow> DirectoryEntry list" where
  "insert_entry e [] = [e]"
| "insert_entry e (x # xs) =
     (if de_name e < de_name x then e # x # xs else if de_name e = de_name x then e # xs else x # insert_entry e xs)"

lemma insert_entry_append: "\<forall>x\<in>set es1. de_name x < de_name e \<Longrightarrow> insert_entry e (es1 @ es2) = es1 @ insert_entry e es2"
  by (induction es1) auto

lemma insert_entry_head: "\<forall>x\<in>set es. de_name e < de_name x \<Longrightarrow> insert_entry e es = e # es"
  by (cases es) auto

lemma upsert_child_eq:
  assumes "sorted_dir d"
  shows "upsert_child e d = (if dir_map d (de_name e) = None \<and> MaxDirectoryChildren \<le> length (dn_children d) then Inl DirectoryFull
    else Inr (d\<lparr>dn_children := insert_entry e (dn_children d)\<rparr>))"
proof (rule dir_position_cases [OF assms, of "de_name e"], goal_cases found gap)
  case (found es1 x es2)
  then have "de_name x \<notin> de_name ` set es1" by auto
  from entries_mid(2) [OF this] found show ?case by (simp add: upsert_child_def insert_entry_append list_update_append)
next
  case (gap es1 es2)
  then have "dir_map d (de_name e) = None" by (intro entries_mid(1)) auto
  with gap show ?case by (simp add: upsert_child_def insert_entry_append insert_entry_head ensure_def)
qed

lemma remove_child_eq:
  assumes "sorted_dir d"
  shows "remove_child name d = (dir_map d name, d\<lparr>dn_children := filter (\<lambda>x. de_name x \<noteq> name) (dn_children d)\<rparr>)"
proof (rule dir_position_cases [OF assms, of name], goal_cases found gap)
  case (found es1 x es2)
  then have "de_name x \<notin> de_name ` set es1" "filter (\<lambda>x. de_name x \<noteq> name) es1 = es1" "filter (\<lambda>x. de_name x \<noteq> name) es2 = es2"
    by (auto intro!: filter_True)
  with entries_mid(2) [OF this(1)] found show ?case by (simp add: remove_child_def)
next
  case (gap es1 es2)
  then have "dir_map d name = None" by (intro entries_mid(1)) auto
  moreover have "filter (\<lambda>x. de_name x \<noteq> name) (dn_children d) = dn_children d" using gap by (intro filter_True) auto
  ultimately show ?case using gap by (simp add: remove_child_def)
qed

lemma insert_entry_set: "set (insert_entry e es) \<subseteq> insert e (set es)"
  by (induction es) auto

lemma insert_entry_spec:
  "sorted_wrt (<) (map de_name es) \<Longrightarrow> sorted_wrt (<) (map de_name (insert_entry e es)) \<and>
     entries (insert_entry e es) = (entries es)(de_name e \<mapsto> e) \<and>
     length (insert_entry e es) = (if entries es (de_name e) = None then Suc (length es) else length es)"
proof (induction es)
  case (Cons x xs)
  have new: "entries xs (de_name e) = None" if "de_name e \<le> de_name x"
    using that Cons.prems by (intro entries_mid(1)) auto
  have "de_name x < de_name y" if "y \<in> set (insert_entry e xs)" "de_name x < de_name e" for y
    using that Cons.prems insert_entry_set [of e xs] by auto
  then show ?case using Cons new by (auto simp: fun_upd_twist not_less)
qed simp

lemma filter_entries:
  "sorted_wrt (<) (map de_name es) \<Longrightarrow> sorted_wrt (<) (map de_name (filter P es))"
  "entries (filter (\<lambda>x. de_name x \<noteq> name) es) = (entries es)(name := None)"
  by (induction es) (auto simp: fun_eq_iff)

lemma sorted_dir_upd [simp]: "sorted_dir (d\<lparr>dn_children := es\<rparr>) \<longleftrightarrow> sorted_wrt (<) (map de_name es)"
  by (simp add: sorted_dir_def)

section \<open>Valid directories and manifests\<close>

definition good_entry :: "DirectoryEntry \<Rightarrow> bool" where
  "good_entry e \<longleftrightarrow> validate_entry_name (de_name e) = Inr () \<and> (is_directory e \<longrightarrow> de_size e = 0) \<and> wf_entry e"

definition good_dir :: "DirectoryNode \<Rightarrow> bool" where
  "good_dir d \<longleftrightarrow> dn_bucket_id d < 2 ^ 64 \<and> dn_metadata d = [] \<and> length (dn_children d) \<le> MaxDirectoryChildren \<and>
     (\<forall>e\<in>set (dn_children d). good_entry e) \<and> sorted_dir d"

lemma validate_entries_Inr: "validate_entries es = Inr () \<longleftrightarrow>
    (\<forall>e\<in>set es. validate_entry_name (de_name e) = Inr () \<and> (is_directory e \<longrightarrow> de_size e = 0))"
  by (induction es) (auto simp: result_simps)

lemma dir_validate_Inr: "dir_validate d = Inr () \<longleftrightarrow> dn_metadata d = [] \<and> validate_entries (dn_children d) = Inr () \<and> sorted_dir d"
proof -
  have "sorted_dir d \<longleftrightarrow> \<not> (\<exists>i < length (dn_children d) - 1. de_name (dn_children d ! i) \<ge> de_name (dn_children d ! Suc i))"
    unfolding sorted_dir_def by (subst sorted_wrt_iff_nth_Suc_transp) (auto simp: not_le less_diff_conv)
  then show ?thesis by (auto simp: dir_validate_def result_simps)
qed

lemma good_dir_iff: "good_dir d \<longleftrightarrow> wf_dir d \<and> dir_validate d = Inr ()"
  by (auto simp: good_dir_def wf_dir_def dir_validate_Inr validate_entries_Inr good_entry_def)

lemma good_dir_empty: "b < 2 ^ 64 \<Longrightarrow> good_dir (DirectoryNode_new_empty b)"
  by (simp add: good_dir_def DirectoryNode_new_empty_def sorted_dir_def)

lemma good_entry_new:
  assumes "DirectoryEntry_try_new name ty cid n t = Inr e" "n < 2 ^ 64" "t < 2 ^ 64" "ty = Directory \<longrightarrow> n = 0"
  shows "good_entry e" "e = \<lparr>de_name = name, de_type = ty, de_cid = cid, de_size = n, de_mtime = t\<rparr>"
  using assms by (auto simp: DirectoryEntry_try_new_def result_simps good_entry_def wf_entry_def is_directory_def)

lemma upsert_child_good:
  assumes "good_dir d" "good_entry e" "upsert_child e d = Inr d'"
  shows "good_dir d'" "dir_map d' = (dir_map d)(de_name e \<mapsto> e)" "dn_bucket_id d' = dn_bucket_id d"
proof -
  have s: "sorted_dir d" using assms(1) by (simp add: good_dir_def)
  from assms(3) upsert_child_eq [OF s, of e] have d': "d' = d\<lparr>dn_children := insert_entry e (dn_children d)\<rparr>"
    and fits: "dir_map d (de_name e) = None \<Longrightarrow> length (dn_children d) < MaxDirectoryChildren" by (auto split: if_splits)
  note I = insert_entry_spec [OF s [unfolded sorted_dir_def], of e]
  show "good_dir d'" using assms(1,2) I fits insert_entry_set [of e "dn_children d"] by (auto simp: good_dir_def d')
  show "dir_map d' = (dir_map d)(de_name e \<mapsto> e)" "dn_bucket_id d' = dn_bucket_id d" using I by (simp_all add: d')
qed

lemma remove_child_good:
  assumes "good_dir d" "remove_child name d = (x, d')"
  shows "good_dir d'" "x = dir_map d name" "dir_map d' = (dir_map d)(name := None)" "dn_bucket_id d' = dn_bucket_id d"
proof -
  have s: "sorted_dir d" using assms(1) by (simp add: good_dir_def)
  from assms(2) remove_child_eq [OF s, of name] have x: "x = dir_map d name"
    and d': "d' = d\<lparr>dn_children := filter (\<lambda>x. de_name x \<noteq> name) (dn_children d)\<rparr>" by auto
  show "good_dir d'" using assms(1) filter_entries(1) [of "dn_children d"] s
    by (auto simp: good_dir_def d' sorted_dir_def intro: le_trans [OF length_filter_le])
  show "x = dir_map d name" "dir_map d' = (dir_map d)(name := None)" "dn_bucket_id d' = dn_bucket_id d"
    by (simp_all add: x d' filter_entries(2))
qed

lemma for_content_good:
  assumes "for_content h b content mime metadata = Inr mf" "b < 2 ^ 64" "\<forall>m\<in>set metadata. wf_meta m"
  shows "wf_manifest mf" "manifest_validate mf = Inr ()" "content_root h mf = compute_cid h content" "fm_total_size mf = length content"
    "fm_mime_type mf = (if mime = [] then DEFAULT_MIME_TYPE else mime)" "fm_user_metadata mf = sort_key me_key metadata" "fm_bucket_id mf = b"
proof -
  let ?um = "sort_key me_key metadata"
  from assms(1) have dup: "\<not> (\<exists>i < length ?um - 1. me_key (?um ! i) = me_key (?um ! Suc i))"
    and bounds: "length (chunk_hashes h content) \<le> MaxFileChunks" "length ?um \<le> MaxMetadataEntries"
      "length (if mime = [] then DEFAULT_MIME_TYPE else mime) \<le> MaxMimeTypeLength"
    and mf: "mf = \<lparr>fm_bucket_id = b, fm_mime_type = (if mime = [] then DEFAULT_MIME_TYPE else mime), fm_total_size = length content,
       fm_chunks = map (\<lambda>(i, cid). \<lparr>fc_cid = cid, fc_sequence = i mod 2 ^ 32\<rparr>) (enumerate 0 (chunk_hashes h content)),
       fm_encryption_params = [], fm_user_metadata = ?um\<rparr>"
    by (auto simp: for_content_def Let_def result_simps)
  have C: "0 < DEFAULT_CHUNK_SIZE" by (simp add: DEFAULT_CHUNK_SIZE_def)
  have n: "length (chunk_hashes h content) = div_ceil (length content) DEFAULT_CHUNK_SIZE" by (simp add: chunk_hashes_def chunks_of_count)
  have "length content \<le> MaxFileChunks * DEFAULT_CHUNK_SIZE" using bounds(1) div_ceil_le_iff [OF C] n by simp
  then have "length content < 2 ^ 64" by (simp add: MaxFileChunks_def DEFAULT_CHUNK_SIZE_def)
  then show "wf_manifest mf" using assms(2,3) bounds by (auto simp: mf wf_manifest_def)
  have "me_key (?um ! i) < me_key (?um ! Suc i)" if "i < length ?um - 1" for i
  proof -
    have "me_key (?um ! i) \<le> me_key (?um ! Suc i)"
      using sorted_nth_mono [OF sorted_sort_key [of me_key metadata], of i "Suc i"] that by simp
    moreover have "me_key (?um ! i) \<noteq> me_key (?um ! Suc i)" using dup that by blast
    ultimately show ?thesis by (rule order.not_eq_order_implies_strict [rotated])
  qed
  moreover have "fc_sequence (fm_chunks mf ! i) = i" if "i < length (fm_chunks mf)" for i
    using that bounds(1) by (simp add: mf MaxFileChunks_def nth_enumerate_eq)
  ultimately show "manifest_validate mf = Inr ()"
    using n by (auto simp: manifest_validate_def result_simps mf not_le simp del: length_sort)
  have "map fc_cid (fm_chunks mf) = chunk_hashes h content" by (simp add: mf comp_def case_prod_beta)
  then show "content_root h mf = compute_cid h content" by (simp add: content_root_def compute_cid_def)
qed (use assms(1) in \<open>auto simp: for_content_def Let_def result_simps\<close>)

end
