(* ===== verification/Fs_Tree.thy ===== *)
theory Fs_Tree
  imports Fs_Format
begin

text \<open>
  The file tree of a drive (\<open>clients/storage-formats/src/tree.rs\<close>) over any blob store, and the
  blob store over the provider's HTTP interface (\<open>http.rs\<close>). The store's state is \<open>s\<close>; a store
  may answer anything. The clock is a function from the number of the reading within an
  operation. Error messages are not kept.
\<close>

section \<open>Stores and errors\<close>

datatype FsClientError =
    InvalidPath "byte list"
  | PathNotFound "byte list"
  | EntryExists "byte list"
  | NotADirectory "byte list"
  | NotAFile "byte list"
  | DirectoryNotEmpty "byte list"
  | FormatRule "byte list" FileSystemError
  | NotAFileSystemBucket BucketId
  | UnsupportedFormatVersion byte
  | InvalidMmrProof BucketId
  | InvalidBlob "byte list"
  | CidMismatch Cid Cid
  | ProviderRequest ClientFailure
  | StoreFailed string

datatype BlobLength = Exact nat | AtMost nat

record 's BlobStore =
  put_blob :: "BucketId \<Rightarrow> byte list \<Rightarrow> 's \<Rightarrow> (FsClientError + Cid) \<times> 's"
  get_blob :: "BucketId \<Rightarrow> Cid \<Rightarrow> BlobLength \<Rightarrow> 's \<Rightarrow> (FsClientError + byte list) \<times> 's"
  bs_commit :: "BucketId \<Rightarrow> Cid list \<Rightarrow> 's \<Rightarrow> (FsClientError + unit) \<times> 's"
  bs_commitment :: "BucketId \<Rightarrow> 's \<Rightarrow> (FsClientError + Commitment option) \<times> 's"
  bs_mmr_proof :: "BucketId \<Rightarrow> nat \<Rightarrow> 's \<Rightarrow> (FsClientError + MmrProof) \<times> 's"

text \<open>The question mark on a request: an error ends the operation, the store keeps its state.\<close>

definition proceed :: "(FsClientError + 'a) \<times> 's \<Rightarrow> ('a \<Rightarrow> 's \<Rightarrow> (FsClientError + 'b) \<times> 's) \<Rightarrow> (FsClientError + 'b) \<times> 's" where
  "proceed r k = (case r of (Inl e, s) \<Rightarrow> (Inl e, s) | (Inr x, s) \<Rightarrow> k x s)"

definition format_error :: "byte list \<Rightarrow> FileSystemError + 'a \<Rightarrow> FsClientError + 'a" where
  "format_error path r = map_sum (FormatRule path) id r"

definition invalid_blob :: "byte list \<Rightarrow> FileSystemError + 'a \<Rightarrow> FsClientError + 'a" where
  "invalid_blob path r =
     map_sum (\<lambda>source. case source of UnsupportedVersion version \<Rightarrow> UnsupportedFormatVersion version | _ \<Rightarrow> InvalidBlob path) id r"

record Root =
  ro_cid :: "Cid option"
  ro_node :: DirectoryNode

record FileStat =
  fs_entry :: DirectoryEntry
  fs_manifest :: FileManifest

record FileContent =
  ct_stat :: FileStat
  ct_data :: "byte list"

datatype EmptyParents = Keep | Remove

section \<open>Paths\<close>

fun segments :: "byte list \<Rightarrow> byte list list" where
  "segments [] = [[]]"
| "segments (c # cs) =
     (if c = slash then [] # segments cs else (case segments cs of [] \<Rightarrow> [[c]] | x # xs \<Rightarrow> (c # x) # xs))"

definition parse_path :: "byte list \<Rightarrow> FsClientError + byte list list" where
  "parse_path path =
     (case path of
        [] \<Rightarrow> Inl (InvalidPath path)
      | c # rest \<Rightarrow>
          ensure (c = slash) (InvalidPath path)
          (if rest = [] then Inr []
           else ensure (list_all (\<lambda>name. validate_entry_name name = Inr ()) (segments rest)) (InvalidPath path) (Inr (segments rest))))"

definition join_path :: "byte list list \<Rightarrow> byte list" where
  "join_path names = (if names = [] then [slash] else concat (map (\<lambda>name. slash # name) names))"

section \<open>Reading blobs\<close>

record ('m, 's) Tree =
  tr_store :: "'s BlobStore"
  tr_bucket_id :: BucketId
  tr_now :: "nat \<Rightarrow> nat"
  tr_hash :: "byte list \<Rightarrow> H256"
  tr_mmr :: "'m mmr_lib"

definition check_cid :: "(byte list \<Rightarrow> H256) \<Rightarrow> Cid \<Rightarrow> byte list \<Rightarrow> FsClientError + unit" where
  "check_cid h cid bytes = ensure (compute_cid h bytes = cid) (CidMismatch cid (compute_cid h bytes)) (Inr ())"

definition read_last_leaf :: "('m, 's) Tree \<Rightarrow> 's \<Rightarrow> (FsClientError + Cid option) \<times> 's" where
  "read_last_leaf T s =
     proceed (bs_commitment (tr_store T) (tr_bucket_id T) s) (\<lambda>found s.
     case found of
       None \<Rightarrow> (Inr None, s)
     | Some commitment \<Rightarrow>
         if leaf_count commitment = 0 then (Inr None, s)
         else let idx = leaf_count commitment - 1 in
              proceed (bs_mmr_proof (tr_store T) (tr_bucket_id T) idx s) (\<lambda>pf s.
              (ensure (verify_mmr_proof (tr_mmr T) (tr_hash T) pf idx commitment) (InvalidMmrProof (tr_bucket_id T))
                 (Inr (Some (data_root (mp_leaf pf)))), s)))"

definition last_leaf :: "('m, 's) Tree \<Rightarrow> 's \<Rightarrow> (FsClientError + Cid option) \<times> 's" where
  "last_leaf T s =
     (case read_last_leaf T s of
        (Inl (InvalidMmrProof _), s) \<Rightarrow> read_last_leaf T s
      | r \<Rightarrow> r)"

definition read_blob :: "('m, 's) Tree \<Rightarrow> byte list \<Rightarrow> Cid \<Rightarrow> BlobLength \<Rightarrow> 's \<Rightarrow> (FsClientError + byte list) \<times> 's" where
  "read_blob T path cid len s =
     proceed (get_blob (tr_store T) (tr_bucket_id T) cid len s) (\<lambda>bytes s.
     (ensure (case len of Exact n \<Rightarrow> length bytes = n | AtMost n \<Rightarrow> length bytes \<le> n) (InvalidBlob path)
       (attempt (check_cid (tr_hash T) cid bytes) (\<lambda>_. Inr bytes)), s))"

definition read_dir :: "('m, 's) Tree \<Rightarrow> byte list \<Rightarrow> Cid \<Rightarrow> 's \<Rightarrow> (FsClientError + DirectoryNode) \<times> 's" where
  "read_dir T path cid s =
     proceed (read_blob T path cid (AtMost dir_max_blob_len) s) (\<lambda>bytes s.
     (attempt (invalid_blob path (dir_from_blob bytes)) (\<lambda>node.
      attempt (invalid_blob path (dir_validate node)) (\<lambda>_. Inr node)), s))"

definition read_manifest :: "('m, 's) Tree \<Rightarrow> byte list \<Rightarrow> Cid \<Rightarrow> 's \<Rightarrow> (FsClientError + FileManifest) \<times> 's" where
  "read_manifest T path cid s =
     proceed (read_blob T path cid (AtMost manifest_max_blob_len) s) (\<lambda>bytes s.
     (attempt (invalid_blob path (manifest_from_blob bytes)) (\<lambda>manifest.
      attempt (invalid_blob path (manifest_validate manifest)) (\<lambda>_. Inr manifest)), s))"

definition not_fs :: "BucketId \<Rightarrow> FileSystemError + 'a \<Rightarrow> FsClientError + 'a" where
  "not_fs b r =
     map_sum (\<lambda>source. case source of UnsupportedVersion version \<Rightarrow> UnsupportedFormatVersion version | _ \<Rightarrow> NotAFileSystemBucket b) id r"

definition load_root :: "('m, 's) Tree \<Rightarrow> 's \<Rightarrow> (FsClientError + Root) \<times> 's" where
  "load_root T s =
     proceed (last_leaf T s) (\<lambda>found s.
     case found of
       None \<Rightarrow> (Inr \<lparr>ro_cid = None, ro_node = DirectoryNode_new_empty (tr_bucket_id T)\<rparr>, s)
     | Some cid \<Rightarrow>
         proceed (get_blob (tr_store T) (tr_bucket_id T) cid (AtMost dir_max_blob_len) s) (\<lambda>bytes s.
         (ensure (length bytes \<le> dir_max_blob_len) (NotAFileSystemBucket (tr_bucket_id T))
           (attempt (check_cid (tr_hash T) cid bytes) (\<lambda>_.
            attempt (not_fs (tr_bucket_id T) (dir_from_blob bytes)) (\<lambda>node.
            attempt (map_sum (\<lambda>_. NotAFileSystemBucket (tr_bucket_id T)) id (dir_validate node)) (\<lambda>_.
            ensure (dn_bucket_id node = tr_bucket_id T) (NotAFileSystemBucket (tr_bucket_id T))
              (Inr \<lparr>ro_cid = Some cid, ro_node = node\<rparr>))))), s)))"

fun extend_loop :: "('m, 's) Tree \<Rightarrow> byte list list \<Rightarrow> bool \<Rightarrow> nat list \<Rightarrow> DirectoryNode list \<Rightarrow> 's \<Rightarrow> (FsClientError + DirectoryNode list) \<times> 's" where
  "extend_loop T names create_missing [] chain s = (Inr chain, s)"
| "extend_loop T names create_missing (depth # depths) chain s =
     (let path = join_path (take (Suc depth) names) in
      proceed (case find_child (names ! depth) (chain ! depth) of
                 Some entry \<Rightarrow> if is_directory entry then read_dir T path (de_cid entry) s else (Inl (NotADirectory path), s)
               | None \<Rightarrow> if create_missing then (Inr (DirectoryNode_new_empty (tr_bucket_id T)), s) else (Inl (PathNotFound path), s))
        (\<lambda>dir s. extend_loop T names create_missing depths (chain @ [dir]) s))"

definition extend_chain :: "('m, 's) Tree \<Rightarrow> DirectoryNode list \<Rightarrow> byte list list \<Rightarrow> bool \<Rightarrow> 's \<Rightarrow> (FsClientError + DirectoryNode list) \<times> 's" where
  "extend_chain T chain names create_missing s = extend_loop T names create_missing [length chain - 1..<length names] chain s"

definition dir_chain :: "('m, 's) Tree \<Rightarrow> DirectoryNode \<Rightarrow> byte list list \<Rightarrow> bool \<Rightarrow> 's \<Rightarrow> (FsClientError + DirectoryNode list) \<times> 's" where
  "dir_chain T root_node names create_missing s = extend_chain T [root_node] names create_missing s"

section \<open>Reading\<close>

definition tree_list :: "('m, 's) Tree \<Rightarrow> byte list \<Rightarrow> 's \<Rightarrow> (FsClientError + DirectoryEntry list) \<times> 's" where
  "tree_list T path s =
     proceed (parse_path path, s) (\<lambda>names s.
     proceed (load_root T s) (\<lambda>root s.
     proceed (dir_chain T (ro_node root) names False s) (\<lambda>chain s.
     (Inr (if chain = [] then [] else dn_children (last chain)), s))))"

definition tree_stat :: "('m, 's) Tree \<Rightarrow> byte list \<Rightarrow> 's \<Rightarrow> (FsClientError + FileStat) \<times> 's" where
  "tree_stat T path s =
     proceed (parse_path path, s) (\<lambda>names s.
     if names = [] then (Inl (NotAFile path), s)
     else proceed (load_root T s) (\<lambda>root s.
          proceed (dir_chain T (ro_node root) (butlast names) False s) (\<lambda>chain s.
          case find_child (last names) (last chain) of
            None \<Rightarrow> (Inl (PathNotFound path), s)
          | Some entry \<Rightarrow>
              if \<not> is_file entry then (Inl (NotAFile path), s)
              else proceed (read_manifest T path (de_cid entry) s) (\<lambda>manifest s.
                   (Inr \<lparr>fs_entry = entry, fs_manifest = manifest\<rparr>, s)))))"

definition get_file :: "('m, 's) Tree \<Rightarrow> byte list \<Rightarrow> 's \<Rightarrow> (FsClientError + FileContent) \<times> 's" where
  "get_file T path s =
     proceed (tree_stat T path s) (\<lambda>st s.
     let n = fm_total_size (fs_manifest st) in
     proceed (if n = 0 then (Inr [], s) else read_blob T path (content_root (tr_hash T) (fs_manifest st)) (Exact n) s) (\<lambda>data s.
     (Inr \<lparr>ct_stat = st, ct_data = data\<rparr>, s)))"

text \<open>One directory of \<open>entries_under\<close>: its entries and the directories to visit, then the loop.\<close>

fun scan_entries :: "('m, 's) Tree \<Rightarrow> byte list \<Rightarrow> DirectoryEntry list \<Rightarrow> 's \<Rightarrow>
    (FsClientError + (byte list \<times> DirectoryEntry) list \<times> (byte list \<times> DirectoryNode) list) \<times> 's" where
  "scan_entries T prefix [] s = (Inr ([], []), s)"
| "scan_entries T prefix (entry # entries) s =
     (let rel = prefix @ de_name entry in
      proceed (if is_directory entry
               then proceed (read_dir T rel (de_cid entry) s) (\<lambda>child s. (Inr [(rel @ [slash], child)], s))
               else (Inr [], s)) (\<lambda>here s.
      proceed (scan_entries T prefix entries s) (\<lambda>(rest, below) s. (Inr ((rel, entry) # rest, here @ below), s))))"

partial_function (option) entries_loop :: "('m, 's) Tree \<Rightarrow> (byte list \<times> DirectoryNode) list \<Rightarrow> 's \<Rightarrow>
    ((FsClientError + (byte list \<times> DirectoryEntry) list) \<times> 's) option" where
  "entries_loop T pending s =
     (case pending of
        [] \<Rightarrow> Some (Inr [], s)
      | (prefix, dir) # rest \<Rightarrow>
          (case scan_entries T prefix (dn_children dir) s of
             (Inl e, s1) \<Rightarrow> Some (Inl e, s1)
           | (Inr (found, below), s1) \<Rightarrow>
               Option.bind (entries_loop T (rev below @ rest) s1) (\<lambda>(r, s2). Some (map_sum id (\<lambda>more. found @ more) r, s2))))"

definition entries_under :: "('m, 's) Tree \<Rightarrow> byte list \<Rightarrow> 's \<Rightarrow> ((FsClientError + (byte list \<times> DirectoryEntry) list) \<times> 's) option" where
  "entries_under T path s =
     (case proceed (parse_path path, s) (\<lambda>names s.
           proceed (load_root T s) (\<lambda>root s. dir_chain T (ro_node root) names False s)) of
        (Inl e, s1) \<Rightarrow> Some (Inl e, s1)
      | (Inr chain, s1) \<Rightarrow> entries_loop T [([], last chain)] s1)"

section \<open>Writing\<close>

fun rewrite_loop :: "('m, 's) Tree \<Rightarrow> byte list list \<Rightarrow> byte list \<Rightarrow> nat \<Rightarrow> nat list \<Rightarrow> DirectoryNode list \<Rightarrow>
    FsClientError + byte list list \<times> DirectoryNode list" where
  "rewrite_loop T names path mtime [] chain = Inr ([], chain)"
| "rewrite_loop T names path mtime (idx # indices) chain =
     (let bytes = dir_to_blob (chain ! Suc idx) in
      attempt (format_error path (DirectoryEntry_try_new (names ! idx) Directory (compute_cid (tr_hash T) bytes) 0 mtime)) (\<lambda>entry.
      attempt (format_error path (upsert_child entry (chain ! idx))) (\<lambda>dir.
      attempt (rewrite_loop T names path mtime indices (chain[idx := dir])) (\<lambda>(encoded, chain).
      Inr (bytes # encoded, chain)))))"

definition rewrite_below :: "('m, 's) Tree \<Rightarrow> DirectoryNode list \<Rightarrow> byte list list \<Rightarrow> nat \<Rightarrow> byte list \<Rightarrow> nat \<Rightarrow>
    FsClientError + byte list list \<times> DirectoryNode list" where
  "rewrite_below T chain names depth path mtime =
     attempt (rewrite_loop T names path mtime (rev [depth..<length names]) chain) (\<lambda>(encoded, chain).
     Inr (encoded, take (Suc depth) chain))"

definition rewrite :: "('m, 's) Tree \<Rightarrow> DirectoryNode list \<Rightarrow> byte list list \<Rightarrow> byte list \<Rightarrow> nat \<Rightarrow>
    FsClientError + byte list list \<times> byte list" where
  "rewrite T chain names path mtime =
     attempt (rewrite_below T chain names 0 path mtime) (\<lambda>(below_root, chain). Inr (below_root, dir_to_blob (chain ! 0)))"

text \<open>\<open>seen\<close> is the set of identifiers met so far.\<close>

fun first_each :: "Cid list \<Rightarrow> Cid list \<Rightarrow> Cid list" where
  "first_each seen [] = []"
| "first_each seen (c # cs) = (if c \<in> set seen then first_each seen cs else c # first_each (c # seen) cs)"

definition commit_order :: "Cid list \<Rightarrow> Cid list" where
  "commit_order cids = (if cids = [] then [] else first_each [last cids] (butlast cids) @ [last cids])"

fun upload_blobs :: "('m, 's) Tree \<Rightarrow> Cid list \<Rightarrow> byte list list \<Rightarrow> 's \<Rightarrow> (FsClientError + unit) \<times> 's" where
  "upload_blobs T uploaded [] s = (Inr (), s)"
| "upload_blobs T uploaded (blob # blobs) s =
     (let expected = compute_cid (tr_hash T) blob in
      if expected \<in> set uploaded then upload_blobs T uploaded blobs s
      else proceed (put_blob (tr_store T) (tr_bucket_id T) blob s) (\<lambda>got s.
           if got \<noteq> expected then (Inl (CidMismatch expected got), s) else upload_blobs T (expected # uploaded) blobs s))"

definition tree_write :: "('m, 's) Tree \<Rightarrow> byte list list \<Rightarrow> byte list \<Rightarrow> 's \<Rightarrow> (FsClientError + Cid) \<times> 's" where
  "tree_write T blobs root_blob s =
     (let root_cid = compute_cid (tr_hash T) root_blob in
      proceed (upload_blobs T [] (blobs @ [root_blob]) s) (\<lambda>_ s.
      proceed (bs_commit (tr_store T) (tr_bucket_id T) (commit_order (map (compute_cid (tr_hash T)) blobs @ [root_cid])) s) (\<lambda>_ s.
      (Inr root_cid, s))))"

text \<open>
  A write is planned first: the blobs below the root, bottom up, and the blob of the new root.
  Then \<open>tree_write\<close> uploads and commits them.
\<close>

definition put_plan :: "('m, 's) Tree \<Rightarrow> byte list \<Rightarrow> byte list \<Rightarrow> byte list \<Rightarrow> MetadataEntry list \<Rightarrow> 's \<Rightarrow>
    (FsClientError + FileStat \<times> byte list list \<times> byte list) \<times> 's" where
  "put_plan T path data content_type user_metadata s =
     proceed (parse_path path, s) (\<lambda>names s.
     if names = [] then (Inl (NotAFile path), s)
     else let name = last names; parents = butlast names in
          proceed (format_error path (for_content (tr_hash T) (tr_bucket_id T) data content_type user_metadata), s) (\<lambda>manifest s.
          proceed (load_root T s) (\<lambda>root s.
          proceed (dir_chain T (ro_node root) parents True s) (\<lambda>chain s.
          let parent = chain ! length parents in
          if (case find_child name parent of Some e \<Rightarrow> is_directory e | None \<Rightarrow> False) then (Inl (NotAFile path), s)
          else let manifest_bytes = manifest_to_blob manifest in
               proceed (format_error path (DirectoryEntry_try_new name File (compute_cid (tr_hash T) manifest_bytes) (length data) (tr_now T 0)), s) (\<lambda>entry s.
               proceed (format_error path (upsert_child entry parent), s) (\<lambda>parent s.
               proceed (rewrite T (chain[length parents := parent]) parents path (tr_now T 1), s) (\<lambda>(dirs, root_blob) s.
               (Inr (\<lparr>fs_entry = entry, fs_manifest = manifest\<rparr>, (if data = [] then [] else [data]) @ [manifest_bytes] @ dirs, root_blob), s))))))))"

definition put_file :: "('m, 's) Tree \<Rightarrow> byte list \<Rightarrow> byte list \<Rightarrow> byte list \<Rightarrow> MetadataEntry list \<Rightarrow> 's \<Rightarrow> (FsClientError + Cid \<times> FileStat) \<times> 's" where
  "put_file T path data content_type user_metadata s =
     proceed (put_plan T path data content_type user_metadata s) (\<lambda>(st, blobs, root_blob) s.
     proceed (tree_write T blobs root_blob s) (\<lambda>root_cid s. (Inr (root_cid, st), s)))"

definition mkdir_plan :: "('m, 's) Tree \<Rightarrow> byte list \<Rightarrow> 's \<Rightarrow> (FsClientError + byte list list \<times> byte list) \<times> 's" where
  "mkdir_plan T path s =
     proceed (parse_path path, s) (\<lambda>names s.
     if names = [] then (Inl (EntryExists path), s)
     else proceed (load_root T s) (\<lambda>root s.
          proceed (dir_chain T (ro_node root) (butlast names) True s) (\<lambda>chain s.
          if find_child (last names) (last chain) \<noteq> None then (Inl (EntryExists path), s)
          else proceed (rewrite T (chain @ [DirectoryNode_new_empty (tr_bucket_id T)]) names path (tr_now T 0), s) (\<lambda>(dirs, root_blob) s.
               (Inr (dirs, root_blob), s)))))"

definition mkdir :: "('m, 's) Tree \<Rightarrow> byte list \<Rightarrow> 's \<Rightarrow> (FsClientError + Cid) \<times> 's" where
  "mkdir T path s = proceed (mkdir_plan T path s) (\<lambda>(dirs, root_blob) s. tree_write T dirs root_blob s)"

text \<open>The loop that removes the directories a delete leaves empty: \<open>kept\<close> directories below the root remain.\<close>

fun drop_empty :: "byte list list \<Rightarrow> nat \<Rightarrow> DirectoryNode list \<Rightarrow> nat \<times> DirectoryNode list" where
  "drop_empty parents 0 chain = (0, chain)"
| "drop_empty parents (Suc kept) chain =
     (if dn_children (chain ! Suc kept) = []
      then let chain = take (Suc kept) chain in
           drop_empty parents kept (chain[kept := snd (remove_child (parents ! kept) (chain ! kept))])
      else (Suc kept, chain))"

definition delete_plan :: "('m, 's) Tree \<Rightarrow> byte list \<Rightarrow> EmptyParents \<Rightarrow> 's \<Rightarrow> (FsClientError + byte list list \<times> byte list) \<times> 's" where
  "delete_plan T path empty_parents s =
     proceed (parse_path path, s) (\<lambda>names s.
     if names = [] then (Inl (InvalidPath path), s)
     else let parents = butlast names in
          proceed (load_root T s) (\<lambda>root s.
          proceed (dir_chain T (ro_node root) parents False s) (\<lambda>chain s.
          case remove_child (last names) (chain ! length parents) of
            (None, _) \<Rightarrow> (Inl (PathNotFound path), s)
          | (Some entry, dir) \<Rightarrow>
              let chain = chain[length parents := dir] in
              if is_directory entry \<and> empty_parents = Remove then (Inl (NotAFile path), s)
              else proceed (if is_directory entry
                            then proceed (read_dir T path (de_cid entry) s) (\<lambda>d s. (Inr (dn_children d \<noteq> []), s))
                            else (Inr False, s)) (\<lambda>occupied s.
                   if occupied then (Inl (DirectoryNotEmpty path), s)
                   else let (kept, chain) = (if empty_parents = Remove then drop_empty parents (length parents) chain else (length parents, chain)) in
                        proceed (rewrite T chain (take kept parents) path (tr_now T 0), s) (\<lambda>(dirs, root_blob) s.
                        (Inr (dirs, root_blob), s))))))"

definition delete :: "('m, 's) Tree \<Rightarrow> byte list \<Rightarrow> EmptyParents \<Rightarrow> 's \<Rightarrow> (FsClientError + Cid) \<times> 's" where
  "delete T path empty_parents s = proceed (delete_plan T path empty_parents s) (\<lambda>(dirs, root_blob) s. tree_write T dirs root_blob s)"

fun common_prefix_length :: "byte list list \<Rightarrow> byte list list \<Rightarrow> nat" where
  "common_prefix_length (x # xs) (y # ys) = (if x = y then Suc (common_prefix_length xs ys) else 0)"
| "common_prefix_length _ _ = 0"

definition rename_plan :: "('m, 's) Tree \<Rightarrow> byte list \<Rightarrow> byte list \<Rightarrow> 's \<Rightarrow> (FsClientError + byte list list \<times> byte list) \<times> 's" where
  "rename_plan T from to s =
     proceed (parse_path from, s) (\<lambda>from_names s.
     proceed (parse_path to, s) (\<lambda>to_names s.
     if from_names = [] \<or> to_names = [] then (Inl (InvalidPath [slash]), s)
     else if take (length from_names) to_names = from_names then (Inl (InvalidPath to), s)
     else let from_parents = butlast from_names; to_parents = butlast to_names;
              common = common_prefix_length from_parents to_parents in
          proceed (load_root T s) (\<lambda>root s.
          proceed (dir_chain T (ro_node root) from_parents False s) (\<lambda>chain s.
          case remove_child (last from_names) (chain ! length from_parents) of
            (None, _) \<Rightarrow> (Inl (PathNotFound from), s)
          | (Some entry, dir) \<Rightarrow>
              proceed (rewrite_below T (chain[length from_parents := dir]) from_parents common from (tr_now T 0), s) (\<lambda>(from_dirs, chain) s.
              proceed (extend_chain T chain to_parents True s) (\<lambda>chain s.
              let parent = chain ! length to_parents in
              if find_child (last to_names) parent \<noteq> None then (Inl (EntryExists to), s)
              else proceed (format_error to (DirectoryEntry_try_new (last to_names) (de_type entry) (de_cid entry) (de_size entry) (de_mtime entry)), s) (\<lambda>moved s.
                   proceed (format_error to (upsert_child moved parent), s) (\<lambda>parent s.
                   proceed (rewrite T (chain[length to_parents := parent]) to_parents to (tr_now T 1), s) (\<lambda>(to_dirs, root_blob) s.
                   (Inr (from_dirs @ to_dirs, root_blob), s)))))))))) "

definition rename :: "('m, 's) Tree \<Rightarrow> byte list \<Rightarrow> byte list \<Rightarrow> 's \<Rightarrow> (FsClientError + Cid) \<times> 's" where
  "rename T from to s = proceed (rename_plan T from to s) (\<lambda>(dirs, root_blob) s. tree_write T dirs root_blob s)"

section \<open>The store over HTTP\<close>

definition from_client :: "(ClientFailure + 'a) \<times> 's \<Rightarrow> (FsClientError + 'a) \<times> 's" where
  "from_client r = map_prod (map_sum ProviderRequest id) id r"

definition client_store :: "'w StorageUserClient \<Rightarrow> 'w BlobStore" where
  "client_store c = \<lparr>
     put_blob = (\<lambda>bucket_id data w. from_client (upload c bucket_id data (Fixed DEFAULT_CHUNK_SIZE) w)),
     get_blob = (\<lambda>bucket_id cid len w.
       let bound = (case len of Exact n \<Rightarrow> n | AtMost n \<Rightarrow> saturating_add 64 n 1) in
       from_client (client_download c bucket_id cid 0 bound w)),
     bs_commit = (\<lambda>bucket_id data_roots w. from_client (map_prod (map_sum id (\<lambda>_. ())) id (client_commit c bucket_id data_roots w))),
     bs_commitment = (\<lambda>bucket_id w. from_client (map_prod (map_sum id (map_option (\<lambda>(_, sc). sc_commitment sc))) id (get_commitment_if_exists c bucket_id w))),
     bs_mmr_proof = (\<lambda>bucket_id idx w. from_client (client_get_mmr_proof c bucket_id idx w))\<rparr>"

end
