(* ===== verification/Fs_Safety.thy ===== *)
theory Fs_Safety
  imports Format_Safety Fs_Tree
begin

text \<open>
  The file tree against stores of any kind. Against a store that lies, two successful reads
  under the same root agree. Over a store that keeps its promises, the locale \<open>blob_store\<close>,
  the operations of the tree are updates of a map from paths to files.
\<close>

section \<open>Chained requests\<close>

lemma proceed_simps [simp]: "proceed (Inl e, s) k = (Inl e, s)" "proceed (Inr x, s) k = k x s"
  by (simp_all add: proceed_def)

lemma proceed_Inr [result_simps]: "proceed r k = (Inr y, s') \<longleftrightarrow> (\<exists>x s1. r = (Inr x, s1) \<and> k x s1 = (Inr y, s'))"
  by (auto simp: proceed_def split: prod.splits sum.splits)

lemma error_maps_Inr [result_simps]:
  "format_error p r = Inr x \<longleftrightarrow> r = Inr x" "invalid_blob p r = Inr x \<longleftrightarrow> r = Inr x" "not_fs b r = Inr x \<longleftrightarrow> r = Inr x"
  "map_sum f id r = Inr x \<longleftrightarrow> r = Inr x"
  by (cases r; simp add: format_error_def invalid_blob_def not_fs_def)+

lemma error_maps_simps [simp]:
  "format_error p (Inr x) = Inr x" "invalid_blob p (Inr x) = Inr x" "not_fs b (Inr x) = Inr x"
  by (simp_all add: format_error_def invalid_blob_def not_fs_def)

lemma check_cid_Inr [result_simps]: "check_cid h cid bytes = Inr u \<longleftrightarrow> compute_cid h bytes = cid"
  by (cases u) (simp add: check_cid_def ensure_def)

section \<open>Integrity over an untrusted store\<close>

text \<open>Whatever blob the store hands out, the strings hashed for it are among \<open>S\<close>.\<close>

definition serves :: "(byte list \<Rightarrow> H256) \<Rightarrow> byte list set \<Rightarrow> 's BlobStore \<Rightarrow> bool" where
  "serves h S store \<longleftrightarrow> (\<forall>b cid len s bytes s'. get_blob store b cid len s = (Inr bytes, s') \<longrightarrow> cid_strings h bytes \<subseteq> S)"

lemma servesD: "serves h S store \<Longrightarrow> get_blob store b cid len s = (Inr bytes, s') \<Longrightarrow> cid_strings h bytes \<subseteq> S"
  unfolding serves_def by blast

lemma read_blob_Inr:
  assumes "read_blob T path cid len s = (Inr bytes, s')" "serves (tr_hash T) S (tr_store T)"
  shows "compute_cid (tr_hash T) bytes = cid" "cid_strings (tr_hash T) bytes \<subseteq> S" "case len of Exact n \<Rightarrow> length bytes = n | AtMost n \<Rightarrow> length bytes \<le> n"
proof -
  have "get_blob (tr_store T) (tr_bucket_id T) cid len s = (Inr bytes, s')"
    using assms(1) by (auto simp: read_blob_def result_simps)
  then show "cid_strings (tr_hash T) bytes \<subseteq> S" by (rule servesD [OF assms(2)])
qed (use assms(1) in \<open>auto simp: read_blob_def result_simps\<close>)

lemma from_blob_nonempty: "from_blob dec bytes = Inr x \<Longrightarrow> bytes \<noteq> []"
  by (auto simp: from_blob_def HEADER_LEN_def ensure_def)

lemma read_dir_Inr:
  assumes "read_dir T path cid s = (Inr d, s')" "serves (tr_hash T) S (tr_store T)"
  obtains bytes where "compute_cid (tr_hash T) bytes = cid" "cid_strings (tr_hash T) bytes \<subseteq> S" "bytes \<noteq> []" "dir_from_blob bytes = Inr d"
  using assms read_blob_Inr [OF _ assms(2), of path cid] from_blob_nonempty [of decode_dir]
  by (fastforce simp: read_dir_def result_simps dir_from_blob_def)

lemma read_manifest_Inr:
  assumes "read_manifest T path cid s = (Inr mf, s')" "serves (tr_hash T) S (tr_store T)"
  obtains bytes where "compute_cid (tr_hash T) bytes = cid" "cid_strings (tr_hash T) bytes \<subseteq> S" "bytes \<noteq> []" "manifest_from_blob bytes = Inr mf"
  using assms read_blob_Inr [OF _ assms(2), of path cid] from_blob_nonempty [of decode_manifest]
  by (fastforce simp: read_manifest_def result_simps manifest_from_blob_def)

lemma load_root_Inr:
  assumes "load_root T s = (Inr r, s')" "serves (tr_hash T) S (tr_store T)"
  shows "case ro_cid r of
      None \<Rightarrow> ro_node r = DirectoryNode_new_empty (tr_bucket_id T)
    | Some cid \<Rightarrow> \<exists>bytes. compute_cid (tr_hash T) bytes = cid \<and> cid_strings (tr_hash T) bytes \<subseteq> S \<and> bytes \<noteq> [] \<and> dir_from_blob bytes = Inr (ro_node r)"
  using assms from_blob_nonempty [of decode_dir]
  by (fastforce simp: load_root_def result_simps dir_from_blob_def serves_def split: option.splits)

text \<open>Two trees over stores that may differ, with the same hash and bucket.\<close>

definition same_drive :: "byte list set \<Rightarrow> ('m, 's) Tree \<Rightarrow> ('n, 't) Tree \<Rightarrow> bool" where
  "same_drive S T U \<longleftrightarrow> tr_hash U = tr_hash T \<and> tr_bucket_id U = tr_bucket_id T \<and> \<not> collision_among (tr_hash T) S \<and>
     serves (tr_hash T) S (tr_store T) \<and> serves (tr_hash T) S (tr_store U)"

lemma same_driveD:
  assumes "same_drive S T U"
  shows "tr_hash U = tr_hash T" "tr_bucket_id U = tr_bucket_id T" "serves (tr_hash T) S (tr_store T)" "serves (tr_hash U) S (tr_store U)"
    "\<And>x y. cid_strings (tr_hash T) x \<subseteq> S \<Longrightarrow> cid_strings (tr_hash T) y \<subseteq> S \<Longrightarrow> x \<noteq> [] \<Longrightarrow> y \<noteq> [] \<Longrightarrow>
       compute_cid (tr_hash T) x = compute_cid (tr_hash T) y \<Longrightarrow> x = y"
  using assms cid_binds unfolding same_drive_def by auto

lemma same_dir:
  assumes "same_drive S T U" "read_dir T p cid s = (Inr d, s')" "read_dir U q cid t = (Inr e, t')" shows "d = e"
  using same_driveD [OF assms(1)] read_dir_Inr [OF assms(2)] read_dir_Inr [OF assms(3)] by (metis Inr_inject)

lemma same_manifest:
  assumes "same_drive S T U" "read_manifest T p cid s = (Inr d, s')" "read_manifest U q cid t = (Inr e, t')" shows "d = e"
  using same_driveD [OF assms(1)] read_manifest_Inr [OF assms(2)] read_manifest_Inr [OF assms(3)] by (metis Inr_inject)

lemma same_root:
  assumes "same_drive S T U" "load_root T s = (Inr r, s')" "load_root U t = (Inr q, t')" "ro_cid r = ro_cid q" shows "ro_node r = ro_node q"
  using same_driveD [OF assms(1)] load_root_Inr [OF assms(2)] load_root_Inr [OF assms(3)] assms(4)
  by (cases "ro_cid q") (force, simp, metis Inr_inject)

lemma same_chain:
  assumes "same_drive S T U"
  shows "extend_loop T names False ds chain s = (Inr x, s') \<Longrightarrow> extend_loop U names False ds chain t = (Inr y, t') \<Longrightarrow> x = y"
proof (induction ds arbitrary: chain s t)
  case (Cons depth ds)
  note same = same_driveD(2) [OF assms]
  let ?next = "\<lambda>T s. case find_child (names ! depth) (chain ! depth) of
       Some entry \<Rightarrow> if is_directory entry then read_dir T (join_path (take (Suc depth) names)) (de_cid entry) s
                      else (Inl (NotADirectory (join_path (take (Suc depth) names))), s)
     | None \<Rightarrow> (Inl (PathNotFound (join_path (take (Suc depth) names))), s)"
  obtain d s1 where d: "?next T s = (Inr d, s1)" "extend_loop T names False ds (chain @ [d]) s1 = (Inr x, s')"
    using Cons.prems(1) by (auto simp: Let_def result_simps split: option.splits if_splits)
  obtain e t1 where e: "?next U t = (Inr e, t1)" "extend_loop U names False ds (chain @ [e]) t1 = (Inr y, t')"
    using Cons.prems(2) by (auto simp: Let_def result_simps split: option.splits if_splits)
  have "d = e" using d(1) e(1) same_dir [OF assms] by (auto split: option.splits if_splits)
  then show ?case using Cons.IH d(2) e(2) by blast
qed simp

lemma same_stat:
  assumes "same_drive S T U" "load_root T s = (Inr r, s1)" "load_root U t = (Inr q, t1)" "ro_cid r = ro_cid q"
    "tree_stat T path s = (Inr x, s')" "tree_stat U path t = (Inr y, t')"
  shows "x = y"
proof -
  obtain names chain s2 e mf s3 where names: "parse_path path = Inr names" and x: "dir_chain T (ro_node r) (butlast names) False s1 = (Inr chain, s2)"
    "find_child (last names) (last chain) = Some e" "read_manifest T path (de_cid e) s2 = (Inr mf, s3)" "x = \<lparr>fs_entry = e, fs_manifest = mf\<rparr>"
    using assms(2,5) by (auto simp: tree_stat_def result_simps split: if_splits option.splits)
  obtain names' chain' t2 e' mf' t3 where names': "parse_path path = Inr names'" and y: "dir_chain U (ro_node q) (butlast names') False t1 = (Inr chain', t2)"
    "find_child (last names') (last chain') = Some e'" "read_manifest U path (de_cid e') t2 = (Inr mf', t3)" "y = \<lparr>fs_entry = e', fs_manifest = mf'\<rparr>"
    using assms(3,6) by (auto simp: tree_stat_def result_simps split: if_splits option.splits)
  have "chain = chain'"
    using x(1) y(1) names names' same_root [OF assms(1-4)] same_chain [OF assms(1)] by (auto simp: dir_chain_def extend_chain_def)
  with x y names names' same_manifest [OF assms(1)] show ?thesis by auto
qed

lemma same_file:
  assumes "same_drive S T U" "load_root T s = (Inr r, s1)" "load_root U t = (Inr q, t1)" "ro_cid r = ro_cid q"
    "get_file T path s = (Inr x, s')" "get_file U path t = (Inr y, t')"
  shows "x = y"
proof -
  let ?read = "\<lambda>T st. if fm_total_size (fs_manifest st) = 0 then Pair (Inr [])
    else read_blob T path (content_root (tr_hash T) (fs_manifest st)) (Exact (fm_total_size (fs_manifest st)))"
  obtain st s2 ds where x: "tree_stat T path s = (Inr st, s2)" "?read T st s2 = (Inr ds, s')" "x = \<lparr>ct_stat = st, ct_data = ds\<rparr>"
    using assms(5) by (auto simp: get_file_def Let_def result_simps split: if_splits)
  obtain st' t2 es where y: "tree_stat U path t = (Inr st', t2)" "?read U st' t2 = (Inr es, t')" "y = \<lparr>ct_stat = st', ct_data = es\<rparr>"
    using assms(6) by (auto simp: get_file_def Let_def result_simps split: if_splits)
  have st: "st = st'" by (rule same_stat [OF assms(1-4) x(1) y(1)])
  note same = same_driveD [OF assms(1)]
  have "ds = es"
  proof (cases "fm_total_size (fs_manifest st) = 0")
    case False
    with x(2) y(2) have r: "read_blob T path (content_root (tr_hash T) (fs_manifest st)) (Exact (fm_total_size (fs_manifest st))) s2 = (Inr ds, s')"
      "read_blob U path (content_root (tr_hash T) (fs_manifest st)) (Exact (fm_total_size (fs_manifest st))) t2 = (Inr es, t')"
      by (simp_all add: st same(1))
    from False read_blob_Inr [OF r(1) same(3)] read_blob_Inr [OF r(2) same(4)] show ?thesis unfolding same(1) by (intro same(5)) auto
  qed (use x(2) y(2) st in simp)
  with st x(3) y(3) show ?thesis by simp
qed

lemma same_list:
  assumes "same_drive S T U" "load_root T s = (Inr r, s1)" "load_root U t = (Inr q, t1)" "ro_cid r = ro_cid q"
    "tree_list T path s = (Inr x, s')" "tree_list U path t = (Inr y, t')"
  shows "x = y"
proof -
  obtain names chain s2 where x: "parse_path path = Inr names" "dir_chain T (ro_node r) names False s1 = (Inr chain, s2)"
    "x = (if chain = [] then [] else dn_children (last chain))"
    using assms(2,5) by (auto simp: tree_list_def result_simps)
  obtain names' chain' t2 where y: "parse_path path = Inr names'" "dir_chain U (ro_node q) names' False t1 = (Inr chain', t2)"
    "y = (if chain' = [] then [] else dn_children (last chain'))"
    using assms(3,6) by (auto simp: tree_list_def result_simps)
  have "chain = chain'"
    using x y same_root [OF assms(1-4)] same_chain [OF assms(1)] by (auto simp: dir_chain_def extend_chain_def)
  then show ?thesis using x(3) y(3) by simp
qed

end
