(* ===== verification/Fs_Refine.thy ===== *)
theory Fs_Refine
  imports Fs_Safety
begin

text \<open>
  The file tree over a store that keeps its promises. \<open>tree_in\<close> says that a directory and
  everything below it can be read, \<open>file_at\<close> is the abstract drive: a map from paths to files.
  The locale \<open>blob_store\<close> states the contract of a store, and inside it each operation of the
  tree is an update of that map.
\<close>

section \<open>The abstract drive\<close>

text \<open>\<open>c\<close> is the file behind entry \<open>e\<close> when the blobs \<open>B\<close> can be read.\<close>

definition file_in :: "(byte list \<Rightarrow> H256) \<Rightarrow> byte list set \<Rightarrow> DirectoryEntry \<Rightarrow> FileContent \<Rightarrow> bool" where
  "file_in h B e c \<longleftrightarrow> (let mf = fs_manifest (ct_stat c) in
     is_file e \<and> fs_entry (ct_stat c) = e \<and> manifest_to_blob mf \<in> B \<and> de_cid e = compute_cid h (manifest_to_blob mf) \<and>
     wf_manifest mf \<and> manifest_validate mf = Inr () \<and> length (ct_data c) = fm_total_size mf \<and>
     (ct_data c \<noteq> [] \<longrightarrow> ct_data c \<in> B \<and> content_root h mf = compute_cid h (ct_data c)))"

definition dir_in :: "(byte list \<Rightarrow> H256) \<Rightarrow> byte list set \<Rightarrow> DirectoryEntry \<Rightarrow> DirectoryNode \<Rightarrow> bool" where
  "dir_in h B e d \<longleftrightarrow> is_directory e \<and> dir_to_blob d \<in> B \<and> de_cid e = compute_cid h (dir_to_blob d)"

inductive tree_in :: "(byte list \<Rightarrow> H256) \<Rightarrow> byte list set \<Rightarrow> DirectoryNode \<Rightarrow> bool" for h B where
  tree: "good_dir d \<Longrightarrow>
    (\<And>e. e \<in> set (dn_children d) \<Longrightarrow> is_file e \<Longrightarrow> \<exists>c. file_in h B e c) \<Longrightarrow>
    (\<And>e. e \<in> set (dn_children d) \<Longrightarrow> is_directory e \<Longrightarrow> \<exists>d'. dir_in h B e d' \<and> tree_in h B d') \<Longrightarrow> tree_in h B d"

inductive file_at :: "(byte list \<Rightarrow> H256) \<Rightarrow> byte list set \<Rightarrow> DirectoryNode \<Rightarrow> byte list list \<Rightarrow> FileContent \<Rightarrow> bool" for h B where
  here: "dir_map d n = Some e \<Longrightarrow> file_in h B e c \<Longrightarrow> file_at h B d [n] c"
| below: "dir_map d n = Some e \<Longrightarrow> dir_in h B e d' \<Longrightarrow> good_dir d' \<Longrightarrow> file_at h B d' ns c \<Longrightarrow> file_at h B d (n # ns) c"

inductive_cases file_at_NilE: "file_at h B d [] c"
inductive_cases file_at_ConsE: "file_at h B d (n # ns) c"

text \<open>The root directory of a bucket whose last leaf is \<open>leaf\<close>.\<close>

definition root_in :: "(byte list \<Rightarrow> H256) \<Rightarrow> byte list set \<Rightarrow> BucketId \<Rightarrow> Cid option \<Rightarrow> DirectoryNode \<Rightarrow> bool" where
  "root_in h B b leaf d \<longleftrightarrow> tree_in h B d \<and> dn_bucket_id d = b \<and>
     (case leaf of None \<Rightarrow> d = DirectoryNode_new_empty b | Some cid \<Rightarrow> dir_to_blob d \<in> B \<and> cid = compute_cid h (dir_to_blob d))"

lemma entries_Some: "entries es n = Some e \<Longrightarrow> e \<in> set es \<and> de_name e = n"
  by (induction es) (auto split: if_splits)

lemma tree_inD:
  assumes "tree_in h B d"
  shows "good_dir d" "sorted_dir d" "find_child n d = dir_map d n"
    "dir_map d n = Some e \<Longrightarrow> is_file e \<Longrightarrow> \<exists>c. file_in h B e c"
    "dir_map d n = Some e \<Longrightarrow> is_directory e \<Longrightarrow> \<exists>d'. dir_in h B e d' \<and> tree_in h B d'"
  using assms find_child_map [of d n] by (cases; auto simp: good_dir_def dest: entries_Some)+

lemma kinds [simp]: "\<not> is_file e \<longleftrightarrow> is_directory e"
  by (cases "de_type e") (simp_all add: is_file_def is_directory_def)

lemma file_in_mono: "file_in h B e c \<Longrightarrow> B \<subseteq> B' \<Longrightarrow> file_in h B' e c"
  by (auto simp: file_in_def Let_def)

lemma dir_in_mono: "dir_in h B e d \<Longrightarrow> B \<subseteq> B' \<Longrightarrow> dir_in h B' e d"
  by (auto simp: dir_in_def)

lemma tree_in_mono: "tree_in h B d \<Longrightarrow> B \<subseteq> B' \<Longrightarrow> tree_in h B' d"
proof (induction rule: tree_in.induct)
  case (tree d)
  show ?case
    by (rule tree_in.tree) (use tree file_in_mono dir_in_mono in blast)+
qed

lemma file_at_mono: "file_at h B d ns c \<Longrightarrow> B \<subseteq> B' \<Longrightarrow> file_at h B' d ns c"
  by (induction rule: file_at.induct) (auto intro: file_at.intros file_in_mono dir_in_mono)

lemma tree_in_empty: "b < 2 ^ 64 \<Longrightarrow> tree_in h B (DirectoryNode_new_empty b)"
  by (rule tree_in.tree) (simp_all add: good_dir_empty, simp_all add: DirectoryNode_new_empty_def)

lemma file_at_empty: "\<not> file_at h B (DirectoryNode_new_empty b) ns c"
  by (auto simp: DirectoryNode_new_empty_def elim: file_at.cases)

text \<open>When no two blobs have the same identifier, an entry leads to one file or directory.\<close>

lemma dir_in_unique:
  assumes "inj_on (compute_cid h) B" "dir_in h B e d" "dir_in h B e d'" "good_dir d" "good_dir d'" shows "d = d'"
proof -
  have "dir_to_blob d = dir_to_blob d'" using assms(2,3) by (intro inj_onD [OF assms(1)]) (simp_all add: dir_in_def)
  then show ?thesis using dir_blob(1) assms(4,5) by (metis good_dir_iff Inr_inject)
qed

lemma file_in_unique:
  assumes "inj_on (compute_cid h) B" "file_in h B e x" "file_in h B e y" shows "x = y"
proof -
  have "manifest_to_blob (fs_manifest (ct_stat x)) = manifest_to_blob (fs_manifest (ct_stat y))"
    using assms(2,3) by (intro inj_onD [OF assms(1)]) (simp_all add: file_in_def Let_def)
  then have "fs_manifest (ct_stat x) = fs_manifest (ct_stat y)"
    using manifest_blob(1) assms(2,3) unfolding file_in_def Let_def by (metis Inr_inject)
  moreover from this have "ct_data x = ct_data y"
  proof (cases "ct_data x = []")
    case True
    then show ?thesis using assms(2,3) calculation by (simp add: file_in_def Let_def)
  next
    case False
    then have "ct_data y \<noteq> []" using assms(2,3) calculation by (auto simp: file_in_def Let_def)
    with False show ?thesis using assms(2,3) calculation by (intro inj_onD [OF assms(1)]) (simp_all add: file_in_def Let_def)
  qed
  ultimately show ?thesis using assms(2,3) by (intro FileContent.equality FileStat.equality) (simp_all add: file_in_def Let_def)
qed

lemma file_in_kind: "file_in h B e c \<Longrightarrow> is_file e" "dir_in h B e d \<Longrightarrow> is_directory e" "is_file e \<Longrightarrow> \<not> is_directory e"
  by (auto simp: file_in_def dir_in_def Let_def is_file_def is_directory_def)

lemma file_at_step:
  assumes "inj_on (compute_cid h) B" "dir_map d n = Some e" "dir_in h B e d'" "good_dir d'" "ns \<noteq> []"
  shows "file_at h B d (n # ns) c \<longleftrightarrow> file_at h B d' ns c"
proof
  assume "file_at h B d (n # ns) c"
  then show "file_at h B d' ns c" using assms(2,5) dir_in_unique [OF assms(1) _ assms(3) _ assms(4)] by (auto elim!: file_at_ConsE)
qed (rule file_at.below [OF assms(2-4)])

lemma file_at_single: "file_at h B d [n] c \<longleftrightarrow> (\<exists>e. dir_map d n = Some e \<and> file_in h B e c)"
  by (auto elim!: file_at_ConsE file_at_NilE intro: file_at.here)

lemma entries_mem: "sorted_wrt (<) (map de_name es) \<Longrightarrow> e \<in> set es \<Longrightarrow> entries es (de_name e) = Some e"
  by (induction es) auto

text \<open>What an entry needs for the tree to be readable, and the file below it.\<close>

definition entry_in :: "(byte list \<Rightarrow> H256) \<Rightarrow> byte list set \<Rightarrow> DirectoryEntry \<Rightarrow> bool" where
  "entry_in h B e \<longleftrightarrow> (is_file e \<longrightarrow> (\<exists>c. file_in h B e c)) \<and> (is_directory e \<longrightarrow> (\<exists>d. dir_in h B e d \<and> tree_in h B d))"

definition entry_at :: "(byte list \<Rightarrow> H256) \<Rightarrow> byte list set \<Rightarrow> DirectoryEntry \<Rightarrow> byte list list \<Rightarrow> FileContent \<Rightarrow> bool" where
  "entry_at h B e ns c \<longleftrightarrow> (if ns = [] then file_in h B e c else \<exists>d. dir_in h B e d \<and> good_dir d \<and> file_at h B d ns c)"

lemma tree_in_iff: "tree_in h B d \<longleftrightarrow> good_dir d \<and> (\<forall>n e. dir_map d n = Some e \<longrightarrow> entry_in h B e)"
proof
  assume "tree_in h B d"
  then show "good_dir d \<and> (\<forall>n e. dir_map d n = Some e \<longrightarrow> entry_in h B e)" using tree_inD unfolding entry_in_def by metis
next
  assume d: "good_dir d \<and> (\<forall>n e. dir_map d n = Some e \<longrightarrow> entry_in h B e)"
  then have "entry_in h B e" if "e \<in> set (dn_children d)" for e using entries_mem that unfolding good_dir_def sorted_dir_def by blast
  then show "tree_in h B d" using d unfolding entry_in_def by (intro tree_in.tree) auto
qed

lemma file_at_iff: "file_at h B d ns c \<longleftrightarrow> (\<exists>n r e. ns = n # r \<and> dir_map d n = Some e \<and> entry_at h B e r c)"
proof
  assume "file_at h B d ns c"
  then show "\<exists>n r e. ns = n # r \<and> dir_map d n = Some e \<and> entry_at h B e r c"
  proof cases
    case (below n e d' r)
    then have "r \<noteq> []" by (auto elim: file_at_NilE)
    with below show ?thesis by (auto simp: entry_at_def)
  qed (auto simp: entry_at_def)
qed (auto simp: entry_at_def intro: file_at.intros split: if_splits)

text \<open>Replacing one entry.\<close>

lemma tree_in_upd:
  assumes "tree_in h B d" "good_dir d'" "dir_map d' = (dir_map d)(n := x)" "case x of None \<Rightarrow> True | Some e \<Rightarrow> entry_in h B e"
  shows "tree_in h B d'"
  using assms by (auto simp: tree_in_iff split: option.splits)

lemma file_at_upd:
  assumes "dir_map d' = (dir_map d)(n := x)"
  shows "file_at h B d' ns c \<longleftrightarrow> (if ns \<noteq> [] \<and> hd ns = n then (case x of None \<Rightarrow> False | Some e \<Rightarrow> entry_at h B e (tl ns) c) else file_at h B d ns c)"
  using assms by (cases ns) (auto simp: file_at_iff split: option.splits)

lemma entry_at_dir:
  assumes "inj_on (compute_cid h) B" "dir_in h B e d" "good_dir d" shows "entry_at h B e ns c \<longleftrightarrow> file_at h B d ns c"
proof (cases "ns = []")
  case True
  moreover have "\<not> file_in h B e c" using file_in_kind assms(2) by metis
  ultimately show ?thesis by (auto simp: entry_at_def elim: file_at_NilE)
next
  case False
  then show ?thesis using dir_in_unique [OF assms(1,2) _ assms(3)] assms(2,3) unfolding entry_at_def by metis
qed

lemma file_at_grow:
  assumes "inj_on (compute_cid h) B'" "B \<subseteq> B'"
  shows "tree_in h B d \<Longrightarrow> file_at h B' d ns c \<longleftrightarrow> file_at h B d ns c"
proof
  show "file_at h B d ns c" if "file_at h B' d ns c" "tree_in h B d" using that
  proof (induction rule: file_at.induct)
    case (here d n e c)
    then obtain x where "file_in h B e x" using tree_inD(4) file_in_kind(1) by metis
    with here file_in_unique [OF assms(1), of e x c] file_in_mono [OF _ assms(2)] show ?case by (auto intro: file_at.here)
  next
    case (below d n e d' ns c)
    then obtain x where x: "dir_in h B e x" "tree_in h B x" using tree_inD(5) file_in_kind(2) by metis
    with below dir_in_unique [OF assms(1), of e x d'] dir_in_mono [OF _ assms(2)] tree_inD(1) have "x = d'" by metis
    then show ?case using x below.IH below.hyps by (auto intro: file_at.below)
  qed
qed (rule file_at_mono [OF _ assms(2)])

section \<open>Chains of directories\<close>

text \<open>The largest blob a provider can serve in one read: 512 GiB.\<close>

definition MAX_BLOB :: nat where
  "MAX_BLOB = 2 ^ 21 * DEFAULT_CHUNK_SIZE"

text \<open>\<open>chain\<close> are the directories along \<open>names\<close>; with \<open>create\<close>, missing ones are new.\<close>

fun links :: "(byte list \<Rightarrow> H256) \<Rightarrow> byte list set \<Rightarrow> BucketId \<Rightarrow> bool \<Rightarrow> byte list list \<Rightarrow> DirectoryNode list \<Rightarrow> bool" where
  "links h B b create [] [d] = tree_in h B d"
| "links h B b create (n # ns) (d # d' # ds) =
     (tree_in h B d \<and> (case dir_map d n of Some e \<Rightarrow> dir_in h B e d' | None \<Rightarrow> create \<and> d' = DirectoryNode_new_empty b) \<and> links h B b create ns (d' # ds))"
| "links h B b create _ _ = False"

lemma links_length: "links h B b create ns ds \<Longrightarrow> length ds = Suc (length ns)"
  by (induction h B b create ns ds rule: links.induct) auto

lemma links_mono: "links h B b create ns ds \<Longrightarrow> B \<subseteq> B' \<Longrightarrow> links h B' b create ns ds"
  by (induction h B b create ns ds rule: links.induct) (auto intro: tree_in_mono dir_in_mono split: option.splits)

lemma links_tree: "links h B b create ns ds \<Longrightarrow> d \<in> set ds \<Longrightarrow> tree_in h B d"
  by (induction h B b create ns ds rule: links.induct) auto

lemma links_last:
  assumes "links h B b create ns ds" shows "ds ! length ns = last ds" "ds[length ns := x] = butlast ds @ [x]"
proof -
  have "ds \<noteq> []" "length ns = length ds - 1" using links_length [OF assms] by auto
  then show "ds ! length ns = last ds" "ds[length ns := x] = butlast ds @ [x]" by (simp_all add: last_conv_nth list_update_append1 butlast_conv_take upd_conv_take_nth_drop)
qed

lemma links_hd: "links h B b create ns (d # ds) \<Longrightarrow> tree_in h B d"
  using links_tree by fastforce

lemma links_step:
  assumes "inj_on (compute_cid h) B" "links h B b create (n # ns) (d # d' # ds)"
  shows "file_at h B d (n # r) c \<longleftrightarrow> file_at h B d' r c"
proof (cases "dir_map d n")
  case None
  then show ?thesis using assms(2) file_at_empty by (auto simp: file_at_iff [of _ _ d])
next
  case (Some e)
  then have "dir_in h B e d'" "links h B b create ns (d' # ds)" using assms(2) by simp_all
  moreover from this(2) have "good_dir d'" by (intro tree_inD(1) links_hd)
  ultimately show ?thesis using entry_at_dir [OF assms(1)] Some by (auto simp: file_at_iff [of _ _ d])
qed

lemma links_file_at:
  "inj_on (compute_cid h) B \<Longrightarrow> links h B b create ns ds \<Longrightarrow> file_at h B (hd ds) (ns @ r) c \<longleftrightarrow> file_at h B (last ds) r c"
proof (induction h B b create ns ds rule: links.induct)
  case (2 h B b create n ns d d' ds)
  then show ?case using links_step [OF "2.prems"] by simp
qed auto

lemma links_exist:
  "file_at h B d ns c \<Longrightarrow> tree_in h B d \<Longrightarrow> inj_on (compute_cid h) B \<Longrightarrow> \<exists>ds. links h B b create (butlast ns) (d # ds)"
proof (induction rule: file_at.induct)
  case (here d n e c)
  then show ?case by (intro exI [of _ "[]"]) simp
next
  case (below d n e d' ns c)
  obtain d1 where "dir_in h B e d1" "tree_in h B d1"
    using tree_inD(5) [OF below.prems(1) below.hyps(1)] below.hyps(2) file_in_kind(2) by metis
  moreover from this have "d1 = d'" using dir_in_unique [OF below.prems(2)] below.hyps(2,3) tree_inD(1) by metis
  ultimately obtain ds where "links h B b create (butlast ns) (d' # ds)" using below.IH below.prems(2) by metis
  moreover have "ns \<noteq> []" using below.hyps(4) by (auto elim: file_at_NilE)
  ultimately show ?case using below by (intro exI [of _ "d' # ds"]) simp
qed

text \<open>The rewriting of a chain, recursively.\<close>

fun rebuild :: "('m, 's) Tree \<Rightarrow> byte list \<Rightarrow> nat \<Rightarrow> byte list list \<Rightarrow> DirectoryNode list \<Rightarrow> FsClientError + byte list list \<times> DirectoryNode list" where
  "rebuild T path mtime (n # ns) (d # ds) =
     attempt (rebuild T path mtime ns ds) (\<lambda>(encoded, es).
     attempt (format_error path (DirectoryEntry_try_new n Directory (compute_cid (tr_hash T) (dir_to_blob (hd es))) 0 mtime)) (\<lambda>entry.
     attempt (format_error path (upsert_child entry d)) (\<lambda>d'.
     Inr (encoded @ [dir_to_blob (hd es)], d' # es))))"
| "rebuild T path mtime _ ds = Inr ([], ds)"

lemma rebuild_length: "rebuild T path t ns ds = Inr (enc, es) \<Longrightarrow> length es = length ds"
  by (induction T path t ns ds arbitrary: enc es rule: rebuild.induct) (auto simp: result_simps)

lemma attempt_assoc: "attempt (attempt r f) g = attempt r (\<lambda>x. attempt (f x) g)"
  by (cases r) simp_all

lemma rewrite_loop_append:
  "rewrite_loop T names path t (is @ js) chain = attempt (rewrite_loop T names path t is chain) (\<lambda>(enc, chain).
     attempt (rewrite_loop T names path t js chain) (\<lambda>(enc', chain). Inr (enc @ enc', chain)))"
proof (induction "is" arbitrary: chain)
  case Nil
  show ?case by (cases "rewrite_loop T names path t js chain") auto
next
  case (Cons i "is")
  then show ?case by (simp add: attempt_assoc Let_def case_prod_beta comp_def)
qed

lemma rewrite_loop_rebuild:
  "length ds = Suc (length ns) \<Longrightarrow> length cs = length pre \<Longrightarrow>
     rewrite_loop T (pre @ ns) path t (rev [length pre..<length pre + length ns]) (cs @ ds) =
     attempt (rebuild T path t ns ds) (\<lambda>(enc, es). Inr (enc, cs @ es))"
proof (induction ns arbitrary: pre cs ds)
  case (Cons n ns)
  then obtain d ds' where ds: "ds = d # ds'" by (cases ds) auto
  have idx: "rev [length pre..<length pre + length (n # ns)] = rev [length (pre @ [n])..<length (pre @ [n]) + length ns] @ [length pre]"
    by (simp add: upt_conv_Cons del: upt_Suc)
  have last: "rewrite_loop T (pre @ n # ns) path t [length pre] (cs @ d # es) =
      attempt (format_error path (DirectoryEntry_try_new n Directory (compute_cid (tr_hash T) (dir_to_blob (hd es))) 0 t)) (\<lambda>entry.
      attempt (format_error path (upsert_child entry d)) (\<lambda>d'. Inr ([dir_to_blob (hd es)], cs @ d' # es)))" if "es \<noteq> []" for es
    using that Cons.prems(2) by (simp add: Let_def nth_append list_update_append hd_conv_nth Suc_diff_Suc)
  have IH: "rewrite_loop T (pre @ n # ns) path t (rev [length (pre @ [n])..<length (pre @ [n]) + length ns]) (cs @ ds) =
      attempt (rebuild T path t ns ds') (\<lambda>(enc, es). Inr (enc, cs @ d # es))"
    using Cons.IH [of ds' "cs @ [d]" "pre @ [n]"] Cons.prems by (simp add: ds)
  show ?case
  proof (cases "rebuild T path t ns ds'")
    case (Inr r)
    obtain enc es where r: "r = (enc, es)" by (cases r)
    have "es \<noteq> []" using rebuild_length Inr r Cons.prems(1) ds by fastforce
    from last [OF this] show ?thesis unfolding idx rewrite_loop_append IH
      by (simp add: Inr r ds attempt_assoc)
  next
    case (Inl e)
    then show ?thesis unfolding idx rewrite_loop_append IH by (simp add: ds)
  qed
qed simp


lemma rewrite_rebuild:
  "length chain = Suc (length names) \<Longrightarrow>
     rewrite T chain names path t = attempt (rebuild T path t names chain) (\<lambda>(enc, es). Inr (enc, dir_to_blob (hd es)))"
  using rewrite_loop_rebuild [of chain names "[]" "[]" T path t] rebuild_length [of T path t names chain]
  by (cases "rebuild T path t names chain") (auto simp: rewrite_def rewrite_below_def intro!: arg_cong [of _ _ dir_to_blob] hd_conv_nth [symmetric])

lemma rebuild_Cons:
  assumes "rebuild T path t (n # ns) (d # ds) = Inr (enc, es)" "t < 2 ^ 64" "good_dir d"
  obtains enc' es' e d' where "rebuild T path t ns ds = Inr (enc', es')" "enc = enc' @ [dir_to_blob (hd es')]" "es = d' # es'"
    "is_directory e" "de_cid e = compute_cid (tr_hash T) (dir_to_blob (hd es'))"
    "good_dir d'" "dir_map d' = (dir_map d)(n \<mapsto> e)" "dn_bucket_id d' = dn_bucket_id d"
proof -
  obtain enc' es' e d' where *: "rebuild T path t ns ds = Inr (enc', es')" "enc = enc' @ [dir_to_blob (hd es')]" "es = d' # es'"
    "DirectoryEntry_try_new n Directory (compute_cid (tr_hash T) (dir_to_blob (hd es'))) 0 t = Inr e" "upsert_child e d = Inr d'"
    using assms(1) by (auto simp: result_simps)
  note e = good_entry_new [OF *(4) _ assms(2)]
  have n: "good_entry e" using e(1) by simp
  have eq: "e = \<lparr>de_name = n, de_type = Directory, de_cid = compute_cid (tr_hash T) (dir_to_blob (hd es')), de_size = 0, de_mtime = t\<rparr>"
    using e(2) by simp
  from upsert_child_good [OF assms(3) n *(5)] show thesis
    by (intro that [OF *(1-3), of e]) (simp_all add: eq is_directory_def)
qed

lemma rebuild_good:
  assumes "t < 2 ^ 64"
  shows "rebuild T path t ns ds = Inr (enc, es) \<Longrightarrow> length ds = Suc (length ns) \<Longrightarrow> \<forall>d\<in>set ds. good_dir d \<Longrightarrow>
    (\<forall>x\<in>set enc. \<exists>d. good_dir d \<and> x = dir_to_blob d) \<and> (\<forall>d\<in>set es. good_dir d)"
proof (induction ns arbitrary: ds enc es)
  case (Cons n ns)
  then obtain d rest where ds: "ds = d # rest" "good_dir d" by (cases ds) auto
  obtain enc' es' e d' where r: "rebuild T path t ns rest = Inr (enc', es')" "enc = enc' @ [dir_to_blob (hd es')]" "es = d' # es'" "good_dir d'"
    by (rule rebuild_Cons [OF Cons.prems(1) [unfolded ds(1)] assms ds(2)])
  have IH: "\<forall>x\<in>set enc'. \<exists>d. good_dir d \<and> x = dir_to_blob d" "\<forall>d\<in>set es'. good_dir d"
    using Cons.IH [OF r(1)] Cons.prems ds(1) by auto
  have "es' \<noteq> []" using rebuild_length [OF r(1)] Cons.prems(2) ds(1) by auto
  then have "good_dir (hd es')" using IH(2) by simp
  with IH r show ?case by auto
qed simp

lemma dir_blob_size: "good_dir d \<Longrightarrow> dir_to_blob d \<noteq> [] \<and> length (dir_to_blob d) \<le> MAX_BLOB"
  using dir_blob(2) [of d] by (simp add: good_dir_iff max_blob_lens MAX_BLOB_def DEFAULT_CHUNK_SIZE_def) (simp add: dir_to_blob_def to_blob_def)

lemma data_size:
  assumes "wf_manifest mf" "manifest_validate mf = Inr ()" shows "fm_total_size mf \<le> MAX_BLOB"
proof -
  have "div_ceil (fm_total_size mf) DEFAULT_CHUNK_SIZE \<le> MaxFileChunks" using assms by (auto simp: wf_manifest_def manifest_validate_def result_simps)
  then have "fm_total_size mf \<le> MaxFileChunks * DEFAULT_CHUNK_SIZE" by (subst (asm) div_ceil_le_iff) simp_all
  then show ?thesis by (simp add: MAX_BLOB_def MaxFileChunks_def DEFAULT_CHUNK_SIZE_def)
qed

lemma manifest_blob_size: "wf_manifest mf \<Longrightarrow> manifest_to_blob mf \<noteq> [] \<and> length (manifest_to_blob mf) \<le> MAX_BLOB"
  using manifest_blob(2) [of mf] by (simp add: max_blob_lens MAX_BLOB_def DEFAULT_CHUNK_SIZE_def) (simp add: manifest_to_blob_def to_blob_def)

text \<open>
  Rewriting a chain whose last directory was replaced by \<open>new\<close>: the tree is readable again, and
  its files are those of \<open>new\<close> below the chain's path and the old ones elsewhere.
\<close>

definition spliced :: "byte list list \<Rightarrow> (byte list list \<Rightarrow> 'c \<Rightarrow> bool) \<Rightarrow> (byte list list \<Rightarrow> 'c \<Rightarrow> bool) \<Rightarrow> byte list list \<Rightarrow> 'c \<Rightarrow> bool" where
  "spliced names new old ns = (if take (length names) ns = names then new (drop (length names) ns) else old ns)"

lemma spliced_simps: "spliced [] new old ns = new ns"
  "spliced (n # names) new old ns c \<longleftrightarrow> (if ns \<noteq> [] \<and> hd ns = n then spliced names new (\<lambda>r. old (n # r)) (tl ns) c else old ns c)"
  by (simp add: spliced_def, cases ns) (auto simp: spliced_def)

lemma rebuild_spec:
  assumes "inj_on (compute_cid (tr_hash T)) B" "t < 2 ^ 64" "b < 2 ^ 64" "tree_in (tr_hash T) B new"
  shows "links (tr_hash T) B b create names ds \<Longrightarrow> rebuild T path t names (butlast ds @ [new]) = Inr (enc, es) \<Longrightarrow> set enc \<subseteq> B \<Longrightarrow>
    links (tr_hash T) B b False names es \<and> last es = new \<and> dn_bucket_id (hd es) = dn_bucket_id (if names = [] then new else hd ds) \<and>
    file_at (tr_hash T) B (hd es) = spliced names (file_at (tr_hash T) B new) (file_at (tr_hash T) B (hd ds))"
proof (induction names arbitrary: ds enc es)
  case Nil
  then have "length ds = 1" by (auto dest: links_length)
  then have "butlast ds = []" by (cases ds) auto
  with Nil.prems assms(4) show ?case by (auto simp: fun_eq_iff spliced_simps)
next
  case (Cons n names)
  let ?h = "tr_hash T"
  obtain d d' rest where ds: "ds = d # d' # rest" using Cons.prems(1) by (cases ds; cases "tl ds") auto
  then have d: "tree_in ?h B d" "links ?h B b create names (d' # rest)"
    "case dir_map d n of Some e \<Rightarrow> dir_in ?h B e d' | None \<Rightarrow> d' = DirectoryNode_new_empty b"
    using Cons.prems(1) by (auto split: option.splits)
  have "rebuild T path t (n # names) (d # butlast (d' # rest) @ [new]) = Inr (enc, es)" using Cons.prems(2) ds by simp
  then obtain enc' es' e d1 where r: "rebuild T path t names (butlast (d' # rest) @ [new]) = Inr (enc', es')" "enc = enc' @ [dir_to_blob (hd es')]"
    "es = d1 # es'" "is_directory e" "de_cid e = compute_cid ?h (dir_to_blob (hd es'))"
    "good_dir d1" "dir_map d1 = (dir_map d)(n \<mapsto> e)" "dn_bucket_id d1 = dn_bucket_id d"
    by (rule rebuild_Cons [OF _ assms(2) tree_inD(1) [OF d(1)]])
  have L: "links ?h B b False names es'" "last es' = new" and F: "file_at ?h B (hd es') = spliced names (file_at ?h B new) (file_at ?h B d')"
    using Cons.IH [OF d(2) r(1)] Cons.prems(3) r(2) by auto
  obtain d2 es2 where es': "es' = d2 # es2" using links_length [OF L(1)] by (cases es') auto
  have IH: "tree_in ?h B (hd es')" using links_hd L(1) es' by simp
  have e: "dir_in ?h B e (hd es')" using r(2,4,5) Cons.prems(3) by (simp add: dir_in_def)
  have "entry_in ?h B e" using e IH r(4) file_in_kind(3) unfolding entry_in_def by blast
  then have tree: "tree_in ?h B d1" using tree_in_upd [OF d(1) r(6,7)] by simp
  have old: "file_at ?h B d (n # ns) c \<longleftrightarrow> file_at ?h B d' ns c" for ns c
    by (rule links_step [OF assms(1) Cons.prems(1) [unfolded ds]])
  have "file_at ?h B d1 ns c \<longleftrightarrow> spliced (n # names) (file_at ?h B new) (file_at ?h B d) ns c" for ns c
    unfolding file_at_upd [OF r(7)] spliced_simps old
    using entry_at_dir [OF assms(1) e tree_inD(1) [OF IH]] F by simp
  moreover have "links ?h B b False (n # names) es" using tree L(1) e r(3,7) es' by simp
  ultimately show ?case using r(3,8) L(2) es' by (simp add: ds fun_eq_iff)
qed


text \<open>Replacing the entry \<open>name\<close> of the directory at the end of a chain.\<close>

lemma spliced_entry:
  assumes B: "inj_on (compute_cid h) B'" "B \<subseteq> B'" and chain: "links h B b create parents ds" "dir_map p = (dir_map (last ds))(name := x)"
  shows "spliced parents (file_at h B' p) (file_at h B (hd ds)) ns c \<longleftrightarrow>
    (if take (length (parents @ [name])) ns = parents @ [name]
     then (case x of None \<Rightarrow> False | Some e \<Rightarrow> entry_at h B' e (drop (length (parents @ [name])) ns) c) else file_at h B (hd ds) ns c)"
proof (cases "take (length parents) ns = parents")
  case False
  then have "take (length (parents @ [name])) ns \<noteq> parents @ [name]" by (auto dest: arg_cong [of _ _ "take (length parents)"] simp: min_def)
  with False show ?thesis by (simp add: spliced_def)
next
  case True
  then obtain r where ns: "ns = parents @ r" by (metis append_take_drop_id)
  have "last ds \<in> set ds" using links_length [OF chain(1)] by (intro last_in_set) auto
  then have P: "tree_in h B (last ds)" by (rule links_tree [OF chain(1)])
  have "file_at h B' (last ds) r c \<longleftrightarrow> file_at h B (hd ds) ns c"
    using links_file_at [OF inj_on_subset [OF B] chain(1)] file_at_grow [OF B P] ns by simp
  then show ?thesis unfolding spliced_def ns by (cases r) (simp_all add: file_at_upd [OF chain(2)] cong: option.case_cong)
qed

lemma under_entry:
  assumes "inj_on (compute_cid h) B" "links h B b create parents ds"
  shows "file_at h B (hd ds) (parents @ name # r) c \<longleftrightarrow> (\<exists>e. dir_map (last ds) name = Some e \<and> entry_at h B e r c)"
  using links_file_at [OF assms] by (auto simp: file_at_iff [of _ _ "last ds"])

text \<open>Parts and extensions of a chain.\<close>

lemma links_snoc:
  "links h B b True ns ds \<Longrightarrow> dir_map (last ds) n = None \<Longrightarrow> b < 2 ^ 64 \<Longrightarrow> links h B b True (ns @ [n]) (ds @ [DirectoryNode_new_empty b])"
  by (induction h B b True ns ds rule: links.induct) (auto simp: tree_in_empty)

lemma links_take: "links h B b create ns ds \<Longrightarrow> k \<le> length ns \<Longrightarrow> links h B b create (take k ns) (take (Suc k) ds)"
proof (induction h B b create ns ds arbitrary: k rule: links.induct)
  case (2 h B b create n ns d d' ds)
  then show ?case by (cases k) auto
qed auto

text \<open>Dropping the directories a removal leaves empty keeps the files.\<close>

lemma drop_empty_spec:
  assumes B: "inj_on (compute_cid h) B" and chain: "links h B b create parents ds"
  shows "k \<le> length parents \<Longrightarrow> tree_in h B new \<Longrightarrow> \<exists>kept new'. kept \<le> k \<and>
    drop_empty parents k (butlast (take (Suc k) ds) @ [new]) = (kept, butlast (take (Suc kept) ds) @ [new']) \<and> tree_in h B new' \<and>
    spliced (take kept parents) (file_at h B new') (file_at h B (hd ds)) = spliced (take k parents) (file_at h B new) (file_at h B (hd ds)) \<and>
    (kept = 0 \<longrightarrow> dn_bucket_id new' = dn_bucket_id (if k = 0 then new else hd ds))"
proof (induction k arbitrary: new)
  case (Suc k)
  note len = links_length [OF chain]
  have cut: "butlast (take (Suc (Suc k)) ds) = take (Suc k) ds" using Suc.prems(1) len by (simp add: butlast_take)
  have at: "(take (Suc k) ds @ [new]) ! Suc k = new" "take (Suc k) (take (Suc k) ds @ [new]) = take (Suc k) ds" "(take (Suc k) ds @ [new]) ! k = ds ! k"
    using Suc.prems(1) len by (simp_all add: nth_append)
  show ?case
  proof (cases "dn_children new = []")
    case False
    then show ?thesis using Suc.prems at unfolding cut [symmetric] by (intro exI [of _ "Suc k"] exI [of _ new]) (simp add: cut)
  next
    case True
    note part = links_take [OF chain, of k]
    have k: "links h B b create (take k parents) (take (Suc k) ds)" using part Suc.prems(1) by simp
    have ends: "last (take (Suc k) ds) = ds ! k" "hd (take (Suc k) ds) = hd ds" using Suc.prems(1) len by (simp add: take_Suc_conv_app_nth, cases ds) auto
    obtain x r where r: "remove_child (parents ! k) (ds ! k) = (x, r)" by fastforce
    have dk: "tree_in h B (ds ! k)" by (rule links_tree [OF chain]) (use Suc.prems(1) len in simp)
    note R = remove_child_good [OF tree_inD(1) [OF dk] r]
    have tree: "tree_in h B r" by (rule tree_in_upd [OF dk R(1,3)]) simp
    have upd: "(take (Suc k) ds)[k := r] = butlast (take (Suc k) ds) @ [r]" using links_last(2) [OF k, of r] Suc.prems(1) by simp
    have step: "drop_empty parents (Suc k) (butlast (take (Suc (Suc k)) ds) @ [new]) = drop_empty parents k (butlast (take (Suc k) ds) @ [r])"
      unfolding cut drop_empty.simps at Let_def using True r by (simp add: upd)
    have names: "take (Suc k) parents = take k parents @ [parents ! k]" using Suc.prems(1) by (simp add: take_Suc_conv_app_nth)
    have "spliced (take k parents) (file_at h B r) (file_at h B (hd ds)) ns c \<longleftrightarrow> spliced (take (Suc k) parents) (file_at h B new) (file_at h B (hd ds)) ns c" for ns c
      using spliced_entry [OF B subset_refl k, of r "parents ! k" None, unfolded ends, OF R(3)] True
      unfolding names by (auto simp: spliced_def file_at_iff [of _ _ new])
    moreover have "dn_bucket_id (if k = 0 then r else hd ds) = dn_bucket_id (hd ds)" using R(4) len by (cases ds) auto
    ultimately show ?thesis using Suc.IH [OF _ tree] Suc.prems(1) unfolding step by (fastforce simp: fun_eq_iff)
  qed
qed (auto intro!: exI [of _ new])

section \<open>The contract of a store\<close>

text \<open>
  A store in a state that is \<open>ok\<close> has been \<open>sent\<close> some blobs and can read back the \<open>blobs\<close> it has
  committed, and \<open>room\<close> more leaves fit in the bucket's range. \<open>S\<close> are the strings hashed for
  anything it holds. A read asks for at most 512 GiB.
\<close>

locale blob_store =
  fixes T :: "('m, 's) Tree" and S :: "byte list set" and ok :: "'s \<Rightarrow> bool" and sent blobs :: "'s \<Rightarrow> byte list set"
    and leaf :: "'s \<Rightarrow> Cid option" and room :: "'s \<Rightarrow> nat"
  assumes bounds: "ok s \<Longrightarrow> tr_bucket_id T < 2 ^ 64" "ok s \<Longrightarrow> tr_now T i < 2 ^ 64"
    and free: "ok s \<Longrightarrow> \<not> collision_among (tr_hash T) S"
    and held: "ok s \<Longrightarrow> d \<in> blobs s \<Longrightarrow> d \<noteq> [] \<and> cid_strings (tr_hash T) d \<subseteq> S"
    and put: "ok s \<Longrightarrow> cid_strings (tr_hash T) d \<subseteq> S \<Longrightarrow> d \<noteq> [] \<Longrightarrow> length d \<le> MAX_BLOB \<Longrightarrow>
      \<exists>s'. put_blob (tr_store T) (tr_bucket_id T) d s = (Inr (compute_cid (tr_hash T) d), s') \<and> ok s' \<and>
        insert d (sent s) \<subseteq> sent s' \<and> blobs s \<subseteq> blobs s' \<and> leaf s' = leaf s \<and> room s' = room s"
    and commit: "ok s \<Longrightarrow> D \<subseteq> sent s \<Longrightarrow> cids \<noteq> [] \<Longrightarrow> set cids = compute_cid (tr_hash T) ` D \<Longrightarrow> length cids \<le> room s \<Longrightarrow>
      \<exists>s'. bs_commit (tr_store T) (tr_bucket_id T) cids s = (Inr (), s') \<and> ok s' \<and>
        blobs s \<union> D \<subseteq> blobs s' \<and> leaf s' = Some (last cids) \<and> room s' = room s - length cids"
    and get: "ok s \<Longrightarrow> d \<in> blobs s \<Longrightarrow> (case len of Exact n \<Rightarrow> length d = n | AtMost n \<Rightarrow> length d \<le> n) \<Longrightarrow>
      get_blob (tr_store T) (tr_bucket_id T) (compute_cid (tr_hash T) d) len s = (Inr d, s)"
    and leaf: "ok s \<Longrightarrow> last_leaf T s = (Inr (leaf s), s)"

lemma first_each_set: "set (first_each seen cs) = set cs - set seen"
  by (induction seen cs rule: first_each.induct) auto

lemma first_each_length: "length (first_each seen cs) \<le> length cs"
  by (induction seen cs rule: first_each.induct) auto

lemma commit_order_spec:
  "set (commit_order (cs @ [c])) = set (cs @ [c])" "last (commit_order (cs @ [c])) = c" "commit_order (cs @ [c]) \<noteq> []"
  "length (commit_order (cs @ [c])) \<le> length cs + 1"
  using first_each_length [of "[c]" cs] by (auto simp: commit_order_def first_each_set)

context blob_store
begin

abbreviation cid :: "byte list \<Rightarrow> Cid" where
  "cid \<equiv> compute_cid (tr_hash T)"

lemma cids_inj:
  assumes "ok s" shows "inj_on cid {d. d \<noteq> [] \<and> cid_strings (tr_hash T) d \<subseteq> S}"
  using cid_binds [OF free [OF assms]] by (auto intro: inj_onI)

lemma blobs_inj: "ok s \<Longrightarrow> inj_on cid (blobs s)"
  by (rule inj_on_subset [OF cids_inj]) (auto dest: held)

lemma upload_blobs_ok:
  assumes "\<forall>d\<in>set ds. d \<noteq> [] \<and> cid_strings (tr_hash T) d \<subseteq> S \<and> length d \<le> MAX_BLOB"
  shows "ok s \<Longrightarrow> E \<subseteq> sent s \<Longrightarrow> \<forall>d\<in>E. d \<noteq> [] \<and> cid_strings (tr_hash T) d \<subseteq> S \<Longrightarrow> set uploaded = cid ` E \<Longrightarrow>
    \<exists>s'. upload_blobs T uploaded ds s = (Inr (), s') \<and> ok s' \<and> E \<union> set ds \<subseteq> sent s' \<and> blobs s \<subseteq> blobs s' \<and> leaf s' = leaf s \<and> room s' = room s"
  using assms
proof (induction ds arbitrary: s E uploaded)
  case (Cons d ds)
  show ?case
  proof (cases "cid d \<in> set uploaded")
    case True
    then obtain e where e: "e \<in> E" "cid e = cid d" using Cons.prems(4) by auto
    then have "e = d" using Cons.prems(3,5) by (intro inj_onD [OF cids_inj [OF Cons.prems(1)]]) auto
    then have "E \<union> set (d # ds) = E \<union> set ds" using e(1) by auto
    then show ?thesis using True Cons.IH [OF Cons.prems(1-4)] Cons.prems(5) by simp
  next
    case False
    obtain s1 where s1: "put_blob (tr_store T) (tr_bucket_id T) d s = (Inr (cid d), s1)" "ok s1"
      "insert d (sent s) \<subseteq> sent s1" "blobs s \<subseteq> blobs s1" "leaf s1 = leaf s" "room s1 = room s"
      using put [OF Cons.prems(1), of d] Cons.prems(5) by auto
    have "\<exists>s'. upload_blobs T (cid d # uploaded) ds s1 = (Inr (), s') \<and> ok s' \<and> insert d E \<union> set ds \<subseteq> sent s' \<and> blobs s1 \<subseteq> blobs s' \<and>
        leaf s' = leaf s1 \<and> room s' = room s1"
      using Cons.prems s1(3) by (intro Cons.IH [OF s1(2)]) auto
    then show ?thesis using False s1 by auto
  qed
qed auto

lemma tree_write_ok:
  assumes "ok s" "\<forall>d\<in>set (ds @ [r]). d \<noteq> [] \<and> cid_strings (tr_hash T) d \<subseteq> S \<and> length d \<le> MAX_BLOB" "length ds < room s"
  obtains s' where "tree_write T ds r s = (Inr (cid r), s')" "ok s'" "blobs s \<union> set (ds @ [r]) \<subseteq> blobs s'" "leaf s' = Some (cid r)"
    "room s \<le> room s' + Suc (length ds)"
proof -
  obtain s1 where s1: "upload_blobs T [] (ds @ [r]) s = (Inr (), s1)" "ok s1" "set (ds @ [r]) \<subseteq> sent s1" "blobs s \<subseteq> blobs s1"
      "leaf s1 = leaf s" "room s1 = room s"
    using upload_blobs_ok [OF assms(2,1), of "{}" "[]"] by auto
  note order = commit_order_spec [of "map cid ds" "cid r"]
  obtain s2 where "bs_commit (tr_store T) (tr_bucket_id T) (commit_order (map cid ds @ [cid r])) s1 = (Inr (), s2)" "ok s2"
    "blobs s1 \<union> set (ds @ [r]) \<subseteq> blobs s2" "leaf s2 = Some (cid r)" "room s2 = room s - length (commit_order (map cid ds @ [cid r]))"
    using commit [OF s1(2,3) order(3)] order assms(3) s1(6) by auto
  then show thesis using s1 order(4) by (intro that [of s2]) (auto simp: tree_write_def Let_def)
qed

lemma read_blob_ok:
  assumes "ok s" "d \<in> blobs s" "case len of Exact n \<Rightarrow> length d = n | AtMost n \<Rightarrow> length d \<le> n"
  shows "read_blob T path (cid d) len s = (Inr d, s)"
  using get [OF assms] assms(3) by (simp add: read_blob_def check_cid_def ensure_def)

lemma read_dir_ok:
  assumes "ok s" "dir_in (tr_hash T) (blobs s) e d" "good_dir d" shows "read_dir T path (de_cid e) s = (Inr d, s)"
  using assms read_blob_ok [OF assms(1), of "dir_to_blob d" "AtMost dir_max_blob_len"] dir_blob [of d]
  by (simp add: read_dir_def dir_in_def good_dir_iff)

lemma read_manifest_ok:
  assumes "ok s" "file_in (tr_hash T) (blobs s) e c" shows "read_manifest T path (de_cid e) s = (Inr (fs_manifest (ct_stat c)), s)"
  using assms read_blob_ok [OF assms(1), of "manifest_to_blob (fs_manifest (ct_stat c))" "AtMost manifest_max_blob_len"]
    manifest_blob [of "fs_manifest (ct_stat c)"]
  by (simp add: read_manifest_def file_in_def Let_def)

lemma load_root_ok:
  assumes "ok s" "root_in (tr_hash T) (blobs s) (tr_bucket_id T) (leaf s) d"
  shows "load_root T s = (Inr \<lparr>ro_cid = leaf s, ro_node = d\<rparr>, s)"
proof (cases "leaf s")
  case None
  then show ?thesis using leaf [OF assms(1)] assms(2) by (simp add: load_root_def root_in_def)
next
  case (Some x)
  have d: "good_dir d" using assms(2) tree_inD(1) by (auto simp: root_in_def)
  then have "wf_dir d" "dir_validate d = Inr ()" by (simp_all add: good_dir_iff)
  moreover have "get_blob (tr_store T) (tr_bucket_id T) x (AtMost dir_max_blob_len) s = (Inr (dir_to_blob d), s)"
    using get [OF assms(1), of "dir_to_blob d" "AtMost dir_max_blob_len"] dir_blob(2) [of d] assms(2) Some calculation(1) by (simp add: root_in_def)
  ultimately show ?thesis using leaf [OF assms(1)] Some assms(2) dir_blob [of d]
    by (simp add: load_root_def root_in_def check_cid_def ensure_def)
qed

lemma extend_links:
  assumes "ok s"
  shows "links (tr_hash T) (blobs s) (tr_bucket_id T) create (drop (length chain) names) (d # tail) \<Longrightarrow>
    extend_loop T names create [length chain..<length names] (chain @ [d]) s = (Inr (chain @ d # tail), s)"
proof (induction tail arbitrary: chain d)
  case Nil
  then have "drop (length chain) names = []" by (auto dest: links_length)
  then show ?case by simp
next
  case (Cons d' tail)
  then obtain n ns where ns: "drop (length chain) names = n # ns" by (cases "drop (length chain) names") auto
  have "length chain < length names" using ns by (metis drop_eq_Nil linorder_not_less list.distinct(1))
  with Cons_nth_drop_Suc [OF this] ns have n: "length chain < length names" "names ! length chain = n" "ns = drop (Suc (length chain)) names" by simp_all
  have l: "tree_in (tr_hash T) (blobs s) d" "links (tr_hash T) (blobs s) (tr_bucket_id T) create ns (d' # tail)"
    "case dir_map d n of Some e \<Rightarrow> dir_in (tr_hash T) (blobs s) e d' | None \<Rightarrow> create \<and> d' = DirectoryNode_new_empty (tr_bucket_id T)"
    using Cons.prems by (simp_all add: ns)
  note found = tree_inD(3) [OF l(1)]
  have "extend_loop T names create [Suc (length chain)..<length names] ((chain @ [d]) @ [d']) s = (Inr ((chain @ [d]) @ d' # tail), s)"
    using Cons.IH [of "chain @ [d]" d'] l(2) n(3) by simp
  then show ?case using l(3) found n read_dir_ok [OF assms _ tree_inD(1) [OF links_hd [OF l(2)]]] file_in_kind(2)
    by (auto simp: upt_conv_Cons Let_def nth_append split: option.splits)
qed

lemma extend_Inr:
  assumes "ok s"
  shows "tree_in (tr_hash T) (blobs s) d \<Longrightarrow> \<exists>r. extend_loop T names create [length chain..<length names] (chain @ [d]) s = (r, s) \<and>
    (\<forall>x. r = Inr x \<longrightarrow> (\<exists>tail. x = chain @ d # tail \<and> links (tr_hash T) (blobs s) (tr_bucket_id T) create (drop (length chain) names) (d # tail)))"
proof (induction "length names - length chain" arbitrary: chain d)
  case 0
  then show ?case by simp
next
  case (Suc k)
  let ?n = "names ! length chain"
  have n: "length chain < length names" "drop (length chain) names = ?n # drop (Suc (length chain)) names" "[length chain..<length names] = length chain # [Suc (length chain)..<length names]"
    using Suc.hyps(2) by (simp_all add: Cons_nth_drop_Suc upt_conv_Cons)
  note find = tree_inD(3) [OF Suc.prems]
  have step: "\<exists>r. extend_loop T names create [Suc (length chain)..<length names] (chain @ [d, d']) s = (r, s) \<and>
      (\<forall>x. r = Inr x \<longrightarrow> (\<exists>tail. x = chain @ d # tail \<and> links (tr_hash T) (blobs s) (tr_bucket_id T) create (drop (length chain) names) (d # tail)))"
    if "tree_in (tr_hash T) (blobs s) d'" "case dir_map d ?n of Some e \<Rightarrow> dir_in (tr_hash T) (blobs s) e d' | None \<Rightarrow> create \<and> d' = DirectoryNode_new_empty (tr_bucket_id T)" for d'
    using Suc.hyps(1) [of "chain @ [d]" d'] Suc.hyps(2) that Suc.prems n(2) by (fastforce simp: Suc_diff_Suc)
  consider e d' where "dir_map d ?n = Some e" "dir_in (tr_hash T) (blobs s) e d'" "tree_in (tr_hash T) (blobs s) d'" | e where "dir_map d ?n = Some e" "\<not> is_directory e" | "dir_map d ?n = None"
    using tree_inD(5) [OF Suc.prems, of ?n] by (cases "dir_map d ?n") auto
  then show ?case
  proof cases
    case (1 e d')
    then have "read_dir T p (de_cid e) s = (Inr d', s)" for p using read_dir_ok [OF assms] tree_inD(1) by blast
    then show ?thesis using step [of d'] 1 n(3) find file_in_kind(2) [OF 1(2)] by (simp add: Let_def nth_append)
  next
    case 3
    then show ?thesis using step [OF tree_in_empty [OF bounds(1) [OF assms]]] n(3) find by (auto simp: Let_def nth_append)
  qed (simp add: n(3) find Let_def nth_append)
qed

abbreviation files :: "'s \<Rightarrow> DirectoryNode \<Rightarrow> byte list list \<Rightarrow> FileContent \<Rightarrow> bool" where
  "files s \<equiv> file_at (tr_hash T) (blobs s)"

abbreviation drive :: "'s \<Rightarrow> DirectoryNode \<Rightarrow> bool" where
  "drive s d \<equiv> ok s \<and> root_in (tr_hash T) (blobs s) (tr_bucket_id T) (leaf s) d"

abbreviation chained :: "'s \<Rightarrow> bool \<Rightarrow> byte list list \<Rightarrow> DirectoryNode list \<Rightarrow> bool" where
  "chained s \<equiv> links (tr_hash T) (blobs s) (tr_bucket_id T)"

lemma driveD:
  assumes "drive s d"
  shows "ok s" "load_root T s = (Inr \<lparr>ro_cid = leaf s, ro_node = d\<rparr>, s)" "tree_in (tr_hash T) (blobs s) d" "inj_on cid (blobs s)"
  using assms load_root_ok blobs_inj by (auto simp: root_in_def)

lemma dir_chain_cases:
  assumes "drive s d"
  obtains (links) ds where "dir_chain T d names create s = (Inr (d # ds), s)" "chained s create names (d # ds)"
  | (error) e where "dir_chain T d names create s = (Inl e, s)" "\<And>ds. \<not> chained s create names (d # ds)"
proof -
  note D = driveD [OF assms]
  obtain r where r: "dir_chain T d names create s = (r, s)" "\<forall>x. r = Inr x \<longrightarrow> (\<exists>ds. x = d # ds \<and> chained s create names (d # ds))"
    using extend_Inr [OF D(1,3), of names create "[]"] by (auto simp: dir_chain_def extend_chain_def)
  show thesis
  proof (cases r)
    case (Inl e)
    then have "\<not> chained s create names (d # ds)" for ds
      using extend_links [OF D(1), of create "[]" names d ds] r(1) by (auto simp: dir_chain_def extend_chain_def)
    then show thesis using error r(1) Inl by blast
  qed (use r links in auto)
qed

lemma get_file_ok:
  assumes "drive s d"
  obtains r where "get_file T path s = (r, s)" "\<And>c. r = Inr c \<longleftrightarrow> (\<exists>names. parse_path path = Inr names \<and> files s d names c)"
proof (cases "parse_path path")
  case (Inl e)
  then show thesis by (intro that [of "Inl e"]) (simp_all add: get_file_def tree_stat_def)
next
  case (Inr names)
  note D = driveD [OF assms]
  show thesis
  proof (cases "names = []")
    case True
    then show thesis using Inr by (intro that [of "Inl (NotAFile path)"]) (auto simp: get_file_def tree_stat_def elim: file_at_NilE)
  next
    case False
    then have split: "butlast names @ [last names] = names" by simp
    show thesis
    proof (rule dir_chain_cases [OF assms, of "butlast names" False], goal_cases)
      case (2 e)
      have "\<not> files s d names c" for c using links_exist [OF _ D(3,4)] 2(2) by blast
      then show thesis using 2(1) Inr False D(2) by (intro that [of "Inl e"]) (simp_all add: get_file_def tree_stat_def)
    next
      case (1 ds)
      let ?p = "last (d # ds)"
      have p: "tree_in (tr_hash T) (blobs s) ?p" by (rule links_tree [OF 1(2)]) simp
      have at: "files s d names c \<longleftrightarrow> (\<exists>e. dir_map ?p (last names) = Some e \<and> file_in (tr_hash T) (blobs s) e c)" for c
        using links_file_at [OF D(4) 1(2), of "[last names]" c] split by (simp add: file_at_single)
      have stat: "tree_stat T path s = (case dir_map ?p (last names) of None \<Rightarrow> (Inl (PathNotFound path), s)
          | Some e \<Rightarrow> if \<not> is_file e then (Inl (NotAFile path), s) else proceed (read_manifest T path (de_cid e) s) (\<lambda>mf s. (Inr \<lparr>fs_entry = e, fs_manifest = mf\<rparr>, s)))"
        using Inr False D(2) 1(1) tree_inD(3) [OF p] by (simp add: tree_stat_def)
      consider e c where "dir_map ?p (last names) = Some e" "file_in (tr_hash T) (blobs s) e c" | e where "dir_map ?p (last names) = Some e" "is_directory e"
        | "dir_map ?p (last names) = None"
        using tree_inD(4) [OF p] kinds by (metis option.exhaust)
      then show thesis
      proof cases
        case (1 e c)
        have "get_file T path s = (Inr c, s)"
          using stat read_manifest_ok [OF D(1) 1(2)] read_blob_ok [OF D(1), of "ct_data c" "Exact (length (ct_data c))"] 1 file_in_kind(1) [OF 1(2)]
          by (cases "ct_data c = []") (auto simp: get_file_def file_in_def Let_def intro!: FileContent.equality FileStat.equality)
        moreover have "Inr c = Inr x \<longleftrightarrow> files s d names x" for x using at 1 file_in_unique [OF D(4)] by auto
        ultimately show thesis using Inr by (intro that [of "Inr c"]) auto
      next
        case (2 e)
        then have "\<not> files s d names c" for c using at file_in_kind by auto
        then show thesis using 2 stat file_in_kind(3) Inr by (intro that [of "Inl (NotAFile path)"]) (auto simp: get_file_def)
      next
        case 3
        then show thesis using at stat Inr by (intro that [of "Inl (PathNotFound path)"]) (auto simp: get_file_def)
      qed
    qed
  qed
qed

text \<open>A write that replaces the directory at the end of a chain.\<close>

lemma rewrite_ok:
  assumes "drive s d" "chained s create names (d # ds)" "good_dir new"
    and plan: "rewrite T (butlast (d # ds) @ [new]) names path (tr_now T i) = Inr (enc, r)"
  obtains es where "rebuild T path (tr_now T i) names (butlast (d # ds) @ [new]) = Inr (enc, es)" "r = dir_to_blob (hd es)"
    "\<forall>x\<in>set (enc @ [r]). x \<noteq> [] \<and> length x \<le> MAX_BLOB"
proof -
  have t: "tr_now T i < 2 ^ 64" by (rule bounds(2) [OF driveD(1) [OF assms(1)]])
  have len: "length (butlast (d # ds) @ [new]) = Suc (length names)" using links_length [OF assms(2)] by (simp del: butlast.simps)
  from plan [unfolded rewrite_rebuild [OF len]] obtain es where es: "rebuild T path (tr_now T i) names (butlast (d # ds) @ [new]) = Inr (enc, es)" "r = dir_to_blob (hd es)"
    by (auto simp: result_simps simp del: butlast.simps)
  have "\<forall>d'\<in>set (butlast (d # ds) @ [new]). good_dir d'"
    using assms(3) links_tree [OF assms(2)] tree_inD(1) in_set_butlastD by (fastforce simp del: butlast.simps)
  note good = rebuild_good [OF t es(1) len this]
  have "es \<noteq> []" using rebuild_length [OF es(1)] len by auto
  then have "good_dir (hd es)" using good by simp
  then have "\<exists>d. good_dir d \<and> x = dir_to_blob d" if "x \<in> set (enc @ [r])" for x using good that es(2) by auto
  then have "\<forall>x\<in>set (enc @ [r]). x \<noteq> [] \<and> length x \<le> MAX_BLOB" using dir_blob_size by metis
  then show thesis by (rule that [OF es])
qed

lemma splice_ok:
  assumes "drive s d" "chained s create names (d # ds)" "good_dir new"
    and plan: "rewrite T (butlast (d # ds) @ [new]) names path (tr_now T i) = Inr (enc, r)"
    and pre: "\<forall>x\<in>set pre. x \<noteq> [] \<and> length x \<le> MAX_BLOB"
    and hashed: "\<forall>x\<in>set ((pre @ enc) @ [r]). cid_strings (tr_hash T) x \<subseteq> S" and fits: "length (pre @ enc) < room s"
    and new: "\<And>B. blobs s \<union> set pre \<subseteq> B \<Longrightarrow> tree_in (tr_hash T) B new" "names = [] \<Longrightarrow> dn_bucket_id new = dn_bucket_id d"
  obtains s' d' where "tree_write T (pre @ enc) r s = (Inr (cid r), s')" "drive s' d'" "blobs s \<union> set pre \<subseteq> blobs s'"
    "files s' d' = spliced names (files s' new) (files s d)" "leaf s' = Some (cid r)" "room s \<le> room s' + Suc (length (pre @ enc))"
    "\<exists>es. chained s' False names (d' # es) \<and> last (d' # es) = new"
proof -
  note D = driveD [OF assms(1)]
  obtain es where es: "rebuild T path (tr_now T i) names (butlast (d # ds) @ [new]) = Inr (enc, es)" "r = dir_to_blob (hd es)"
    "\<forall>x\<in>set (enc @ [r]). x \<noteq> [] \<and> length x \<le> MAX_BLOB"
    by (rule rewrite_ok [OF assms(1-3) plan])
  have "\<forall>x\<in>set ((pre @ enc) @ [r]). x \<noteq> [] \<and> cid_strings (tr_hash T) x \<subseteq> S \<and> length x \<le> MAX_BLOB" using pre es(3) hashed by auto
  then obtain s' where s': "tree_write T (pre @ enc) r s = (Inr (cid r), s')" "ok s'" "blobs s \<union> set ((pre @ enc) @ [r]) \<subseteq> blobs s'"
    "leaf s' = Some (cid r)" "room s \<le> room s' + Suc (length (pre @ enc))"
    by (rule tree_write_ok [OF D(1) _ fits])
  have sub: "blobs s \<subseteq> blobs s'" "blobs s \<union> set pre \<subseteq> blobs s'" "set enc \<subseteq> blobs s'" "r \<in> blobs s'" using s'(3) by auto
  note inj = blobs_inj [OF s'(2)]
  have links: "chained s' False names es" "last es = new" and id: "dn_bucket_id (hd es) = dn_bucket_id (if names = [] then new else hd (d # ds))"
    and at: "files s' (hd es) = spliced names (files s' new) (files s' (hd (d # ds)))"
    using rebuild_spec [OF inj bounds(2) [OF D(1)] bounds(1) [OF D(1)] new(1) [OF sub(2)] links_mono [OF assms(2) sub(1)] es(1) sub(3)] by blast+
  obtain d' es' where d': "es = d' # es'" using links_length [OF links(1)] by (cases es) auto
  have root: "tree_in (tr_hash T) (blobs s') d'" by (rule links_hd [OF links(1) [unfolded d']])
  have "dn_bucket_id d' = tr_bucket_id T" using id new(2) assms(1) by (auto simp: root_in_def d' split: if_splits)
  with root have "drive s' d'" using s'(2,4) sub(4) es(2) by (simp add: root_in_def d')
  moreover have "files s' d = files s d" using file_at_grow [OF inj sub(1) D(3)] by (simp add: fun_eq_iff)
  then have "files s' d' = spliced names (files s' new) (files s d)" using at by (simp add: d')
  ultimately show thesis using links d' by (intro that [OF s'(1) _ sub(2) _ s'(4,5)]) blast+
qed

text \<open>A file put at a path is there afterwards, and every other file is as it was.\<close>

lemma put_plan_Inr:
  assumes "drive s d" "put_plan T path data mime um s = (Inr (st, ws, r), s1)"
  obtains parents name mf ds e p enc where "parse_path path = Inr (parents @ [name])" "for_content (tr_hash T) (tr_bucket_id T) data mime um = Inr mf"
    "chained s True parents (d # ds)" "\<forall>e. dir_map (last (d # ds)) name = Some e \<longrightarrow> \<not> is_directory e"
    "DirectoryEntry_try_new name File (cid (manifest_to_blob mf)) (length data) (tr_now T 0) = Inr e" "upsert_child e (last (d # ds)) = Inr p"
    "rewrite T (butlast (d # ds) @ [p]) parents path (tr_now T 1) = Inr (enc, r)"
    "ws = ((if data = [] then [] else [data]) @ [manifest_to_blob mf]) @ enc" "st = \<lparr>fs_entry = e, fs_manifest = mf\<rparr>" "s1 = s"
proof -
  note D = driveD [OF assms(1)]
  from assms(2) obtain names mf where names: "parse_path path = Inr names" "names \<noteq> []"
    and mf: "for_content (tr_hash T) (tr_bucket_id T) data mime um = Inr mf"
    by (auto simp: put_plan_def Let_def result_simps split: if_splits)
  define name where "name = last names"
  define parents where "parents = butlast names"
  have split: "names = parents @ [name]" using names(2) by (simp add: name_def parents_def)
  obtain ds where ds: "dir_chain T d parents True s = (Inr (d # ds), s)" "chained s True parents (d # ds)"
    using assms(2) D(2) names mf by (rule_tac dir_chain_cases [OF assms(1), of parents True]) (auto simp: put_plan_def parents_def)
  note nth = links_last [OF ds(2)]
  have "tree_in (tr_hash T) (blobs s) (last (d # ds))" by (rule links_tree [OF ds(2)]) simp
  note find = tree_inD(3) [OF this]
  show thesis
    using assms(2) D(2) names(1,2) mf ds unfolding put_plan_def Let_def name_def [symmetric] parents_def [symmetric]
    by (auto simp: result_simps nth find split Let_def simp del: butlast.simps last.simps list_update.simps split: if_splits option.splits intro!: that)
qed

lemma put_file_ok:
  assumes "drive s d" and plan: "put_plan T path data mime um s = (Inr (st, ws, r), s1)"
    and um: "\<forall>m\<in>set um. wf_meta m" and hashed: "\<forall>x\<in>set (ws @ [r]). cid_strings (tr_hash T) x \<subseteq> S" and fits: "length ws < room s"
  obtains names s' d' where "parse_path path = Inr names" "put_file T path data mime um s = (Inr (cid r, st), s')" "drive s' d'"
    "files s' d' = (files s d)(names := (\<lambda>c. c = \<lparr>ct_stat = st, ct_data = data\<rparr>))" "leaf s' = Some (cid r)" "room s \<le> room s' + Suc (length ws)"
proof -
  note D = driveD [OF assms(1)]
  let ?h = "tr_hash T"
  obtain parents name mf ds e p enc where names: "parse_path path = Inr (parents @ [name])" and mf: "for_content ?h (tr_bucket_id T) data mime um = Inr mf"
    and ds: "chained s True parents (d # ds)" "\<forall>e. dir_map (last (d # ds)) name = Some e \<longrightarrow> \<not> is_directory e"
    and e: "DirectoryEntry_try_new name File (cid (manifest_to_blob mf)) (length data) (tr_now T 0) = Inr e" "upsert_child e (last (d # ds)) = Inr p"
    and enc: "rewrite T (butlast (d # ds) @ [p]) parents path (tr_now T 1) = Inr (enc, r)"
    and ws: "ws = ((if data = [] then [] else [data]) @ [manifest_to_blob mf]) @ enc" "st = \<lparr>fs_entry = e, fs_manifest = mf\<rparr>" "s1 = s"
    by (rule put_plan_Inr [OF assms(1,2)])
  let ?p = "last (d # ds)" and ?x = "\<lparr>ct_stat = st, ct_data = data\<rparr>" and ?pre = "(if data = [] then [] else [data]) @ [manifest_to_blob mf]"
  note M = for_content_good [OF mf bounds(1) [OF D(1)] um]
  have P: "tree_in ?h (blobs s) ?p" by (rule links_tree [OF ds(1)]) simp
  have "fm_total_size mf < 2 ^ 64" using M(1) by (simp add: wf_manifest_def)
  then have E: "good_entry e" "is_file e" "de_name e = name" "de_cid e = cid (manifest_to_blob mf)"
    using good_entry_new [OF e(1) _ bounds(2) [OF D(1)]] M(4) by (auto simp: is_file_def)
  note U = upsert_child_good [OF tree_inD(1) [OF P] E(1) e(2), unfolded E(3)]
  have filed: "file_in ?h B e ?x" if "blobs s \<union> set ?pre \<subseteq> B" for B
    using that M E by (auto simp: file_in_def ws(2) split: if_splits)
  have new: "tree_in ?h B p" if "blobs s \<union> set ?pre \<subseteq> B" for B
  proof (rule tree_in_upd [OF tree_in_mono [OF P] U(1,2)])
    show "case Some e of None \<Rightarrow> True | Some e \<Rightarrow> entry_in ?h B e" using filed [OF that] E(2) file_in_kind(3) by (auto simp: entry_in_def)
  qed (use that in auto)
  have "\<forall>x\<in>set ?pre. x \<noteq> [] \<and> length x \<le> MAX_BLOB" using manifest_blob_size [OF M(1)] data_size [OF M(1,2)] M(4) by (auto split: if_splits)
  then obtain s' d' where s': "tree_write T ws r s = (Inr (cid r), s')" "drive s' d'" "blobs s \<union> set ?pre \<subseteq> blobs s'"
    "files s' d' = spliced parents (files s' p) (files s d)" "leaf s' = Some (cid r)" "room s \<le> room s' + Suc (length ws)"
    by (rule splice_ok [OF assms(1) ds(1) U(1) enc _ hashed [unfolded ws(1)] fits [unfolded ws(1)] new, folded ws(1)])
      (use U(3) ds(1) in \<open>auto dest: links_length\<close>)
  have one: "entry_at ?h (blobs s') e r c \<longleftrightarrow> r = [] \<and> c = ?x" for r c
    using filed [OF s'(3)] file_in_unique [OF driveD(4) [OF s'(2)]] file_in_kind E(2) unfolding entry_at_def by metis
  have none: "\<not> files s d (parents @ name # r) c" if "r \<noteq> []" for r c
    using under_entry [OF D(4) ds(1)] ds(2) that file_in_kind unfolding entry_at_def list.sel by metis
  have "blobs s \<subseteq> blobs s'" using s'(3) by simp
  note at = spliced_entry [OF driveD(4) [OF s'(2)] this ds(1) U(2), folded s'(4), unfolded list.sel, folded s'(4)]
  have "files s' d' ns c \<longleftrightarrow> ((files s d)(parents @ [name] := (\<lambda>c. c = ?x))) ns c" for ns c
  proof (cases "take (length (parents @ [name])) ns = parents @ [name]")
    case True
    then obtain t where ns: "ns = parents @ name # t" by (metis append_take_drop_id append.assoc append_Cons append_Nil)
    show ?thesis unfolding at ns using one none [of t c] by (cases "t = []") simp_all
  next
    case False
    then show ?thesis unfolding at by auto
  qed
  then have "files s' d' = (files s d)(parents @ [name] := (\<lambda>c. c = ?x))" by (simp add: fun_eq_iff)
  moreover have "put_file T path data mime um s = (Inr (cid r, st), s')" using plan s'(1) ws(3) by (simp add: put_file_def)
  ultimately show thesis using s'(2,5,6) names by (intro that)
qed

text \<open>A new directory is empty and changes no file.\<close>

lemma mkdir_plan_Inr:
  assumes "drive s d" "mkdir_plan T path s = (Inr (ws, r), s1)"
  obtains parents name ds where "parse_path path = Inr (parents @ [name])" "chained s True parents (d # ds)" "dir_map (last (d # ds)) name = None"
    "rewrite T ((d # ds) @ [DirectoryNode_new_empty (tr_bucket_id T)]) (parents @ [name]) path (tr_now T 0) = Inr (ws, r)" "s1 = s"
proof -
  note D = driveD [OF assms(1)]
  from assms(2) obtain names where names: "parse_path path = Inr names" "names \<noteq> []"
    by (auto simp: mkdir_plan_def Let_def result_simps split: if_splits)
  then obtain parents name where split: "names = parents @ [name]" by (metis append_butlast_last_id)
  obtain ds where ds: "dir_chain T d parents True s = (Inr (d # ds), s)" "chained s True parents (d # ds)"
    using assms(2) D(2) names by (rule_tac dir_chain_cases [OF assms(1), of parents True]) (auto simp: mkdir_plan_def split)
  have "tree_in (tr_hash T) (blobs s) (last (d # ds))" by (rule links_tree [OF ds(2)]) simp
  note find = tree_inD(3) [OF this]
  show thesis using assms(2) D(2) names ds
    by (auto simp: mkdir_plan_def result_simps find split simp del: last.simps split: if_splits intro!: that)
qed

lemma mkdir_ok:
  assumes "drive s d" and plan: "mkdir_plan T path s = (Inr (ws, r), s1)"
    and hashed: "\<forall>x\<in>set (ws @ [r]). cid_strings (tr_hash T) x \<subseteq> S" and fits: "length ws < room s"
  obtains s' d' where "mkdir T path s = (Inr (cid r), s')" "drive s' d'" "files s' d' = files s d" "tree_list T path s' = (Inr [], s')"
    "leaf s' = Some (cid r)" "room s \<le> room s' + Suc (length ws)"
proof -
  note D = driveD [OF assms(1)]
  let ?e = "DirectoryNode_new_empty (tr_bucket_id T)"
  obtain parents name ds where names: "parse_path path = Inr (parents @ [name])" and ds: "chained s True parents (d # ds)" "dir_map (last (d # ds)) name = None"
    and enc: "rewrite T ((d # ds) @ [?e]) (parents @ [name]) path (tr_now T 0) = Inr (ws, r)" and s1: "s1 = s"
    by (rule mkdir_plan_Inr [OF assms(1,2)])
  have b: "tr_bucket_id T < 2 ^ 64" by (rule bounds(1) [OF D(1)])
  have chain: "chained s True (parents @ [name]) (d # ds @ [?e])" using links_snoc [OF ds b] by simp
  obtain s' d' where s': "tree_write T ([] @ ws) r s = (Inr (cid r), s')" "drive s' d'" "blobs s \<union> set [] \<subseteq> blobs s'"
    "files s' d' = spliced (parents @ [name]) (files s' ?e) (files s d)" "leaf s' = Some (cid r)" "room s \<le> room s' + Suc (length ([] @ ws))"
    "\<exists>es. chained s' False (parents @ [name]) (d' # es) \<and> last (d' # es) = ?e"
    by (rule splice_ok [OF assms(1) chain good_dir_empty [OF b], of path 0 ws r "[]"]) (use enc hashed fits tree_in_empty [OF b] in auto)
  have none: "\<not> files s d (parents @ name # r) c" for r c using under_entry [OF D(4) ds(1)] ds(2) by auto
  have "files s' d' ns c \<longleftrightarrow> files s d ns c" for ns c
  proof (cases "take (length (parents @ [name])) ns = parents @ [name]")
    case True
    then obtain t where ns: "ns = parents @ name # t" by (metis append_take_drop_id append.assoc append_Cons append_Nil)
    show ?thesis unfolding s'(4) using none file_at_empty by (simp add: spliced_def ns)
  qed (simp add: s'(4) spliced_def)
  moreover obtain es where es: "chained s' False (parents @ [name]) (d' # es)" "last (d' # es) = ?e" using s'(7) by blast
  have "dir_chain T d' (parents @ [name]) False s' = (Inr (d' # es), s')"
    using extend_links [OF driveD(1) [OF s'(2)], of False "[]" "parents @ [name]" d' es] es(1) by (simp add: dir_chain_def extend_chain_def)
  then have "tree_list T path s' = (Inr [], s')" using names driveD(2) [OF s'(2)] es(2)
    by (simp add: tree_list_def del: last.simps) (simp add: DirectoryNode_new_empty_def)
  ultimately show thesis using s'(1,2,5,6) plan s1 by (intro that [of s' d']) (simp_all add: mkdir_def fun_eq_iff)
qed

text \<open>A deleted file is gone, and every other file is as it was.\<close>

lemma delete_plan_Inr:
  assumes "drive s d" "delete_plan T path ep s = (Inr (ws, r), s1)"
  obtains parents name ds e p kept chain where "parse_path path = Inr (parents @ [name])" "chained s False parents (d # ds)"
    "remove_child name (last (d # ds)) = (Some e, p)" "is_directory e \<longrightarrow> (\<exists>dd. dir_in (tr_hash T) (blobs s) e dd \<and> good_dir dd \<and> dn_children dd = [])"
    "(if ep = Remove then drop_empty parents (length parents) (butlast (d # ds) @ [p]) else (length parents, butlast (d # ds) @ [p])) = (kept, chain)"
    "rewrite T chain (take kept parents) path (tr_now T 0) = Inr (ws, r)" "s1 = s"
proof -
  note D = driveD [OF assms(1)]
  from assms(2) obtain names where names: "parse_path path = Inr names" "names \<noteq> []"
    by (auto simp: delete_plan_def Let_def result_simps split: if_splits)
  then obtain parents name where split: "names = parents @ [name]" by (metis append_butlast_last_id)
  obtain ds where ds: "dir_chain T d parents False s = (Inr (d # ds), s)" "chained s False parents (d # ds)"
    using assms(2) D(2) names by (rule_tac dir_chain_cases [OF assms(1), of parents False]) (auto simp: delete_plan_def split)
  note nth = links_last [OF ds(2)]
  have P: "tree_in (tr_hash T) (blobs s) (last (d # ds))" by (rule links_tree [OF ds(2)]) simp
  obtain x p where rm: "remove_child name (last (d # ds)) = (x, p)" by fastforce
  note R = remove_child_good [OF tree_inD(1) [OF P] rm]
  obtain e where x: "x = Some e" using assms(2) D(2) names ds(1) rm
    by (cases x) (auto simp: delete_plan_def split nth Let_def simp del: last.simps)
  have dir: "\<exists>dd. dir_in (tr_hash T) (blobs s) e dd \<and> good_dir dd \<and> read_dir T path (de_cid e) s = (Inr dd, s)" if "is_directory e"
    using tree_inD(5) [OF P R(2) [unfolded x, symmetric] that] tree_inD(1) read_dir_ok [OF D(1)] by blast
  from dir obtain dd where dd: "is_directory e \<Longrightarrow> dir_in (tr_hash T) (blobs s) e dd \<and> good_dir dd \<and> read_dir T path (de_cid e) s = (Inr dd, s)" by blast
  have run: "delete_plan T path ep s = (if is_directory e \<and> ep = Remove then (Inl (NotAFile path), s)
      else if is_directory e \<and> dn_children dd \<noteq> [] then (Inl (DirectoryNotEmpty path), s)
      else let (kept, chain) = (if ep = Remove then drop_empty parents (length parents) (butlast (d # ds) @ [p]) else (length parents, butlast (d # ds) @ [p]))
        in proceed (rewrite T chain (take kept parents) path (tr_now T 0), s) (\<lambda>(dirs, root_blob) s. (Inr (dirs, root_blob), s)))"
    using D(2) names ds(1) rm dd by (auto simp: delete_plan_def split nth x Let_def simp del: last.simps butlast.simps list_update.simps)
  obtain kept chain where drop: "(if ep = Remove then drop_empty parents (length parents) (butlast (d # ds) @ [p]) else (length parents, butlast (d # ds) @ [p])) = (kept, chain)"
    by fastforce
  have "rewrite T chain (take kept parents) path (tr_now T 0) = Inr (ws, r)" "s1 = s" "is_directory e \<Longrightarrow> dn_children dd = []"
    using assms(2) unfolding run drop Let_def by (auto simp: result_simps split: if_splits)
  then show thesis using names(1) ds(2) rm dd drop by (intro that [of parents name ds e p]) (auto simp: split x simp del: last.simps butlast.simps)
qed

lemma delete_ok:
  assumes "drive s d" and plan: "delete_plan T path ep s = (Inr (ws, r), s1)"
    and hashed: "\<forall>x\<in>set (ws @ [r]). cid_strings (tr_hash T) x \<subseteq> S" and fits: "length ws < room s"
  obtains names s' d' where "parse_path path = Inr names" "delete T path ep s = (Inr (cid r), s')" "drive s' d'"
    "files s' d' = (files s d)(names := (\<lambda>c. False))" "leaf s' = Some (cid r)" "room s \<le> room s' + Suc (length ws)"
proof -
  note D = driveD [OF assms(1)]
  let ?h = "tr_hash T" and ?B = "blobs s"
  obtain parents name ds e p kept chain where names: "parse_path path = Inr (parents @ [name])" and ds: "chained s False parents (d # ds)"
    and rm: "remove_child name (last (d # ds)) = (Some e, p)" "is_directory e \<longrightarrow> (\<exists>dd. dir_in ?h ?B e dd \<and> good_dir dd \<and> dn_children dd = [])"
    and drop: "(if ep = Remove then drop_empty parents (length parents) (butlast (d # ds) @ [p]) else (length parents, butlast (d # ds) @ [p])) = (kept, chain)"
    and enc: "rewrite T chain (take kept parents) path (tr_now T 0) = Inr (ws, r)" and s1: "s1 = s"
    by (rule delete_plan_Inr [OF assms(1,2)])
  have P: "tree_in ?h ?B (last (d # ds))" by (rule links_tree [OF ds(1)]) simp
  note R = remove_child_good [OF tree_inD(1) [OF P] rm(1)]
  have tree: "tree_in ?h ?B p" by (rule tree_in_upd [OF P R(1,3)]) simp
  have all: "take (Suc (length parents)) (d # ds) = d # ds" using links_length [OF ds] by simp
  have id: "parents = [] \<Longrightarrow> dn_bucket_id p = dn_bucket_id d" using R(4) links_length [OF ds] by simp
  obtain new where new: "kept \<le> length parents" "chain = butlast (take (Suc kept) (d # ds)) @ [new]" "tree_in ?h ?B new"
    "spliced (take kept parents) (files s new) (files s d) = spliced parents (files s p) (files s d)" "kept = 0 \<longrightarrow> dn_bucket_id new = dn_bucket_id d"
  proof (cases "ep = Remove")
    case True
    obtain k new where k: "k \<le> length parents" "drop_empty parents (length parents) (butlast (d # ds) @ [p]) = (k, butlast (take (Suc k) (d # ds)) @ [new])"
      "tree_in ?h ?B new" "spliced (take k parents) (files s new) (files s d) = spliced parents (files s p) (files s d)"
      "k = 0 \<longrightarrow> dn_bucket_id new = dn_bucket_id (if length parents = 0 then p else d)"
      using drop_empty_spec [OF D(4) ds le_refl tree] unfolding all list.sel take_all [OF le_refl] by blast
    have "kept = k" "chain = butlast (take (Suc k) (d # ds)) @ [new]" using drop True k(2) by simp_all
    then show thesis using k(1,3,4,5) id by (intro that [of new]) (simp_all split: if_splits)
  next
    case False
    then have "kept = length parents" "chain = butlast (d # ds) @ [p]" using drop by simp_all
    then show thesis using tree id all by (intro that [of p]) (simp_all del: take_Suc_Cons butlast.simps)
  qed
  have cut: "take (Suc kept) (d # ds) = d # take kept ds" by simp
  have chain: "chained s False (take kept parents) (d # take kept ds)" using links_take [OF ds new(1)] by simp
  have fixed: "tree_in ?h B new" if "?B \<subseteq> B" for B by (rule tree_in_mono [OF new(3) that])
  obtain s' d' where s': "tree_write T ([] @ ws) r s = (Inr (cid r), s')" "drive s' d'" "blobs s \<union> set [] \<subseteq> blobs s'"
    "files s' d' = spliced (take kept parents) (files s' new) (files s d)" "leaf s' = Some (cid r)" "room s \<le> room s' + Suc (length ([] @ ws))"
    by (rule splice_ok [OF assms(1) chain tree_inD(1) [OF new(3)], of path 0 ws r "[]"])
      (use enc hashed fits new(1,5) fixed in \<open>auto simp: new(2) cut simp del: take_Suc_Cons butlast.simps\<close>)
  have sub: "blobs s \<subseteq> blobs s'" using s'(3) by simp
  have "files s' new = files s new" using file_at_grow [OF driveD(4) [OF s'(2)] sub new(3)] by (simp add: fun_eq_iff)
  then have at: "files s' d' = spliced parents (files s p) (files s d)" using s'(4) new(4) by simp
  have none: "\<not> files s d (parents @ name # t) c" if t: "t \<noteq> []" for t c
  proof
    assume "files s d (parents @ name # t) c"
    then obtain dd where dd: "dir_in ?h ?B e dd" "good_dir dd" "file_at ?h ?B dd t c"
      using under_entry [OF D(4) ds, of name t c] R(2) t unfolding entry_at_def list.sel by (metis option.inject)
    obtain dd' where "dir_in ?h ?B e dd'" "good_dir dd'" "dn_children dd' = []" using rm(2) file_in_kind(2) [OF dd(1)] by blast
    with dd dir_in_unique [OF D(4)] have "dn_children dd = []" by metis
    then show False using dd(3) by (simp add: file_at_iff)
  qed
  have "files s' d' ns c \<longleftrightarrow> ((files s d)(parents @ [name] := (\<lambda>c. False))) ns c" for ns c
  proof (cases "take (length (parents @ [name])) ns = parents @ [name]")
    case True
    then obtain t where ns: "ns = parents @ name # t" by (metis append_take_drop_id append.assoc append_Cons append_Nil)
    show ?thesis unfolding at spliced_entry [OF D(4) subset_refl ds R(3), unfolded list.sel] ns using none [of t c] by (cases "t = []") simp_all
  next
    case False
    then show ?thesis unfolding at spliced_entry [OF D(4) subset_refl ds R(3), unfolded list.sel] by auto
  qed
  then have "files s' d' = (files s d)(parents @ [name] := (\<lambda>c. False))" by (simp add: fun_eq_iff)
  then show thesis using s'(1,2,5,6) plan s1 names by (intro that [of "parents @ [name]" s' d']) (simp_all add: delete_def)
qed

end

end
