(* ===== verification/Spec2Isabelle.thy ===== *)
theory Spec2Isabelle
  imports System_Safety Bucket_Safety Access_Control Data_Integrity Query_Safety Responder_Safety Node_Safety Replica_Safety Api_Safety
    Fs_Refine
begin

text \<open>
  A verified model of web3-storage: the chain logic that sells, checks and settles storage,
  and the provider node that stores the data, answers challenges and signs commitments.

  \<^bold>\<open>The program.\<close> Clients create buckets on chain and buy storage in them from providers that
  have registered with a stake (\<open>crates/pallets/storage-provider\<close>). A provider signs quotes
  off chain (\<open>crates/providers/negotiation\<close>, \<open>provider-node/src/negotiate.rs\<close>); redeeming a
  quote makes an agreement whose price is held in escrow. Clients upload chunks to the
  provider's node over HTTP (\<open>provider-node/src/api.rs\<close>), which checks the role of the caller
  against the bucket's members on chain (\<open>crates/providers/auth\<close>), stores the chunks as Merkle
  trees (\<open>crates/providers/storage\<close>) and signs commitments to the Merkle mountain range over
  the trees' roots. Signed commitments are recorded on chain as checkpoints, and anyone may
  challenge a provider to show a chunk it has committed to. The node's responder
  (\<open>crates/providers/challenge\<close>) answers, or the whole stake is slashed. Replicas copy a bucket
  from other providers (\<open>crates/providers/replica\<close>) and are paid per confirmed copy. The node
  learns of all this by following finalized blocks (\<open>crates/providers/coordinator\<close>).

  \<^bold>\<open>Shared layer.\<close>
  \<^item> \<open>Prelude\<close>: results as sums (\<open>ensure\<close>, \<open>attempt\<close>, \<open>ok_or\<close>, with the simp collection
    \<open>result_simps\<close>), saturating and checked arithmetic, finite maps.
  \<^item> \<open>Primitives\<close>, \<open>Merkle\<close>, \<open>Mmr\<close>: \<open>crates/primitives/storage/src\<close>. Roles, commitments,
    quotes and their byte encodings; chunk trees with proofs; mountain range leaves and proofs.
    The hash \<open>blake2_256\<close> and the range library are parameters.
  \<^item> \<open>Currency\<close>: the locale \<open>fungible\<close> states what the code relies on from the currency and the
    storage deposits, and is interpreted on a ledger.

  \<^bold>\<open>The pallet\<close> (\<open>lib.rs\<close> and \<open>impls/*.rs\<close>). \<open>Pallet_Types\<close> has the configuration, the storage
  items as the record \<open>pstate\<close>, events and errors; \<open>Funds\<close> the money movements and the locale
  \<open>pallet_env\<close>; \<open>Signatures\<close>, \<open>Providers\<close>, \<open>Buckets\<close>, \<open>Checkpoints\<close>, \<open>Agreements\<close>, \<open>Challenges\<close>
  and \<open>Replicas\<close> one definition per call and helper, with the source's names and order of
  checks; \<open>Try_State\<close> the try-state hook; \<open>Queries\<close> the runtime interface. \<open>Dispatch\<close> closes
  them into a step relation over calls, passing blocks and dying accounts, with a genesis build:
  \<open>reachable\<close> is every state the chain can be in.
  \<^item> \<open>Frames\<close>, \<open>Invariant\<close>, \<open>Agreements_Inv\<close>, \<open>Challenges_Inv\<close>: the invariant of the pallet
    and that every call keeps it. \<open>Access_Control\<close>: an abstract access control specification
    that every call refines.
  \<^item> \<open>System_Safety\<close>, \<open>Quote_Safety\<close>, \<open>Agreement_Safety\<close>, \<open>Challenge_Safety\<close>, \<open>Bucket_Safety\<close>,
    \<open>Query_Safety\<close>, \<open>Data_Integrity\<close>: conservation of money, the life of quotes, agreements and
    challenges, quorum and freezing, the agreement of queries with calls, soundness and
    completeness of chunk proofs. \<open>Scenario\<close> is a run from genesis that the witnesses use.
  \<^item> \<open>Announcements\<close>: every call that changes what the node reads of the chain emits an event
    that says so.

  \<^bold>\<open>The provider node.\<close>
  \<^item> \<open>Provider_Store\<close>, \<open>Store_Safety\<close>: node store and buckets with commit, pruning and proofs.
    The locale \<open>storage_backend\<close> is what the parts that share the store rely on.
  \<^item> \<open>Challenge_Responder\<close>, \<open>Responder_Safety\<close>: the responder and its chain client; an honest
    provider loses no stake.
  \<^item> \<open>Provider_Auth\<close>, \<open>Auth_Safety\<close>: signed headers, roles, and the membership cache as atomic
    actions of concurrent requests; the interleavings are an inductive step relation with
    invariant \<open>auth_inv\<close>.
  \<^item> \<open>Provider_Coordinator\<close>, \<open>Negotiation\<close>, \<open>Node_Safety\<close>: following blocks, the signing guards
    and the quotes; what the node knows is what the chain has, and its quotes are redeemable.
  \<^item> \<open>Replica_Sync\<close>, \<open>Replica_Safety\<close>: downloads, duties, confirmation and the chain client that
    decodes storage values dynamically.
  \<^item> \<open>Provider_Api\<close>, \<open>Api_Safety\<close>: every HTTP handler over the parts above; who can change the
    store, that signed commitments stay provable and verify on chain, and that reads return
    the committed bytes.

  \<^bold>\<open>The client\<close> (\<open>clients/storage/src\<close>).
  \<^item> \<open>Storage_Client\<close>: the client of a storage user over an arbitrary network, and the node on
    the other end (\<open>provider_http\<close>).
  \<^item> \<open>Client_Safety\<close>, \<open>Upload_Safety\<close>: data that is uploaded and committed comes back byte for
    byte, ranges are read exactly, and what the client does not check.

  \<^bold>\<open>Bounds and fuel.\<close> Machine integers are naturals with wrap-around, saturation and overflow
  checks written out at their width; the theorems that need totals below a width say so
  (\<open>within_limits\<close>, at most \<open>2 ^ 16\<close> challenges per deadline). Tree walks are bounded by
  \<open>MAX_TREE_WALK_VISITS\<close> and \<open>MAX_TREE_DEPTH\<close>, as in the code, and the theorems on committed data
  show the bounds suffice. Downloads of a replica may not end when a source misbehaves: they
  are a \<open>partial_function\<close>, and their end is proved for sources that serve a finite tree. Loops
  over channels are modelled one round at a time, for any sequence of inputs.

  \<^bold>\<open>Assumptions.\<close> Statements about hashes hold unless two of the strings the code hashed, which
  the statement names, collide. \<open>range_law\<close> is the documented behaviour of the range library on
  one list of leaves; \<open>hex_law\<close> and \<open>signs_for\<close> say that hex coding can be read back and that
  signatures of a key pair verify; the order in which storage maps are iterated is a parameter.
  Each is satisfied by a concrete instance in a witness.

  \<^bold>\<open>Not modelled.\<close> Weights, benchmarks and generated bindings; runtime configuration; the
  decoding of EVM calls in the precompile; the record encoding, format check and failures of
  the database engine; connection management, timers, command line and logging of the node,
  which deliver inputs the model quantifies over; the parts of the client SDK that submit
  transactions, collect checkpoints and discover providers; storage formats, tools and user
  interfaces.
\<close>

end
